(* ===== verification/LP_Prelude.thy ===== *)
theory LP_Prelude
  imports Main "HOL-Library.AList" "HOL-Library.Char_ord" "HOL-Library.List_Lexorder"
    "HOL-Library.Sublist" "HOL-Library.Multiset"
begin

text \<open>
  The vocabulary shared by every component of the development.
  \<^item> results: a JavaScript \<^verbatim>\<open>throw\<close> is the left summand of a sum, \<open>bind_res\<close> sequences calls;
  \<^item> \<open>jsmap\<close>: the built-in \<^verbatim>\<open>Map\<close>, an association list in insertion order
    (\<^verbatim>\<open>set\<close> on a present key keeps its position, on a new key appends), with the interface
    locale \<open>ordered_map\<close> that the broker's lemmas rest on;
  \<^item> strings: \<open>string\<close> is a list of code units restricted to Latin-1, so that
    \<^verbatim>\<open>s.length\<close> and \<^verbatim>\<open>[...s].length\<close> coincide; \<^verbatim>\<open>trim\<close>, \<^verbatim>\<open>split\<close>, \<^verbatim>\<open>toLowerCase\<close>,
    \<^verbatim>\<open>includes\<close> and the quoting of \<^verbatim>\<open>JSON.stringify\<close> are defined on it;
  \<^item> \<open>stable_sort\<close>: \<^verbatim>\<open>Array.prototype.sort\<close> with a comparator, which is stable.
  Timestamps are the millisecond instants that \<^verbatim>\<open>Date.parse\<close> gives; \<^verbatim>\<open>toISOString\<close> is its
  inverse and therefore the identity of the model.
\<close>

named_theorems lp_defs \<open>definitions of the model that automation may unfold\<close>
named_theorems key_simps \<open>injectivity of the composite map keys\<close>

section \<open>Definitions\<close>

subsection \<open>Results\<close>

type_synonym ('e, 'a) res = "'e + 'a"

abbreviation Err :: "'e \<Rightarrow> ('e, 'a) res" where "Err \<equiv> Inl"
abbreviation Ok :: "'a \<Rightarrow> ('e, 'a) res" where "Ok \<equiv> Inr"

definition bind_res :: "('e, 'a) res \<Rightarrow> ('a \<Rightarrow> ('e, 'b) res) \<Rightarrow> ('e, 'b) res" where
  "bind_res r f = (case r of Inl e \<Rightarrow> Inl e | Inr a \<Rightarrow> f a)"

definition is_ok :: "('e, 'a) res \<Rightarrow> bool" where
  "is_ok r = (case r of Inl _ \<Rightarrow> False | Inr _ \<Rightarrow> True)"

text \<open>\<^verbatim>\<open>xs.map(f)\<close> where \<open>f\<close> may throw: the first failing element ends the traversal.\<close>

fun map_res :: "('a \<Rightarrow> ('e, 'b) res) \<Rightarrow> 'a list \<Rightarrow> ('e, 'b list) res" where
  "map_res f [] = Inr []"
| "map_res f (x # xs) =
     (case f x of Inl e \<Rightarrow> Inl e
      | Inr y \<Rightarrow> (case map_res f xs of Inl e \<Rightarrow> Inl e | Inr ys \<Rightarrow> Inr (y # ys)))"

subsection \<open>Insertion-ordered maps\<close>

type_synonym ('k, 'v) jsmap = "('k \<times> 'v) list"

abbreviation jget :: "('k, 'v) jsmap \<Rightarrow> 'k \<Rightarrow> 'v option" where
  "jget m k \<equiv> map_of m k"
abbreviation jset :: "'k \<Rightarrow> 'v \<Rightarrow> ('k, 'v) jsmap \<Rightarrow> ('k, 'v) jsmap" where
  "jset k v m \<equiv> AList.update k v m"
abbreviation jdel :: "'k \<Rightarrow> ('k, 'v) jsmap \<Rightarrow> ('k, 'v) jsmap" where
  "jdel k m \<equiv> AList.delete k m"
abbreviation jvalues :: "('k, 'v) jsmap \<Rightarrow> 'v list" where
  "jvalues m \<equiv> map snd m"
abbreviation jkeys :: "('k, 'v) jsmap \<Rightarrow> 'k list" where
  "jkeys m \<equiv> map fst m"
abbreviation jwf :: "('k, 'v) jsmap \<Rightarrow> bool" where
  "jwf m \<equiv> distinct (map fst m)"

definition jhas :: "('k, 'v) jsmap \<Rightarrow> 'k \<Rightarrow> bool" where
  "jhas m k \<longleftrightarrow> map_of m k \<noteq> None"

text \<open>\<^verbatim>\<open>new Set(xs)\<close> spread back into an array: first occurrences, in order.\<close>

fun js_set :: "'a list \<Rightarrow> 'a list" where
  "js_set [] = []"
| "js_set (x # xs) = x # js_set (filter (\<lambda>y. y \<noteq> x) xs)"

subsection \<open>Strings\<close>

definition js_space :: "char \<Rightarrow> bool" where
  "js_space c \<longleftrightarrow> of_char c \<in> {9, 10, 11, 12, 13, 32, 160 :: nat}"

definition js_trim :: "string \<Rightarrow> string" where
  "js_trim s = rev (dropWhile js_space (rev (dropWhile js_space s)))"

text \<open>\<^verbatim>\<open>s.split(sep)\<close> for a one-character separator: always at least one piece.\<close>

fun js_split :: "char \<Rightarrow> string \<Rightarrow> string list" where
  "js_split d [] = [[]]"
| "js_split d (c # cs) =
     (if c = d then [] # js_split d cs
      else (case js_split d cs of [] \<Rightarrow> [[c]] | p # ps \<Rightarrow> (c # p) # ps))"

fun js_join :: "char \<Rightarrow> string list \<Rightarrow> string" where
  "js_join d [] = []"
| "js_join d [p] = p"
| "js_join d (p # q # ps) = p @ d # js_join d (q # ps)"

fun js_includes :: "string \<Rightarrow> string \<Rightarrow> bool" where
  "js_includes [] pat = (pat = [])"
| "js_includes (c # cs) pat = (prefix pat (c # cs) \<or> js_includes cs pat)"

definition char_in :: "nat \<Rightarrow> nat \<Rightarrow> char \<Rightarrow> bool" where
  "char_in lo hi c \<longleftrightarrow> lo \<le> of_char c \<and> of_char c \<le> hi"

definition to_lower_char :: "char \<Rightarrow> char" where
  "to_lower_char c =
     (if char_in 65 90 c \<or> (char_in 192 222 c \<and> c \<noteq> char_of (215 :: nat))
      then char_of (of_char c + 32 :: nat) else c)"

definition js_lower :: "string \<Rightarrow> string" where
  "js_lower s = map to_lower_char s"

definition is_digit :: "char \<Rightarrow> bool" where "is_digit c = char_in 48 57 c"
definition is_lower :: "char \<Rightarrow> bool" where "is_lower c = char_in 97 122 c"
definition is_upper :: "char \<Rightarrow> bool" where "is_upper c = char_in 65 90 c"
definition is_hex :: "char \<Rightarrow> bool" where
  "is_hex c \<longleftrightarrow> is_digit c \<or> char_in 97 102 c \<or> char_in 65 70 c"

definition hex_code :: "nat \<Rightarrow> nat" where
  "hex_code n = (if n < 10 then 48 + n else 87 + n)"

text \<open>
  The escape \<^verbatim>\<open>JSON.stringify\<close> writes for one code unit of a string, as code units:
  quote, backslash, the five short escapes, \<^verbatim>\<open>\u00XX\<close> for the other control characters.
\<close>

definition short_escape :: "nat \<Rightarrow> nat option" where
  "short_escape =
     map_of [(34, 34), (92, 92), (8, 98), (9, 116), (10, 110), (12, 102), (13, 114)]"

definition json_escape_code :: "nat \<Rightarrow> nat list" where
  "json_escape_code n =
     (case short_escape n of
        Some e \<Rightarrow> [92, e]
      | None \<Rightarrow>
          if n < 32 then [92, 117, 48, 48, hex_code (n div 16), hex_code (n mod 16)] else [n])"

definition json_escape_char :: "char \<Rightarrow> string" where
  "json_escape_char c = map char_of (json_escape_code (of_char c))"

definition dquote :: char where "dquote = char_of (34 :: nat)"
definition nul :: char where "nul = char_of (0 :: nat)"

definition json_string :: "string \<Rightarrow> string" where
  "json_string s = dquote # concat (map json_escape_char s) @ [dquote]"

definition json_string_array :: "string list \<Rightarrow> string" where
  "json_string_array ss = CHR ''['' # js_join (CHR '','') (map json_string ss) @ [CHR '']'']"

text \<open>\<^verbatim>\<open>String(n)\<close> of a non-negative integer.\<close>

fun show_nat :: "nat \<Rightarrow> string" where
  "show_nat n = (if n < 10 then [char_of (48 + n)] else show_nat (n div 10) @ [char_of (48 + n mod 10)])"

declare show_nat.simps [simp del]

subsection \<open>Stable sorting by a comparator\<close>

text \<open>\<open>le x y\<close> stands for \<^verbatim>\<open>compare(x, y) <= 0\<close>.\<close>

fun insert_sorted :: "('a \<Rightarrow> 'a \<Rightarrow> bool) \<Rightarrow> 'a \<Rightarrow> 'a list \<Rightarrow> 'a list" where
  "insert_sorted le x [] = [x]"
| "insert_sorted le x (y # ys) = (if le x y then x # y # ys else y # insert_sorted le x ys)"

fun stable_sort :: "('a \<Rightarrow> 'a \<Rightarrow> bool) \<Rightarrow> 'a list \<Rightarrow> 'a list" where
  "stable_sort le [] = []"
| "stable_sort le (x # xs) = insert_sorted le x (stable_sort le xs)"

definition sorted_by :: "('a \<Rightarrow> 'a \<Rightarrow> bool) \<Rightarrow> 'a list \<Rightarrow> bool" where
  "sorted_by le xs = sorted_wrt le xs"

section \<open>Lemmas\<close>

subsection \<open>Results\<close>

lemma bind_res_simps [simp]:
  "bind_res (Inl e) f = Inl e" "bind_res (Inr a) f = f a"
  by (simp_all add: bind_res_def)

lemma bind_res_Inr_iff: "bind_res r f = Inr b \<longleftrightarrow> (\<exists>a. r = Inr a \<and> f a = Inr b)"
  by (cases r) simp_all

lemma is_ok_simps [simp]: "is_ok (Inr a)" "\<not> is_ok (Inl e)"
  by (simp_all add: is_ok_def)

lemma map_res_Inr_length: "map_res f xs = Inr ys \<Longrightarrow> length ys = length xs"
  by (induction xs arbitrary: ys) (auto split: sum.splits)

lemma map_res_Inr_iff: "map_res f xs = Inr ys \<longleftrightarrow> list_all2 (\<lambda>x y. f x = Inr y) xs ys"
proof (induction xs arbitrary: ys)
  case Nil
  then show ?case by auto
next
  case (Cons x xs)
  show ?case
  proof (cases ys)
    case Nil
    then show ?thesis by (auto split: sum.splits)
  next
    case (Cons y ys')
    then show ?thesis using Cons.IH [of ys'] by (auto split: sum.splits)
  qed
qed

lemma map_res_Inr_set:
  assumes "map_res f xs = Inr ys" "y \<in> set ys"
  shows "\<exists>x \<in> set xs. f x = Inr y"
proof -
  obtain i where "i < length ys" "ys ! i = y" using assms(2) by (auto simp: in_set_conv_nth)
  with assms(1) have "i < length xs" "f (xs ! i) = Inr y"
    by (auto simp: map_res_Inr_iff list_all2_conv_all_nth)
  then show ?thesis by (meson nth_mem)
qed

subsection \<open>Maps\<close>

lemma jhas_simps [simp]:
  "jhas [] k = False"
  "jhas (jset k v m) k' \<longleftrightarrow> k' = k \<or> jhas m k'"
  "jhas (jdel k m) k' \<longleftrightarrow> k' \<noteq> k \<and> jhas m k'"
  by (auto simp: jhas_def update_conv' delete_conv')

lemma jhas_iff_key: "jhas m k \<longleftrightarrow> k \<in> fst ` set m"
  by (simp add: jhas_def map_of_eq_None_iff)

lemma jget_jset [simp]: "jget (jset k v m) k' = (if k' = k then Some v else jget m k')"
  by (simp add: update_conv')

lemma jget_jdel [simp]: "jget (jdel k m) k' = (if k' = k then None else jget m k')"
  by (simp add: delete_conv')

lemma jwf_jset [simp, intro]: "jwf m \<Longrightarrow> jwf (jset k v m)"
  by (rule distinct_update)

lemma jwf_jdel [simp, intro]: "jwf m \<Longrightarrow> jwf (jdel k m)"
  by (rule distinct_delete)

lemma jset_new: "\<not> jhas m k \<Longrightarrow> jset k v m = m @ [(k, v)]"
  by (induction m) (auto simp: jhas_def split: if_splits)

lemma set_jset: "jwf m \<Longrightarrow> set (jset k v m) = {(k, v)} \<union> {p \<in> set m. fst p \<noteq> k}"
  by (induction m) (auto simp: image_iff)

lemma set_jdel: "set (jdel k m) = {p \<in> set m. fst p \<noteq> k}"
  by (induction m) auto

lemma jwf_get_iff: "jwf m \<Longrightarrow> jget m k = Some v \<longleftrightarrow> (k, v) \<in> set m"
  by simp

lemma jvalues_get: "jwf m \<Longrightarrow> v \<in> set (jvalues m) \<longleftrightarrow> (\<exists>k. jget m k = Some v)"
  by force

text \<open>
  The contract of the built-in map that the clients rely on: a read after a write, distinct
  keys, and the iteration order, in which a new key comes last and a rewritten key stays.
\<close>

locale ordered_map =
  fixes get :: "'m \<Rightarrow> 'k \<Rightarrow> 'v option"
    and put :: "'k \<Rightarrow> 'v \<Rightarrow> 'm \<Rightarrow> 'm"
    and del :: "'k \<Rightarrow> 'm \<Rightarrow> 'm"
    and entries :: "'m \<Rightarrow> ('k \<times> 'v) list"
    and ok :: "'m \<Rightarrow> bool"
  assumes get_put: "ok m \<Longrightarrow> get (put k v m) k' = (if k' = k then Some v else get m k')"
    and get_del: "ok m \<Longrightarrow> get (del k m) k' = (if k' = k then None else get m k')"
    and entries_get: "ok m \<Longrightarrow> (k, v) \<in> set (entries m) \<longleftrightarrow> get m k = Some v"
    and put_new: "ok m \<Longrightarrow> get m k = None \<Longrightarrow> entries (put k v m) = entries m @ [(k, v)]"
    and put_keys: "ok m \<Longrightarrow> get m k \<noteq> None \<Longrightarrow> map fst (entries (put k v m)) = map fst (entries m)"
    and del_entries: "ok m \<Longrightarrow> entries (del k m) = filter (\<lambda>p. fst p \<noteq> k) (entries m)"
    and ok_put: "ok m \<Longrightarrow> ok (put k v m)"
    and ok_del: "ok m \<Longrightarrow> ok (del k m)"
begin

lemma put_absorb_filter:
  assumes "ok m" "get m k = None" "\<not> P (k, v)"
  shows "filter P (entries (put k v m)) = filter P (entries m)"
  using assms by (simp add: put_new)

lemma put_snoc_filter:
  assumes "ok m" "get m k = None" "P (k, v)"
  shows "filter P (entries (put k v m)) = filter P (entries m) @ [(k, v)]"
  using assms by (simp add: put_new)

lemma del_absorb_filter:
  assumes "ok m" "\<And>v. get m k = Some v \<Longrightarrow> \<not> P (k, v)"
  shows "filter P (entries (del k m)) = filter P (entries m)"
proof -
  have "P p \<Longrightarrow> p \<in> set (entries m) \<Longrightarrow> fst p \<noteq> k" for p
    using assms entries_get [of m "fst p" "snd p"] by auto
  then show ?thesis
    by (simp add: del_entries [OF assms(1)]) (rule filter_cong, auto)
qed

lemma put_del_get: "ok m \<Longrightarrow> get (del k (put k v m)) = get (del k m)"
  by (rule ext) (simp add: get_del get_put ok_put)

end

lemma jset_keys_present: "jhas m k \<Longrightarrow> jkeys (jset k v m) = jkeys m"
  by (induction m) (auto simp: jhas_def split: if_splits)

lemma jdel_filter: "jdel k m = filter (\<lambda>p. fst p \<noteq> k) m"
  by (induction m) auto

interpretation jm: ordered_map jget jset jdel "\<lambda>m. m" jwf
proof (unfold_locales, goal_cases)
  case 5
  then show ?case by (simp add: jset_keys_present jhas_def)
qed (auto simp: jset_new jhas_def jdel_filter simp flip: jdel_filter)

lemma js_set_set [simp]: "set (js_set xs) = set xs"
  by (induction xs rule: js_set.induct) auto

lemma js_set_distinct [simp]: "distinct (js_set xs)"
  by (induction xs rule: js_set.induct) auto

lemma js_set_id: "distinct xs \<Longrightarrow> js_set xs = xs"
proof (induction xs rule: js_set.induct)
  case (2 x xs)
  then have "filter (\<lambda>y. y \<noteq> x) xs = xs" by (auto simp: filter_id_conv)
  with 2 show ?case by simp
qed simp

lemma js_set_length: "length (js_set xs) \<le> length xs"
proof (induction xs rule: js_set.induct)
  case (2 x xs)
  have "length (filter (\<lambda>y. y \<noteq> x) xs) \<le> length xs" by simp
  then have "length (js_set (filter (\<lambda>y. y \<noteq> x) xs)) \<le> length xs"
    using 2 by (rule le_trans [rotated])
  then show ?case by simp
qed simp

subsection \<open>Strings\<close>

lemma js_trim_infix: "\<exists>p q. s = p @ js_trim s @ q"
proof -
  have a: "s = takeWhile js_space s @ dropWhile js_space s" by simp
  let ?t = "dropWhile js_space s"
  have b: "?t = rev (dropWhile js_space (rev ?t)) @ rev (takeWhile js_space (rev ?t))"
    by (metis rev_append rev_rev_ident takeWhile_dropWhile_id)
  show ?thesis using a b by (metis js_trim_def)
qed

lemma js_trim_length: "length (js_trim s) \<le> length s"
proof -
  obtain p q where "s = p @ js_trim s @ q" using js_trim_infix by blast
  then have "length s = length p + length (js_trim s) + length q"
    by (metis add.assoc length_append)
  then show ?thesis by simp
qed

lemma js_split_nonempty [simp]: "js_split d s \<noteq> []"
  by (induction s) (auto split: list.splits)

lemma js_split_no_sep: "p \<in> set (js_split d s) \<Longrightarrow> d \<notin> set p"
proof (induction s arbitrary: p)
  case (Cons c cs)
  show ?case
  proof (cases "js_split d cs")
    case (Cons q qs)
    with Cons.IH Cons.prems show ?thesis by (auto split: if_splits)
  qed simp
qed simp

lemma js_join_split: "js_join d (js_split d s) = s"
proof (induction s)
  case (Cons c cs)
  show ?case
  proof (cases "js_split d cs")
    case (Cons p ps)
    with Cons.IH show ?thesis by (cases ps) auto
  qed simp
qed simp

lemma js_split_id: "d \<notin> set s \<Longrightarrow> js_split d s = [s]"
  by (induction s) auto

lemma js_split_append_sep: "d \<notin> set p \<Longrightarrow> js_split d (p @ d # s) = p # js_split d s"
  by (induction p) auto

lemma js_includes_iff: "js_includes s pat \<longleftrightarrow> sublist pat s"
proof (induction s)
  case (Cons c cs)
  then show ?case by (auto simp: sublist_Cons_right)
qed simp

lemma js_lower_append [simp]: "js_lower (a @ b) = js_lower a @ js_lower b"
  by (simp add: js_lower_def)

lemma js_lower_length [simp]: "length (js_lower s) = length s"
  by (simp add: js_lower_def)

subsection \<open>Quoting is a prefix code\<close>

lemma of_char_char_of_small: "n < 256 \<Longrightarrow> of_char (char_of n :: char) = (n :: nat)"
  by simp

lemma hex_code_inj: "m < 16 \<Longrightarrow> n < 16 \<Longrightarrow> hex_code m = hex_code n \<Longrightarrow> m = n"
  by (auto simp: hex_code_def split: if_splits)

lemma hex_code_range: "n < 16 \<Longrightarrow> 48 \<le> hex_code n \<and> hex_code n < 103"
  by (auto simp: hex_code_def)

lemma short_escape_range: "short_escape n = Some e \<Longrightarrow> 33 < e \<and> e < 117"
  by (simp add: short_escape_def split: if_splits)

lemma short_escape_inj: "short_escape m = Some e \<Longrightarrow> short_escape n = Some e \<Longrightarrow> m = n"
  by (simp add: short_escape_def split: if_splits)

lemma short_escape_None: "short_escape n = None \<Longrightarrow> n \<noteq> 34 \<and> n \<noteq> 92"
  by (simp add: short_escape_def split: if_splits)

lemma json_escape_code_range:
  assumes "n < 256" "k \<in> set (json_escape_code n)"
  shows "0 < k \<and> k < 256"
proof -
  have "n div 16 < 16" using assms(1) by simp
  then show ?thesis
    using assms hex_code_range [of "n div 16"] hex_code_range [of "n mod 16"]
    by (auto simp: json_escape_code_def dest: short_escape_range split: option.splits if_splits)
qed

lemma json_escape_code_hd: "json_escape_code n \<noteq> [] \<and> hd (json_escape_code n) \<noteq> 34"
  by (simp add: json_escape_code_def short_escape_None split: option.split)

lemma hex_pair_inj:
  assumes "m < 32" "n < 32" "hex_code (m div 16) = hex_code (n div 16)"
    "hex_code (m mod 16) = hex_code (n mod 16)"
  shows "m = n"
proof -
  have "m div 16 = n div 16" "m mod 16 = n mod 16"
    using assms hex_code_inj [of "m div 16" "n div 16"] hex_code_inj [of "m mod 16" "n mod 16"] by auto
  then show ?thesis by (metis div_mult_mod_eq)
qed

lemma json_escape_code_prefix:
  "json_escape_code m @ r = json_escape_code n @ r' \<Longrightarrow> m = n \<and> r = r'"
  by (auto simp: json_escape_code_def dest: short_escape_range short_escape_inj short_escape_None
      intro: hex_pair_inj split: option.splits if_splits)

lemma of_char_json_escape: "map of_char (json_escape_char c) = json_escape_code (of_char c)"
proof -
  have "\<forall>k \<in> set (json_escape_code (of_char c)). k < 256"
    using json_escape_code_range [of "of_char c"] by auto
  then show ?thesis by (simp add: json_escape_char_def o_def map_idI)
qed

lemma map_of_char_eq_iff: "map (of_char :: char \<Rightarrow> nat) xs = map of_char ys \<longleftrightarrow> xs = ys"
  by (rule inj_map_eq_map) (simp add: inj_on_def)

lemma json_escape_nonempty: "json_escape_char c \<noteq> []"
  using json_escape_code_hd by (simp add: json_escape_char_def)

lemma json_escape_hd: "hd (json_escape_char c) \<noteq> dquote"
proof
  assume "hd (json_escape_char c) = dquote"
  then have "hd (map of_char (json_escape_char c)) = (34 :: nat)"
    by (simp add: hd_map json_escape_nonempty dquote_def)
  then show False using json_escape_code_hd by (simp add: of_char_json_escape)
qed

lemma json_escape_no_nul: "nul \<notin> set (json_escape_char c)"
proof
  assume "nul \<in> set (json_escape_char c)"
  then have "(0 :: nat) \<in> set (map of_char (json_escape_char c))"
    by (force simp: nul_def)
  then show False using json_escape_code_range [of "of_char c" 0] by (simp only: of_char_json_escape) simp
qed

lemma json_escape_prefix:
  assumes "json_escape_char c @ r = json_escape_char d @ r'"
  shows "c = d \<and> r = r'"
proof -
  have "json_escape_code (of_char c) @ map of_char r = json_escape_code (of_char d) @ map of_char r'"
    using arg_cong [OF assms, of "map (of_char :: char \<Rightarrow> nat)"] by (simp only: map_append of_char_json_escape)
  then have "of_char c = (of_char d :: nat)" "map of_char r = map (of_char :: char \<Rightarrow> nat) r'"
    using json_escape_code_prefix by blast+
  then show ?thesis using map_of_char_eq_iff by simp
qed

lemma json_body_prefix:
  "concat (map json_escape_char s) @ dquote # x = concat (map json_escape_char t) @ dquote # y
    \<Longrightarrow> s = t \<and> x = y"
proof (induction s arbitrary: t)
  case Nil
  then show ?case
    by (cases t) (auto dest: arg_cong [where f = hd] simp: hd_append json_escape_nonempty
        json_escape_hd [symmetric])
next
  case (Cons c s)
  show ?case
  proof (cases t)
    case Nil
    with Cons.prems have "hd (json_escape_char c) = dquote"
      by (auto dest: arg_cong [where f = hd] simp: hd_append json_escape_nonempty)
    then show ?thesis by (simp add: json_escape_hd)
  next
    case (Cons d t')
    with Cons.prems have "c = d \<and> concat (map json_escape_char s) @ dquote # x =
        concat (map json_escape_char t') @ dquote # y"
      by (intro json_escape_prefix) simp
    with Cons.IH Cons show ?thesis by auto
  qed
qed

lemma json_string_prefix: "json_string s @ x = json_string t @ y \<Longrightarrow> s = t \<and> x = y"
  using json_body_prefix [of s x t y] by (simp add: json_string_def)

lemma json_string_no_nul: "nul \<notin> set (json_string s)"
  using json_escape_no_nul by (auto simp: json_string_def dquote_def nul_def)

subsection \<open>Sorting\<close>

lemma mset_insert_sorted [simp]: "mset (insert_sorted le x xs) = add_mset x (mset xs)"
  by (induction xs) auto

lemma mset_stable_sort [simp]: "mset (stable_sort le xs) = mset xs"
  by (induction xs) auto

lemma set_stable_sort [simp]: "set (stable_sort le xs) = set xs"
  by (metis mset_stable_sort set_mset_mset)

lemma length_stable_sort [simp]: "length (stable_sort le xs) = length xs"
  by (metis mset_stable_sort size_mset)

lemma stable_sort_Nil_iff [simp]: "stable_sort le xs = [] \<longleftrightarrow> xs = []"
  by (metis length_0_conv length_stable_sort)

text \<open>
  What \<^verbatim>\<open>sort\<close> promises for a consistent comparator (a total preorder): an ascending
  permutation.  The clients need the head of the result: it is a least element.
\<close>

locale consistent_comparator =
  fixes le :: "'a \<Rightarrow> 'a \<Rightarrow> bool"
  assumes total: "le x y \<or> le y x"
    and trans: "le x y \<Longrightarrow> le y z \<Longrightarrow> le x z"
begin

lemma refl: "le x x"
  using total [of x x] by simp

lemma insert_keeps: "sorted_by le xs \<Longrightarrow> sorted_by le (insert_sorted le x xs)"
proof (induction xs)
  case (Cons y ys)
  have m: "set (insert_sorted le x ys) = insert x (set ys)"
    by (metis mset_insert_sorted set_mset_add_mset_insert set_mset_mset)
  show ?case using Cons total [of x y] trans by (auto simp: sorted_by_def m)
qed (simp add: sorted_by_def)

lemma sorts: "sorted_by le (stable_sort le xs)"
  by (induction xs) (simp_all add: insert_keeps, simp add: sorted_by_def)

lemma head_least:
  assumes "xs \<noteq> []" "x \<in> set xs"
  shows "le (hd (stable_sort le xs)) x"
proof -
  obtain y ys where e: "stable_sort le xs = y # ys"
    using assms(1) by (metis list.exhaust stable_sort_Nil_iff)
  have "x \<in> set (y # ys)" using assms(2) e by (metis set_stable_sort)
  with sorts [of xs] e show ?thesis by (auto simp: sorted_by_def refl)
qed

lemma head_mem: "xs \<noteq> [] \<Longrightarrow> hd (stable_sort le xs) \<in> set xs"
  by (metis hd_in_set set_stable_sort stable_sort_Nil_iff)

end

text \<open>Comparators of the form \<^verbatim>\<open>(a, b) => key(b) - key(a)\<close>: descending by an integer key.\<close>

definition desc_by :: "('a \<Rightarrow> int) \<Rightarrow> 'a \<Rightarrow> 'a \<Rightarrow> bool" where
  "desc_by key x y \<longleftrightarrow> key y \<le> key x"

interpretation desc: consistent_comparator "desc_by key" for key
  by unfold_locales (auto simp: desc_by_def)

text \<open>
  A queue of bounded size that makes room by giving up its oldest elements, and that may refuse
  an element outright (\<open>keeps\<close> is false of it).  The broker's event rings and the agent's event
  buffer promise the same: at any moment the queue is a contiguous, newest part of what was pushed.
\<close>

locale lossy_queue =
  fixes ok :: "'s \<Rightarrow> bool"
    and push :: "'e \<Rightarrow> 's \<Rightarrow> 's"
    and items :: "'s \<Rightarrow> 'e list"
    and keeps :: "'e \<Rightarrow> bool"
  assumes push_ok: "ok s \<Longrightarrow> ok (push e s)"
    and push_suffix: "ok s \<Longrightarrow> suffix (items (push e s)) (items s @ filter keeps [e])"
begin

lemma run_ok: "ok s \<Longrightarrow> ok (fold push es s)"
  by (induction es arbitrary: s) (simp_all add: push_ok)

lemma run_suffix: "ok s \<Longrightarrow> suffix (items (fold push es s)) (items s @ filter keeps es)"
proof (induction es arbitrary: s)
  case (Cons e es)
  have "suffix (items (fold push es (push e s))) (items (push e s) @ filter keeps es)"
    using Cons push_ok by blast
  also have "suffix \<dots> (items s @ filter keeps [e] @ filter keeps es)"
    using push_suffix [OF Cons.prems, of e] by (auto simp: suffix_def)
  finally show ?case by (simp split: if_splits)
qed simp

end

end
