(* ===== verification/JS_Number.thy ===== *)
theory JS_Number
  imports LP_Prelude Complex_Main
begin

text \<open>
  The \<^verbatim>\<open>number\<close> type of the language: IEEE-754 binary64.  A finite value is the rational it
  denotes, and every arithmetic operation is the exact result rounded to nearest, ties to even,
  with gradual underflow and overflow to an infinity.  The sign of zero is not represented: the
  sources never divide by zero (they test the divisor first) and print no negative zero.
  The theory gives the predicates the sources use (\<^verbatim>\<open>Number.isFinite\<close>, \<^verbatim>\<open>isInteger\<close>,
  \<^verbatim>\<open>isSafeInteger\<close>) and the facts the components need of rounding: integers of magnitude up
  to \<open>2 ^ 53\<close> are exact and rounding keeps the sign.
\<close>

section \<open>Definitions\<close>

datatype jsnum = NaN | Infinity bool | Fin rat
  \<comment> \<open>\<open>Infinity True\<close> is the positive one\<close>

definition pow2 :: "int \<Rightarrow> rat" where
  "pow2 e = (if 0 \<le> e then 2 ^ nat e else 1 / 2 ^ nat (- e))"

definition round_even :: "rat \<Rightarrow> int" where
  "round_even x =
     (let f = \<lfloor>x\<rfloor>; r = x - of_int f in
      if r < 1 / 2 then f else if 1 / 2 < r then f + 1 else if even f then f else f + 1)"

text \<open>The binary exponent of a positive rational, from the bit lengths of its quotient.\<close>

fun bit_length :: "int \<Rightarrow> int" where
  "bit_length n = (if n \<le> 0 then 0 else 1 + bit_length (n div 2))"

declare bit_length.simps [simp del]

definition exponent :: "rat \<Rightarrow> int" where
  "exponent a =
     (let q = quotient_of a;
          k = bit_length (fst q) - bit_length (snd q) in
      if pow2 k \<le> a then k else k - 1)"

definition ulp :: "rat \<Rightarrow> rat" where
  "ulp a = pow2 (max (exponent a - 52) (- 1074))"

definition fround :: "rat \<Rightarrow> jsnum" where
  "fround q =
     (if q = 0 then Fin 0
      else let a = \<bar>q\<bar>; u = ulp a; r = of_int (round_even (a / u)) * u in
        if pow2 1024 \<le> r then Infinity (0 < q) else Fin (sgn q * r))"

fun js_add :: "jsnum \<Rightarrow> jsnum \<Rightarrow> jsnum" where
  "js_add NaN _ = NaN"
| "js_add _ NaN = NaN"
| "js_add (Infinity a) (Infinity b) = (if a = b then Infinity a else NaN)"
| "js_add (Infinity a) (Fin _) = Infinity a"
| "js_add (Fin _) (Infinity b) = Infinity b"
| "js_add (Fin a) (Fin b) = fround (a + b)"

fun js_neg :: "jsnum \<Rightarrow> jsnum" where
  "js_neg NaN = NaN"
| "js_neg (Infinity a) = Infinity (\<not> a)"
| "js_neg (Fin a) = Fin (- a)"

definition js_sub :: "jsnum \<Rightarrow> jsnum \<Rightarrow> jsnum" where
  "js_sub a b = js_add a (js_neg b)"

fun js_mult :: "jsnum \<Rightarrow> jsnum \<Rightarrow> jsnum" where
  "js_mult NaN _ = NaN"
| "js_mult _ NaN = NaN"
| "js_mult (Infinity a) (Infinity b) = Infinity (a = b)"
| "js_mult (Infinity a) (Fin b) = (if b = 0 then NaN else Infinity (a = (0 < b)))"
| "js_mult (Fin a) (Infinity b) = (if a = 0 then NaN else Infinity ((0 < a) = b))"
| "js_mult (Fin a) (Fin b) = fround (a * b)"

fun js_div :: "jsnum \<Rightarrow> jsnum \<Rightarrow> jsnum" where
  "js_div NaN _ = NaN"
| "js_div _ NaN = NaN"
| "js_div (Infinity a) (Infinity b) = NaN"
| "js_div (Infinity a) (Fin b) = Infinity (a = (0 \<le> b))"
| "js_div (Fin a) (Infinity b) = Fin 0"
| "js_div (Fin a) (Fin b) = (if b = 0 then (if a = 0 then NaN else Infinity (0 < a)) else fround (a / b))"

text \<open>\<^verbatim>\<open>%\<close> truncates the quotient, so the result has the sign of the dividend and is exact.\<close>

definition trunc_rat :: "rat \<Rightarrow> int" where
  "trunc_rat q = (if 0 \<le> q then \<lfloor>q\<rfloor> else - \<lfloor>- q\<rfloor>)"

fun js_mod :: "jsnum \<Rightarrow> jsnum \<Rightarrow> jsnum" where
  "js_mod NaN _ = NaN"
| "js_mod _ NaN = NaN"
| "js_mod (Infinity a) _ = NaN"
| "js_mod (Fin a) (Infinity b) = Fin a"
| "js_mod (Fin a) (Fin b) = (if b = 0 then NaN else Fin (a - b * of_int (trunc_rat (a / b))))"

fun js_lt :: "jsnum \<Rightarrow> jsnum \<Rightarrow> bool" where
  "js_lt NaN _ = False"
| "js_lt _ NaN = False"
| "js_lt (Infinity a) (Infinity b) = (\<not> a \<and> b)"
| "js_lt (Infinity a) (Fin _) = (\<not> a)"
| "js_lt (Fin _) (Infinity b) = b"
| "js_lt (Fin a) (Fin b) = (a < b)"

fun js_eq :: "jsnum \<Rightarrow> jsnum \<Rightarrow> bool" where
  "js_eq NaN _ = False"
| "js_eq _ NaN = False"
| "js_eq a b = (a = b)"

definition js_le :: "jsnum \<Rightarrow> jsnum \<Rightarrow> bool" where
  "js_le a b \<longleftrightarrow> js_lt a b \<or> js_eq a b"

definition js_min :: "jsnum \<Rightarrow> jsnum \<Rightarrow> jsnum" where
  "js_min a b = (if a = NaN \<or> b = NaN then NaN else if js_lt b a then b else a)"

definition js_max :: "jsnum \<Rightarrow> jsnum \<Rightarrow> jsnum" where
  "js_max a b = (if a = NaN \<or> b = NaN then NaN else if js_lt a b then b else a)"

fun is_finite_num :: "jsnum \<Rightarrow> bool" where
  "is_finite_num (Fin _) = True"
| "is_finite_num _ = False"

fun is_integer_num :: "jsnum \<Rightarrow> bool" where
  "is_integer_num (Fin q) = (of_int \<lfloor>q\<rfloor> = q)"
| "is_integer_num _ = False"

definition max_safe :: int where "max_safe = 2 ^ 53 - 1"

fun is_safe_integer_num :: "jsnum \<Rightarrow> bool" where
  "is_safe_integer_num (Fin q) = (of_int \<lfloor>q\<rfloor> = q \<and> \<bar>q\<bar> \<le> of_int max_safe)"
| "is_safe_integer_num _ = False"

abbreviation js_int :: "int \<Rightarrow> jsnum" where
  "js_int n \<equiv> Fin (of_int n)"

section \<open>Lemmas\<close>

lemma js_le_Fin [simp]: "js_le (Fin a) (Fin b) \<longleftrightarrow> a \<le> b"
  by (auto simp: js_le_def)

lemma js_min_Fin [simp]: "js_min (Fin a) (Fin b) = Fin (min a b)"
  by (simp add: js_min_def min_def)

lemma js_max_Fin [simp]: "js_max (Fin a) (Fin b) = Fin (max a b)"
  by (auto simp: js_max_def max_def)

lemma pow2_pos [simp]: "0 < pow2 e"
  by (simp add: pow2_def)

lemma pow2_ne0 [simp]: "pow2 e \<noteq> 0"
  using pow2_pos [of e] by linarith

lemma ulp_pos [simp]: "0 < ulp a"
  by (simp add: ulp_def)

lemma round_even_of_int [simp]: "round_even (of_int n) = n"
  by (simp add: round_even_def Let_def)

lemma round_even_nonneg: "0 \<le> x \<Longrightarrow> 0 \<le> round_even x"
proof -
  assume "0 \<le> x"
  then have "0 \<le> \<lfloor>x\<rfloor>" by simp
  then show ?thesis by (simp add: round_even_def Let_def)
qed

lemma fround_exact:
  assumes "\<bar>q\<bar> = of_int n * ulp \<bar>q\<bar>" "\<bar>q\<bar> < pow2 1024"
  shows "fround q = Fin q"
proof (cases "q = 0")
  case False
  have u: "ulp \<bar>q\<bar> \<noteq> 0" using ulp_pos [of "\<bar>q\<bar>"] by linarith
  have "\<bar>q\<bar> / ulp \<bar>q\<bar> = of_int n" using assms(1) u by (simp add: field_simps)
  with False assms(2) u show ?thesis
    by (simp add: fround_def Let_def assms(1) [symmetric] sgn_mult_abs)
qed (simp add: fround_def)

lemma fround_0 [simp]: "fround 0 = Fin 0"
  by (simp add: fround_def)

lemma fround_sign:
  assumes "fround q = Fin r" "0 \<le> q"
  shows "0 \<le> r"
proof (cases "q = 0")
  case False
  with assms(2) have "0 < q" by simp
  have "0 \<le> round_even (q / ulp q)"
    using \<open>0 < q\<close> ulp_pos [of q] by (intro round_even_nonneg) (simp add: zero_le_divide_iff less_imp_le)
  then have "0 \<le> of_int (round_even (q / ulp q)) * ulp q"
    using ulp_pos [of q] by (simp add: less_imp_le)
  with assms(1) \<open>0 < q\<close> show ?thesis by (auto simp: fround_def Let_def split: if_splits)
qed (use assms in simp)

lemma fround_not_NaN [simp]: "fround q \<noteq> NaN"
  by (simp add: fround_def Let_def)

lemma quotient_of_of_int: "quotient_of (of_int n) = (n, 1)"
  by (simp add: of_int_rat quotient_of_Fract normalize_def)

lemma bit_length_bounds: "0 < n \<Longrightarrow> 1 \<le> bit_length n \<and> 2 ^ nat (bit_length n - 1) \<le> n \<and> n < 2 ^ nat (bit_length n)"
proof (induction n rule: bit_length.induct)
  case (1 n)
  show ?case
  proof (cases "n = 1")
    case True
    then show ?thesis by (simp add: bit_length.simps)
  next
    case False
    with 1 have h: "1 \<le> bit_length (n div 2)" "2 ^ nat (bit_length (n div 2) - 1) \<le> n div 2"
      "n div 2 < 2 ^ nat (bit_length (n div 2))" by auto
    have b: "bit_length n = 1 + bit_length (n div 2)" using 1 by (simp add: bit_length.simps [of n])
    have "nat (bit_length (n div 2)) = Suc (nat (bit_length (n div 2) - 1))" using h(1) by linarith
    then have p: "(2 :: int) ^ nat (bit_length (n div 2)) = 2 * 2 ^ nat (bit_length (n div 2) - 1)"
      by (simp only: power_Suc)
    have "2 ^ nat (bit_length (n div 2)) \<le> n" "n < 2 * 2 ^ nat (bit_length (n div 2))"
      using h p by linarith+
    moreover have "nat (1 + bit_length (n div 2)) = Suc (nat (bit_length (n div 2)))" using h(1) by linarith
    ultimately show ?thesis using h(1) b by simp
  qed
qed

lemma pow2_of_nat: "0 \<le> e \<Longrightarrow> pow2 e = of_int (2 ^ nat e)"
  by (simp add: pow2_def)

lemma pow2_powi: "pow2 e = 2 powi e"
  by (simp add: pow2_def power_int_def inverse_eq_divide power_one_over)

lemma pow2_add: "pow2 (a + b) = pow2 a * pow2 b"
  by (simp add: pow2_powi power_int_add)

lemma pow2_diff: "pow2 (a - b) = pow2 a / pow2 b"
  by (simp add: pow2_powi power_int_diff)

lemma pow2_mono: "a < b \<Longrightarrow> pow2 a < pow2 b"
  unfolding pow2_powi by (rule power_int_strict_increasing) simp_all

lemma pow2_less_iff [simp]: "pow2 a < pow2 b \<longleftrightarrow> a < b"
  using pow2_mono [of a b] pow2_mono [of b a] by (cases a b rule: linorder_cases) auto

lemma pow2_le_iff [simp]: "pow2 a \<le> pow2 b \<longleftrightarrow> a \<le> b"
  by (simp add: not_less [symmetric])

lemma bit_length_pow2:
  assumes "0 < n"
  shows "pow2 (bit_length n - 1) \<le> of_int n" "of_int n < pow2 (bit_length n)"
proof -
  have b: "1 \<le> bit_length n" "2 ^ nat (bit_length n - 1) \<le> n" "n < 2 ^ nat (bit_length n)"
    using bit_length_bounds [OF assms] by auto
  have "pow2 (bit_length n - 1) = of_int (2 ^ nat (bit_length n - 1))"
    using b(1) by (intro pow2_of_nat) simp
  with b(2) show "pow2 (bit_length n - 1) \<le> of_int n" by (simp only: of_int_le_iff)
  have "pow2 (bit_length n) = of_int (2 ^ nat (bit_length n))"
    using b(1) by (intro pow2_of_nat) simp
  with b(3) show "of_int n < pow2 (bit_length n)" by (simp only: of_int_less_iff)
qed

text \<open>The exponent is the integer part of the binary logarithm.\<close>

lemma exponent_spec:
  assumes "0 < a"
  shows "pow2 (exponent a) \<le> a" "a < pow2 (exponent a + 1)"
proof -
  obtain n d where q: "quotient_of a = (n, d)" by (cases "quotient_of a") auto
  have d: "0 < d" using q by (rule quotient_of_denom_pos)
  have a: "a = of_int n / of_int d" using q by (rule quotient_of_div)
  have n: "0 < n" using assms a d by (simp add: zero_less_divide_iff)
  let ?k = "bit_length n - bit_length d"
  have "pow2 (bit_length n - 1) * of_int d < of_int n * pow2 (bit_length d)"
    using bit_length_pow2 [OF n] bit_length_pow2 [OF d] d n
    by (intro mult_le_less_imp_less) auto
  then have lo: "pow2 (?k - 1) < a"
    using d by (simp add: a pow2_diff divide_simps ac_simps)
  have "of_int n * pow2 (bit_length d - 1) < pow2 (bit_length n) * of_int d"
    using bit_length_pow2 [OF n] bit_length_pow2 [OF d] d n
    by (intro mult_less_le_imp_less) auto
  then have hi: "a < pow2 (?k + 1)"
    using d by (simp add: a pow2_diff pow2_add divide_simps) (simp add: algebra_simps)
  show "pow2 (exponent a) \<le> a" "a < pow2 (exponent a + 1)"
    using lo hi by (auto simp: exponent_def Let_def q)
qed

lemma exponent_eqI:
  assumes "pow2 e \<le> a" "a < pow2 (e + 1)"
  shows "exponent a = e"
proof -
  have "0 < a" using assms(1) pow2_pos [of e] by linarith
  from exponent_spec [OF this] assms have "pow2 (exponent a) < pow2 (e + 1)" "pow2 e < pow2 (exponent a + 1)"
    by linarith+
  then show ?thesis by simp
qed

lemma exponent_of_int: "0 < n \<Longrightarrow> exponent (of_int n) = bit_length n - 1"
  using bit_length_pow2 [of n] by (intro exponent_eqI) auto

lemma round_even_eqI:
  assumes "\<bar>x - of_int m\<bar> < 1 / 2 \<or> \<bar>x - of_int m\<bar> = 1 / 2 \<and> even m"
  shows "round_even x = m"
proof -
  have f: "\<lfloor>x\<rfloor> = m \<or> \<lfloor>x\<rfloor> = m - 1" using assms by linarith
  then show ?thesis
  proof
    assume e: "\<lfloor>x\<rfloor> = m"
    then have "of_int m \<le> x" by linarith
    with assms e show ?thesis by (auto simp: round_even_def Let_def)
  next
    assume e: "\<lfloor>x\<rfloor> = m - 1"
    then have "x < of_int m" by linarith
    with assms e show ?thesis by (auto simp: round_even_def Let_def)
  qed
qed

text \<open>Evaluating a rounding: the caller names the exponent and the significand.\<close>

lemma fround_evalI:
  assumes "pow2 e \<le> q" "q < pow2 (e + 1)" "- 1022 \<le> e" "e < 1023"
    and "\<bar>q / pow2 (e - 52) - of_int m\<bar> < 1 / 2 \<or> \<bar>q / pow2 (e - 52) - of_int m\<bar> = 1 / 2 \<and> even m"
  shows "fround q = Fin (of_int m * pow2 (e - 52))"
proof -
  have q: "0 < q" using assms(1) pow2_pos [of e] by linarith
  have e: "exponent q = e" using assms(1,2) by (rule exponent_eqI)
  have u: "ulp q = pow2 (e - 52)" using assms(3) by (simp add: ulp_def e)
  have m: "round_even (q / pow2 (e - 52)) = m" using assms(5) by (rule round_even_eqI)
  have "q / pow2 (e - 52) < pow2 53"
    using assms(2) by (simp add: pow2_diff pow2_add field_simps pow2_of_nat)
  with assms(5) have "of_int m < pow2 53 + 1 / 2" by linarith
  then have "m \<le> 2 ^ 53" by (simp add: pow2_def)
  then have "(of_int m :: rat) \<le> pow2 53" by (simp add: pow2_def)
  then have "of_int m * pow2 (e - 52) \<le> pow2 53 * pow2 (e - 52)" by (intro mult_right_mono) (simp_all add: less_imp_le)
  also have "\<dots> = pow2 (e + 1)" by (simp add: add.commute flip: pow2_add)
  also have "\<dots> < pow2 1024" using assms(4) by simp
  finally have "of_int m * pow2 (e - 52) < pow2 1024" .
  then show ?thesis using q by (simp add: fround_def Let_def u m)
qed

lemma fround_pos_int:
  assumes "0 < n" "n \<le> 2 ^ 53"
  shows "\<exists>k. (of_int n :: rat) = of_int k * ulp (of_int n)"
proof -
  let ?f = "bit_length n"
  have e: "exponent (of_int n) = ?f - 1" using assms by (simp add: exponent_of_int)
  have b: "1 \<le> ?f" "2 ^ nat (?f - 1) \<le> n" using bit_length_bounds [OF assms(1)] by auto
  have f54: "?f \<le> 54"
  proof (rule ccontr)
    assume "\<not> ?f \<le> 54"
    then have "(2 :: int) ^ 54 \<le> 2 ^ nat (?f - 1)" by (intro power_increasing) auto
    with b(2) assms(2) show False by simp
  qed
  show ?thesis
  proof (cases "?f = 54")
    case True
    with b(2) assms(2) have n: "n = 2 ^ 53" by simp
    have "ulp (of_int n) = 2" using e True by (simp add: ulp_def pow2_def)
    then show ?thesis using n by (intro exI [of _ "2 ^ 52"]) simp
  next
    case False
    let ?s = "nat (53 - ?f)"
    have "max (exponent (of_int n) - 52) (- 1074) = - int ?s" using e f54 False b(1) by simp
    then have u: "ulp (of_int n) = 1 / 2 ^ ?s" by (simp add: ulp_def pow2_def)
    show ?thesis by (rule exI [of _ "n * 2 ^ ?s"]) (simp add: u)
  qed
qed

text \<open>Every integer of magnitude at most \<open>2 ^ 53\<close> is a binary64 value.\<close>

lemma fround_int:
  assumes "\<bar>n\<bar> \<le> 2 ^ 53"
  shows "fround (of_int n) = js_int n"
proof (cases "n = 0")
  case False
  have a: "\<bar>of_int n :: rat\<bar> = of_int \<bar>n\<bar>" by simp
  obtain k where k: "(of_int \<bar>n\<bar> :: rat) = of_int k * ulp (of_int \<bar>n\<bar>)"
    using fround_pos_int [of "\<bar>n\<bar>"] assms False by auto
  have "(of_int \<bar>n\<bar> :: rat) \<le> of_int (2 ^ 53)" using assms by (simp only: of_int_le_iff)
  also have "\<dots> < pow2 1024" by (simp add: pow2_def)
  finally have lt: "(of_int \<bar>n\<bar> :: rat) < pow2 1024" .
  show ?thesis by (rule fround_exact [of _ k]) (use k lt in \<open>simp_all only: a\<close>)
qed simp

lemma js_add_int: "\<bar>a + b\<bar> \<le> 2 ^ 53 \<Longrightarrow> js_add (js_int a) (js_int b) = js_int (a + b)"
  using fround_int [of "a + b"] by simp

lemma js_mult_int: "\<bar>a * b\<bar> \<le> 2 ^ 53 \<Longrightarrow> js_mult (js_int a) (js_int b) = js_int (a * b)"
  using fround_int [of "a * b"] by simp

lemma safe_integer_finite: "is_safe_integer_num x \<Longrightarrow> is_finite_num x \<and> is_integer_num x"
  by (cases x) simp_all

end
