(* ===== verification/Protocol.thy ===== *)
theory Protocol
  imports JS_Number
begin

text \<open>
  The wire contract of \<^verbatim>\<open>packages/protocol/src/index.ts\<close> and the event and status schemas of
  \<^verbatim>\<open>packages/broker/src/index.ts\<close>: the data types, and the schemas as functions.  A schema
  that only checks is a predicate; a schema that transforms (\<^verbatim>\<open>trim\<close>, \<^verbatim>\<open>toLowerCase\<close>,
  \<^verbatim>\<open>default\<close>) is a function into \<open>option\<close>, with \<open>None\<close> for a validation error.  Checks
  follow a \<^verbatim>\<open>trim\<close> on the trimmed value, as the schema library runs them in order.
\<close>

section \<open>Definitions\<close>

subsection \<open>Scalars and conditions\<close>

datatype scalar = SStr string | SNum jsnum | SBool bool | SNull

datatype cond_op = CEq | CNe | CGt | CGte | CLt | CLte

record condition =
  c_path :: string
  c_op :: cond_op
  c_value :: scalar

datatype probe_type = TSnapshot | TLog | TCounter | TMetric
datatype log_level = LDebug | LInfo | LWarn | LError

definition is_portable :: "jsnum \<Rightarrow> bool" where
  "is_portable n \<longleftrightarrow> is_finite_num n \<and> (\<not> is_integer_num n \<or> is_safe_integer_num n)"

fun jsonScalar_ok :: "scalar \<Rightarrow> bool" where
  "jsonScalar_ok (SNum n) = is_portable n"
| "jsonScalar_ok _ = True"

subsection \<open>String schemas\<close>

definition len_between :: "nat \<Rightarrow> nat \<Rightarrow> string \<Rightarrow> bool" where
  "len_between lo hi s \<longleftrightarrow> lo \<le> length s \<and> length s \<le> hi"

text \<open>\<^verbatim>\<open>z.string().trim().min(lo).max(hi)\<close>\<close>

definition trimmed :: "nat \<Rightarrow> nat \<Rightarrow> string \<Rightarrow> string option" where
  "trimmed lo hi s = (let t = js_trim s in if len_between lo hi t then Some t else None)"

definition serviceId_parse :: "string \<Rightarrow> string option" where
  "serviceId_parse = trimmed 1 200"

definition sourceFile_parse :: "string \<Rightarrow> string option" where
  "sourceFile_parse = trimmed 1 4096"

definition dotPath_ok :: "string \<Rightarrow> bool" where
  "dotPath_ok s \<longleftrightarrow> len_between 1 1024 s \<and> (\<forall>p \<in> set (js_split CHR ''.'' s). p \<noteq> [])"

definition dotPath_parse :: "string \<Rightarrow> string option" where
  "dotPath_parse s = (let t = js_trim s in if dotPath_ok t then Some t else None)"

definition sourceCommit_parse :: "string \<Rightarrow> string option" where
  "sourceCommit_parse s =
     (let t = js_trim s in if len_between 7 64 t \<and> list_all is_hex t then Some (js_lower t) else None)"

definition buildId_parse :: "string \<Rightarrow> string option" where
  "buildId_parse s = (if len_between 8 128 s \<and> list_all is_hex s then Some (js_lower s) else None)"

definition CROCKFORD_BASE32 :: string where
  "CROCKFORD_BASE32 = ''0123456789ABCDEFGHJKMNPQRSTVWXYZ''"

definition probeId_ok :: "string \<Rightarrow> bool" where
  "probeId_ok s \<longleftrightarrow>
     length s = 30 \<and> take 4 s = ''prb_'' \<and> list_all (\<lambda>c. c \<in> set CROCKFORD_BASE32) (drop 4 s)"

subsection \<open>Expressions\<close>

datatype segment = SegStr string | SegNum jsnum

datatype unary_op = UNot | UNegate
datatype binary_op =
  BAdd | BSubtract | BMultiply | BDivide | BModulo | BEq | BNe | BGt | BGte | BLt | BLte | BAnd | BOr

datatype expression_node =
    Literal scalar
  | Reference "segment list"
  | Unary unary_op expression_node
  | Binary binary_op expression_node expression_node

record compiled_expression =
  ce_source :: string
  ce_ast :: expression_node

datatype template_segment = TText string | TExpr compiled_expression

fun segment_parse :: "segment \<Rightarrow> segment option" where
  "segment_parse (SegStr s) = map_option SegStr (trimmed 1 256 s)"
| "segment_parse (SegNum n) =
     (if is_safe_integer_num n \<and> js_le (Fin 0) n then Some (SegNum n) else None)"

fun traverse :: "('a \<Rightarrow> 'b option) \<Rightarrow> 'a list \<Rightarrow> 'b list option" where
  "traverse f [] = Some []"
| "traverse f (x # xs) =
     (case f x of None \<Rightarrow> None | Some y \<Rightarrow> map_option ((#) y) (traverse f xs))"

fun expressionNode_parse :: "expression_node \<Rightarrow> expression_node option" where
  "expressionNode_parse (Literal v) = (if jsonScalar_ok v then Some (Literal v) else None)"
| "expressionNode_parse (Reference p) =
     (if 1 \<le> length p \<and> length p \<le> 64 then map_option Reference (traverse segment_parse p) else None)"
| "expressionNode_parse (Unary u e) = map_option (Unary u) (expressionNode_parse e)"
| "expressionNode_parse (Binary b l r) =
     (case expressionNode_parse l of None \<Rightarrow> None
      | Some l' \<Rightarrow> map_option (Binary b l') (expressionNode_parse r))"

definition compiledExpression_parse :: "compiled_expression \<Rightarrow> compiled_expression option" where
  "compiledExpression_parse e =
     (if len_between 1 4096 (ce_source e)
      then map_option (\<lambda>a. e\<lparr>ce_ast := a\<rparr>) (expressionNode_parse (ce_ast e)) else None)"

fun templateSegment_parse :: "template_segment \<Rightarrow> template_segment option" where
  "templateSegment_parse (TText s) = (if length s \<le> 16384 then Some (TText s) else None)"
| "templateSegment_parse (TExpr e) = map_option TExpr (compiledExpression_parse e)"

subsection \<open>Probe creation requests\<close>

datatype create_body =
    CreateSnapshot (cs_watchPaths: "string list option") (cs_watchExpressions: "string list option")
      (cs_includeStackLocals: bool) (cs_stackFrameLimit: int)
  | CreateLog (cl_template: string) (cl_logLevel: log_level)
  | CreateCounter
  | CreateMetric (cm_metricPath: "string option") (cm_metricExpression: "string option")

record create_input =
  ci_serviceId :: string
  ci_sourceCommit :: "string option"
  ci_file :: string
  ci_line :: int
  ci_condition :: "condition option"
  ci_conditionExpression :: "string option"
  ci_ttlSeconds :: int
  ci_createdBy :: string
  ci_hitLimit :: int
  ci_body :: create_body

text \<open>A request before the schema has supplied its defaults.\<close>

datatype raw_body =
    RawSnapshot "string list option" "string list option" "bool option" "int option"
  | RawLog string "log_level option"
  | RawCounter
  | RawMetric "string option" "string option"

record raw_create =
  rc_serviceId :: string
  rc_sourceCommit :: "string option"
  rc_file :: string
  rc_line :: int
  rc_condition :: "condition option"
  rc_conditionExpression :: "string option"
  rc_ttlSeconds :: "int option"
  rc_createdBy :: string
  rc_hitLimit :: "int option"
  rc_body :: raw_body

definition opt_parse :: "('a \<Rightarrow> 'b option) \<Rightarrow> 'a option \<Rightarrow> 'b option option" where
  "opt_parse f x = (case x of None \<Rightarrow> Some None | Some a \<Rightarrow> map_option Some (f a))"

definition safe_int :: "int \<Rightarrow> bool" where
  "safe_int n \<longleftrightarrow> \<bar>n\<bar> \<le> max_safe"

definition positive_int :: "int \<Rightarrow> bool" where
  "positive_int n \<longleftrightarrow> 0 < n \<and> safe_int n"

definition condition_parse :: "condition \<Rightarrow> condition option" where
  "condition_parse c =
     (case dotPath_parse (c_path c) of
        None \<Rightarrow> None
      | Some p \<Rightarrow> if jsonScalar_ok (c_value c) then Some (c\<lparr>c_path := p\<rparr>) else None)"

definition bounded_list :: "nat \<Rightarrow> ('a \<Rightarrow> 'b option) \<Rightarrow> 'a list \<Rightarrow> 'b list option" where
  "bounded_list n f xs = (if length xs \<le> n then traverse f xs else None)"

definition expressionSource_parse :: "string \<Rightarrow> string option" where
  "expressionSource_parse = trimmed 1 4096"

fun createBody_parse :: "raw_body \<Rightarrow> create_body option" where
  "createBody_parse (RawSnapshot wp we sl fl) =
     (case (opt_parse (bounded_list 100 dotPath_parse) wp,
            opt_parse (bounded_list 100 expressionSource_parse) we) of
        (Some wp', Some we') \<Rightarrow>
          (let n = case fl of None \<Rightarrow> 3 | Some n \<Rightarrow> n in
           if 1 \<le> n \<and> n \<le> 8
           then Some (CreateSnapshot wp' we' (case sl of None \<Rightarrow> False | Some b \<Rightarrow> b) n) else None)
      | _ \<Rightarrow> None)"
| "createBody_parse (RawLog t lv) =
     (if len_between 1 16384 t then Some (CreateLog t (case lv of None \<Rightarrow> LInfo | Some l \<Rightarrow> l)) else None)"
| "createBody_parse RawCounter = Some CreateCounter"
| "createBody_parse (RawMetric mp me) =
     (case (opt_parse dotPath_parse mp, opt_parse expressionSource_parse me) of
        (Some mp', Some me') \<Rightarrow> Some (CreateMetric mp' me')
      | _ \<Rightarrow> None)"

fun default_hitLimit :: "raw_body \<Rightarrow> int" where
  "default_hitLimit (RawSnapshot _ _ _ _) = 1"
| "default_hitLimit (RawLog _ _) = 100"
| "default_hitLimit RawCounter = 10000"
| "default_hitLimit (RawMetric _ _) = 10000"

definition createProbeInput_parse :: "raw_create \<Rightarrow> create_input option" where
  "createProbeInput_parse r =
     (case (serviceId_parse (rc_serviceId r), opt_parse sourceCommit_parse (rc_sourceCommit r),
            sourceFile_parse (rc_file r), opt_parse condition_parse (rc_condition r),
            opt_parse expressionSource_parse (rc_conditionExpression r),
            trimmed 1 500 (rc_createdBy r), createBody_parse (rc_body r)) of
        (Some sid, Some commit, Some file, Some cond, Some ce, Some by, Some body) \<Rightarrow>
          (let ttl = case rc_ttlSeconds r of None \<Rightarrow> 1800 | Some t \<Rightarrow> t;
               hl = case rc_hitLimit r of None \<Rightarrow> default_hitLimit (rc_body r) | Some h \<Rightarrow> h in
           if positive_int (rc_line r) \<and> positive_int ttl \<and> positive_int hl
           then Some \<lparr>ci_serviceId = sid, ci_sourceCommit = commit, ci_file = file,
             ci_line = rc_line r, ci_condition = cond, ci_conditionExpression = ce,
             ci_ttlSeconds = ttl, ci_createdBy = by, ci_hitLimit = hl, ci_body = body\<rparr>
           else None)
      | _ \<Rightarrow> None)"

subsection \<open>Probe definitions\<close>

datatype probe_body =
    SnapshotProbe (pb_watchPaths: "string list option")
      (pb_watchExpressions: "compiled_expression list option")
      (pb_includeStackLocals: bool) (pb_stackFrameLimit: int)
  | LogProbe (pb_template: string) (pb_logLevel: log_level)
      (pb_templateSegments: "template_segment list option")
  | CounterProbe
  | MetricProbe (pb_metricPath: "string option") (pb_metricExpression: "compiled_expression option")

record runtime_location =
  rl_location :: string
  rl_line :: int
  rl_column :: int

record probe_definition =
  pd_id :: string
  pd_serviceId :: string
  pd_sourceCommit :: "string option"
  pd_file :: string
  pd_line :: int
  pd_runtime :: "runtime_location option"
  pd_condition :: "condition option"
  pd_conditionExpression :: "compiled_expression option"
  pd_ttlSeconds :: int
  pd_hitLimit :: int
  pd_version :: int
  pd_createdBy :: string
  pd_body :: probe_body

fun body_type :: "probe_body \<Rightarrow> probe_type" where
  "body_type (SnapshotProbe _ _ _ _) = TSnapshot"
| "body_type (LogProbe _ _ _) = TLog"
| "body_type CounterProbe = TCounter"
| "body_type (MetricProbe _ _) = TMetric"

abbreviation pd_type :: "probe_definition \<Rightarrow> probe_type" where
  "pd_type p \<equiv> body_type (pd_body p)"

fun probeBody_parse :: "probe_body \<Rightarrow> probe_body option" where
  "probeBody_parse (SnapshotProbe wp we sl fl) =
     (case (opt_parse (bounded_list 100 dotPath_parse) wp,
            opt_parse (bounded_list 100 compiledExpression_parse) we) of
        (Some wp', Some we') \<Rightarrow>
          if 1 \<le> fl \<and> fl \<le> 8 then Some (SnapshotProbe wp' we' sl fl) else None
      | _ \<Rightarrow> None)"
| "probeBody_parse (LogProbe t lv ts) =
     (if len_between 1 16384 t
      then map_option (LogProbe t lv) (opt_parse (bounded_list 201 templateSegment_parse) ts) else None)"
| "probeBody_parse CounterProbe = Some CounterProbe"
| "probeBody_parse (MetricProbe mp me) =
     (case (opt_parse dotPath_parse mp, opt_parse compiledExpression_parse me) of
        (Some mp', Some me') \<Rightarrow> Some (MetricProbe mp' me')
      | _ \<Rightarrow> None)"

definition runtime_parse :: "runtime_location \<Rightarrow> runtime_location option" where
  "runtime_parse r =
     (case sourceFile_parse (rl_location r) of
        None \<Rightarrow> None
      | Some f \<Rightarrow>
          if positive_int (rl_line r) \<and> 0 \<le> rl_column r \<and> safe_int (rl_column r)
          then Some (r\<lparr>rl_location := f\<rparr>) else None)"

definition probeDefinition_parse :: "probe_definition \<Rightarrow> probe_definition option" where
  "probeDefinition_parse p =
     (case (serviceId_parse (pd_serviceId p), opt_parse sourceCommit_parse (pd_sourceCommit p),
            sourceFile_parse (pd_file p), opt_parse runtime_parse (pd_runtime p),
            opt_parse condition_parse (pd_condition p),
            opt_parse compiledExpression_parse (pd_conditionExpression p),
            trimmed 1 500 (pd_createdBy p), probeBody_parse (pd_body p)) of
        (Some sid, Some commit, Some file, Some rt, Some cond, Some ce, Some by, Some body) \<Rightarrow>
          if probeId_ok (pd_id p) \<and> positive_int (pd_line p) \<and> positive_int (pd_ttlSeconds p) \<and>
             positive_int (pd_hitLimit p) \<and> positive_int (pd_version p)
          then Some (p\<lparr>pd_serviceId := sid, pd_sourceCommit := commit, pd_file := file,
            pd_runtime := rt, pd_condition := cond, pd_conditionExpression := ce,
            pd_createdBy := by, pd_body := body\<rparr>)
          else None
      | _ \<Rightarrow> None)"

subsection \<open>Sanitized values\<close>

datatype truncation = TrDepth | TrArray | TrProps | TrString | TrCircular | TrUnsupported

record unavailable_value =
  uv_reasonCode :: string
  uv_detail :: "string option"
  uv_siteId :: "string option"
  uv_buildId :: "string option"

datatype serialized_node =
    NStr string
  | NNum jsnum
  | NBool bool
  | NNull
  | NFn
  | NRedacted
  | NUnavailable unavailable_value
  | NTruncated truncation
  | NObj "(string \<times> serialized_node) list" bool
  | NArr "serialized_node list" bool
  \<comment> \<open>the flag of the containers is the presence of their truncation marker \<^verbatim>\<open>m\<close>\<close>

record stack_frame =
  sf_fn :: string
  sf_file :: string
  sf_line :: int
  sf_variables :: "serialized_node option"

subsection \<open>Status and events\<close>

datatype status_name = Armed | Error | HitLimitReached | Suspended | Expired

record native_resolution =
  nr_sourceFile :: string
  nr_line :: int
  nr_resolvedSiteCount :: int
  nr_requestedPathCount :: int

record variable_availability =
  va_path :: string
  va_available :: bool
  va_reasonCode :: "string option"
  va_siteIds :: "string list"

record native_metadata =
  nm_reasonCode :: "string option"
  nm_agentId :: "string option"
  nm_instanceId :: "string option"
  nm_buildId :: "string option"
  nm_siteId :: "string option"
  nm_resolution :: "native_resolution option"
  nm_variableAvailability :: "variable_availability list option"
  nm_physicalSiteCount :: "int option"
  nm_rawHitRate :: "jsnum option"
  nm_droppedEventCount :: "int option"

definition no_metadata :: native_metadata where
  "no_metadata = \<lparr>nm_reasonCode = None, nm_agentId = None, nm_instanceId = None, nm_buildId = None,
     nm_siteId = None, nm_resolution = None, nm_variableAvailability = None,
     nm_physicalSiteCount = None, nm_rawHitRate = None, nm_droppedEventCount = None\<rparr>"

datatype event_body =
    SnapshotEvent serialized_node "(string \<times> serialized_node) list" "stack_frame list"
  | LogEvent string log_level
  | CounterEvent int
  | MetricEvent int jsnum jsnum jsnum jsnum
      \<comment> \<open>count, sum, min, max, last\<close>
  | StatusEvent status_name "string option" native_metadata

record probe_event =
  ev_probeId :: string
  ev_probeVersion :: "int option"
  ev_ts :: int
  ev_body :: event_body

fun event_type :: "event_body \<Rightarrow> probe_type option" where
  "event_type (SnapshotEvent _ _ _) = Some TSnapshot"
| "event_type (LogEvent _ _) = Some TLog"
| "event_type (CounterEvent _) = Some TCounter"
| "event_type (MetricEvent _ _ _ _ _) = Some TMetric"
| "event_type (StatusEvent _ _ _) = None"

record probe_status =
  ps_status :: status_name
  ps_updatedAt :: int
  ps_detail :: "string option"
  ps_armedAt :: "int option"
  ps_probeVersion :: "int option"
  ps_metadata :: native_metadata

definition nativeStatusEndsAssignment :: "status_name \<Rightarrow> bool" where
  "nativeStatusEndsAssignment s \<longleftrightarrow> s = HitLimitReached \<or> s = Suspended \<or> s = Expired"

datatype agent_state = Green | Red

record safety_limits =
  sl_maxProbeHitsPerSecond :: "jsnum option"
  sl_maxProbePauseMsPerSecond :: "jsnum option"
  sl_safetyCooldownMs :: "int option"
  sl_maxTelemetryBytesPerSecond :: "jsnum option"
  sl_maxBufferedEventBytes :: "int option"
  sl_maxEventLoopLagMs :: "jsnum option"

record agent_status =
  as_state :: agent_state
  as_detail :: "string option"
  as_reasonCode :: "string option"
  as_limits :: "safety_limits option"

subsection \<open>Wire encoding of expressions\<close>

text \<open>A JSON document; an object is the list of its members in order.\<close>

datatype json =
    JNull
  | JBool bool
  | JNum jsnum
  | JStr string
  | JArr "json list"
  | JObj "(string \<times> json) list"

fun scalar_json :: "scalar \<Rightarrow> json" where
  "scalar_json (SStr s) = JStr s"
| "scalar_json (SNum n) = JNum n"
| "scalar_json (SBool b) = JBool b"
| "scalar_json SNull = JNull"

fun segment_json :: "segment \<Rightarrow> json" where
  "segment_json (SegStr s) = JStr s"
| "segment_json (SegNum n) = JNum n"

fun unary_name :: "unary_op \<Rightarrow> string" where
  "unary_name UNot = ''not''"
| "unary_name UNegate = ''negate''"

fun binary_name :: "binary_op \<Rightarrow> string" where
  "binary_name BAdd = ''add''"
| "binary_name BSubtract = ''subtract''"
| "binary_name BMultiply = ''multiply''"
| "binary_name BDivide = ''divide''"
| "binary_name BModulo = ''modulo''"
| "binary_name BEq = ''eq''"
| "binary_name BNe = ''ne''"
| "binary_name BGt = ''gt''"
| "binary_name BGte = ''gte''"
| "binary_name BLt = ''lt''"
| "binary_name BLte = ''lte''"
| "binary_name BAnd = ''and''"
| "binary_name BOr = ''or''"

fun expressionNode_json :: "expression_node \<Rightarrow> json" where
  "expressionNode_json (Literal v) = JObj [(''type'', JStr ''literal''), (''value'', scalar_json v)]"
| "expressionNode_json (Reference p) =
     JObj [(''type'', JStr ''reference''), (''path'', JArr (map segment_json p))]"
| "expressionNode_json (Unary u e) =
     JObj [(''type'', JStr ''unary''), (''operator'', JStr (unary_name u)),
       (''operand'', expressionNode_json e)]"
| "expressionNode_json (Binary b l r) =
     JObj [(''type'', JStr ''binary''), (''operator'', JStr (binary_name b)),
       (''left'', expressionNode_json l), (''right'', expressionNode_json r)]"

definition compiledExpression_json :: "compiled_expression \<Rightarrow> json" where
  "compiledExpression_json e =
     JObj [(''source'', JStr (ce_source e)), (''ast'', expressionNode_json (ce_ast e))]"

section \<open>Lemmas\<close>

lemma trimmed_Some: "trimmed lo hi s = Some t \<longleftrightarrow> t = js_trim s \<and> lo \<le> length t \<and> length t \<le> hi"
  by (auto simp: trimmed_def Let_def len_between_def)

lemma traverse_Some_iff: "traverse f xs = Some ys \<longleftrightarrow> list_all2 (\<lambda>x y. f x = Some y) xs ys"
proof (induction xs arbitrary: ys)
  case (Cons x xs)
  then show ?case by (cases ys) (auto split: option.splits)
qed auto

lemma traverse_cong_id: "(\<And>x. x \<in> set xs \<Longrightarrow> f x = Some x) \<Longrightarrow> traverse f xs = Some xs"
  by (induction xs) auto

lemma traverse_length: "traverse f xs = Some ys \<Longrightarrow> length ys = length xs"
  by (auto simp: traverse_Some_iff list_all2_lengthD)

lemma opt_parse_Some: "opt_parse f x = Some y \<longleftrightarrow>
    (x = None \<and> y = None) \<or> (\<exists>a b. x = Some a \<and> y = Some b \<and> f a = Some b)"
  by (auto simp: opt_parse_def split: option.splits)

lemma js_trim_idem: "js_trim (js_trim s) = js_trim s"
proof -
  let ?d = "dropWhile js_space"
  have idem: "?d (?d xs) = ?d xs" for xs :: string 
    by (induction xs) auto
  have keep: "?d (rev (?d (rev (?d xs)))) = rev (?d (rev (?d xs)))" for xs :: string
  proof (cases "rev (?d (rev (?d xs)))")
    case (Cons c cs)
    then have "?d (rev (?d xs)) = rev cs @ [c]" by (metis rev_eq_Cons_iff)
    then have "last (?d (rev (?d xs))) = c" by simp
    moreover have "last (?d (rev (?d xs))) = last (rev (?d xs))"
      using \<open>?d (rev (?d xs)) = rev cs @ [c]\<close> by (metis append_is_Nil_conv last_appendR not_Cons_self2 takeWhile_dropWhile_id)
    ultimately have "c = hd (?d xs)"
      using \<open>?d (rev (?d xs)) = rev cs @ [c]\<close> by (metis dropWhile.simps(1) hd_rev last_rev rev.simps(1) snoc_eq_iff_butlast)
    moreover have "?d xs \<noteq> []"
      using \<open>?d (rev (?d xs)) = rev cs @ [c]\<close>
      by (metis dropWhile.simps(1) rev.simps(1) snoc_eq_iff_butlast)
    ultimately have "\<not> js_space c" using hd_dropWhile by metis
    then show ?thesis by (simp add: Cons)
  next
    case Nil
    then show ?thesis by (simp only: dropWhile.simps)
  qed
  show ?thesis by (simp add: js_trim_def keep idem)
qed

lemma dotPath_parse_ok: "dotPath_parse s = Some t \<Longrightarrow> dotPath_ok t"
  by (auto simp: dotPath_parse_def Let_def split: if_splits)

text \<open>The defaults the request schema supplies, by probe type.\<close>

lemma createProbeInput_defaults:
  assumes "createProbeInput_parse r = Some i"
  shows "rc_ttlSeconds r = None \<Longrightarrow> ci_ttlSeconds i = 1800"
    and "rc_hitLimit r = None \<Longrightarrow> ci_hitLimit i = default_hitLimit (rc_body r)"
    and "positive_int (ci_ttlSeconds i)" "positive_int (ci_hitLimit i)" "positive_int (ci_line i)"
  using assms by (auto simp: createProbeInput_parse_def Let_def split: option.splits if_splits)

end
