(* ===== verification/Expression_Compiler.thy ===== *)
theory Expression_Compiler
  imports Protocol
begin

text \<open>
  \<^verbatim>\<open>packages/broker/src/expression.ts\<close>: the compiler from source text to the safe expression
  tree.  The parser \<^verbatim>\<open>jsep\<close> is third-party code and a parameter of \<open>compileExpression\<close> and
  \<open>compileTemplate\<close>: it takes the source text to a syntax tree or to an error message.  Its
  tree is the data type \<open>jsep_node\<close>, with one constructor per node type the compiler
  distinguishes and \<open>JOther\<close> for the rest.  The mutable node counter of \<^verbatim>\<open>convert\<close> is
  threaded through.  The lemmas show the resource bounds of a compiled tree and that a compiled
  template is the template.
\<close>

section \<open>Definitions\<close>

datatype jsep_value = JScalar scalar | JOtherValue

datatype jsep_node =
    JLiteral jsep_value
  | JIdentifier string
  | JMember bool bool jsep_node jsep_node
      \<comment> \<open>computed, optional, object, property\<close>
  | JUnary string jsep_node
  | JBinary string jsep_node jsep_node
  | JOther string

definition MAX_SOURCE_LENGTH :: nat where "MAX_SOURCE_LENGTH = 4096"
definition MAX_AST_DEPTH :: nat where "MAX_AST_DEPTH = 20"
definition MAX_AST_NODES :: nat where "MAX_AST_NODES = 100"
definition MAX_PATH_SEGMENTS :: nat where "MAX_PATH_SEGMENTS = 64"

definition FORBIDDEN_SEGMENTS :: "string list" where
  "FORBIDDEN_SEGMENTS = [''__proto__'', ''prototype'', ''constructor'']"

definition binaryOperators :: "(string, binary_op) jsmap" where
  "binaryOperators =
     [(''+'', BAdd), (''-'', BSubtract), (''*'', BMultiply), (''/'', BDivide), (''%'', BModulo),
      (''=='', BEq), (''==='', BEq), (''!='', BNe), (''!=='', BNe), (''>'', BGt), (''>='', BGte),
      (''<'', BLt), (''<='', BLte), (''&&'', BAnd), (''||'', BOr)]"

type_synonym expr_error = string

fun safeSegment :: "jsep_value \<Rightarrow> (expr_error, segment) res" where
  "safeSegment (JScalar (SStr s)) =
     (if length s = 0 \<or> 128 < length s \<or> s \<in> set FORBIDDEN_SEGMENTS
      then Err ''property segment is not allowed'' else Ok (SegStr s))"
| "safeSegment (JScalar (SNum n)) =
     (if is_safe_integer_num n \<and> js_le (Fin 0) n then Ok (SegNum n)
      else Err ''computed properties require a string or integer literal'')"
| "safeSegment _ = Err ''computed properties require a string or integer literal''"

text \<open>The segment a member access contributes, by the shape of its property.\<close>

fun memberSegment :: "bool \<Rightarrow> jsep_node \<Rightarrow> (expr_error, segment) res" where
  "memberSegment True (JLiteral v) = safeSegment v"
| "memberSegment True _ = safeSegment JOtherValue"
| "memberSegment False (JIdentifier name) = safeSegment (JScalar (SStr name))"
| "memberSegment False _ = Err ''property access must use a fixed name''"

fun referencePath :: "jsep_node \<Rightarrow> (expr_error, segment list) res" where
  "referencePath (JIdentifier name) =
     bind_res (safeSegment (JScalar (SStr name))) (\<lambda>s. Ok [s])"
| "referencePath (JMember computed optional obj prop) =
     (if optional then Err ''optional chaining is not supported''
      else bind_res (referencePath obj) (\<lambda>base.
           bind_res (memberSegment computed prop) (\<lambda>seg.
             (let path = base @ [seg] in
              if MAX_PATH_SEGMENTS < length path then Err ''property path is too deep'' else Ok path))))"
| "referencePath _ = Err ''member access must start at a local variable''"

fun literal_allowed :: "jsep_value \<Rightarrow> bool" where
  "literal_allowed (JScalar v) = jsonScalar_ok v"
| "literal_allowed JOtherValue = False"

fun unaryOperator :: "string \<Rightarrow> unary_op option" where
  "unaryOperator op = (if op = ''!'' then Some UNot else if op = ''-'' then Some UNegate else None)"

text \<open>\<open>convert node n depth\<close>: \<open>n\<close> is \<^verbatim>\<open>state.nodes\<close> before the call, returned updated.\<close>

fun convert :: "jsep_node \<Rightarrow> nat \<Rightarrow> nat \<Rightarrow> (expr_error, expression_node \<times> nat) res" where
  "convert node n depth =
     (let n = n + 1 in
      if MAX_AST_NODES < n then Err ''expression has too many nodes''
      else if MAX_AST_DEPTH < depth then Err ''expression is too deeply nested''
      else (case node of
          JLiteral v \<Rightarrow>
            (case v of
               JScalar w \<Rightarrow>
                 if literal_allowed v then Ok (Literal w, n)
                 else Err ''only finite JSON scalar literals within the safe integer range are supported''
             | JOtherValue \<Rightarrow>
                 Err ''only finite JSON scalar literals within the safe integer range are supported'')
        | JIdentifier _ \<Rightarrow> bind_res (referencePath node) (\<lambda>p. Ok (Reference p, n))
        | JMember _ _ _ _ \<Rightarrow> bind_res (referencePath node) (\<lambda>p. Ok (Reference p, n))
        | JUnary op arg \<Rightarrow>
            (case unaryOperator op of
               None \<Rightarrow> Err (''unary operator '' @ op @ '' is not supported'')
             | Some u \<Rightarrow> bind_res (convert arg n (depth + 1)) (\<lambda>(e, n'). Ok (Unary u e, n')))
        | JBinary op l r \<Rightarrow>
            (case jget binaryOperators op of
               None \<Rightarrow> Err (''binary operator '' @ op @ '' is not supported'')
             | Some b \<Rightarrow>
                 bind_res (convert l n (depth + 1)) (\<lambda>(e1, n1).
                 bind_res (convert r n1 (depth + 1)) (\<lambda>(e2, n2). Ok (Binary b e1 e2, n2))))
        | JOther t \<Rightarrow> Err (t @ '' is not supported'')))"

declare convert.simps [simp del]

definition compileExpression ::
  "(string \<Rightarrow> (expr_error, jsep_node) res) \<Rightarrow> string \<Rightarrow> (expr_error, compiled_expression) res" where
  "compileExpression jsep source =
     (let normalized = js_trim source in
      if length normalized = 0 \<or> MAX_SOURCE_LENGTH < length normalized
      then Err ''source must contain 1 to 4096 characters''
      else bind_res (jsep normalized) (\<lambda>parsed.
           bind_res (convert parsed 0 0) (\<lambda>(ast, _).
             Ok \<lparr>ce_source = normalized, ce_ast = ast\<rparr>)))"

text \<open>
  \<^verbatim>\<open>template.matchAll(/\$\{(group)\}/gu)\<close> as a left-to-right scan: at \<^verbatim>\<open>${\<close> the group is
  the longest run of characters outside \<open>stop\<close>; it matches when a closing brace follows and
  the group satisfies \<open>good\<close>, otherwise the scan moves on by one character.
\<close>

fun match_here :: "(char \<Rightarrow> bool) \<Rightarrow> (string \<Rightarrow> bool) \<Rightarrow> string \<Rightarrow> string option" where
  "match_here stop good (a # b # rest) =
     (if a = CHR ''$'' \<and> b = CHR ''{'' then
        (let g = takeWhile (\<lambda>c. \<not> stop c) rest; r = dropWhile (\<lambda>c. \<not> stop c) rest in
         if g \<noteq> [] \<and> good g \<and> r \<noteq> [] \<and> hd r = CHR ''}'' then Some g else None)
      else None)"
| "match_here stop good _ = None"

function match_all ::
  "(char \<Rightarrow> bool) \<Rightarrow> (string \<Rightarrow> bool) \<Rightarrow> nat \<Rightarrow> string \<Rightarrow> (nat \<times> string) list" where
  "match_all stop good i s =
     (case s of [] \<Rightarrow> []
      | c # cs \<Rightarrow>
          (case match_here stop good s of
             Some g \<Rightarrow> (i, g) # match_all stop good (i + length g + 3) (drop (length g + 2) cs)
           | None \<Rightarrow> match_all stop good (i + 1) cs))"
  by pat_completeness auto
termination
  by (relation "measure (\<lambda>(_, _, _, s). length s)") auto

declare match_all.simps [simp del]

definition brace :: "char \<Rightarrow> bool" where "brace c \<longleftrightarrow> c = CHR ''{'' \<or> c = CHR ''}''"

definition templateMatches :: "string \<Rightarrow> (nat \<times> string) list" where
  "templateMatches t = match_all brace (\<lambda>_. True) 0 t"

definition legacy_segment :: "string \<Rightarrow> bool" where
  "legacy_segment s \<longleftrightarrow>
     (let idStart = (\<lambda>c. is_upper c \<or> is_lower c \<or> c = CHR ''_'' \<or> c = CHR ''$'') in
      (s \<noteq> [] \<and> idStart (hd s) \<and> list_all (\<lambda>c. idStart c \<or> is_digit c) (tl s)) \<or>
      s = ''0'' \<or>
      (s \<noteq> [] \<and> is_digit (hd s) \<and> hd s \<noteq> CHR ''0'' \<and> list_all is_digit (tl s)))"

definition isLegacyDotPath :: "string \<Rightarrow> bool" where
  "isLegacyDotPath source \<longleftrightarrow>
     0 < length source \<and> length source \<le> 1024 \<and>
     list_all (\<lambda>seg. length seg \<le> 128 \<and> legacy_segment seg \<and> seg \<notin> set FORBIDDEN_SEGMENTS)
       (js_split CHR ''.'' source)"

text \<open>\<^verbatim>\<open>template.slice(i, j)\<close> for \<open>i \<le> j\<close>\<close>

definition slice :: "nat \<Rightarrow> nat \<Rightarrow> string \<Rightarrow> string" where
  "slice i j s = take (j - i) (drop i s)"

fun template_loop ::
  "(string \<Rightarrow> (expr_error, jsep_node) res) \<Rightarrow> string \<Rightarrow> nat \<Rightarrow> (nat \<times> string) list \<Rightarrow>
    (expr_error, template_segment list) res" where
  "template_loop jsep t cursor [] =
     Ok (if cursor < length t then [TText (drop cursor t)] else [])"
| "template_loop jsep t cursor ((i, g) # ms) =
     bind_res (compileExpression jsep g) (\<lambda>e.
     bind_res (template_loop jsep t (i + length g + 3) ms) (\<lambda>rest.
       Ok ((if cursor < i then [TText (slice cursor i t)] else []) @ TExpr e # rest)))"

definition compileTemplate ::
  "(string \<Rightarrow> (expr_error, jsep_node) res) \<Rightarrow> string \<Rightarrow>
    (expr_error, template_segment list option) res" where
  "compileTemplate jsep template =
     (let ms = templateMatches template in
      if ms = [] \<or> list_all (\<lambda>m. isLegacyDotPath (js_trim (snd m))) ms then Ok None
      else bind_res (template_loop jsep template 0 ms) (\<lambda>segs. Ok (Some segs)))"

text \<open>The size and depth of a tree, as the limits of the compiler count them.\<close>

fun node_count :: "expression_node \<Rightarrow> nat" where
  "node_count (Unary _ e) = 1 + node_count e"
| "node_count (Binary _ l r) = 1 + node_count l + node_count r"
| "node_count _ = 1"

fun node_depth :: "expression_node \<Rightarrow> nat" where
  "node_depth (Unary _ e) = 1 + node_depth e"
| "node_depth (Binary _ l r) = 1 + max (node_depth l) (node_depth r)"
| "node_depth _ = 0"

fun segment_safe :: "segment \<Rightarrow> bool" where
  "segment_safe (SegStr s) \<longleftrightarrow> 0 < length s \<and> length s \<le> 128 \<and> s \<notin> set FORBIDDEN_SEGMENTS"
| "segment_safe (SegNum n) \<longleftrightarrow> is_safe_integer_num n \<and> js_le (Fin 0) n"

fun node_safe :: "expression_node \<Rightarrow> bool" where
  "node_safe (Literal v) = jsonScalar_ok v"
| "node_safe (Reference p) = (p \<noteq> [] \<and> length p \<le> MAX_PATH_SEGMENTS \<and> list_all segment_safe p)"
| "node_safe (Unary _ e) = node_safe e"
| "node_safe (Binary _ l r) = (node_safe l \<and> node_safe r)"

subsection \<open>Vocabulary of the lemmas\<close>

text \<open>
  The segments of a template against the text from the cursor on: text is copied, and an
  expression stands for a braced group whose trimmed content is its source.
\<close>

fun covers :: "template_segment list \<Rightarrow> string \<Rightarrow> bool" where
  "covers [] s = (s = [])"
| "covers (TText v # segs) s = (v \<noteq> [] \<and> prefix v s \<and> covers segs (drop (length v) s))"
| "covers (TExpr e # segs) s =
     (\<exists>g r. s = CHR ''$'' # CHR ''{'' # g @ CHR ''}'' # r \<and> ce_source e = js_trim g \<and> covers segs r)"

section \<open>Lemmas\<close>

subsection \<open>Compiled trees stay within the limits\<close>

lemma safeSegment_ok: "safeSegment v = Ok s \<Longrightarrow> segment_safe s"
  by (cases v rule: safeSegment.cases) (auto split: if_splits)

lemma memberSegment_ok: "memberSegment c p = Ok s \<Longrightarrow> segment_safe s"
  by (cases "(c, p)" rule: memberSegment.cases) (auto simp del: safeSegment.simps dest: safeSegment_ok)

lemma referencePath_ok: "referencePath node = Ok p \<Longrightarrow> node_safe (Reference p)"
proof (induction node arbitrary: p)
  case (JIdentifier name)
  then show ?case
    by (auto simp: bind_res_Inr_iff MAX_PATH_SEGMENTS_def simp del: safeSegment.simps dest: safeSegment_ok)
next
  case (JMember computed opt obj p0)
  from JMember.prems obtain base seg where
    "referencePath obj = Ok base" "memberSegment computed p0 = Ok seg" "p = base @ [seg]"
    "length p \<le> MAX_PATH_SEGMENTS"
    by (auto simp: bind_res_Inr_iff Let_def split: if_splits)
  with JMember.IH(1) memberSegment_ok show ?case by force
qed auto

lemma convert_ok:
  "convert node n depth = Ok (e, n') \<Longrightarrow>
     node_safe e \<and> n' = n + node_count e \<and> n' \<le> MAX_AST_NODES \<and> depth + node_depth e \<le> MAX_AST_DEPTH"
proof (induction node arbitrary: n depth e n')
  case (JUnary op arg)
  from JUnary.prems obtain u e1 where
    c: "convert arg (n + 1) (depth + 1) = Ok (e1, n')" and e: "e = Unary u e1"
    by (auto simp: convert.simps [of "JUnary op arg"] Let_def bind_res_Inr_iff split: if_splits option.splits)
  with JUnary.IH [OF c] show ?case by simp
next
  case (JBinary op l r)
  from JBinary.prems obtain b e1 e2 n1 where
    c1: "convert l (n + 1) (depth + 1) = Ok (e1, n1)" and
    c2: "convert r n1 (depth + 1) = Ok (e2, n')" and e: "e = Binary b e1 e2"
    by (auto simp: convert.simps [of "JBinary op l r"] Let_def bind_res_Inr_iff split: if_splits option.splits)
  from JBinary.IH(1) [OF c1] JBinary.IH(2) [OF c2] e show ?case by (simp add: max_def)
next
  case (JIdentifier name)
  then show ?case
    by (auto simp: convert.simps [of "JIdentifier name"] Let_def bind_res_Inr_iff
        simp del: referencePath.simps node_safe.simps dest: referencePath_ok split: if_splits)
next
  case (JMember computed opt obj p0)
  then show ?case
    by (auto simp: convert.simps [of "JMember computed opt obj p0"] Let_def bind_res_Inr_iff
        simp del: referencePath.simps node_safe.simps dest: referencePath_ok split: if_splits)
next
  case (JLiteral v)
  then show ?case
    by (auto simp: convert.simps [of "JLiteral v"] Let_def split: if_splits jsep_value.splits)
next
  case (JOther t)
  then show ?case by (auto simp: convert.simps [of "JOther t"] Let_def split: if_splits)
qed

lemma compileExpression_Ok:
  assumes "compileExpression jsep src = Ok e"
  shows "node_safe (ce_ast e)" "node_count (ce_ast e) \<le> MAX_AST_NODES"
    "node_depth (ce_ast e) \<le> MAX_AST_DEPTH" "ce_source e = js_trim src"
    "0 < length (ce_source e)" "length (ce_source e) \<le> MAX_SOURCE_LENGTH"
  using assms convert_ok
  by (auto simp: compileExpression_def Let_def bind_res_Inr_iff split: if_splits)
     (metis add_0 convert_ok)+

subsection \<open>The template scan\<close>

lemma match_here_Some:
  assumes "match_here stop good s = Some g"
  shows "\<exists>r. s = CHR ''$'' # CHR ''{'' # g @ CHR ''}'' # r \<and> g \<noteq> [] \<and> good g"
proof -
  obtain a b rest where s: "s = a # b # rest" using assms by (cases "(stop, good, s)" rule: match_here.cases) auto
  let ?d = "dropWhile (\<lambda>c. \<not> stop c) rest"
  from assms s have m: "a = CHR ''$''" "b = CHR ''{''" "g = takeWhile (\<lambda>c. \<not> stop c) rest"
    "g \<noteq> []" "good g" "?d \<noteq> []" "hd ?d = CHR ''}''"
    by (auto simp: Let_def split: if_splits)
  have "rest = g @ ?d" using m(3) by simp
  moreover have "?d = CHR ''}'' # tl ?d" using m(6,7) by (metis list.collapse)
  ultimately show ?thesis using s m by metis
qed

lemma template_loop_covers:
  assumes "template_loop jsep (pre @ s) c (match_all stop good (length pre) s) = Ok segs"
    "c \<le> length pre"
  shows "covers segs (drop c (pre @ s))"
  using assms
proof (induction s arbitrary: pre c segs rule: length_induct)
  case (1 s)
  show ?case
  proof (cases s)
    case Nil
    with 1(2,3) show ?thesis by (auto simp: match_all.simps [of stop good _ "[]"] split: if_splits)
  next
    case (Cons x xs)
    show ?thesis
    proof (cases "match_here stop good s")
      case None
      have m: "match_all stop good (length pre) s = match_all stop good (length (pre @ [x])) xs"
        using None Cons by (simp add: match_all.simps [of stop good "length pre"])
      have "length xs < length s" using Cons by simp
      from 1(1) [rule_format, OF this, of "pre @ [x]" c segs] m 1(2,3) Cons
      show ?thesis by simp
    next
      case (Some g)
      then obtain r where s: "s = CHR ''$'' # CHR ''{'' # g @ CHR ''}'' # r"
        using match_here_Some by blast
      let ?pre = "pre @ CHR ''$'' # CHR ''{'' # g @ [CHR ''}'']"
      have m: "match_all stop good (length pre) s = (length pre, g) # match_all stop good (length ?pre) r"
        using Some s by (simp add: match_all.simps [of stop good "length pre"] numeral_3_eq_3)
      from 1(2) m obtain e rest where
        e: "compileExpression jsep g = Ok e" and
        r: "template_loop jsep (pre @ s) (length ?pre) (match_all stop good (length ?pre) r) = Ok rest" and
        segs: "segs = (if c < length pre then [TText (slice c (length pre) (pre @ s))] else []) @ TExpr e # rest"
        by (auto simp: bind_res_Inr_iff numeral_3_eq_3)
      have "length r < length s" using s by simp
      moreover have ps: "pre @ s = ?pre @ r" using s by simp
      ultimately have "covers rest (drop (length ?pre) (?pre @ r))"
        using 1(1) [rule_format, of r ?pre "length ?pre" rest] r unfolding ps by blast
      then have "covers rest r" by (simp only: append_eq_conv_conj [THEN iffD1, OF refl, THEN conjunct2, symmetric])
      then have x: "covers (TExpr e # rest) s" using s compileExpression_Ok(4) [OF e] by auto
      show ?thesis
      proof (cases "c < length pre")
        case True
        have sl: "slice c (length pre) (pre @ s) = drop c pre" using True by (simp add: slice_def)
        have "drop c (pre @ s) = drop c pre @ s" using True by simp
        with x True show ?thesis by (simp add: segs sl)
      next
        case False
        with 1(3) have "c = length pre" by simp
        with x show ?thesis by (simp add: segs)
      qed
    qed
  qed
qed

section \<open>Properties\<close>

text \<open>C20: What the compiler accepts is bounded and safe: at most a hundred nodes, nested at most twenty deep,
  paths of at most 64 admissible segments, scalar literals that survive JSON, and the trimmed text as source.\<close>

theorem compiled_within_limits:
  assumes "compileExpression jsep src = Ok e"
  shows "node_safe (ce_ast e) \<and> node_count (ce_ast e) \<le> MAX_AST_NODES \<and> node_depth (ce_ast e) \<le> MAX_AST_DEPTH \<and>
    ce_source e = js_trim src \<and> 0 < length (ce_source e) \<and> length (ce_source e) \<le> MAX_SOURCE_LENGTH"
  using compileExpression_Ok [OF assms] by simp

theorem compiled_within_limits_witness:
  "node_count (Unary UNot (Reference [SegStr ''paid''])) \<le> MAX_AST_NODES"
proof -
  let ?jsep = "\<lambda>_. Ok (JUnary ''!'' (JIdentifier ''paid''))"
  have "compileExpression ?jsep '' !paid'' = Ok \<lparr>ce_source = ''!paid'', ce_ast = Unary UNot (Reference [SegStr ''paid''])\<rparr>"
    by (simp add: compileExpression_def js_trim_def js_space_def MAX_SOURCE_LENGTH_def convert.simps MAX_AST_NODES_def
        MAX_AST_DEPTH_def FORBIDDEN_SEGMENTS_def Let_def)
  from compiled_within_limits [OF this] show ?thesis by simp
qed

text \<open>The segments of a compiled template are the template: read from left to right they reproduce its text
  exactly, each expression standing for the braced group it was compiled from, and at least one group is no
  plain dot path.\<close>

theorem compiled_template_covers:
  assumes "compileTemplate jsep template = Ok (Some segs)"
  shows "covers segs template \<and> \<not> list_all (\<lambda>m. isLegacyDotPath (js_trim (snd m))) (templateMatches template)"
proof -
  have "template_loop jsep template 0 (templateMatches template) = Ok segs"
    "\<not> list_all (\<lambda>m. isLegacyDotPath (js_trim (snd m))) (templateMatches template)"
    using assms by (auto simp: compileTemplate_def Let_def bind_res_Inr_iff split: if_splits)
  with template_loop_covers [of jsep "[]" template 0 brace "\<lambda>_. True" segs] show ?thesis by (simp add: templateMatches_def)
qed

theorem compiled_template_covers_witness:
  "covers [TText ''n='', TExpr \<lparr>ce_source = ''!x'', ce_ast = Unary UNot (Reference [SegStr ''x''])\<rparr>] ''n=${!x}''"
proof -
  let ?jsep = "\<lambda>_. Ok (JUnary ''!'' (JIdentifier ''x''))"
  have m: "templateMatches ''n=${!x}'' = [(2, ''!x'')]"
    by (simp add: templateMatches_def match_all.simps [of brace] brace_def)
  have "compileTemplate ?jsep ''n=${!x}'' = Ok (Some [TText ''n='', TExpr \<lparr>ce_source = ''!x'', ce_ast = Unary UNot (Reference [SegStr ''x''])\<rparr>])"
    by (simp add: compileTemplate_def m Let_def isLegacyDotPath_def legacy_segment_def is_upper_def is_lower_def is_digit_def char_in_def slice_def
        compileExpression_def js_trim_def js_space_def MAX_SOURCE_LENGTH_def convert.simps MAX_AST_NODES_def
        MAX_AST_DEPTH_def FORBIDDEN_SEGMENTS_def numeral_2_eq_2)
  from compiled_template_covers [OF this] show ?thesis by simp
qed

end
