(* ===== verification/Broker_Types.thy ===== *)
theory Broker_Types
  imports Expression_Compiler
begin

text \<open>
  The data of the broker (\<^verbatim>\<open>packages/broker/src/index.ts\<close>): resource scopes, the records
  held in its maps, the state itself, its errors, and the composite string keys of the maps.
  An operation that throws may already have changed the state, so an operation is a function
  to a new state paired with a result.  The lemmas show which keys are unambiguous.
\<close>

section \<open>Definitions\<close>

subsection \<open>Scopes and keys\<close>

record resource_scope =
  tenantId :: string
  projectId :: string
  environmentId :: string

definition DEFAULT_RESOURCE_SCOPE :: resource_scope where
  "DEFAULT_RESOURCE_SCOPE =
     \<lparr>tenantId = ''internal'', projectId = ''default'', environmentId = ''default''\<rparr>"

definition resourceScopeKey :: "resource_scope \<Rightarrow> string" where
  "resourceScopeKey s = json_string_array [tenantId s, projectId s, environmentId s]"

definition sameResourceScope :: "resource_scope \<Rightarrow> resource_scope \<Rightarrow> bool" where
  "sameResourceScope l r \<longleftrightarrow>
     tenantId l = tenantId r \<and> projectId l = projectId r \<and> environmentId l = environmentId r"

definition serviceKey :: "resource_scope \<Rightarrow> string \<Rightarrow> string" where
  "serviceKey s serviceId = resourceScopeKey s @ nul # serviceId"

definition sourceMapKey :: "resource_scope \<Rightarrow> string \<Rightarrow> string \<Rightarrow> string" where
  "sourceMapKey s serviceId commitSha = serviceKey s serviceId @ nul # commitSha"

definition nativeAgentKey :: "resource_scope \<Rightarrow> string \<Rightarrow> string" where
  "nativeAgentKey s agentId = resourceScopeKey s @ nul # agentId"

definition nativeInstanceKey :: "resource_scope \<Rightarrow> string \<Rightarrow> string \<Rightarrow> string" where
  "nativeInstanceKey s agentId instanceId = nativeAgentKey s agentId @ nul # instanceId"

definition show_int :: "int \<Rightarrow> string" where
  "show_int n = (if n < 0 then CHR ''-'' # show_nat (nat (- n)) else show_nat (nat n))"

definition nativeStatusKey ::
  "resource_scope \<Rightarrow> string \<Rightarrow> int \<Rightarrow> string \<Rightarrow> string \<Rightarrow> string \<Rightarrow> string" where
  "nativeStatusKey s probeId probeVersion agentId instanceId buildId =
     resourceScopeKey s @ nul # probeId @ nul # show_int probeVersion @ nul # agentId @
       nul # instanceId @ nul # buildId"

subsection \<open>Records\<close>

datatype sdk = Node | Python | Jvm
datatype commit_source = CommitEnv | CommitConfig
datatype backend = ManagedRuntime | NativeEbpf
datatype language = LangNode | LangPython | LangJvm | LangRust | LangCpp

record stored_probe =
  sp_scope :: resource_scope
  sp_probe :: probe_definition
  sp_expiresAt :: int
  sp_expired :: bool

record service_version =
  sv_scope :: resource_scope
  sv_serviceId :: string
  sv_version :: int

record service_record =
  sr_scope :: resource_scope
  sr_serviceId :: string
  sr_lastSeen :: int
  sr_sdk :: "sdk option"
  sr_commitSha :: "string option"
  sr_commitSource :: "commit_source option"
  sr_capabilities :: "string list option"
  sr_agentStatus :: "agent_status option"
  sr_backend :: "backend option"
  sr_language :: "language option"
  sr_instanceCount :: "nat option"
  sr_buildIds :: "string list option"
  sr_nativeLimitations :: "string list option"

record capability_report =
  cr_lastSeen :: int
  cr_capabilities :: "string list"

record stored_source_map =
  sm_mapPath :: string
  sm_map :: json
  sm_uploadedAt :: int

record source_map_set =
  ss_scope :: resource_scope
  ss_serviceId :: string
  ss_commitSha :: string
  ss_complete :: bool
  ss_updatedAt :: int
  ss_maps :: "(string, stored_source_map) jsmap"

record source_map_lease =
  le_uploaderId :: string
  le_expiresAt :: int

record native_agent =
  na_scope :: resource_scope
  na_agentId :: string
  na_hostname :: string
  na_capabilities :: "string list"
  na_agentVersion :: string
  na_lastSeen :: int

record native_instance =
  ni_scope :: resource_scope
  ni_agentId :: string
  ni_instanceId :: string
  ni_serviceId :: string
  ni_language :: language
  ni_pid :: int
  ni_processStartTime :: string
  ni_executablePath :: string
  ni_executableDevice :: "string option"
  ni_executableInode :: "string option"
  ni_buildId :: string
  ni_capabilities :: "string list"
  ni_cgroup :: "string option"
  ni_containerId :: "string option"
  ni_lastSeen :: int

record native_ingest_health =
  nh_staleEventsDropped :: nat
  nh_rejectedBatches :: nat
  nh_lastRejectionAt :: "int option"
  nh_lastRejectionCode :: "string option"

datatype activity_reason = Activity | Timeout | Aborted

text \<open>
  \<open>listeners\<close> holds, per probe, the identities of the installed long-poll listeners in order;
  \<open>resolved\<close> is the log of the promises they settled, in order.
\<close>

record broker =
  probes :: "(string, stored_probe) jsmap"
  serviceVersions :: "(string, service_version) jsmap"
  events :: "(string, probe_event list) jsmap"
  services :: "(string, service_record) jsmap"
  agentCapabilityReports :: "(string, (string, capability_report) jsmap) jsmap"
  statuses :: "(string, probe_status) jsmap"
  sourceMapSets :: "(string, source_map_set) jsmap"
  sourceMapLeases :: "(string, source_map_lease) jsmap"
  nativeAgents :: "(string, native_agent) jsmap"
  nativeInstances :: "(string, native_instance) jsmap"
  nativeStatuses :: "(string, probe_status) jsmap"
  recentlyRemovedProbes :: "(string, int) jsmap"
  nativeIngestHealth :: "(string, native_ingest_health) jsmap"
  nativeAssignmentVersions :: "(string, int) jsmap"
  listeners :: "(string, nat list) jsmap"
  resolved :: "(nat \<times> activity_reason) list"
  ringCapacity :: nat

subsection \<open>Errors\<close>

datatype broker_error =
    HttpError nat string string
      \<comment> \<open>\<^verbatim>\<open>BrokerHttpError(statusCode, code, message)\<close>\<close>
  | PlainError string
  | SchemaError string

type_synonym 'a broker_res = "broker \<times> (broker_error, 'a) res"

subsection \<open>The initial state\<close>

definition DEFAULT_RING_CAPACITY :: nat where "DEFAULT_RING_CAPACITY = 500"
definition ACTIVE_AGENT_WINDOW_MS :: int where "ACTIVE_AGENT_WINDOW_MS = 45000"
definition REMOVED_PROBE_GRACE_MS :: int where "REMOVED_PROBE_GRACE_MS = 600000"
definition SOURCE_MAP_COMMITS_PER_SERVICE :: nat where "SOURCE_MAP_COMMITS_PER_SERVICE = 5"
definition NATIVE_MAX_CAPTURE_SLOTS :: nat where "NATIVE_MAX_CAPTURE_SLOTS = 8"
definition KNOWN_AGENT_CAPABILITIES :: "string list" where
  "KNOWN_AGENT_CAPABILITIES = [''log-levels-v1'', ''expression-ast-v1'', ''frame-locals-v1'']"

definition empty_broker :: "nat \<Rightarrow> broker" where
  "empty_broker cap = \<lparr>probes = [], serviceVersions = [], events = [], services = [],
     agentCapabilityReports = [], statuses = [], sourceMapSets = [], sourceMapLeases = [],
     nativeAgents = [], nativeInstances = [], nativeStatuses = [], recentlyRemovedProbes = [],
     nativeIngestHealth = [], nativeAssignmentVersions = [], listeners = [], resolved = [],
     ringCapacity = cap\<rparr>"

text \<open>The constructor: a missing capacity is the default, a non-positive one is refused.\<close>

definition new_broker :: "int option \<Rightarrow> (broker_error, broker) res" where
  "new_broker cap =
     (case cap of
        None \<Rightarrow> Ok (empty_broker DEFAULT_RING_CAPACITY)
      | Some c \<Rightarrow>
          if c \<le> 0 then Err (PlainError ''ringCapacity must be a positive integer'')
          else Ok (empty_broker (nat c)))"

section \<open>Lemmas\<close>

lemma sameResourceScope_eq [simp]: "sameResourceScope l r \<longleftrightarrow> l = r"
  by (cases l; cases r) (auto simp: sameResourceScope_def)

text \<open>Quoted strings are a prefix code, so the scope key determines the scope.\<close>

lemma resourceScopeKey_inj [key_simps]: "resourceScopeKey s = resourceScopeKey s' \<longleftrightarrow> s = s'"
proof
  assume "resourceScopeKey s = resourceScopeKey s'"
  then have "json_string (tenantId s) @ CHR '','' # json_string (projectId s) @ CHR '','' #
      json_string (environmentId s) @ [CHR '']''] =
    json_string (tenantId s') @ CHR '','' # json_string (projectId s') @ CHR '','' #
      json_string (environmentId s') @ [CHR '']'']"
    by (simp add: resourceScopeKey_def json_string_array_def)
  then have t: "tenantId s = tenantId s'"
    and "json_string (projectId s) @ CHR '','' # json_string (environmentId s) @ [CHR '']''] =
      json_string (projectId s') @ CHR '','' # json_string (environmentId s') @ [CHR '']'']"
    by (auto dest: json_string_prefix)
  then have p: "projectId s = projectId s'"
    and "json_string (environmentId s) @ [CHR '']''] = json_string (environmentId s') @ [CHR '']'']"
    by (auto dest!: json_string_prefix simp del: append_same_eq)
  from this(2) have "environmentId s = environmentId s'" by (rule json_string_prefix [THEN conjunct1])
  with t p show "s = s'" by simp
qed simp

lemma nul_code: "nul = CHR 0x00"
  by (simp add: nul_def char_of_def)

lemma resourceScopeKey_no_nul: "nul \<notin> set (resourceScopeKey s)"
  using json_string_no_nul by (simp add: resourceScopeKey_def json_string_array_def) (simp add: nul_code)

text \<open>Splitting at the first separator.\<close>

lemma sep_inj: "d \<notin> set a \<Longrightarrow> d \<notin> set b \<Longrightarrow> a @ d # x = b @ d # y \<longleftrightarrow> a = b \<and> x = y"
proof (induction a arbitrary: b)
  case Nil
  then show ?case by (cases b) auto
next
  case (Cons c a)
  then show ?case by (cases b) auto
qed

lemma last_sep_inj: "d \<notin> set x \<Longrightarrow> d \<notin> set y \<Longrightarrow> a @ d # x = b @ d # y \<longleftrightarrow> a = b \<and> x = y"
  using sep_inj [of d "rev x" "rev y" "rev a" "rev b"]
  by (metis append_Cons append_assoc append_Nil rev_append rev_rev_ident rev.simps(2) set_rev)

lemma serviceKey_inj [key_simps]: "serviceKey s x = serviceKey s' x' \<longleftrightarrow> s = s' \<and> x = x'"
  by (simp add: serviceKey_def sep_inj resourceScopeKey_no_nul resourceScopeKey_inj)

lemma nativeAgentKey_inj [key_simps]: "nativeAgentKey s x = nativeAgentKey s' x' \<longleftrightarrow> s = s' \<and> x = x'"
  by (simp add: nativeAgentKey_def sep_inj resourceScopeKey_no_nul resourceScopeKey_inj)

lemma sourceMapKey_inj:
  "nul \<notin> set c \<Longrightarrow> nul \<notin> set c' \<Longrightarrow>
   sourceMapKey s x c = sourceMapKey s' x' c' \<longleftrightarrow> s = s' \<and> x = x' \<and> c = c'"
  by (simp add: sourceMapKey_def last_sep_inj serviceKey_inj)

lemma nativeInstanceKey_inj:
  "nul \<notin> set i \<Longrightarrow> nul \<notin> set i' \<Longrightarrow>
   nativeInstanceKey s a i = nativeInstanceKey s' a' i' \<longleftrightarrow> s = s' \<and> a = a' \<and> i = i'"
  by (simp add: nativeInstanceKey_def last_sep_inj nativeAgentKey_inj)

text \<open>A key of one scope is never a key of another, whatever the identifiers contain.\<close>

lemma sourceMapKey_scope: "sourceMapKey s x c = sourceMapKey s' x' c' \<Longrightarrow> s = s'"
  by (simp add: sourceMapKey_def serviceKey_def sep_inj resourceScopeKey_no_nul resourceScopeKey_inj)

lemma nativeInstanceKey_scope: "nativeInstanceKey s a i = nativeInstanceKey s' a' i' \<Longrightarrow> s = s'"
  by (simp add: nativeInstanceKey_def nativeAgentKey_def sep_inj resourceScopeKey_no_nul resourceScopeKey_inj)

lemma nativeStatusKey_scope:
  "nativeStatusKey s p v a i b = nativeStatusKey s' p' v' a' i' b' \<Longrightarrow> s = s'"
  by (simp add: nativeStatusKey_def sep_inj resourceScopeKey_no_nul resourceScopeKey_inj)

lemma hex_no_nul: "list_all is_hex c \<Longrightarrow> nul \<notin> set c"
  by (auto simp: list_all_iff is_hex_def is_digit_def char_in_def nul_def)

lemma show_nat_digits: "c \<in> set (show_nat n) \<Longrightarrow> is_digit c"
proof (induction n rule: show_nat.induct)
  case (1 n)
  have d: "k < 10 \<Longrightarrow> is_digit (char_of (48 + k))" for k :: nat
    by (simp add: is_digit_def char_in_def)
  show ?case using 1 d [of n] d [of "n mod 10"]
    by (subst (asm) (2) show_nat.simps) (auto split: if_splits)
qed

lemma show_nat_nonempty: "show_nat n \<noteq> []"
  by (subst show_nat.simps) simp

lemma show_nat_inj: "show_nat m = show_nat n \<Longrightarrow> m = n"
proof (induction m arbitrary: n rule: show_nat.induct)
  case (1 m)
  have digit: "a < 10 \<Longrightarrow> b < 10 \<Longrightarrow> (char_of (48 + a) :: char) = char_of (48 + b) \<Longrightarrow> a = b" for a b :: nat
    using of_char_char_of_small [of "48 + a"] of_char_char_of_small [of "48 + b"] by simp
  consider "m < 10" "n < 10" | "m < 10" "10 \<le> n" | "10 \<le> m" "n < 10" | "10 \<le> m" "10 \<le> n" by linarith
  then show ?case
  proof cases
    case 4
    then have e: "show_nat (m div 10) @ [char_of (48 + m mod 10)] = show_nat (n div 10) @ [char_of (48 + n mod 10)]"
      using "1.prems" show_nat.simps [of m] show_nat.simps [of n] by simp
    then have "m div 10 = n div 10" using 4 "1.IH" [of "n div 10"] by simp
    moreover have "m mod 10 = n mod 10" using e digit [of "m mod 10" "n mod 10"] by simp
    ultimately show ?thesis by (metis div_mult_mod_eq)
  qed (use "1.prems" show_nat.simps [of m] show_nat.simps [of n] show_nat_nonempty [of "m div 10"]
      show_nat_nonempty [of "n div 10"] digit [of m n] in auto)
qed

lemma show_int_no_nul: "nul \<notin> set (show_int n)"
  using show_nat_digits [of nul "nat n"] show_nat_digits [of nul "nat (- n)"]
  by (auto simp: show_int_def nul_code is_digit_def char_in_def)

lemma show_int_inj: "0 \<le> m \<Longrightarrow> 0 \<le> n \<Longrightarrow> show_int m = show_int n \<longleftrightarrow> m = n"
  using show_nat_inj [of "nat m" "nat n"] by (auto simp: show_int_def)

lemma nativeStatusKey_inj:
  assumes "nul \<notin> set p" "nul \<notin> set p'" "nul \<notin> set a" "nul \<notin> set a'" "nul \<notin> set i" "nul \<notin> set i'"
    "0 \<le> v" "0 \<le> v'"
  shows "nativeStatusKey s p v a i b = nativeStatusKey s' p' v' a' i' b' \<longleftrightarrow>
    s = s' \<and> p = p' \<and> v = v' \<and> a = a' \<and> i = i' \<and> b = b'"
  using assms
  by (simp add: nativeStatusKey_def sep_inj resourceScopeKey_no_nul resourceScopeKey_inj show_int_no_nul show_int_inj)

end
