(* ===== verification/Source_Map_Resolver.thy ===== *)
theory Source_Map_Resolver
  imports Broker_Types
begin

text \<open>
  \<^verbatim>\<open>packages/broker/src/source-map-resolver.ts\<close>: from a source position to the generated
  position, through the uploaded source maps.  What the sources call from outside the
  repository is the record \<open>env\<close>: the expression parser \<^verbatim>\<open>jsep\<close>, the constructor of a
  \<^verbatim>\<open>TraceMap\<close> with its list of mappings (\<open>None\<close> when it throws), and the two library
  functions whose results depend on Unicode tables, \<^verbatim>\<open>decodeURIComponent\<close> (\<open>None\<close> for a
  malformed escape) and \<^verbatim>\<open>localeCompare\<close> (negative, zero or positive).  The lemmas show that
  no uploaded source text is kept and which match is chosen.
\<close>

section \<open>Definitions\<close>

record trace_mapping =
  tm_source :: "string option"
  tm_originalLine :: int
  tm_originalColumn :: int
  tm_generatedLine :: int
  tm_generatedColumn :: int

record trace_map =
  tr_file :: "string option"
  tr_mappings :: "trace_mapping list"

record env =
  jsep :: "string \<Rightarrow> (expr_error, jsep_node) res"
  traceMap :: "json \<Rightarrow> string \<Rightarrow> trace_map option"
  decodeURIComponent :: "string \<Rightarrow> string option"
  localeCompare :: "string \<Rightarrow> string \<Rightarrow> int"

subsection \<open>Paths\<close>

definition slash :: "char \<Rightarrow> bool" where "slash c \<longleftrightarrow> c = CHR ''/''"

definition strip_scheme :: "string \<Rightarrow> string" where
  "strip_scheme s =
     (let letters = takeWhile (\<lambda>c. is_lower c \<or> is_upper c) s; rest = drop (length letters) s in
      if letters \<noteq> [] \<and> prefix ''://'' rest then drop 3 rest else s)"

function strip_dots :: "string \<Rightarrow> string" where
  "strip_dots s =
     (if prefix ''../'' s then strip_dots (drop 3 s)
      else if prefix ''./'' s then strip_dots (drop 2 s)
      else if prefix ''/'' s then strip_dots (drop 1 s) else s)"
  by pat_completeness auto
termination
  by (relation "measure length") (auto elim: prefixE)

declare strip_dots.simps [simp del]

fun collapse_slashes :: "string \<Rightarrow> string" where
  "collapse_slashes (a # b # cs) =
     (if slash a \<and> slash b then collapse_slashes (b # cs) else a # collapse_slashes (b # cs))"
| "collapse_slashes s = s"

definition normalizePath :: "env \<Rightarrow> string \<Rightarrow> string" where
  "normalizePath env v =
     (let n = map (\<lambda>c. if c = CHR 0x5C then CHR ''/'' else c) (js_trim v);
          d = (case decodeURIComponent env n of None \<Rightarrow> n | Some d \<Rightarrow> d) in
      collapse_slashes (strip_dots (strip_scheme d)))"

definition matchesSuffix :: "string \<Rightarrow> string \<Rightarrow> bool" where
  "matchesSuffix path suff \<longleftrightarrow>
     path = suff \<or> suffix (CHR ''/'' # suff) path \<or> suffix (CHR ''/'' # path) suff"

text \<open>\<^verbatim>\<open>posix.dirname\<close>, \<^verbatim>\<open>posix.normalize\<close> and \<^verbatim>\<open>posix.join\<close>\<close>

definition posix_dirname :: "string \<Rightarrow> string" where
  "posix_dirname path =
     (if path = [] then ''.''
      else let r = dropWhile (\<lambda>c. \<not> slash c) (dropWhile slash (rev (tl path))) in
        if r = [] then (if slash (hd path) then ''/'' else ''.'')
        else if slash (hd path) \<and> length r = 1 then ''//''
        else take (length r) path)"

fun norm_segment :: "bool \<Rightarrow> string list \<Rightarrow> string \<Rightarrow> string list" where
  "norm_segment allowAbove acc seg =
     (if seg = [] \<or> seg = ''.'' then acc
      else if seg = ''..'' then
        (if acc \<noteq> [] \<and> last acc \<noteq> ''..'' then butlast acc
         else if allowAbove then acc @ [''..''] else acc)
      else acc @ [seg])"

definition posix_normalize :: "string \<Rightarrow> string" where
  "posix_normalize path =
     (if path = [] then ''.''
      else let abs = slash (hd path); trailing = slash (last path);
               body = js_join CHR ''/'' (foldl (norm_segment (\<not> abs)) [] (js_split CHR ''/'' path)) in
        if body = [] then (if abs then ''/'' else if trailing then ''./'' else ''.'')
        else (if abs then ''/'' else []) @ body @ (if trailing then ''/'' else []))"

definition posix_join :: "string \<Rightarrow> string \<Rightarrow> string" where
  "posix_join a b =
     (let parts = filter (\<lambda>p. p \<noteq> []) [a, b] in
      if parts = [] then ''.'' else posix_normalize (js_join CHR ''/'' parts))"

definition generatedFile :: "env \<Rightarrow> string \<Rightarrow> trace_map \<Rightarrow> string" where
  "generatedFile env mapPath tm =
     (let fallback = (if suffix ''.map'' mapPath then take (length mapPath - 4) mapPath else mapPath);
          f = (case tr_file tm of None \<Rightarrow> [] | Some f \<Rightarrow> f) in
      if f = [] then normalizePath env fallback
      else let file = normalizePath env f in
        if CHR ''/'' \<in> set file \<or> posix_dirname mapPath = ''.''
        then normalizePath env (posix_normalize (posix_join (posix_dirname mapPath) file))
        else normalizePath env (posix_join (posix_dirname mapPath) file))"

subsection \<open>Source maps\<close>

text \<open>The round trip through \<^verbatim>\<open>JSON.stringify\<close> with a replacer that drops one key.\<close>

fun drop_key :: "string \<Rightarrow> json \<Rightarrow> json" where
  "drop_key k (JArr xs) = JArr (map (drop_key k) xs)"
| "drop_key k (JObj ms) = JObj (map (\<lambda>(n, v). (n, drop_key k v)) (filter (\<lambda>m. fst m \<noteq> k) ms))"
| "drop_key k j = j"

definition stripSourcesContent :: "json \<Rightarrow> (broker_error, json) res" where
  "stripSourcesContent v =
     (case drop_key ''sourcesContent'' v of
        JObj ms \<Rightarrow> Ok (JObj ms)
      | _ \<Rightarrow> Err (PlainError ''source map must be a JSON object''))"

definition validateSourceMap :: "env \<Rightarrow> string \<Rightarrow> json \<Rightarrow> (broker_error, unit) res" where
  "validateSourceMap env mapPath m =
     (case traceMap env m mapPath of
        None \<Rightarrow> Err (PlainError (''invalid source map '' @ mapPath))
      | Some _ \<Rightarrow> Ok ())"

text \<open>The matches of one stored map; a map that does not parse contributes none.\<close>

definition map_matches :: "env \<Rightarrow> string \<Rightarrow> int \<Rightarrow> int \<Rightarrow> stored_source_map \<Rightarrow> runtime_location list" where
  "map_matches env requested sourceLine sourceColumn stored =
     (case traceMap env (sm_map stored) (sm_mapPath stored) of
        None \<Rightarrow> []
      | Some tm \<Rightarrow>
          map (\<lambda>m. \<lparr>rl_location = generatedFile env (sm_mapPath stored) tm,
                    rl_line = tm_generatedLine m, rl_column = tm_generatedColumn m\<rparr>)
            (filter (\<lambda>m. tm_originalLine m = sourceLine \<and> sourceColumn \<le> tm_originalColumn m \<and>
                (case tm_source m of None \<Rightarrow> False
                 | Some src \<Rightarrow> matchesSuffix (normalizePath env src) requested))
              (tr_mappings tm)))"

text \<open>The comparator: location length, then \<^verbatim>\<open>localeCompare\<close>, then line, then column.\<close>

definition location_le :: "env \<Rightarrow> runtime_location \<Rightarrow> runtime_location \<Rightarrow> bool" where
  "location_le env l r \<longleftrightarrow>
     (let c = localeCompare env (rl_location l) (rl_location r) in
      length (rl_location l) < length (rl_location r) \<or>
      length (rl_location l) = length (rl_location r) \<and>
        (c < 0 \<or> c = 0 \<and>
          (rl_line l < rl_line r \<or> rl_line l = rl_line r \<and> rl_column l \<le> rl_column r)))"

definition resolveSourceLocation ::
  "env \<Rightarrow> stored_source_map list \<Rightarrow> string \<Rightarrow> int \<Rightarrow> int \<Rightarrow> runtime_location option" where
  "resolveSourceLocation env maps sourceFile sourceLine sourceColumn =
     (let requested = normalizePath env sourceFile;
          matches = concat (map (map_matches env requested sourceLine sourceColumn) maps) in
      case stable_sort (location_le env) matches of [] \<Rightarrow> None | m # _ \<Rightarrow> Some m)"

fun json_keys :: "json \<Rightarrow> string set" where
  "json_keys (JArr xs) = \<Union> (set (map json_keys xs))"
| "json_keys (JObj ms) = \<Union> (set (map (\<lambda>(n, v). {n} \<union> json_keys v) ms))"
| "json_keys _ = {}"

section \<open>Lemmas\<close>

lemma drop_key_keys: "json_keys (drop_key k j) \<subseteq> json_keys j - {k}"
proof (induction k j rule: drop_key.induct)
  case (2 k ms)
  have "json_keys (drop_key k v) \<subseteq> json_keys v - {k}" if "(n, v) \<in> set ms" "n \<noteq> k" for n v
    using 2 [of "(n, v)" n v] that by auto
  then show ?case by (simp add: case_prod_beta) fastforce
qed auto

lemma stripSourcesContent_Ok:
  "stripSourcesContent j = Ok m \<Longrightarrow> m = drop_key ''sourcesContent'' j \<and> ''sourcesContent'' \<notin> json_keys m"
  using drop_key_keys [of "''sourcesContent''" j]
  by (cases "drop_key ''sourcesContent'' j") (auto simp: stripSourcesContent_def simp del: drop_key.simps)

lemma drop_key_id: "k \<notin> json_keys j \<Longrightarrow> drop_key k j = j"
proof (induction k j rule: drop_key.induct)
  case (2 k ms)
  then have "filter (\<lambda>m. fst m \<noteq> k) ms = ms" by (fastforce simp: filter_id_conv)
  moreover have "(case m of (n, v) \<Rightarrow> (n, drop_key k v)) = m" if "m \<in> set ms" for m
    using 2 that by (cases m) fastforce
  ultimately show ?case by (simp add: map_idI)
qed (auto intro: map_idI)

text \<open>
  What the tie-break relies on: \<^verbatim>\<open>localeCompare\<close> is the comparison of a total preorder of
  strings.
\<close>

definition collates :: "env \<Rightarrow> bool" where
  "collates env \<longleftrightarrow>
     (\<forall>x y. (localeCompare env x y < 0) = (0 < localeCompare env y x)) \<and>
     (\<forall>x y z. localeCompare env x y \<le> 0 \<longrightarrow> localeCompare env y z \<le> 0 \<longrightarrow> localeCompare env x z \<le> 0)"

lemma collatesD:
  assumes "collates env"
  shows "localeCompare env x y \<le> 0 \<or> localeCompare env y x \<le> 0"
    and "localeCompare env x y \<le> 0 \<Longrightarrow> localeCompare env y z \<le> 0 \<Longrightarrow> localeCompare env x z \<le> 0"
    and "localeCompare env x y < 0 \<longleftrightarrow> 0 < localeCompare env y x"
  using assms unfolding collates_def by (metis linorder_le_less_linear less_imp_le)+

lemma resolveSourceLocation_match:
  assumes "resolveSourceLocation env maps f l c = Some r"
  shows "\<exists>s \<in> set maps. r \<in> set (map_matches env (normalizePath env f) l c s)"
proof -
  let ?ms = "concat (map (map_matches env (normalizePath env f) l c) maps)"
  have "r \<in> set (stable_sort (location_le env) ?ms)"
    using assms by (cases "stable_sort (location_le env) ?ms") (simp_all add: resolveSourceLocation_def Let_def)
  then show ?thesis by auto
qed

lemma resolveSourceLocation_None_iff:
  "resolveSourceLocation env maps f l c = None \<longleftrightarrow>
   (\<forall>s \<in> set maps. map_matches env (normalizePath env f) l c s = [])"
proof -
  let ?ms = "concat (map (map_matches env (normalizePath env f) l c) maps)"
  have "resolveSourceLocation env maps f l c = None \<longleftrightarrow> stable_sort (location_le env) ?ms = []"
    by (cases "stable_sort (location_le env) ?ms") (simp_all add: resolveSourceLocation_def Let_def del: stable_sort_Nil_iff)
  then show ?thesis by simp
qed

lemma resolveSourceLocation_shortest:
  assumes "resolveSourceLocation env maps f l c = Some r" "s \<in> set maps"
    "q \<in> set (map_matches env (normalizePath env f) l c s)"
  shows "length (rl_location r) \<le> length (rl_location q)"
proof -
  let ?ms = "concat (map (map_matches env (normalizePath env f) l c) maps)"
  have ins: "\<exists>y. hd (insert_sorted (location_le env) x xs) = y \<and>
      length (rl_location y) \<le> length (rl_location x) \<and>
      (xs \<noteq> [] \<longrightarrow> length (rl_location y) \<le> length (rl_location (hd xs)))" for x xs
    by (cases xs) (auto simp: location_le_def Let_def)
  have "length (rl_location (hd (stable_sort (location_le env) ms))) \<le> length (rl_location q)"
    if "q \<in> set ms" for ms
    using that
  proof (induction ms)
    case (Cons m ms)
    from ins [of m "stable_sort (location_le env) ms"] Cons show ?case by fastforce
  qed simp
  moreover have "q \<in> set ?ms" using assms(2,3) by auto
  ultimately show ?thesis
    using assms(1) by (fastforce simp: resolveSourceLocation_def Let_def split: list.splits)
qed

end
