(* ===== verification/Broker_Probes.thy ===== *)
theory Broker_Probes
  imports Source_Map_Resolver
begin

text \<open>
  The probe life cycle of \<^verbatim>\<open>BrokerState\<close> (\<^verbatim>\<open>packages/broker/src/index.ts\<close>): activity
  listeners, the event rings, service versions, capability reports, creation, deletion, expiry,
  polling and ingestion.  Every operation takes the clock reading \<open>now\<close> of the call; the
  identifier generator is the sequence of the candidates it yields during the call.
\<close>

section \<open>Definitions\<close>

subsection \<open>Activity listeners\<close>

text \<open>
  A listener is settled exactly when it has left the set, so calling it again does nothing.
\<close>

definition finish :: "string \<Rightarrow> nat \<Rightarrow> activity_reason \<Rightarrow> broker \<Rightarrow> broker" where
  "finish probeId l reason st =
     (case jget (listeners st) probeId of
        None \<Rightarrow> st
      | Some ls \<Rightarrow>
          if l \<in> set ls then
            let ls' = remove1 l ls in
            st\<lparr>listeners := (if ls' = [] then jdel probeId (listeners st)
                             else jset probeId ls' (listeners st)),
               resolved := resolved st @ [(l, reason)]\<rparr>
          else st)"

definition signalActivity :: "string \<Rightarrow> broker \<Rightarrow> broker" where
  "signalActivity probeId st =
     (case jget (listeners st) probeId of
        None \<Rightarrow> st
      | Some ls \<Rightarrow> fold (\<lambda>l. finish probeId l Activity) ls st)"

definition waiting :: "broker \<Rightarrow> string \<Rightarrow> nat list" where
  "waiting st probeId = (case jget (listeners st) probeId of None \<Rightarrow> [] | Some ls \<Rightarrow> ls)"

definition ring :: "broker \<Rightarrow> string \<Rightarrow> probe_event list" where
  "ring st probeId = (case jget (events st) probeId of None \<Rightarrow> [] | Some es \<Rightarrow> es)"

text \<open>
  \<open>l\<close> is the identity of the promise's \<^verbatim>\<open>finish\<close> closure and \<open>aborted\<close> the state of the
  abort signal at registration.  A later timeout or abort is \<open>finish\<close> with that reason.
\<close>

definition registerActivityListener :: "string \<Rightarrow> int \<Rightarrow> bool \<Rightarrow> nat \<Rightarrow> broker \<Rightarrow> broker" where
  "registerActivityListener probeId timeoutMs aborted l st =
     (if timeoutMs \<le> 0 then st\<lparr>resolved := resolved st @ [(l, Timeout)]\<rparr>
      else let
        st1 = st\<lparr>listeners := jset probeId (waiting st probeId @ [l]) (listeners st)\<rparr>;
        st2 = (if aborted then finish probeId l Aborted st1 else st1) in
        if l \<in> set (waiting st2 probeId) \<and> 0 < length (ring st2 probeId)
        then finish probeId l Activity st2 else st2)"

definition waitForEvents :: "string \<Rightarrow> int \<Rightarrow> bool \<Rightarrow> nat \<Rightarrow> broker \<Rightarrow> broker" where
  "waitForEvents = registerActivityListener"

definition pendingLongPollCount :: "string option \<Rightarrow> broker \<Rightarrow> nat" where
  "pendingLongPollCount probeId st =
     (case probeId of
        Some p \<Rightarrow> length (waiting st p)
      | None \<Rightarrow> sum_list (map length (jvalues (listeners st))))"

text \<open>Every listener is told \<^verbatim>\<open>aborted\<close>, set by set.\<close>

definition dispose :: "broker \<Rightarrow> broker" where
  "dispose st =
     (let st1 = fold (\<lambda>(p, ls). fold (\<lambda>l. finish p l Aborted) ls) (listeners st) st in
      st1\<lparr>listeners := [], agentCapabilityReports := []\<rparr>)"

subsection \<open>Event rings and versions\<close>

definition ring_push :: "nat \<Rightarrow> 'e list \<Rightarrow> 'e \<Rightarrow> 'e list" where
  "ring_push cap buffer e =
     (let b = buffer @ [e] in if cap < length b then drop (length b - cap) b else b)"

definition appendEvent :: "probe_event \<Rightarrow> broker \<Rightarrow> broker" where
  "appendEvent e st =
     signalActivity (ev_probeId e)
       (st\<lparr>events := jset (ev_probeId e) (ring_push (ringCapacity st) (ring st (ev_probeId e)) e) (events st)\<rparr>)"

definition bumpNativeAssignmentVersion :: "resource_scope \<Rightarrow> string \<Rightarrow> broker \<Rightarrow> broker" where
  "bumpNativeAssignmentVersion scope agentId st =
     (let key = nativeAgentKey scope agentId;
          v = (case jget (nativeAssignmentVersions st) key of None \<Rightarrow> 0 | Some v \<Rightarrow> v) + 1 in
      st\<lparr>nativeAssignmentVersions := jset key v (nativeAssignmentVersions st)\<rparr>)"

definition service_version :: "broker \<Rightarrow> resource_scope \<Rightarrow> string \<Rightarrow> int" where
  "service_version st scope serviceId =
     (case jget (serviceVersions st) (serviceKey scope serviceId) of None \<Rightarrow> 0 | Some v \<Rightarrow> sv_version v)"

definition incrementServiceVersion :: "string \<Rightarrow> resource_scope \<Rightarrow> broker \<Rightarrow> broker \<times> int" where
  "incrementServiceVersion serviceId scope st =
     (let v = service_version st scope serviceId + 1;
          st1 = st\<lparr>serviceVersions := jset (serviceKey scope serviceId)
            \<lparr>sv_scope = scope, sv_serviceId = serviceId, sv_version = v\<rparr> (serviceVersions st)\<rparr> in
      (fold (\<lambda>i. if sameResourceScope (ni_scope i) scope \<and> ni_serviceId i = serviceId
                 then bumpNativeAssignmentVersion scope (ni_agentId i) else (\<lambda>s. s))
         (jvalues (nativeInstances st1)) st1, v))"

subsection \<open>Capability reports\<close>

definition normalizeAgentCapabilities :: "string list \<Rightarrow> string list" where
  "normalizeAgentCapabilities caps =
     (let unique = js_set caps in
      filter (\<lambda>c. c \<in> set unique) KNOWN_AGENT_CAPABILITIES @
      sort (filter (\<lambda>c. c \<notin> set KNOWN_AGENT_CAPABILITIES) unique))"

text \<open>Returns the reports that survive the activity window and the common capabilities.\<close>

definition activeCapabilityIntersection ::
  "int \<Rightarrow> (string, capability_report) jsmap \<Rightarrow> (string, capability_report) jsmap \<times> string list" where
  "activeCapabilityIntersection now reports =
     (let active = filter (\<lambda>(_, r). \<not> cr_lastSeen r < now - ACTIVE_AGENT_WINDOW_MS) reports in
      (active,
       case jvalues active of
         [] \<Rightarrow> []
       | r # _ \<Rightarrow> filter (\<lambda>c. list_all (\<lambda>r'. c \<in> set (cr_capabilities r')) (jvalues active))
                    (cr_capabilities r)))"

definition reportAgentCapabilities ::
  "int \<Rightarrow> resource_scope \<Rightarrow> string \<Rightarrow> string \<Rightarrow> string list \<Rightarrow> broker \<Rightarrow> broker \<times> string list" where
  "reportAgentCapabilities now scope serviceId agentId caps st =
     (let key = serviceKey scope serviceId;
          old = (case jget (agentCapabilityReports st) key of None \<Rightarrow> [] | Some r \<Rightarrow> r);
          new = jset agentId \<lparr>cr_lastSeen = now, cr_capabilities = normalizeAgentCapabilities caps\<rparr> old;
          (active, common) = activeCapabilityIntersection now new in
      (st\<lparr>agentCapabilityReports := jset key active (agentCapabilityReports st)\<rparr>, common))"

definition refreshServiceCapabilities :: "int \<Rightarrow> resource_scope \<Rightarrow> string \<Rightarrow> broker \<Rightarrow> broker" where
  "refreshServiceCapabilities now scope serviceId st =
     (let key = serviceKey scope serviceId in
      case jget (services st) key of
        None \<Rightarrow> st
      | Some service \<Rightarrow>
          (case jget (agentCapabilityReports st) key of
             None \<Rightarrow> st\<lparr>services := jset key (service\<lparr>sr_capabilities := Some []\<rparr>) (services st)\<rparr>
           | Some reports \<Rightarrow>
               let (active, common) = activeCapabilityIntersection now reports in
               st\<lparr>agentCapabilityReports := jset key active (agentCapabilityReports st),
                  services := jset key (service\<lparr>sr_capabilities := Some common\<rparr>) (services st)\<rparr>))"

text \<open>The new value of a field that keeps its previous value when the caller gives none.\<close>

definition or_previous :: "'a option \<Rightarrow> ('s \<Rightarrow> 'a option) \<Rightarrow> 's option \<Rightarrow> 'a option" where
  "or_previous v field previous =
     (case v of Some x \<Rightarrow> Some x | None \<Rightarrow> (case previous of None \<Rightarrow> None | Some p \<Rightarrow> field p))"

definition touchService ::
  "int \<Rightarrow> string \<Rightarrow> sdk option \<Rightarrow> agent_status option \<Rightarrow> string option \<Rightarrow> commit_source option \<Rightarrow>
    resource_scope \<Rightarrow> string list option \<Rightarrow> broker \<Rightarrow> broker" where
  "touchService now serviceId sdkv agentStatus commitSha commitSource scope caps st =
     (let key = serviceKey scope serviceId; previous = jget (services st) key in
      st\<lparr>services := jset key
        \<lparr>sr_scope = scope, sr_serviceId = serviceId, sr_lastSeen = now,
         sr_sdk = or_previous sdkv sr_sdk previous,
         sr_commitSha = or_previous commitSha sr_commitSha previous,
         sr_commitSource = or_previous commitSource sr_commitSource previous,
         sr_capabilities = or_previous caps sr_capabilities previous,
         sr_agentStatus = or_previous agentStatus sr_agentStatus previous,
         sr_backend = None, sr_language = None, sr_instanceCount = None, sr_buildIds = None,
         sr_nativeLimitations = None\<rparr> (services st)\<rparr>)"

subsection \<open>Expiry\<close>

definition expire_step :: "int \<Rightarrow> string \<Rightarrow> broker \<times> nat \<Rightarrow> broker \<times> nat" where
  "expire_step now key = (\<lambda>(st, n).
     (case jget (probes st) key of
        None \<Rightarrow> (st, n)
      | Some stored \<Rightarrow>
          if \<not> sp_expired stored \<and> sp_expiresAt stored \<le> now then
            let st1 = st\<lparr>probes := jset key (stored\<lparr>sp_expired := True\<rparr>) (probes st)\<rparr>;
                st2 = fst (incrementServiceVersion (pd_serviceId (sp_probe stored)) (sp_scope stored) st1);
                pid = pd_id (sp_probe stored);
                armedAt = (case jget (statuses st2) pid of None \<Rightarrow> None | Some s \<Rightarrow> ps_armedAt s);
                st3 = st2\<lparr>statuses := jset pid
                  \<lparr>ps_status = Expired, ps_updatedAt = now, ps_detail = None, ps_armedAt = armedAt,
                   ps_probeVersion = None, ps_metadata = no_metadata\<rparr> (statuses st2)\<rparr> in
            (appendEvent \<lparr>ev_probeId = pid, ev_probeVersion = None, ev_ts = now,
               ev_body = StatusEvent Expired None no_metadata\<rparr> st3, n + 1)
          else (st, n)))"

definition expireDueProbes :: "int \<Rightarrow> broker \<Rightarrow> broker \<times> nat" where
  "expireDueProbes now st = fold (expire_step now) (jkeys (probes st)) (st, 0)"

subsection \<open>Compiling a request\<close>

record compiled_input =
  cp_conditionExpression :: "compiled_expression option"
  cp_body :: probe_body

definition http400 :: "string \<Rightarrow> broker_error" where
  "http400 message = HttpError 400 ''invalid_request'' message"

definition compile_or_400 :: "(expr_error, 'a) res \<Rightarrow> (broker_error, 'a) res" where
  "compile_or_400 r =
     (case r of Inl message \<Rightarrow> Err (HttpError 400 ''invalid_expression'' message) | Inr a \<Rightarrow> Ok a)"

definition compile_opt :: "env \<Rightarrow> string option \<Rightarrow> (broker_error, compiled_expression option) res" where
  "compile_opt env source =
     (case source of
        None \<Rightarrow> Ok None
      | Some s \<Rightarrow> bind_res (compile_or_400 (compileExpression (jsep env) s)) (\<lambda>e. Ok (Some e)))"

fun compile_body :: "env \<Rightarrow> create_body \<Rightarrow> (broker_error, probe_body) res" where
  "compile_body env (CreateSnapshot wp we sl fl) =
     (case we of
        None \<Rightarrow> Ok (SnapshotProbe wp None sl fl)
      | Some sources \<Rightarrow>
          bind_res (compile_or_400 (map_res (compileExpression (jsep env)) sources)) (\<lambda>es.
            Ok (SnapshotProbe wp (Some es) sl fl)))"
| "compile_body env (CreateLog template level) =
     bind_res (compile_or_400 (compileTemplate (jsep env) template)) (\<lambda>segs.
       Ok (LogProbe template level segs))"
| "compile_body env (CreateMetric path expr) =
     (if (path = None) = (expr = None)
      then Err (http400 ''metric probes require exactly one of metricPath or metricExpression'')
      else bind_res (compile_opt env expr) (\<lambda>e. Ok (MetricProbe path e)))"
| "compile_body env CreateCounter = Ok CounterProbe"

definition compileProbeInput :: "env \<Rightarrow> create_input \<Rightarrow> (broker_error, compiled_input) res" where
  "compileProbeInput env input =
     (if ci_condition input \<noteq> None \<and> ci_conditionExpression input \<noteq> None
      then Err (http400 ''condition and conditionExpression are mutually exclusive'')
      else bind_res (compile_opt env (ci_conditionExpression input)) (\<lambda>ce.
           bind_res (compile_body env (ci_body input)) (\<lambda>b.
             Ok \<lparr>cp_conditionExpression = ce, cp_body = b\<rparr>)))"

text \<open>The paths the native agent must capture, without duplicates.\<close>

definition nativeCapturePaths :: "create_input \<Rightarrow> string list" where
  "nativeCapturePaths input =
     js_set ((case ci_condition input of None \<Rightarrow> [] | Some c \<Rightarrow> [c_path c]) @
       (case ci_body input of
          CreateSnapshot wp _ _ _ \<Rightarrow> (case wp of None \<Rightarrow> [] | Some ps \<Rightarrow> ps)
        | CreateMetric path _ \<Rightarrow> (case path of None \<Rightarrow> [] | Some p \<Rightarrow> [p])
        | CreateLog template _ \<Rightarrow>
            map snd (match_all (\<lambda>c. c = CHR ''}'') (\<lambda>g. list_all (\<lambda>p. p \<noteq> []) (js_split CHR ''.'' g)) 0 template)
        | CreateCounter \<Rightarrow> []))"

fun body_has_expressions :: "probe_body \<Rightarrow> bool" where
  "body_has_expressions (SnapshotProbe _ we _ _) = (we \<noteq> None)"
| "body_has_expressions (LogProbe _ _ segs) = (segs \<noteq> None)"
| "body_has_expressions (MetricProbe _ e) = (e \<noteq> None)"
| "body_has_expressions CounterProbe = False"

definition requiresExpressionCapability :: "compiled_input \<Rightarrow> bool" where
  "requiresExpressionCapability cp \<longleftrightarrow>
     cp_conditionExpression cp \<noteq> None \<or> body_has_expressions (cp_body cp)"

subsection \<open>Creating a probe\<close>

text \<open>The first option of the request the native backend cannot serve, with its replacement.\<close>

definition nativeUnsupported :: "create_input \<Rightarrow> (string \<times> string) option" where
  "nativeUnsupported input =
     (if ci_conditionExpression input \<noteq> None then Some (''conditionExpression'', ''simple condition'')
      else (case ci_body input of
          CreateSnapshot _ we sl fl \<Rightarrow>
            if we \<noteq> None then Some (''watchExpressions'', ''watchPaths'')
            else if sl then Some (''includeStackLocals'', ''bounded watchPaths'')
            else if fl \<noteq> 3 then Some (''stackFrameLimit'', ''omit stack capture options'')
            else None
        | CreateMetric _ e \<Rightarrow> if e \<noteq> None then Some (''metricExpression'', ''metricPath'') else None
        | CreateCounter \<Rightarrow>
            if ci_condition input \<noteq> None then Some (''condition'', ''an unconditional counter'') else None
        | CreateLog _ level \<Rightarrow> if level \<noteq> LInfo then Some (''logLevel'', ''info'') else None))"

definition unsupported_by_backend :: "string \<Rightarrow> string \<Rightarrow> broker_error" where
  "unsupported_by_backend serviceId detail =
     HttpError 409 ''unsupported_by_backend'' (''native-ebpf service '' @ serviceId @ detail)"

definition native_create_error :: "create_input \<Rightarrow> broker_error option" where
  "native_create_error input =
     (case nativeUnsupported input of
        Some (what, use) \<Rightarrow>
          Some (unsupported_by_backend (ci_serviceId input) ('' does not support '' @ what @ ''; use '' @ use))
      | None \<Rightarrow>
          if (case ci_body input of CreateSnapshot wp _ _ _ \<Rightarrow> wp = None \<or> wp = Some [] | _ \<Rightarrow> False)
          then Some (unsupported_by_backend (ci_serviceId input) '' requires at least one bounded watchPath'')
          else let n = length (nativeCapturePaths input) in
            if NATIVE_MAX_CAPTURE_SLOTS < n
            then Some (unsupported_by_backend (ci_serviceId input)
              ('' requires '' @ show_nat n @ '' unique capture paths, but the native ABI supports at most '' @
                show_nat NATIVE_MAX_CAPTURE_SLOTS @ '' including condition paths''))
            else None)"

definition has_capability :: "service_record option \<Rightarrow> string \<Rightarrow> bool" where
  "has_capability service c \<longleftrightarrow>
     (case service of None \<Rightarrow> False
      | Some s \<Rightarrow> (case sr_capabilities s of None \<Rightarrow> False | Some caps \<Rightarrow> c \<in> set caps))"

definition upgrade_required :: "string \<Rightarrow> string \<Rightarrow> broker_error" where
  "upgrade_required serviceId c =
     HttpError 409 ''agent_upgrade_required'' (''service '' @ serviceId @ '' does not report '' @ c)"

definition capability_error ::
  "create_input \<Rightarrow> compiled_input \<Rightarrow> service_record option \<Rightarrow> broker_error option" where
  "capability_error input cp service =
     (if (case ci_body input of CreateLog _ level \<Rightarrow> level \<noteq> LInfo | _ \<Rightarrow> False) \<and>
         \<not> has_capability service ''log-levels-v1''
      then Some (upgrade_required (ci_serviceId input) ''log-levels-v1'')
      else if requiresExpressionCapability cp \<and> \<not> has_capability service ''expression-ast-v1''
      then Some (upgrade_required (ci_serviceId input) ''expression-ast-v1'')
      else if (case ci_body input of CreateSnapshot _ _ sl _ \<Rightarrow> sl | _ \<Rightarrow> False) \<and>
         \<not> has_capability service ''frame-locals-v1''
      then Some (upgrade_required (ci_serviceId input) ''frame-locals-v1'')
      else None)"

definition create_error ::
  "create_input \<Rightarrow> compiled_input \<Rightarrow> service_record option \<Rightarrow> broker_error option" where
  "create_error input cp service =
     (case (case service of None \<Rightarrow> None
            | Some s \<Rightarrow> if sr_backend s = Some NativeEbpf then native_create_error input else None) of
        Some e \<Rightarrow> Some e
      | None \<Rightarrow> capability_error input cp service)"

text \<open>
  The collision loop: \<open>attempt\<close> counts the collisions so far and candidate \<open>attempt\<close> is the
  value of \<^verbatim>\<open>id\<close> at the loop head.
\<close>

function pick_id :: "(nat \<Rightarrow> string) \<Rightarrow> broker \<Rightarrow> nat \<Rightarrow> (broker_error, string) res" where
  "pick_id gen st attempt =
     (if jhas (probes st) (gen attempt) then
        (if 10 \<le> attempt then Err (PlainError ''probe id generator repeatedly produced collisions'')
         else pick_id gen st (attempt + 1))
      else Ok (gen attempt))"
  by pat_completeness auto
termination
  by (relation "measure (\<lambda>(_, _, a). 11 - a)") auto

declare pick_id.simps [simp del]

text \<open>\<^verbatim>\<open>{ ...compiledInput, id, version }\<close>\<close>

definition assemble_probe :: "create_input \<Rightarrow> compiled_input \<Rightarrow> string \<Rightarrow> int \<Rightarrow> probe_definition" where
  "assemble_probe input cp pid version =
     \<lparr>pd_id = pid, pd_serviceId = ci_serviceId input, pd_sourceCommit = ci_sourceCommit input,
      pd_file = ci_file input, pd_line = ci_line input, pd_runtime = None,
      pd_condition = ci_condition input, pd_conditionExpression = cp_conditionExpression cp,
      pd_ttlSeconds = ci_ttlSeconds input, pd_hitLimit = ci_hitLimit input, pd_version = version,
      pd_createdBy = ci_createdBy input, pd_body = cp_body cp\<rparr>"

text \<open>\<^verbatim>\<open>now + probe.ttlSeconds * 1_000\<close> in double precision.\<close>

definition expires_at :: "int \<Rightarrow> int \<Rightarrow> int" where
  "expires_at now ttl =
     (case js_add (js_int now) (js_mult (js_int ttl) (js_int 1000)) of Fin q \<Rightarrow> \<lfloor>q\<rfloor> | _ \<Rightarrow> 0)"

definition createProbe ::
  "env \<Rightarrow> (nat \<Rightarrow> string) \<Rightarrow> int \<Rightarrow> create_input \<Rightarrow> resource_scope \<Rightarrow> broker \<Rightarrow>
    probe_definition broker_res" where
  "createProbe env gen now input scope st =
     (case compileProbeInput env input of
        Inl e \<Rightarrow> (st, Err e)
      | Inr cp \<Rightarrow>
          let st1 = refreshServiceCapabilities now scope (ci_serviceId input) st;
              service = jget (services st1) (serviceKey scope (ci_serviceId input)) in
          (case create_error input cp service of
             Some e \<Rightarrow> (st1, Err e)
           | None \<Rightarrow>
               (case pick_id gen st1 0 of
                  Inl e \<Rightarrow> (st1, Err e)
                | Inr pid \<Rightarrow>
                    if \<not> probeId_ok pid then (st1, Err (SchemaError ''invalid probe id''))
                    else let (st2, v) = incrementServiceVersion (ci_serviceId input) scope st1 in
                      (case probeDefinition_parse (assemble_probe input cp pid v) of
                         None \<Rightarrow> (st2, Err (SchemaError ''ProbeDefinitionSchema''))
                       | Some probe \<Rightarrow>
                           (st2\<lparr>probes := jset pid \<lparr>sp_scope = scope, sp_probe = probe,
                                  sp_expiresAt = expires_at now (pd_ttlSeconds probe),
                                  sp_expired = False\<rparr> (probes st2),
                                events := jset pid [] (events st2)\<rparr>, Ok probe)))))"

subsection \<open>Deleting a probe\<close>

definition deleteProbe :: "int \<Rightarrow> string \<Rightarrow> resource_scope \<Rightarrow> broker \<Rightarrow> broker \<times> bool" where
  "deleteProbe now pid scope st =
     (case jget (probes st) pid of
        None \<Rightarrow> (st, False)
      | Some stored \<Rightarrow>
          if \<not> sameResourceScope (sp_scope stored) scope then (st, False)
          else let
            st1 = (if sp_expired stored then st
                   else fst (incrementServiceVersion (pd_serviceId (sp_probe stored)) (sp_scope stored) st));
            st2 = st1\<lparr>probes := jdel pid (probes st1), events := jdel pid (events st1),
                      statuses := jdel pid (statuses st1),
                      recentlyRemovedProbes := jset pid now (recentlyRemovedProbes st1)\<rparr> in
            (signalActivity pid st2, True))"

definition pruneRemovedProbes :: "int \<Rightarrow> broker \<Rightarrow> broker" where
  "pruneRemovedProbes now st =
     st\<lparr>recentlyRemovedProbes :=
       filter (\<lambda>(_, removedAt). \<not> removedAt \<le> now - REMOVED_PROBE_GRACE_MS) (recentlyRemovedProbes st)\<rparr>"

subsection \<open>Reading probes\<close>

definition listProbes ::
  "int \<Rightarrow> string option \<Rightarrow> resource_scope \<Rightarrow> broker \<Rightarrow>
    broker \<times> (probe_definition \<times> probe_status option) list" where
  "listProbes now serviceId scope st =
     (let st1 = fst (expireDueProbes now st) in
      (st1, map (\<lambda>s. (sp_probe s, jget (statuses st1) (pd_id (sp_probe s))))
        (filter (\<lambda>s. sameResourceScope (sp_scope s) scope \<and>
            (case serviceId of None \<Rightarrow> True | Some sid \<Rightarrow> pd_serviceId (sp_probe s) = sid))
          (jvalues (probes st1)))))"

definition visible_probe :: "broker \<Rightarrow> string \<Rightarrow> resource_scope \<Rightarrow> probe_definition option" where
  "visible_probe st pid scope =
     (case jget (probes st) pid of
        None \<Rightarrow> None
      | Some s \<Rightarrow> if sameResourceScope (sp_scope s) scope then Some (sp_probe s) else None)"

definition getProbe :: "int \<Rightarrow> string \<Rightarrow> resource_scope \<Rightarrow> broker \<Rightarrow> broker \<times> probe_definition option" where
  "getProbe now pid scope st =
     (let st1 = fst (expireDueProbes now st) in (st1, visible_probe st1 pid scope))"

definition getEvents :: "int \<Rightarrow> string \<Rightarrow> resource_scope \<Rightarrow> broker \<Rightarrow> broker \<times> probe_event list" where
  "getEvents now pid scope st =
     (let (st1, p) = getProbe now pid scope st in
      (st1, case p of None \<Rightarrow> [] | Some _ \<Rightarrow> ring st1 pid))"

definition getStatus :: "int \<Rightarrow> string \<Rightarrow> resource_scope \<Rightarrow> broker \<Rightarrow> broker \<times> probe_status option" where
  "getStatus now pid scope st =
     (let (st1, p) = getProbe now pid scope st in
      (st1, case p of None \<Rightarrow> None | Some _ \<Rightarrow> jget (statuses st1) pid))"

definition withRuntimeLocation ::
  "env \<Rightarrow> string option \<Rightarrow> resource_scope \<Rightarrow> broker \<Rightarrow> probe_definition \<Rightarrow>
    (broker_error, probe_definition) res" where
  "withRuntimeLocation env commitSha scope st probe =
     (case commitSha of
        None \<Rightarrow> Ok probe
      | Some sha \<Rightarrow>
          (case jget (sourceMapSets st) (sourceMapKey scope (pd_serviceId probe) sha) of
             None \<Rightarrow> Ok probe
           | Some s \<Rightarrow>
               if \<not> ss_complete s then Ok probe
               else (case resolveSourceLocation env (jvalues (ss_maps s)) (pd_file probe) (pd_line probe) 0 of
                   None \<Rightarrow> Ok probe
                 | Some r \<Rightarrow>
                     (case probeDefinition_parse (probe\<lparr>pd_runtime := Some r\<rparr>) of
                        None \<Rightarrow> Err (SchemaError ''ProbeDefinitionSchema'')
                      | Some p \<Rightarrow> Ok p))))"

datatype poll_result = Unchanged int | PollProbes int "probe_definition list"

definition live_probes :: "broker \<Rightarrow> resource_scope \<Rightarrow> string \<Rightarrow> probe_definition list" where
  "live_probes st scope serviceId =
     map sp_probe (filter (\<lambda>s. sameResourceScope (sp_scope s) scope \<and>
         pd_serviceId (sp_probe s) = serviceId \<and> \<not> sp_expired s) (jvalues (probes st)))"

definition pollProbes ::
  "env \<Rightarrow> int \<Rightarrow> string \<Rightarrow> int \<Rightarrow> string option \<Rightarrow> resource_scope \<Rightarrow> broker \<Rightarrow> poll_result broker_res" where
  "pollProbes env now serviceId since commitSha scope st =
     (let st1 = fst (expireDueProbes now st);
          st2 = touchService now serviceId None None None None scope None st1;
          v = service_version st2 scope serviceId in
      if since = v then (st2, Ok (Unchanged v))
      else (st2, bind_res (map_res (withRuntimeLocation env commitSha scope st2)
                   (live_probes st2 scope serviceId)) (\<lambda>ps. Ok (PollProbes v ps))))"

subsection \<open>Ingestion\<close>

record ingest_input =
  ig_serviceId :: string
  ig_sdk :: sdk
  ig_agentId :: "string option"
  ig_commitSha :: string
  ig_commitSource :: "commit_source option"
  ig_capabilities :: "string list option"
  ig_agentStatus :: agent_status
  ig_events :: "probe_event list"

fun probe_type_name :: "probe_type \<Rightarrow> string" where
  "probe_type_name TSnapshot = ''snapshot''"
| "probe_type_name TLog = ''log''"
| "probe_type_name TCounter = ''counter''"
| "probe_type_name TMetric = ''metric''"

fun sdk_name :: "sdk \<Rightarrow> string" where
  "sdk_name Node = ''node''"
| "sdk_name Python = ''python''"
| "sdk_name Jvm = ''jvm''"

fun metric_inconsistent :: "event_body \<Rightarrow> bool" where
  "metric_inconsistent (MetricEvent c t mn mx l) \<longleftrightarrow>
     js_lt t (js_mult mn (js_int c)) \<or> js_lt (js_mult mx (js_int c)) t"
| "metric_inconsistent _ = False"

definition ingest_event_error :: "resource_scope \<Rightarrow> string \<Rightarrow> broker \<Rightarrow> probe_event \<Rightarrow> broker_error option" where
  "ingest_event_error scope serviceId st e =
     (case jget (probes st) (ev_probeId e) of
        None \<Rightarrow> Some (http400 (''event references unknown probe '' @ ev_probeId e))
      | Some stored \<Rightarrow>
          if \<not> sameResourceScope (sp_scope stored) scope
          then Some (http400 (''event references unknown probe '' @ ev_probeId e))
          else if pd_serviceId (sp_probe stored) \<noteq> serviceId
          then Some (http400 (''probe '' @ ev_probeId e @ '' does not belong to service '' @ serviceId))
          else (case event_type (ev_body e) of
              Some t \<Rightarrow>
                if t \<noteq> pd_type (sp_probe stored)
                then Some (http400 (''event type '' @ probe_type_name t @ '' does not match '' @
                  probe_type_name (pd_type (sp_probe stored)) @ '' probe''))
                else if metric_inconsistent (ev_body e)
                then Some (http400 ''metric sum is inconsistent with count, min, and max'')
                else None
            | None \<Rightarrow> None))"

fun first_error :: "('a \<Rightarrow> 'e option) \<Rightarrow> 'a list \<Rightarrow> 'e option" where
  "first_error f [] = None"
| "first_error f (x # xs) = (case f x of Some e \<Rightarrow> Some e | None \<Rightarrow> first_error f xs)"

definition ingest_event :: "probe_event \<Rightarrow> broker \<Rightarrow> broker" where
  "ingest_event e st =
     (let st1 = appendEvent e st in
      case ev_body e of
        StatusEvent s detail _ \<Rightarrow>
          let armedAt = (if s = Armed then Some (ev_ts e)
                else (case jget (statuses st1) (ev_probeId e) of None \<Rightarrow> None | Some p \<Rightarrow> ps_armedAt p)) in
          st1\<lparr>statuses := jset (ev_probeId e)
            \<lparr>ps_status = s, ps_updatedAt = ev_ts e, ps_detail = detail, ps_armedAt = armedAt,
             ps_probeVersion = None, ps_metadata = no_metadata\<rparr> (statuses st1)\<rparr>
      | _ \<Rightarrow> st1)"

definition ingest :: "int \<Rightarrow> ingest_input \<Rightarrow> resource_scope \<Rightarrow> broker \<Rightarrow> nat broker_res" where
  "ingest now input scope st =
     (let st1 = fst (expireDueProbes now st) in
      case first_error (ingest_event_error scope (ig_serviceId input) st1) (ig_events input) of
        Some e \<Rightarrow> (st1, Err e)
      | None \<Rightarrow>
          let agentId = (case ig_agentId input of Some a \<Rightarrow> a
                | None \<Rightarrow> ''legacy:'' @ sdk_name (ig_sdk input) @ '':'' @ ig_commitSha input);
              caps = (case ig_capabilities input of None \<Rightarrow> [] | Some c \<Rightarrow> c);
              (st2, common) = reportAgentCapabilities now scope (ig_serviceId input) agentId caps st1;
              st3 = touchService now (ig_serviceId input) (Some (ig_sdk input)) (Some (ig_agentStatus input))
                (Some (ig_commitSha input)) (ig_commitSource input) scope (Some common) st2 in
          (fold ingest_event (ig_events input) st3, Ok (length (ig_events input))))"

subsection \<open>Vocabulary of the lemmas\<close>

text \<open>A ring is the newest events of the whole history: pushing commutes with the truncation.\<close>

definition newest :: "nat \<Rightarrow> 'e list \<Rightarrow> 'e list" where
  "newest cap xs = drop (length xs - cap) xs"

definition due :: "int \<Rightarrow> stored_probe \<Rightarrow> bool" where
  "due now s \<longleftrightarrow> \<not> sp_expired s \<and> sp_expiresAt s \<le> now"

definition expire_stored :: "int \<Rightarrow> stored_probe \<Rightarrow> stored_probe" where
  "expire_stored now s = (if due now s then s\<lparr>sp_expired := True\<rparr> else s)"

definition expired_event :: "int \<Rightarrow> string \<Rightarrow> probe_event" where
  "expired_event now pid = \<lparr>ev_probeId = pid, ev_probeVersion = None, ev_ts = now,
     ev_body = StatusEvent Expired None no_metadata\<rparr>"

definition armed_at :: "broker \<Rightarrow> string \<Rightarrow> int option" where
  "armed_at st pid = (case jget (statuses st) pid of None \<Rightarrow> None | Some s \<Rightarrow> ps_armedAt s)"

definition expired_status :: "int \<Rightarrow> int option \<Rightarrow> probe_status" where
  "expired_status now t = \<lparr>ps_status = Expired, ps_updatedAt = now, ps_detail = None, ps_armedAt = t,
     ps_probeVersion = None, ps_metadata = no_metadata\<rparr>"

abbreviation sweep :: "int \<Rightarrow> broker \<Rightarrow> broker" where
  "sweep now st \<equiv> fst (expireDueProbes now st)"

text \<open>The probes are stored under their own identifiers.\<close>

definition probes_ok :: "broker \<Rightarrow> bool" where
  "probes_ok st \<longleftrightarrow> jwf (probes st) \<and> (\<forall>k s. jget (probes st) k = Some s \<longrightarrow> pd_id (sp_probe s) = k)"

definition due_at :: "int \<Rightarrow> broker \<Rightarrow> string \<Rightarrow> bool" where
  "due_at now st k \<longleftrightarrow> (case jget (probes st) k of None \<Rightarrow> False | Some s \<Rightarrow> due now s)"

text \<open>Whether the probe stored under a key belongs to a service of a scope.\<close>

definition owns :: "broker \<Rightarrow> resource_scope \<Rightarrow> string \<Rightarrow> string \<Rightarrow> bool" where
  "owns st scope sid k \<longleftrightarrow>
     (case jget (probes st) k of None \<Rightarrow> False
      | Some s \<Rightarrow> sp_scope s = scope \<and> pd_serviceId (sp_probe s) = sid)"

section \<open>Lemmas\<close>

subsection \<open>Frames\<close>

lemma fold_frame: "(\<And>x s. f (g x s) = f s) \<Longrightarrow> f (fold g xs s) = f s"
  by (induction xs arbitrary: s) simp_all

lemma fold_fst_frame:
  "(\<And>x s n. f (fst (g x (s, n))) = f s) \<Longrightarrow> f (fst (fold g xs sn)) = f (fst sn)"
  by (induction xs arbitrary: sn) (simp_all, metis prod.collapse)

lemma finish_frame [simp]:
  "probes (finish p l r st) = probes st"
  "serviceVersions (finish p l r st) = serviceVersions st"
  "events (finish p l r st) = events st"
  "services (finish p l r st) = services st"
  "agentCapabilityReports (finish p l r st) = agentCapabilityReports st"
  "statuses (finish p l r st) = statuses st"
  "sourceMapSets (finish p l r st) = sourceMapSets st"
  "sourceMapLeases (finish p l r st) = sourceMapLeases st"
  "nativeAgents (finish p l r st) = nativeAgents st"
  "nativeInstances (finish p l r st) = nativeInstances st"
  "nativeStatuses (finish p l r st) = nativeStatuses st"
  "recentlyRemovedProbes (finish p l r st) = recentlyRemovedProbes st"
  "nativeIngestHealth (finish p l r st) = nativeIngestHealth st"
  "nativeAssignmentVersions (finish p l r st) = nativeAssignmentVersions st"
  "ringCapacity (finish p l r st) = ringCapacity st"
  by (simp_all add: finish_def Let_def split: option.split)

lemma signalActivity_frame [simp]:
  "probes (signalActivity p st) = probes st"
  "serviceVersions (signalActivity p st) = serviceVersions st"
  "events (signalActivity p st) = events st"
  "services (signalActivity p st) = services st"
  "agentCapabilityReports (signalActivity p st) = agentCapabilityReports st"
  "statuses (signalActivity p st) = statuses st"
  "sourceMapSets (signalActivity p st) = sourceMapSets st"
  "sourceMapLeases (signalActivity p st) = sourceMapLeases st"
  "nativeAgents (signalActivity p st) = nativeAgents st"
  "nativeInstances (signalActivity p st) = nativeInstances st"
  "nativeStatuses (signalActivity p st) = nativeStatuses st"
  "recentlyRemovedProbes (signalActivity p st) = recentlyRemovedProbes st"
  "nativeIngestHealth (signalActivity p st) = nativeIngestHealth st"
  "nativeAssignmentVersions (signalActivity p st) = nativeAssignmentVersions st"
  "ringCapacity (signalActivity p st) = ringCapacity st"
  by (simp_all add: signalActivity_def fold_frame split: option.split)

lemma registerActivityListener_frame [simp]:
  "probes (registerActivityListener p t a l st) = probes st"
  "serviceVersions (registerActivityListener p t a l st) = serviceVersions st"
  "events (registerActivityListener p t a l st) = events st"
  "services (registerActivityListener p t a l st) = services st"
  "agentCapabilityReports (registerActivityListener p t a l st) = agentCapabilityReports st"
  "statuses (registerActivityListener p t a l st) = statuses st"
  "sourceMapSets (registerActivityListener p t a l st) = sourceMapSets st"
  "sourceMapLeases (registerActivityListener p t a l st) = sourceMapLeases st"
  "nativeAgents (registerActivityListener p t a l st) = nativeAgents st"
  "nativeInstances (registerActivityListener p t a l st) = nativeInstances st"
  "nativeStatuses (registerActivityListener p t a l st) = nativeStatuses st"
  "recentlyRemovedProbes (registerActivityListener p t a l st) = recentlyRemovedProbes st"
  "nativeIngestHealth (registerActivityListener p t a l st) = nativeIngestHealth st"
  "nativeAssignmentVersions (registerActivityListener p t a l st) = nativeAssignmentVersions st"
  "ringCapacity (registerActivityListener p t a l st) = ringCapacity st"
  by (simp_all add: registerActivityListener_def Let_def)

lemma appendEvent_frame [simp]:
  "probes (appendEvent e st) = probes st"
  "serviceVersions (appendEvent e st) = serviceVersions st"
  "services (appendEvent e st) = services st"
  "agentCapabilityReports (appendEvent e st) = agentCapabilityReports st"
  "statuses (appendEvent e st) = statuses st"
  "sourceMapSets (appendEvent e st) = sourceMapSets st"
  "sourceMapLeases (appendEvent e st) = sourceMapLeases st"
  "nativeAgents (appendEvent e st) = nativeAgents st"
  "nativeInstances (appendEvent e st) = nativeInstances st"
  "nativeStatuses (appendEvent e st) = nativeStatuses st"
  "recentlyRemovedProbes (appendEvent e st) = recentlyRemovedProbes st"
  "nativeIngestHealth (appendEvent e st) = nativeIngestHealth st"
  "nativeAssignmentVersions (appendEvent e st) = nativeAssignmentVersions st"
  "ringCapacity (appendEvent e st) = ringCapacity st"
  by (simp_all add: appendEvent_def)

lemma bumpNativeAssignmentVersion_frame [simp]:
  "probes (bumpNativeAssignmentVersion s a st) = probes st"
  "serviceVersions (bumpNativeAssignmentVersion s a st) = serviceVersions st"
  "events (bumpNativeAssignmentVersion s a st) = events st"
  "services (bumpNativeAssignmentVersion s a st) = services st"
  "agentCapabilityReports (bumpNativeAssignmentVersion s a st) = agentCapabilityReports st"
  "statuses (bumpNativeAssignmentVersion s a st) = statuses st"
  "sourceMapSets (bumpNativeAssignmentVersion s a st) = sourceMapSets st"
  "sourceMapLeases (bumpNativeAssignmentVersion s a st) = sourceMapLeases st"
  "nativeAgents (bumpNativeAssignmentVersion s a st) = nativeAgents st"
  "nativeInstances (bumpNativeAssignmentVersion s a st) = nativeInstances st"
  "nativeStatuses (bumpNativeAssignmentVersion s a st) = nativeStatuses st"
  "recentlyRemovedProbes (bumpNativeAssignmentVersion s a st) = recentlyRemovedProbes st"
  "nativeIngestHealth (bumpNativeAssignmentVersion s a st) = nativeIngestHealth st"
  "listeners (bumpNativeAssignmentVersion s a st) = listeners st"
  "resolved (bumpNativeAssignmentVersion s a st) = resolved st"
  "ringCapacity (bumpNativeAssignmentVersion s a st) = ringCapacity st"
  by (simp_all add: bumpNativeAssignmentVersion_def Let_def)

lemma incrementServiceVersion_frame [simp]:
  "probes (fst (incrementServiceVersion sid s st)) = probes st"
  "events (fst (incrementServiceVersion sid s st)) = events st"
  "services (fst (incrementServiceVersion sid s st)) = services st"
  "agentCapabilityReports (fst (incrementServiceVersion sid s st)) = agentCapabilityReports st"
  "statuses (fst (incrementServiceVersion sid s st)) = statuses st"
  "sourceMapSets (fst (incrementServiceVersion sid s st)) = sourceMapSets st"
  "sourceMapLeases (fst (incrementServiceVersion sid s st)) = sourceMapLeases st"
  "nativeAgents (fst (incrementServiceVersion sid s st)) = nativeAgents st"
  "nativeInstances (fst (incrementServiceVersion sid s st)) = nativeInstances st"
  "nativeStatuses (fst (incrementServiceVersion sid s st)) = nativeStatuses st"
  "recentlyRemovedProbes (fst (incrementServiceVersion sid s st)) = recentlyRemovedProbes st"
  "nativeIngestHealth (fst (incrementServiceVersion sid s st)) = nativeIngestHealth st"
  "listeners (fst (incrementServiceVersion sid s st)) = listeners st"
  "resolved (fst (incrementServiceVersion sid s st)) = resolved st"
  "ringCapacity (fst (incrementServiceVersion sid s st)) = ringCapacity st"
  by (simp_all add: incrementServiceVersion_def Let_def fold_frame)

lemma reportAgentCapabilities_frame [simp]:
  "probes (fst (reportAgentCapabilities now s sid a c st)) = probes st"
  "serviceVersions (fst (reportAgentCapabilities now s sid a c st)) = serviceVersions st"
  "events (fst (reportAgentCapabilities now s sid a c st)) = events st"
  "services (fst (reportAgentCapabilities now s sid a c st)) = services st"
  "statuses (fst (reportAgentCapabilities now s sid a c st)) = statuses st"
  "sourceMapSets (fst (reportAgentCapabilities now s sid a c st)) = sourceMapSets st"
  "sourceMapLeases (fst (reportAgentCapabilities now s sid a c st)) = sourceMapLeases st"
  "nativeAgents (fst (reportAgentCapabilities now s sid a c st)) = nativeAgents st"
  "nativeInstances (fst (reportAgentCapabilities now s sid a c st)) = nativeInstances st"
  "nativeStatuses (fst (reportAgentCapabilities now s sid a c st)) = nativeStatuses st"
  "recentlyRemovedProbes (fst (reportAgentCapabilities now s sid a c st)) = recentlyRemovedProbes st"
  "nativeIngestHealth (fst (reportAgentCapabilities now s sid a c st)) = nativeIngestHealth st"
  "nativeAssignmentVersions (fst (reportAgentCapabilities now s sid a c st)) = nativeAssignmentVersions st"
  "listeners (fst (reportAgentCapabilities now s sid a c st)) = listeners st"
  "resolved (fst (reportAgentCapabilities now s sid a c st)) = resolved st"
  "ringCapacity (fst (reportAgentCapabilities now s sid a c st)) = ringCapacity st"
  by (simp_all add: reportAgentCapabilities_def Let_def case_prod_beta)

lemma refreshServiceCapabilities_frame [simp]:
  "probes (refreshServiceCapabilities now s sid st) = probes st"
  "serviceVersions (refreshServiceCapabilities now s sid st) = serviceVersions st"
  "events (refreshServiceCapabilities now s sid st) = events st"
  "statuses (refreshServiceCapabilities now s sid st) = statuses st"
  "sourceMapSets (refreshServiceCapabilities now s sid st) = sourceMapSets st"
  "sourceMapLeases (refreshServiceCapabilities now s sid st) = sourceMapLeases st"
  "nativeAgents (refreshServiceCapabilities now s sid st) = nativeAgents st"
  "nativeInstances (refreshServiceCapabilities now s sid st) = nativeInstances st"
  "nativeStatuses (refreshServiceCapabilities now s sid st) = nativeStatuses st"
  "recentlyRemovedProbes (refreshServiceCapabilities now s sid st) = recentlyRemovedProbes st"
  "nativeIngestHealth (refreshServiceCapabilities now s sid st) = nativeIngestHealth st"
  "nativeAssignmentVersions (refreshServiceCapabilities now s sid st) = nativeAssignmentVersions st"
  "listeners (refreshServiceCapabilities now s sid st) = listeners st"
  "resolved (refreshServiceCapabilities now s sid st) = resolved st"
  "ringCapacity (refreshServiceCapabilities now s sid st) = ringCapacity st"
  by (simp_all add: refreshServiceCapabilities_def Let_def case_prod_beta split: option.split)

lemma touchService_frame [simp]:
  "probes (touchService now sid k a c cs s caps st) = probes st"
  "serviceVersions (touchService now sid k a c cs s caps st) = serviceVersions st"
  "events (touchService now sid k a c cs s caps st) = events st"
  "agentCapabilityReports (touchService now sid k a c cs s caps st) = agentCapabilityReports st"
  "statuses (touchService now sid k a c cs s caps st) = statuses st"
  "sourceMapSets (touchService now sid k a c cs s caps st) = sourceMapSets st"
  "sourceMapLeases (touchService now sid k a c cs s caps st) = sourceMapLeases st"
  "nativeAgents (touchService now sid k a c cs s caps st) = nativeAgents st"
  "nativeInstances (touchService now sid k a c cs s caps st) = nativeInstances st"
  "nativeStatuses (touchService now sid k a c cs s caps st) = nativeStatuses st"
  "recentlyRemovedProbes (touchService now sid k a c cs s caps st) = recentlyRemovedProbes st"
  "nativeIngestHealth (touchService now sid k a c cs s caps st) = nativeIngestHealth st"
  "nativeAssignmentVersions (touchService now sid k a c cs s caps st) = nativeAssignmentVersions st"
  "listeners (touchService now sid k a c cs s caps st) = listeners st"
  "resolved (touchService now sid k a c cs s caps st) = resolved st"
  "ringCapacity (touchService now sid k a c cs s caps st) = ringCapacity st"
  by (simp_all add: touchService_def Let_def)

lemma expire_step_frame [simp]:
  "services (fst (expire_step now k (st, n))) = services st"
  "agentCapabilityReports (fst (expire_step now k (st, n))) = agentCapabilityReports st"
  "sourceMapSets (fst (expire_step now k (st, n))) = sourceMapSets st"
  "sourceMapLeases (fst (expire_step now k (st, n))) = sourceMapLeases st"
  "nativeAgents (fst (expire_step now k (st, n))) = nativeAgents st"
  "nativeInstances (fst (expire_step now k (st, n))) = nativeInstances st"
  "nativeStatuses (fst (expire_step now k (st, n))) = nativeStatuses st"
  "recentlyRemovedProbes (fst (expire_step now k (st, n))) = recentlyRemovedProbes st"
  "nativeIngestHealth (fst (expire_step now k (st, n))) = nativeIngestHealth st"
  "ringCapacity (fst (expire_step now k (st, n))) = ringCapacity st"
  by (simp_all add: expire_step_def Let_def split: option.split)

lemma expireDueProbes_frame [simp]:
  "services (fst (expireDueProbes now st)) = services st"
  "agentCapabilityReports (fst (expireDueProbes now st)) = agentCapabilityReports st"
  "sourceMapSets (fst (expireDueProbes now st)) = sourceMapSets st"
  "sourceMapLeases (fst (expireDueProbes now st)) = sourceMapLeases st"
  "nativeAgents (fst (expireDueProbes now st)) = nativeAgents st"
  "nativeInstances (fst (expireDueProbes now st)) = nativeInstances st"
  "nativeStatuses (fst (expireDueProbes now st)) = nativeStatuses st"
  "recentlyRemovedProbes (fst (expireDueProbes now st)) = recentlyRemovedProbes st"
  "nativeIngestHealth (fst (expireDueProbes now st)) = nativeIngestHealth st"
  "ringCapacity (fst (expireDueProbes now st)) = ringCapacity st"
  by (simp_all add: expireDueProbes_def fold_fst_frame)

lemma ingest_event_frame [simp]:
  "probes (ingest_event e st) = probes st"
  "serviceVersions (ingest_event e st) = serviceVersions st"
  "services (ingest_event e st) = services st"
  "agentCapabilityReports (ingest_event e st) = agentCapabilityReports st"
  "sourceMapSets (ingest_event e st) = sourceMapSets st"
  "sourceMapLeases (ingest_event e st) = sourceMapLeases st"
  "nativeAgents (ingest_event e st) = nativeAgents st"
  "nativeInstances (ingest_event e st) = nativeInstances st"
  "nativeStatuses (ingest_event e st) = nativeStatuses st"
  "recentlyRemovedProbes (ingest_event e st) = recentlyRemovedProbes st"
  "nativeIngestHealth (ingest_event e st) = nativeIngestHealth st"
  "nativeAssignmentVersions (ingest_event e st) = nativeAssignmentVersions st"
  "ringCapacity (ingest_event e st) = ringCapacity st"
  by (simp_all add: ingest_event_def Let_def split: event_body.split)

lemma pruneRemovedProbes_frame [simp]:
  "probes (pruneRemovedProbes now st) = probes st"
  "serviceVersions (pruneRemovedProbes now st) = serviceVersions st"
  "events (pruneRemovedProbes now st) = events st"
  "services (pruneRemovedProbes now st) = services st"
  "agentCapabilityReports (pruneRemovedProbes now st) = agentCapabilityReports st"
  "statuses (pruneRemovedProbes now st) = statuses st"
  "sourceMapSets (pruneRemovedProbes now st) = sourceMapSets st"
  "sourceMapLeases (pruneRemovedProbes now st) = sourceMapLeases st"
  "nativeAgents (pruneRemovedProbes now st) = nativeAgents st"
  "nativeInstances (pruneRemovedProbes now st) = nativeInstances st"
  "nativeStatuses (pruneRemovedProbes now st) = nativeStatuses st"
  "nativeIngestHealth (pruneRemovedProbes now st) = nativeIngestHealth st"
  "nativeAssignmentVersions (pruneRemovedProbes now st) = nativeAssignmentVersions st"
  "listeners (pruneRemovedProbes now st) = listeners st"
  "resolved (pruneRemovedProbes now st) = resolved st"
  "ringCapacity (pruneRemovedProbes now st) = ringCapacity st"
  by (simp_all add: pruneRemovedProbes_def)

subsection \<open>Listeners\<close>

lemma waiting_finish [simp]:
  "waiting (finish p l r st) q = (if q = p then remove1 l (waiting st p) else waiting st q)"
  by (auto simp: waiting_def finish_def Let_def remove1_idem split: option.split)

lemma waiting_fold_finish:
  "waiting (fold (\<lambda>l. finish p l r) ls st) q = (if q = p then fold remove1 ls (waiting st p) else waiting st q)"
  by (induction ls arbitrary: st) simp_all

lemma fold_remove1_self: "fold remove1 xs xs = []"
  by (induction xs) simp_all

lemma waiting_signalActivity [simp]:
  "waiting (signalActivity p st) q = (if q = p then [] else waiting st q)"
proof (cases "jget (listeners st) p")
  case None
  then show ?thesis by (simp add: signalActivity_def waiting_def)
next
  case (Some ls)
  then have "waiting st p = ls" by (simp add: waiting_def)
  with Some show ?thesis by (simp add: signalActivity_def waiting_fold_finish fold_remove1_self)
qed

lemma resolved_finish: "l \<in> set (waiting st p) \<Longrightarrow> resolved (finish p l r st) = resolved st @ [(l, r)]"
  by (cases "jget (listeners st) p") (simp_all add: finish_def waiting_def Let_def)

lemma resolved_fold_finish:
  "distinct ls \<Longrightarrow> set ls \<subseteq> set (waiting st p) \<Longrightarrow> distinct (waiting st p) \<Longrightarrow>
   resolved (fold (\<lambda>l. finish p l r) ls st) = resolved st @ map (\<lambda>l. (l, r)) ls"
proof (induction ls arbitrary: st)
  case (Cons l ls)
  then have "set ls \<subseteq> set (waiting (finish p l r st) p)" by auto
  with Cons show ?case by (simp add: resolved_finish)
qed simp

lemma resolved_signalActivity:
  "distinct (waiting st p) \<Longrightarrow>
   resolved (signalActivity p st) = resolved st @ map (\<lambda>l. (l, Activity)) (waiting st p)"
proof (cases "jget (listeners st) p")
  case None
  then show ?thesis by (simp add: signalActivity_def waiting_def)
next
  case (Some ls)
  then have "waiting st p = ls" by (simp add: waiting_def)
  moreover assume "distinct (waiting st p)"
  ultimately show ?thesis using Some by (simp add: signalActivity_def resolved_fold_finish)
qed

subsection \<open>Rings\<close>

lemma ring_push_bound: "0 < cap \<Longrightarrow> length (ring_push cap b e) \<le> cap"
  by (auto simp: ring_push_def Let_def)

lemma ring_push_nonempty: "0 < cap \<Longrightarrow> ring_push cap b e \<noteq> []"
  by (simp add: ring_push_def Let_def)

lemma ring_push_set: "set (ring_push cap b e) \<subseteq> insert e (set b)"
  using set_drop_subset [of "length (b @ [e]) - cap" "b @ [e]"] by (simp add: ring_push_def Let_def)

lemma ring_push_last: "0 < cap \<Longrightarrow> last (ring_push cap b e) = e"
  by (simp add: ring_push_def Let_def last_drop)

interpretation event_ring: lossy_queue "\<lambda>_. True" "\<lambda>e b. ring_push cap b e" "\<lambda>b. b" "\<lambda>_. True" for cap
  by unfold_locales (simp_all add: ring_push_def Let_def suffix_drop del: drop_append suffix_snoc)

lemma ring_push_newest: "ring_push cap (newest cap xs) e = newest cap (xs @ [e])"
  by (cases "length xs < cap") (auto simp: ring_push_def newest_def Let_def Suc_diff_le not_less)

lemma ring_frame: "events st' = events st \<Longrightarrow> ring st' p = ring st p"
  by (simp add: ring_def)

lemma ring_signalActivity [simp]: "ring (signalActivity p st) q = ring st q"
  by (simp add: ring_def)

lemma ring_appendEvent [simp]:
  "ring (appendEvent e st) p =
   (if p = ev_probeId e then ring_push (ringCapacity st) (ring st p) e else ring st p)"
  by (simp add: appendEvent_def) (simp add: ring_def)

lemma waiting_frame: "listeners st' = listeners st \<Longrightarrow> waiting st' p = waiting st p"
  by (simp add: waiting_def)

lemma waiting_appendEvent [simp]:
  "waiting (appendEvent e st) p = (if p = ev_probeId e then [] else waiting st p)"
  by (simp add: appendEvent_def) (simp add: waiting_def)

lemma events_appendEvent:
  "events (appendEvent e st) =
     jset (ev_probeId e) (ring_push (ringCapacity st) (ring st (ev_probeId e)) e) (events st)"
  by (simp add: appendEvent_def)

subsection \<open>Versions\<close>

lemma service_version_frame: "serviceVersions st' = serviceVersions st \<Longrightarrow> service_version st' s sid = service_version st s sid"
  by (simp add: service_version_def)

lemma serviceVersions_increment:
  "serviceVersions (fst (incrementServiceVersion sid s st)) =
   jset (serviceKey s sid) \<lparr>sv_scope = s, sv_serviceId = sid, sv_version = service_version st s sid + 1\<rparr> (serviceVersions st)"
  by (simp add: incrementServiceVersion_def Let_def fold_frame)

lemma snd_increment [simp]: "snd (incrementServiceVersion sid s st) = service_version st s sid + 1"
  by (simp add: incrementServiceVersion_def Let_def)

lemma service_version_increment [simp]:
  "service_version (fst (incrementServiceVersion sid s st)) s' sid' =
   (if s' = s \<and> sid' = sid then service_version st s sid + 1 else service_version st s' sid')"
proof -
  have "service_version (fst (incrementServiceVersion sid s st)) s' sid' =
     (case jget (serviceVersions (fst (incrementServiceVersion sid s st))) (serviceKey s' sid') of
        None \<Rightarrow> 0 | Some v \<Rightarrow> sv_version v)" by (simp only: service_version_def)
  also have "\<dots> = (if s' = s \<and> sid' = sid then service_version st s sid + 1 else service_version st s' sid')"
    by (auto simp: serviceVersions_increment serviceKey_inj service_version_def)
  finally show ?thesis .
qed

subsection \<open>Expiry, one probe at a time\<close>

lemma jget_map_val: "jget (map (\<lambda>(k, v). (k, f k v)) m) k = map_option (f k) (jget m k)"
  by (induction m) auto

lemma jset_present: "jwf m \<Longrightarrow> jget m k = Some w \<Longrightarrow> jset k v m = map (\<lambda>(k', v'). (k', if k' = k then v else v')) m"
proof (induction m)
  case (Cons p m)
  then show ?case
    by (cases p) (auto split: if_splits simp: map_idI image_iff intro!: map_idI [symmetric])
qed simp

lemma keys_map_val [simp]: "map (fst \<circ> (\<lambda>(k, v). (k, f k v))) m = jkeys m"
  by (induction m) auto

lemma probes_okD: "probes_ok st \<Longrightarrow> jget (probes st) k = Some s \<Longrightarrow> pd_id (sp_probe s) = k"
  by (simp add: probes_ok_def)

lemma expire_step_not_due: "\<not> due_at now st k \<Longrightarrow> expire_step now k (st, n) = (st, n)"
  by (auto simp: expire_step_def due_at_def due_def split: option.splits)

lemma expire_step_due:
  assumes "jget (probes st) k = Some s" "due now s" "pd_id (sp_probe s) = k"
  defines "st2 \<equiv> fst (incrementServiceVersion (pd_serviceId (sp_probe s)) (sp_scope s)
      (st\<lparr>probes := jset k (s\<lparr>sp_expired := True\<rparr>) (probes st)\<rparr>))"
  shows "expire_step now k (st, n) =
    (appendEvent (expired_event now k) (st2\<lparr>statuses := jset k (expired_status now (armed_at st k)) (statuses st)\<rparr>), n + 1)"
  using assms by (simp add: expire_step_def Let_def due_def expired_event_def expired_status_def armed_at_def st2_def)

lemma step_probes:
  assumes "probes_ok st"
  shows "probes (fst (expire_step now k (st, n))) =
    map (\<lambda>(k', s). (k', if k' = k then expire_stored now s else s)) (probes st)"
proof (cases "due_at now st k")
  case False
  have "(if k' = k then expire_stored now s else s) = s" if "(k', s) \<in> set (probes st)" for k' s
    using that False assms by (auto simp: due_at_def expire_stored_def probes_ok_def)
  then have "map (\<lambda>(k', s). (k', if k' = k then expire_stored now s else s)) (probes st) = probes st"
    by (intro map_idI) auto
  then show ?thesis by (simp add: expire_step_not_due [OF False])
next
  case True
  then obtain s where s: "jget (probes st) k = Some s" "due now s" by (auto simp: due_at_def split: option.splits)
  note e = expire_step_due [OF s probes_okD [OF assms s(1)]]
  have "probes (fst (expire_step now k (st, n))) = jset k (s\<lparr>sp_expired := True\<rparr>) (probes st)"
    by (simp add: e)
  also have "\<dots> = map (\<lambda>(k', s'). (k', if k' = k then s\<lparr>sp_expired := True\<rparr> else s')) (probes st)"
    using assms s by (intro jset_present) (auto simp: probes_ok_def)
  also have "\<dots> = map (\<lambda>(k', s). (k', if k' = k then expire_stored now s else s)) (probes st)"
  proof (rule map_cong)
    fix x assume x: "x \<in> set (probes st)"
    have "snd x = s" if "fst x = k"
      using x that s(1) assms by (metis map_of_is_SomeI option.inject probes_ok_def prod.collapse)
    then show "(case x of (k', s') \<Rightarrow> (k', if k' = k then s\<lparr>sp_expired := True\<rparr> else s')) =
      (case x of (k', s) \<Rightarrow> (k', if k' = k then expire_stored now s else s))"
      using s(2) by (cases x) (simp add: expire_stored_def)
  qed simp
  finally show ?thesis .
qed

lemma due_atE:
  assumes "due_at now st k"
  obtains s where "jget (probes st) k = Some s" "due now s"
  using assms by (auto simp: due_at_def split: option.splits)

lemma step_ring:
  assumes "probes_ok st"
  shows "ring (fst (expire_step now k (st, n))) p =
    (if p = k \<and> due_at now st k then ring_push (ringCapacity st) (ring st k) (expired_event now k) else ring st p)"
proof (cases "due_at now st k")
  case True
  then obtain s where s: "jget (probes st) k = Some s" "due now s" by (rule due_atE)
  show ?thesis
    by (simp add: expire_step_due [OF s probes_okD [OF assms s(1)]] True) (simp add: ring_def expired_event_def)
qed (simp add: expire_step_not_due)

lemma step_statuses:
  assumes "probes_ok st"
  shows "jget (statuses (fst (expire_step now k (st, n)))) p =
    (if p = k \<and> due_at now st k then Some (expired_status now (armed_at st k)) else jget (statuses st) p)"
proof (cases "due_at now st k")
  case True
  then obtain s where s: "jget (probes st) k = Some s" "due now s" by (rule due_atE)
  show ?thesis by (simp add: expire_step_due [OF s probes_okD [OF assms s(1)]] True)
qed (simp add: expire_step_not_due)

lemma step_waiting:
  assumes "probes_ok st"
  shows "waiting (fst (expire_step now k (st, n))) p = (if p = k \<and> due_at now st k then [] else waiting st p)"
proof (cases "due_at now st k")
  case True
  then obtain s where s: "jget (probes st) k = Some s" "due now s" by (rule due_atE)
  show ?thesis
    by (simp add: expire_step_due [OF s probes_okD [OF assms s(1)]] True expired_event_def) (simp add: waiting_def)
qed (simp add: expire_step_not_due)

lemma step_version:
  assumes "probes_ok st"
  shows "service_version (fst (expire_step now k (st, n))) s0 sid =
    service_version st s0 sid + (if due_at now st k \<and> owns st s0 sid k then 1 else 0)"
proof (cases "due_at now st k")
  case True
  then obtain s where s: "jget (probes st) k = Some s" "due now s" by (rule due_atE)
  have "service_version (fst (expire_step now k (st, n))) s0 sid =
    service_version (fst (incrementServiceVersion (pd_serviceId (sp_probe s)) (sp_scope s)
      (st\<lparr>probes := jset k (s\<lparr>sp_expired := True\<rparr>) (probes st)\<rparr>))) s0 sid"
    by (rule service_version_frame) (simp add: expire_step_due [OF s probes_okD [OF assms s(1)]])
  then show ?thesis using True s by (auto simp: owns_def) (auto simp: service_version_def)
qed (simp add: expire_step_not_due)

lemma step_count: "snd (expire_step now k (st, n)) = n + (if due_at now st k then 1 else 0)"
  by (auto simp: expire_step_def due_at_def due_def Let_def split: option.splits)

lemma probes_ok_map:
  assumes "probes_ok st" "probes st' = map (\<lambda>(k, s). (k, f k s)) (probes st)"
    "\<And>k s. sp_probe (f k s) = sp_probe s"
  shows "probes_ok st'"
  using assms by (auto simp: probes_ok_def jget_map_val)

subsection \<open>The sweep, as a whole\<close>

lemma expire_stored_simps [simp]:
  "sp_probe (expire_stored now s) = sp_probe s" "sp_scope (expire_stored now s) = sp_scope s"
  "sp_expiresAt (expire_stored now s) = sp_expiresAt s"
  "sp_expired (expire_stored now s) \<longleftrightarrow> sp_expired s \<or> sp_expiresAt s \<le> now"
  "\<not> due now (expire_stored now s)"
  by (auto simp: expire_stored_def due_def)

lemma fold_expire:
  assumes "probes_ok st" "distinct ks"
  shows "probes (fst (fold (expire_step now) ks (st, n))) =
      map (\<lambda>(k, s). (k, if k \<in> set ks then expire_stored now s else s)) (probes st) \<and>
    (\<forall>p. ring (fst (fold (expire_step now) ks (st, n))) p =
      (if p \<in> set ks \<and> due_at now st p then ring_push (ringCapacity st) (ring st p) (expired_event now p) else ring st p)) \<and>
    (\<forall>p. jget (statuses (fst (fold (expire_step now) ks (st, n)))) p =
      (if p \<in> set ks \<and> due_at now st p then Some (expired_status now (armed_at st p)) else jget (statuses st) p)) \<and>
    (\<forall>p. waiting (fst (fold (expire_step now) ks (st, n))) p =
      (if p \<in> set ks \<and> due_at now st p then [] else waiting st p)) \<and>
    (\<forall>s sid. service_version (fst (fold (expire_step now) ks (st, n))) s sid =
      service_version st s sid + int (length (filter (\<lambda>k. due_at now st k \<and> owns st s sid k) ks))) \<and>
    snd (fold (expire_step now) ks (st, n)) = n + length (filter (due_at now st) ks)"
  using assms(2)
proof (induction ks rule: rev_induct)
  case Nil
  have "(case x of (k, s) \<Rightarrow> (k, s)) = x" for x :: "string \<times> stored_probe" by (cases x) simp
  then show ?case by simp
next
  case (snoc k ks)
  obtain st1 n1 where f: "fold (expire_step now) ks (st, n) = (st1, n1)" by fastforce
  from snoc have k: "k \<notin> set ks" and d: "distinct ks" by auto
  note ih = snoc.IH [OF d, unfolded f fst_conv snd_conv]
  have ok1: "probes_ok st1" by (rule probes_ok_map [OF assms(1) ih [THEN conjunct1]]) simp
  have get: "jget (probes st1) k = jget (probes st) k" using ih k by (simp add: jget_map_val option.map_ident)
  have due1: "due_at now st1 k = due_at now st k" by (simp add: due_at_def get)
  have own1: "owns st1 s sid k = owns st s sid k" for s sid by (simp add: owns_def get)
  have cap: "ringCapacity st1 = ringCapacity st"
    using fold_fst_frame [of ringCapacity "expire_step now" ks "(st, n)"] f by simp
  have armed: "armed_at st1 k = armed_at st k" using ih k by (simp add: armed_at_def)
  have e: "fold (expire_step now) (ks @ [k]) (st, n) = expire_step now k (st1, n1)" by (simp add: f)
  have "(if k' = k then expire_stored now (if k' \<in> set ks then expire_stored now s else s)
      else if k' \<in> set ks then expire_stored now s else s) =
    (if k' \<in> set (ks @ [k]) then expire_stored now s else s)" for k' s using k by auto
  then have p: "probes (fst (expire_step now k (st1, n1))) =
      map (\<lambda>(k', s). (k', if k' \<in> set (ks @ [k]) then expire_stored now s else s)) (probes st)"
    using ih by (simp add: step_probes [OF ok1] case_prod_beta o_def)
  show ?case unfolding e p
    using ih k by (auto simp: step_ring [OF ok1] step_statuses [OF ok1] step_waiting [OF ok1]
        step_version [OF ok1] step_count due1 own1 cap armed)
qed

lemma sweep_as_fold: "expireDueProbes now st = fold (expire_step now) (jkeys (probes st)) (st, 0)"
  by (simp add: expireDueProbes_def)

lemma due_at_key: "due_at now st p \<Longrightarrow> p \<in> set (jkeys (probes st))"
  by (auto simp: due_at_def dest!: map_of_SomeD split: option.splits) (metis fst_conv image_eqI)

lemma sweep_facts:
  assumes "probes_ok st"
  shows sweep_probes: "probes (sweep now st) = map (\<lambda>(k, s). (k, expire_stored now s)) (probes st)"
    and sweep_ring: "ring (sweep now st) p =
      (if due_at now st p then ring_push (ringCapacity st) (ring st p) (expired_event now p) else ring st p)"
    and sweep_statuses: "jget (statuses (sweep now st)) p =
      (if due_at now st p then Some (expired_status now (armed_at st p)) else jget (statuses st) p)"
    and sweep_waiting: "waiting (sweep now st) p = (if due_at now st p then [] else waiting st p)"
    and sweep_version: "service_version (sweep now st) s sid = service_version st s sid +
      int (length (filter (\<lambda>k. due_at now st k \<and> owns st s sid k) (jkeys (probes st))))"
    and sweep_count: "snd (expireDueProbes now st) = length (filter (due_at now st) (jkeys (probes st)))"
proof -
  have "distinct (jkeys (probes st))" using assms by (simp add: probes_ok_def)
  note f = fold_expire [OF assms this, of now 0, folded sweep_as_fold]
  have "map (\<lambda>(k, s). (k, if k \<in> set (jkeys (probes st)) then expire_stored now s else s)) (probes st) =
      map (\<lambda>(k, s). (k, expire_stored now s)) (probes st)"
    by (rule map_cong) force+
  with f show "probes (sweep now st) = map (\<lambda>(k, s). (k, expire_stored now s)) (probes st)" by simp
  have mem: "p \<in> set (jkeys (probes st)) \<and> due_at now st p \<longleftrightarrow> due_at now st p" for p using due_at_key by blast
  note g = f [unfolded mem]
  note rest = g [THEN conjunct2]
  show "ring (sweep now st) p =
      (if due_at now st p then ring_push (ringCapacity st) (ring st p) (expired_event now p) else ring st p)"
    by (rule rest [THEN conjunct1, THEN spec])
  show "jget (statuses (sweep now st)) p =
      (if due_at now st p then Some (expired_status now (armed_at st p)) else jget (statuses st) p)"
    by (rule rest [THEN conjunct2, THEN conjunct1, THEN spec])
  show "waiting (sweep now st) p = (if due_at now st p then [] else waiting st p)"
    by (rule rest [THEN conjunct2, THEN conjunct2, THEN conjunct1, THEN spec])
  show "service_version (sweep now st) s sid = service_version st s sid +
      int (length (filter (\<lambda>k. due_at now st k \<and> owns st s sid k) (jkeys (probes st))))"
    by (rule rest [THEN conjunct2, THEN conjunct2, THEN conjunct2, THEN conjunct1, THEN spec, THEN spec])
  show "snd (expireDueProbes now st) = length (filter (due_at now st) (jkeys (probes st)))"
    using rest by simp
qed

lemma expire_idle:
  assumes "\<And>p. \<not> due_at now st p"
  shows "expireDueProbes now st = (st, 0)"
proof -
  have "fold (expire_step now) ks (st, n) = (st, n)" for ks n
    by (induction ks arbitrary: n) (simp_all add: expire_step_not_due [OF assms])
  then show ?thesis by (simp add: expireDueProbes_def)
qed

lemma probes_ok_sweep: "probes_ok st \<Longrightarrow> probes_ok (sweep now st)"
  by (rule probes_ok_map [where st = st, OF _ sweep_probes]) simp_all

lemma due_at_sweep: "probes_ok st \<Longrightarrow> now' \<le> now \<Longrightarrow> \<not> due_at now' (sweep now st) p"
  by (auto simp: due_at_def sweep_probes jget_map_val due_def split: option.splits)

lemma sweep_idem: "probes_ok st \<Longrightarrow> now' \<le> now \<Longrightarrow> expireDueProbes now' (sweep now st) = (sweep now st, 0)"
  by (rule expire_idle) (rule due_at_sweep)

lemma expires_at_exact:
  assumes "\<bar>ttl * 1000\<bar> \<le> 2 ^ 53" "\<bar>now + ttl * 1000\<bar> \<le> 2 ^ 53"
  shows "expires_at now ttl = now + ttl * 1000"
proof -
  have m: "js_mult (js_int ttl) (js_int 1000) = js_int (ttl * 1000)" using assms(1) by (rule js_mult_int)
  have a: "js_add (js_int now) (js_int (ttl * 1000)) = js_int (now + ttl * 1000)" using assms(2) by (rule js_add_int)
  show ?thesis unfolding expires_at_def m a by (simp only: jsnum.case floor_of_int)
qed

end
