(* ===== verification/Broker_Invariant.thy ===== *)
theory Broker_Invariant
  imports Broker_Probes
begin

text \<open>
  The invariant of the broker state and its preservation by the probe life cycle: probes are
  stored under their own identifiers; every probe has a ring and every ring a probe; rings are
  bounded and hold the events of their own probe; a listener waits only on an empty ring; probe
  versions never exceed the version of their service; services and source-map sets are stored
  under their own keys; a completed source-map set has no upload lease.
\<close>

section \<open>Definitions\<close>

definition rings_ok :: "broker \<Rightarrow> bool" where
  "rings_ok st \<longleftrightarrow> 0 < ringCapacity st \<and> jwf (events st) \<and>
     (\<forall>k. jhas (events st) k \<longleftrightarrow> jhas (probes st) k) \<and>
     (\<forall>k. length (ring st k) \<le> ringCapacity st \<and> (\<forall>e \<in> set (ring st k). ev_probeId e = k))"

definition statuses_ok :: "broker \<Rightarrow> bool" where
  "statuses_ok st \<longleftrightarrow> jwf (statuses st) \<and> (\<forall>k. jhas (statuses st) k \<longrightarrow> jhas (probes st) k)"

definition listeners_ok :: "broker \<Rightarrow> bool" where
  "listeners_ok st \<longleftrightarrow> (\<forall>p. distinct (waiting st p) \<and> (waiting st p \<noteq> [] \<longrightarrow> ring st p = []))"

definition versions_ok :: "broker \<Rightarrow> bool" where
  "versions_ok st \<longleftrightarrow>
     (\<forall>k v. jget (serviceVersions st) k = Some v \<longrightarrow>
        k = serviceKey (sv_scope v) (sv_serviceId v) \<and> 0 < sv_version v) \<and>
     (\<forall>k s. jget (probes st) k = Some s \<longrightarrow> 0 < pd_version (sp_probe s) \<and>
        pd_version (sp_probe s) \<le> service_version st (sp_scope s) (pd_serviceId (sp_probe s)))"

definition services_ok :: "broker \<Rightarrow> bool" where
  "services_ok st \<longleftrightarrow> jwf (services st) \<and>
     (\<forall>k s. jget (services st) k = Some s \<longrightarrow> k = serviceKey (sr_scope s) (sr_serviceId s))"

definition maps_ok :: "broker \<Rightarrow> bool" where
  "maps_ok st \<longleftrightarrow> jwf (sourceMapSets st) \<and> jwf (sourceMapLeases st) \<and>
     (\<forall>k s. jget (sourceMapSets st) k = Some s \<longrightarrow>
        k = sourceMapKey (ss_scope s) (ss_serviceId s) (ss_commitSha s) \<and> nul \<notin> set (ss_commitSha s)) \<and>
     (\<forall>k s. jget (sourceMapSets st) k = Some s \<longrightarrow> ss_complete s \<longrightarrow> \<not> jhas (sourceMapLeases st) k)"

definition broker_inv :: "broker \<Rightarrow> bool" where
  "broker_inv st \<longleftrightarrow> probes_ok st \<and> rings_ok st \<and> statuses_ok st \<and> listeners_ok st \<and>
     versions_ok st \<and> services_ok st \<and> maps_ok st"

section \<open>Lemmas\<close>

lemmas inv_defs = broker_inv_def probes_ok_def rings_ok_def statuses_ok_def listeners_ok_def
  versions_ok_def services_ok_def maps_ok_def

lemma broker_invD:
  assumes "broker_inv st"
  shows "probes_ok st" "rings_ok st" "statuses_ok st" "listeners_ok st" "versions_ok st"
    "services_ok st" "maps_ok st"
  using assms by (simp_all add: broker_inv_def)

lemma service_version_nonneg: "versions_ok st \<Longrightarrow> 0 \<le> service_version st s sid"
  by (fastforce simp: versions_ok_def service_version_def split: option.splits)

text \<open>The invariant depends only on the fields it reads.\<close>

lemma broker_inv_frame:
  assumes "broker_inv st" "probes st' = probes st" "events st' = events st" "statuses st' = statuses st"
    "listeners st' = listeners st" "serviceVersions st' = serviceVersions st" "services st' = services st"
    "sourceMapSets st' = sourceMapSets st" "sourceMapLeases st' = sourceMapLeases st"
    "ringCapacity st' = ringCapacity st"
  shows "broker_inv st'"
proof -
  have "ring st' = ring st" "waiting st' = waiting st" "service_version st' = service_version st"
    using assms(2-) by (auto simp: fun_eq_iff ring_def waiting_def service_version_def)
  then show ?thesis using assms by (simp add: inv_defs)
qed

subsubsection \<open>Primitive state changes\<close>

lemma inv_appendEvent:
  assumes "broker_inv st" "jhas (probes st) (ev_probeId e)"
  shows "broker_inv (appendEvent e st)"
proof -
  note i = broker_invD [OF assms(1)]
  have r: "rings_ok (appendEvent e st)"
    using i(2) assms(2) ring_push_set [of "ringCapacity st" "ring st (ev_probeId e)" e]
    by (auto simp: rings_ok_def events_appendEvent ring_push_bound)
  have "listeners_ok (appendEvent e st)" using i(4) by (simp add: listeners_ok_def)
  moreover have "service_version (appendEvent e st) = service_version st"
    by (simp add: fun_eq_iff service_version_def)
  ultimately show ?thesis using i r
    by (simp add: broker_inv_def probes_ok_def statuses_ok_def versions_ok_def services_ok_def maps_ok_def)
qed

lemma inv_increment:
  assumes "broker_inv st"
  shows "broker_inv (fst (incrementServiceVersion sid s st))"
proof -
  note i = broker_invD [OF assms]
  let ?st = "fst (incrementServiceVersion sid s st)"
  have "ring ?st = ring st" "waiting ?st = waiting st" by (auto simp: ring_def waiting_def)
  moreover have "versions_ok ?st"
    using i(5) service_version_nonneg [OF i(5), of s sid]
    by (fastforce simp: versions_ok_def serviceVersions_increment)
  ultimately show ?thesis using i
    by (simp add: broker_inv_def rings_ok_def listeners_ok_def probes_ok_def statuses_ok_def services_ok_def maps_ok_def)
qed

lemma inv_set_status:
  assumes "broker_inv st" "jhas (probes st) p"
  shows "broker_inv (st\<lparr>statuses := jset p v (statuses st)\<rparr>)"
proof -
  let ?st = "st\<lparr>statuses := jset p v (statuses st)\<rparr>"
  have "ring ?st = ring st" "waiting ?st = waiting st" "service_version ?st = service_version st"
    by (auto simp: fun_eq_iff ring_def waiting_def service_version_def)
  with assms show ?thesis by (auto simp: inv_defs)
qed

lemma inv_mark_expired:
  assumes "broker_inv st" "jget (probes st) p = Some s"
  shows "broker_inv (st\<lparr>probes := jset p (s\<lparr>sp_expired := b\<rparr>) (probes st)\<rparr>)"
proof -
  let ?st = "st\<lparr>probes := jset p (s\<lparr>sp_expired := b\<rparr>) (probes st)\<rparr>"
  have "ring ?st = ring st" "waiting ?st = waiting st" "service_version ?st = service_version st"
    by (auto simp: fun_eq_iff ring_def waiting_def service_version_def)
  moreover have "jhas (probes ?st) k = jhas (probes st) k" for k using assms(2) by (auto simp: jhas_def)
  ultimately show ?thesis using assms by (auto simp: inv_defs)
qed

lemma inv_expire_step:
  assumes "broker_inv st"
  shows "broker_inv (fst (expire_step now k (st, n)))"
proof (cases "due_at now st k")
  case True
  then obtain s where s: "jget (probes st) k = Some s" "due now s" by (rule due_atE)
  have "broker_inv (st\<lparr>probes := jset k (s\<lparr>sp_expired := True\<rparr>) (probes st)\<rparr>)"
    using assms s(1) by (rule inv_mark_expired)
  from inv_increment [OF this, of "pd_serviceId (sp_probe s)" "sp_scope s"]
  show ?thesis
    unfolding expire_step_due [OF s probes_okD [OF broker_invD(1) [OF assms] s(1)]] fst_conv
    using inv_set_status [of "fst (incrementServiceVersion (pd_serviceId (sp_probe s)) (sp_scope s)
        (st\<lparr>probes := jset k (s\<lparr>sp_expired := True\<rparr>) (probes st)\<rparr>))" k "expired_status now (armed_at st k)"]
    by (intro inv_appendEvent) (simp_all add: expired_event_def)
qed (simp add: expire_step_not_due assms)

lemma inv_sweep: "broker_inv st \<Longrightarrow> broker_inv (sweep now st)"
proof -
  have "broker_inv (fst sn) \<Longrightarrow> broker_inv (fst (fold (expire_step now) ks sn))" for ks sn
  proof (induction ks arbitrary: sn)
    case (Cons k ks)
    then show ?case using inv_expire_step [of "fst sn" now k "snd sn"] by simp
  qed simp
  then show "broker_inv st \<Longrightarrow> broker_inv (sweep now st)" by (simp add: expireDueProbes_def)
qed

text \<open>Replacing the services by ones stored under their own keys.\<close>

lemma inv_set_services:
  assumes "broker_inv st" "jwf m" "\<And>k s. jget m k = Some s \<Longrightarrow> k = serviceKey (sr_scope s) (sr_serviceId s)"
  shows "broker_inv (st\<lparr>services := m\<rparr>)"
proof -
  let ?st = "st\<lparr>services := m\<rparr>"
  have "ring ?st = ring st" "waiting ?st = waiting st" "service_version ?st = service_version st"
    by (auto simp: fun_eq_iff ring_def waiting_def service_version_def)
  with assms show ?thesis by (auto simp: inv_defs)
qed

lemma inv_set_reports: "broker_inv st \<Longrightarrow> broker_inv (st\<lparr>agentCapabilityReports := m\<rparr>)"
  by (rule broker_inv_frame [where st = st]) simp_all

lemma services_okD: "services_ok st \<Longrightarrow> jget (services st) k = Some s \<Longrightarrow> k = serviceKey (sr_scope s) (sr_serviceId s)"
  by (simp add: services_ok_def)

lemma inv_put_service:
  assumes "broker_inv st"
  shows "broker_inv (st\<lparr>services := jset (serviceKey (sr_scope s) (sr_serviceId s)) s (services st)\<rparr>)"
  using assms broker_invD(6) [OF assms]
  by (intro inv_set_services) (auto simp: services_ok_def split: if_splits)

lemma inv_refresh:
  assumes "broker_inv st"
  shows "broker_inv (refreshServiceCapabilities now s sid st)"
proof (cases "jget (services st) (serviceKey s sid)")
  case (Some v)
  have k: "serviceKey s sid = serviceKey (sr_scope v) (sr_serviceId v)"
    using services_okD [OF broker_invD(6) [OF assms] Some] .
  have "broker_inv (st\<lparr>services := jset (serviceKey s sid) (v\<lparr>sr_capabilities := c\<rparr>) (services st)\<rparr>)" for c
    using inv_put_service [OF assms, of "v\<lparr>sr_capabilities := c\<rparr>"] by (simp add: k)
  note put = this
  have "services (refreshServiceCapabilities now s sid st) =
      services (st\<lparr>services := jset (serviceKey s sid) (v\<lparr>sr_capabilities := Some (case jget (agentCapabilityReports st) (serviceKey s sid) of
        None \<Rightarrow> [] | Some r \<Rightarrow> snd (activeCapabilityIntersection now r))\<rparr>) (services st)\<rparr>)"
    using Some by (auto simp: refreshServiceCapabilities_def Let_def split: option.split prod.split)
  then show ?thesis by (rule broker_inv_frame [OF put, rotated 5]) simp_all
qed (simp add: refreshServiceCapabilities_def assms)

lemma inv_touch: "broker_inv st \<Longrightarrow> broker_inv (touchService now sid k a c cs s caps st)"
  unfolding touchService_def Let_def
  by (rule inv_put_service [where s = "\<lparr>sr_scope = s, sr_serviceId = sid, sr_lastSeen = _, sr_sdk = _,
      sr_commitSha = _, sr_commitSource = _, sr_capabilities = _, sr_agentStatus = _, sr_backend = _,
      sr_language = _, sr_instanceCount = _, sr_buildIds = _, sr_nativeLimitations = _\<rparr>", simplified])

lemma inv_report: "broker_inv st \<Longrightarrow> broker_inv (fst (reportAgentCapabilities now s sid a c st))"
  by (simp add: reportAgentCapabilities_def Let_def case_prod_beta inv_set_reports)

subsubsection \<open>Listeners\<close>

lemma inv_listeners:
  assumes "broker_inv st" "\<And>p. distinct (waiting st' p)" "\<And>p. waiting st' p \<noteq> [] \<Longrightarrow> ring st p = []"
    "probes st' = probes st" "events st' = events st" "statuses st' = statuses st"
    "serviceVersions st' = serviceVersions st" "services st' = services st"
    "sourceMapSets st' = sourceMapSets st" "sourceMapLeases st' = sourceMapLeases st"
    "ringCapacity st' = ringCapacity st"
  shows "broker_inv st'"
proof -
  have "ring st' = ring st" "service_version st' = service_version st"
    using assms(4-) by (auto simp: fun_eq_iff ring_def service_version_def)
  then show ?thesis using assms by (simp add: inv_defs)
qed

lemma remove1_nonempty: "remove1 x xs \<noteq> [] \<Longrightarrow> xs \<noteq> []"
  by auto

lemma inv_finish: "broker_inv st \<Longrightarrow> broker_inv (finish p l r st)"
  by (rule inv_listeners [where st = st])
    (auto dest!: broker_invD(4) remove1_nonempty simp: listeners_ok_def split: if_splits)

lemma inv_register:
  assumes "broker_inv st" "\<And>p. l \<notin> set (waiting st p)"
  shows "broker_inv (registerActivityListener p t a l st)"
proof -
  let ?st1 = "st\<lparr>listeners := jset p (waiting st p @ [l]) (listeners st)\<rparr>"
  have w1: "waiting ?st1 q = (if q = p then waiting st p @ [l] else waiting st q)" for q
    by (simp add: waiting_def)
  have r1: "ring ?st1 q = ring st q" for q by (simp add: ring_def)
  have rf: "ring (finish p l x ?st1) q = ring st q" for x q by (simp add: ring_def)
  have lo: "distinct (waiting st q)" "waiting st q \<noteq> [] \<Longrightarrow> ring st q = []" for q
    using broker_invD(4) [OF assms(1)] by (auto simp: listeners_ok_def)
  show ?thesis
  proof (rule inv_listeners [OF assms(1)])
    fix q
    show "distinct (waiting (registerActivityListener p t a l st) q)"
      using assms(2) [of p] lo(1)
      by (auto simp: registerActivityListener_def Let_def w1 remove1_append) (auto simp: waiting_def)
    show "waiting (registerActivityListener p t a l st) q \<noteq> [] \<Longrightarrow> ring st q = []"
      using assms(2) [of p] lo(2) [of q]
      by (auto simp: registerActivityListener_def Let_def w1 r1 rf remove1_append split: if_splits)
         (auto simp: waiting_def)
  qed simp_all
qed

subsubsection \<open>Creating and deleting\<close>

lemma pick_id_fresh: "pick_id gen st a = Ok pid \<Longrightarrow> \<not> jhas (probes st) pid"
  by (induction gen st a rule: pick_id.induct) (subst (asm) (2) pick_id.simps, auto split: if_splits)

lemma inv_add_probe:
  assumes "broker_inv st" "\<not> jhas (probes st) pid" "pd_id (sp_probe s) = pid"
    "0 < pd_version (sp_probe s)"
    "pd_version (sp_probe s) \<le> service_version st (sp_scope s) (pd_serviceId (sp_probe s))"
  shows "broker_inv (st\<lparr>probes := jset pid s (probes st), events := jset pid [] (events st)\<rparr>)"
proof -
  let ?st = "st\<lparr>probes := jset pid s (probes st), events := jset pid [] (events st)\<rparr>"
  note i = broker_invD [OF assms(1)]
  have r: "ring ?st q = (if q = pid then [] else ring st q)" for q by (simp add: ring_def)
  have w: "waiting ?st = waiting st" "service_version ?st = service_version st"
    by (auto simp: fun_eq_iff waiting_def service_version_def)
  have "rings_ok ?st" using i(2) by (auto simp: rings_ok_def r)
  moreover have "listeners_ok ?st" using i(4) by (auto simp: listeners_ok_def w r)
  moreover have "versions_ok ?st" using i(5) assms(4,5) by (auto simp: versions_ok_def w)
  ultimately show ?thesis using i assms(3) by (auto simp: broker_inv_def probes_ok_def statuses_ok_def services_ok_def maps_ok_def)
qed

lemma probeDefinition_parse_Some:
  assumes "probeDefinition_parse p = Some q"
  shows "pd_id q = pd_id p" "pd_version q = pd_version p" "pd_serviceId q = js_trim (pd_serviceId p)"
    "probeId_ok (pd_id p)" "positive_int (pd_version p)" "pd_ttlSeconds q = pd_ttlSeconds p"
    "pd_line q = pd_line p" "pd_hitLimit q = pd_hitLimit p"
  using assms by (auto simp: probeDefinition_parse_def serviceId_parse_def trimmed_Some split: option.splits if_splits)

text \<open>What a successful creation did, step by step.\<close>

lemma createProbe_OkE:
  assumes "createProbe env gen now input scope st = (st', Ok p)"
  obtains cp st1 where
    "compileProbeInput env input = Ok cp"
    "st1 = refreshServiceCapabilities now scope (ci_serviceId input) st"
    "create_error input cp (jget (services st1) (serviceKey scope (ci_serviceId input))) = None"
    "pick_id gen st1 0 = Ok (pd_id p)" "\<not> jhas (probes st) (pd_id p)" "probeId_ok (pd_id p)"
    "probeDefinition_parse (assemble_probe input cp (pd_id p)
       (service_version st scope (ci_serviceId input) + 1)) = Some p"
    "st' = (fst (incrementServiceVersion (ci_serviceId input) scope st1))
       \<lparr>probes := jset (pd_id p) \<lparr>sp_scope = scope, sp_probe = p,
          sp_expiresAt = expires_at now (pd_ttlSeconds p), sp_expired = False\<rparr> (probes st),
        events := jset (pd_id p) [] (events st)\<rparr>"
proof -
  let ?st1 = "refreshServiceCapabilities now scope (ci_serviceId input) st"
  from assms obtain cp pid where c:
    "compileProbeInput env input = Ok cp"
    "create_error input cp (jget (services ?st1) (serviceKey scope (ci_serviceId input))) = None"
    "pick_id gen ?st1 0 = Ok pid" "probeId_ok pid"
    by (auto simp: createProbe_def Let_def split: sum.splits option.splits if_splits prod.splits)
  have v: "service_version ?st1 scope (ci_serviceId input) = service_version st scope (ci_serviceId input)"
    by (simp add: service_version_def)
  from assms c v have d: "probeDefinition_parse (assemble_probe input cp pid
       (service_version st scope (ci_serviceId input) + 1)) = Some p"
    "st' = (fst (incrementServiceVersion (ci_serviceId input) scope ?st1))
       \<lparr>probes := jset pid \<lparr>sp_scope = scope, sp_probe = p,
          sp_expiresAt = expires_at now (pd_ttlSeconds p), sp_expired = False\<rparr> (probes st),
        events := jset pid [] (events st)\<rparr>"
    by (auto simp: createProbe_def Let_def case_prod_beta split: option.splits)
  have "pd_id p = pid" using probeDefinition_parse_Some(1) [OF d(1)] by (simp add: assemble_probe_def)
  with c d pick_id_fresh [OF c(3)] show ?thesis by (intro that [of cp ?st1]) simp_all
qed

text \<open>A failed creation leaves the state after the capability refresh, or one version later.\<close>

lemma createProbe_ErrE:
  assumes "createProbe env gen now input scope st = (st', Err e)"
  obtains "st' = st" "compileProbeInput env input = Err e"
  | "st' = refreshServiceCapabilities now scope (ci_serviceId input) st"
  | cp pid where "st' = fst (incrementServiceVersion (ci_serviceId input) scope
       (refreshServiceCapabilities now scope (ci_serviceId input) st))"
     "compileProbeInput env input = Ok cp"
     "probeDefinition_parse (assemble_probe input cp pid (service_version st scope (ci_serviceId input) + 1)) = None"
proof -
  have v: "service_version (refreshServiceCapabilities now scope (ci_serviceId input) st) scope (ci_serviceId input) =
      service_version st scope (ci_serviceId input)" by (simp add: service_version_def)
  show ?thesis using assms that v
    by (auto simp: createProbe_def Let_def case_prod_beta split: sum.splits option.splits if_splits)
qed

lemma inv_createProbe:
  assumes "broker_inv st" "js_trim (ci_serviceId input) = ci_serviceId input"
  shows "broker_inv (fst (createProbe env gen now input scope st))"
proof -
  obtain st' r where e: "createProbe env gen now input scope st = (st', r)" by fastforce
  show ?thesis
  proof (cases r)
    case (Inl err)
    from e [unfolded this] show ?thesis
      by (cases rule: createProbe_ErrE) (simp_all add: e assms inv_refresh inv_increment)
  next
    case (Inr p)
    from e [unfolded this] obtain cp st1 where c:
      "st1 = refreshServiceCapabilities now scope (ci_serviceId input) st" "\<not> jhas (probes st) (pd_id p)"
      "probeDefinition_parse (assemble_probe input cp (pd_id p)
       (service_version st scope (ci_serviceId input) + 1)) = Some p"
      "st' = (fst (incrementServiceVersion (ci_serviceId input) scope st1))
       \<lparr>probes := jset (pd_id p) \<lparr>sp_scope = scope, sp_probe = p,
          sp_expiresAt = expires_at now (pd_ttlSeconds p), sp_expired = False\<rparr> (probes st),
        events := jset (pd_id p) [] (events st)\<rparr>"
      by (cases rule: createProbe_OkE)
    note q = probeDefinition_parse_Some [OF c(3)]
    have "broker_inv (fst (incrementServiceVersion (ci_serviceId input) scope st1))"
      unfolding c(1) using assms(1) by (intro inv_increment inv_refresh)
    moreover have "service_version st1 scope (ci_serviceId input) = service_version st scope (ci_serviceId input)"
      by (simp add: c(1) service_version_def)
    ultimately have "broker_inv st'"
      unfolding c(4) using c(1,2) q service_version_nonneg [OF broker_invD(5) [OF assms(1)], of scope "ci_serviceId input"] assms(2)
        inv_add_probe [of "fst (incrementServiceVersion (ci_serviceId input) scope st1)" "pd_id p"
          "\<lparr>sp_scope = scope, sp_probe = p, sp_expiresAt = expires_at now (pd_ttlSeconds p), sp_expired = False\<rparr>"]
      by (simp add: assemble_probe_def)
    then show ?thesis by (simp add: e)
  qed
qed

lemma inv_deleteProbe:
  assumes "broker_inv st"
  shows "broker_inv (fst (deleteProbe now pid scope st))"
proof -
  have base: "broker_inv (signalActivity pid (st1\<lparr>probes := jdel pid (probes st1), events := jdel pid (events st1),
      statuses := jdel pid (statuses st1), recentlyRemovedProbes := m\<rparr>))" if "broker_inv st1" for st1 m
  proof -
    let ?st = "signalActivity pid (st1\<lparr>probes := jdel pid (probes st1), events := jdel pid (events st1),
      statuses := jdel pid (statuses st1), recentlyRemovedProbes := m\<rparr>)"
    note i = broker_invD [OF that]
    have r: "ring (st1\<lparr>probes := jdel pid (probes st1), events := jdel pid (events st1),
      statuses := jdel pid (statuses st1), recentlyRemovedProbes := m\<rparr>) q = (if q = pid then [] else ring st1 q)" for q
      by (simp add: ring_def)
    have w: "waiting (st1\<lparr>probes := jdel pid (probes st1), events := jdel pid (events st1),
      statuses := jdel pid (statuses st1), recentlyRemovedProbes := m\<rparr>) q = waiting st1 q" for q
      by (simp add: waiting_def)
    have v: "service_version ?st = service_version st1" by (simp add: fun_eq_iff service_version_def)
    have "rings_ok ?st" using i(2) by (auto simp: rings_ok_def r)
    moreover have "listeners_ok ?st" using i(4) by (auto simp: listeners_ok_def w r)
    moreover have "versions_ok ?st" using i(5) by (auto simp: versions_ok_def v)
    ultimately show ?thesis using i by (auto simp: broker_inv_def probes_ok_def statuses_ok_def services_ok_def maps_ok_def)
  qed
  show ?thesis using base [OF assms] base [OF inv_increment [OF assms]] assms
    by (auto simp: deleteProbe_def Let_def split: option.split)
qed

subsubsection \<open>Ingestion\<close>

lemma inv_ingest_event:
  assumes "broker_inv st" "jhas (probes st) (ev_probeId e)"
  shows "broker_inv (ingest_event e st)"
  using inv_appendEvent [OF assms] inv_set_status [OF inv_appendEvent [OF assms]] assms(2)
  by (auto simp: ingest_event_def Let_def split: event_body.split)

lemma inv_fold_events:
  assumes "broker_inv st" "\<And>e. e \<in> set es \<Longrightarrow> jhas (probes st) (ev_probeId e)"
    "\<And>e s. probes (f e s) = probes s"
    "\<And>e s. broker_inv s \<Longrightarrow> jhas (probes s) (ev_probeId e) \<Longrightarrow> broker_inv (f e s)"
  shows "broker_inv (fold f es st)"
  using assms(1,2)
proof (induction es arbitrary: st)
  case (Cons e es)
  have "broker_inv (f e st)" using Cons.prems assms(4) by simp
  moreover have "jhas (probes (f e st)) (ev_probeId e')" if "e' \<in> set es" for e'
    using Cons.prems(2) that by (simp add: assms(3))
  ultimately show ?case using Cons.IH by simp
qed simp

lemma first_error_None: "first_error f xs = None \<longleftrightarrow> (\<forall>x \<in> set xs. f x = None)"
  by (induction xs) (auto split: option.splits)

lemma ingest_event_error_None:
  assumes "ingest_event_error scope sid st e = None"
  obtains s where "jget (probes st) (ev_probeId e) = Some s" "sp_scope s = scope" "pd_serviceId (sp_probe s) = sid"
    "event_type (ev_body e) = None \<or> event_type (ev_body e) = Some (pd_type (sp_probe s))"
    "\<not> metric_inconsistent (ev_body e)"
  using assms by (cases "ev_body e") (auto simp: ingest_event_error_def split: option.splits if_splits)

lemma inv_ingest:
  assumes "broker_inv st"
  shows "broker_inv (fst (ingest now input scope st))"
proof (cases "first_error (ingest_event_error scope (ig_serviceId input) (sweep now st)) (ig_events input)")
  case (Some e)
  then show ?thesis by (simp add: ingest_def Let_def inv_sweep assms)
next
  case None
  have has: "jhas (probes (sweep now st)) (ev_probeId e)" if "e \<in> set (ig_events input)" for e
  proof -
    have "ingest_event_error scope (ig_serviceId input) (sweep now st) e = None"
      using None that by (simp add: first_error_None)
    then show ?thesis by (rule ingest_event_error_None) (simp add: jhas_def)
  qed
  show ?thesis
    unfolding ingest_def Let_def None option.case case_prod_beta fst_conv
    by (rule inv_fold_events) (simp_all add: has inv_touch inv_report inv_sweep assms inv_ingest_event)
qed

end
