(* ===== verification/Broker_Source_Maps.thy ===== *)
theory Broker_Source_Maps
  imports Broker_Invariant
begin

text \<open>
  The source-map uploads of \<^verbatim>\<open>BrokerState\<close>: one agent at a time holds the lease for a commit of
  a service, uploads its maps and completes the set; the five most recent sets of a service are
  kept.
\<close>

section \<open>Definitions\<close>

definition LEASE_MS :: int where "LEASE_MS = 120000"

record upload_input =
  ui_serviceId :: string
  ui_commitSha :: string
  ui_uploaderId :: string
  ui_mapPath :: string
  ui_map :: json

datatype upload_role = Uploader | Waiting | Complete
  \<comment> \<open>\<^verbatim>\<open>{isUploader, isComplete}\<close>: (true, false), (false, false), (false, true)\<close>

definition sourceMapStatus ::
  "int \<Rightarrow> string \<Rightarrow> string \<Rightarrow> string \<Rightarrow> resource_scope \<Rightarrow> broker \<Rightarrow> broker \<times> upload_role" where
  "sourceMapStatus now serviceId commitSha uploaderId scope st =
     (let key = sourceMapKey scope serviceId commitSha;
          s = jget (sourceMapSets st) key; lease = jget (sourceMapLeases st) key in
      if (case s of None \<Rightarrow> False | Some s \<Rightarrow> ss_complete s) then (st, Complete)
      else if (case lease of None \<Rightarrow> True
               | Some l \<Rightarrow> le_expiresAt l \<le> now \<or> le_uploaderId l = uploaderId) then
        let sets = (case s of
                None \<Rightarrow> sourceMapSets st
              | Some s \<Rightarrow>
                  if (case lease of None \<Rightarrow> True | Some l \<Rightarrow> le_uploaderId l \<noteq> uploaderId)
                  then jset key (s\<lparr>ss_maps := [], ss_updatedAt := now\<rparr>) (sourceMapSets st)
                  else sourceMapSets st) in
        (st\<lparr>sourceMapSets := sets,
            sourceMapLeases := jset key \<lparr>le_uploaderId = uploaderId, le_expiresAt = now + LEASE_MS\<rparr>
              (sourceMapLeases st)\<rparr>, Uploader)
      else (st, Waiting))"

text \<open>A successful check also renews the lease.\<close>

definition assertSourceMapUploader ::
  "int \<Rightarrow> string \<Rightarrow> string \<Rightarrow> string \<Rightarrow> resource_scope \<Rightarrow> broker \<Rightarrow> unit broker_res" where
  "assertSourceMapUploader now serviceId commitSha uploaderId scope st =
     (let key = sourceMapKey scope serviceId commitSha;
          refused = (st, Err (HttpError 409 ''source_map_upload_not_claimed''
            ''this agent is not the active source-map uploader'')) in
      case jget (sourceMapLeases st) key of
        None \<Rightarrow> refused
      | Some l \<Rightarrow>
          if le_expiresAt l \<le> now \<or> le_uploaderId l \<noteq> uploaderId then refused
          else (st\<lparr>sourceMapLeases := jset key (l\<lparr>le_expiresAt := now + LEASE_MS\<rparr>) (sourceMapLeases st)\<rparr>,
                Ok ()))"

definition set_or_new ::
  "int \<Rightarrow> resource_scope \<Rightarrow> string \<Rightarrow> string \<Rightarrow> broker \<Rightarrow> source_map_set" where
  "set_or_new now scope serviceId commitSha st =
     (case jget (sourceMapSets st) (sourceMapKey scope serviceId commitSha) of
        Some s \<Rightarrow> s
      | None \<Rightarrow> \<lparr>ss_scope = scope, ss_serviceId = serviceId, ss_commitSha = commitSha,
          ss_complete = False, ss_updatedAt = now, ss_maps = []\<rparr>)"

definition uploadSourceMap ::
  "env \<Rightarrow> int \<Rightarrow> upload_input \<Rightarrow> resource_scope \<Rightarrow> broker \<Rightarrow> unit broker_res" where
  "uploadSourceMap env now input scope st =
     (case assertSourceMapUploader now (ui_serviceId input) (ui_commitSha input) (ui_uploaderId input) scope st of
        (st1, Inl e) \<Rightarrow> (st1, Err e)
      | (st1, Inr _) \<Rightarrow>
          (case bind_res (stripSourcesContent (ui_map input)) (\<lambda>m.
                bind_res (validateSourceMap env (ui_mapPath input) m) (\<lambda>_. Ok m)) of
             Inl e \<Rightarrow> (st1, Err e)
           | Inr cleanMap \<Rightarrow>
               let s = set_or_new now scope (ui_serviceId input) (ui_commitSha input) st1;
                   s' = s\<lparr>ss_complete := False, ss_updatedAt := now,
                     ss_maps := jset (ui_mapPath input)
                       \<lparr>sm_mapPath = ui_mapPath input, sm_map = cleanMap, sm_uploadedAt = now\<rparr> (ss_maps s)\<rparr> in
               (st1\<lparr>sourceMapSets := jset (sourceMapKey scope (ui_serviceId input) (ui_commitSha input)) s'
                  (sourceMapSets st1)\<rparr>, Ok ())))"

text \<open>Newest first; ties by descending key.\<close>

definition retention_le ::
  "env \<Rightarrow> string \<times> source_map_set \<Rightarrow> string \<times> source_map_set \<Rightarrow> bool" where
  "retention_le env l r \<longleftrightarrow>
     ss_updatedAt (snd r) < ss_updatedAt (snd l) \<or>
     ss_updatedAt (snd r) = ss_updatedAt (snd l) \<and> localeCompare env (fst r) (fst l) \<le> 0"

definition retained_sets ::
  "env \<Rightarrow> resource_scope \<Rightarrow> string \<Rightarrow> broker \<Rightarrow> (string \<times> source_map_set) list" where
  "retained_sets env scope serviceId st =
     stable_sort (retention_le env)
       (filter (\<lambda>(_, c). sameResourceScope (ss_scope c) scope \<and> ss_serviceId c = serviceId) (sourceMapSets st))"

definition completeSourceMaps ::
  "env \<Rightarrow> int \<Rightarrow> string \<Rightarrow> string \<Rightarrow> string \<Rightarrow> resource_scope \<Rightarrow> broker \<Rightarrow> unit broker_res" where
  "completeSourceMaps env now serviceId commitSha uploaderId scope st =
     (case assertSourceMapUploader now serviceId commitSha uploaderId scope st of
        (st1, Inl e) \<Rightarrow> (st1, Err e)
      | (st1, Inr _) \<Rightarrow>
          let key = sourceMapKey scope serviceId commitSha;
              s = (set_or_new now scope serviceId commitSha st1)\<lparr>ss_complete := True, ss_updatedAt := now\<rparr>;
              st2 = st1\<lparr>sourceMapSets := jset key s (sourceMapSets st1),
                        sourceMapLeases := jdel key (sourceMapLeases st1)\<rparr>;
              st3 = fst (incrementServiceVersion serviceId scope st2);
              dropped = map fst (drop SOURCE_MAP_COMMITS_PER_SERVICE (retained_sets env scope serviceId st3)) in
          (st3\<lparr>sourceMapSets := fold jdel dropped (sourceMapSets st3),
               sourceMapLeases := fold jdel dropped (sourceMapLeases st3)\<rparr>, Ok ()))"

definition getSourceMapSet :: "string \<Rightarrow> string \<Rightarrow> resource_scope \<Rightarrow> broker \<Rightarrow> source_map_set option" where
  "getSourceMapSet serviceId commitSha scope st =
     jget (sourceMapSets st) (sourceMapKey scope serviceId commitSha)"

definition sets_of :: "broker \<Rightarrow> resource_scope \<Rightarrow> string \<Rightarrow> (string \<times> source_map_set) list" where
  "sets_of st scope serviceId =
     filter (\<lambda>(_, c). ss_scope c = scope \<and> ss_serviceId c = serviceId) (sourceMapSets st)"

section \<open>Lemmas\<close>

lemma assertSourceMapUploader_frame [simp]:
  "probes (fst (assertSourceMapUploader now sid c u s st)) = probes st"
  "serviceVersions (fst (assertSourceMapUploader now sid c u s st)) = serviceVersions st"
  "events (fst (assertSourceMapUploader now sid c u s st)) = events st"
  "services (fst (assertSourceMapUploader now sid c u s st)) = services st"
  "agentCapabilityReports (fst (assertSourceMapUploader now sid c u s st)) = agentCapabilityReports st"
  "statuses (fst (assertSourceMapUploader now sid c u s st)) = statuses st"
  "sourceMapSets (fst (assertSourceMapUploader now sid c u s st)) = sourceMapSets st"
  "nativeAgents (fst (assertSourceMapUploader now sid c u s st)) = nativeAgents st"
  "nativeInstances (fst (assertSourceMapUploader now sid c u s st)) = nativeInstances st"
  "nativeStatuses (fst (assertSourceMapUploader now sid c u s st)) = nativeStatuses st"
  "recentlyRemovedProbes (fst (assertSourceMapUploader now sid c u s st)) = recentlyRemovedProbes st"
  "nativeIngestHealth (fst (assertSourceMapUploader now sid c u s st)) = nativeIngestHealth st"
  "nativeAssignmentVersions (fst (assertSourceMapUploader now sid c u s st)) = nativeAssignmentVersions st"
  "listeners (fst (assertSourceMapUploader now sid c u s st)) = listeners st"
  "resolved (fst (assertSourceMapUploader now sid c u s st)) = resolved st"
  "ringCapacity (fst (assertSourceMapUploader now sid c u s st)) = ringCapacity st"
  by (simp_all add: assertSourceMapUploader_def Let_def split: option.split)



lemma inv_set_maps:
  assumes "broker_inv st" "maps_ok (st\<lparr>sourceMapSets := a, sourceMapLeases := b\<rparr>)"
  shows "broker_inv (st\<lparr>sourceMapSets := a, sourceMapLeases := b\<rparr>)"
proof -
  let ?st = "st\<lparr>sourceMapSets := a, sourceMapLeases := b\<rparr>"
  have "ring ?st = ring st" "waiting ?st = waiting st" "service_version ?st = service_version st"
    by (auto simp: fun_eq_iff ring_def waiting_def service_version_def)
  with assms show ?thesis
    by (simp add: broker_inv_def probes_ok_def rings_ok_def statuses_ok_def listeners_ok_def versions_ok_def services_ok_def)
qed

lemma maps_okD:
  assumes "maps_ok st"
  shows "jwf (sourceMapSets st)" "jwf (sourceMapLeases st)"
    "jget (sourceMapSets st) k = Some s \<Longrightarrow> k = sourceMapKey (ss_scope s) (ss_serviceId s) (ss_commitSha s)"
    "jget (sourceMapSets st) k = Some s \<Longrightarrow> ss_complete s \<Longrightarrow> \<not> jhas (sourceMapLeases st) k"
    "jget (sourceMapSets st) k = Some s \<Longrightarrow> nul \<notin> set (ss_commitSha s)"
  using assms by (auto simp: maps_ok_def)

lemma maps_okI:
  assumes "jwf (sourceMapSets st)" "jwf (sourceMapLeases st)"
    "\<And>k s. jget (sourceMapSets st) k = Some s \<Longrightarrow> k = sourceMapKey (ss_scope s) (ss_serviceId s) (ss_commitSha s)"
    "\<And>k s. jget (sourceMapSets st) k = Some s \<Longrightarrow> ss_complete s \<Longrightarrow> \<not> jhas (sourceMapLeases st) k"
    "\<And>k s. jget (sourceMapSets st) k = Some s \<Longrightarrow> nul \<notin> set (ss_commitSha s)"
  shows "maps_ok st"
  using assms by (simp add: maps_ok_def)

text \<open>Rewriting one set under its key, together with its lease.\<close>

lemma maps_ok_put:
  assumes "maps_ok st" "k = sourceMapKey (ss_scope s) (ss_serviceId s) (ss_commitSha s)"
    "jwf b" "\<And>q. q \<noteq> k \<Longrightarrow> jhas b q \<Longrightarrow> jhas (sourceMapLeases st) q"
    "ss_complete s \<Longrightarrow> \<not> jhas b k" "nul \<notin> set (ss_commitSha s)"
  shows "maps_ok (st\<lparr>sourceMapSets := jset k s (sourceMapSets st), sourceMapLeases := b\<rparr>)"
proof (rule maps_okI)
  fix q v assume "jget (sourceMapSets (st\<lparr>sourceMapSets := jset k s (sourceMapSets st), sourceMapLeases := b\<rparr>)) q = Some v" "ss_complete v"
  then show "\<not> jhas (sourceMapLeases (st\<lparr>sourceMapSets := jset k s (sourceMapSets st), sourceMapLeases := b\<rparr>)) q"
    using assms(4) [of q] assms(5) maps_okD(4) [OF assms(1), of q v] by (auto split: if_splits)
qed (use assms(2,3,6) maps_okD [OF assms(1)] in \<open>auto split: if_splits\<close>)

lemma maps_ok_lease:
  assumes "maps_ok st" "\<And>s. jget (sourceMapSets st) k = Some s \<Longrightarrow> \<not> ss_complete s"
  shows "maps_ok (st\<lparr>sourceMapSets := sourceMapSets st, sourceMapLeases := jset k l (sourceMapLeases st)\<rparr>)"
  using assms maps_okD [OF assms(1)] by (intro maps_okI) auto

lemma inv_sourceMapStatus:
  assumes "broker_inv st"
  shows "broker_inv (fst (sourceMapStatus now sid c u s st))"
proof -
  let ?k = "sourceMapKey s sid c"
  note m = maps_okD [OF broker_invD(7) [OF assms]]
  have claim: "broker_inv (st\<lparr>sourceMapSets := sourceMapSets st, sourceMapLeases := jset ?k l (sourceMapLeases st)\<rparr>)"
    if "\<And>s. jget (sourceMapSets st) ?k = Some s \<Longrightarrow> \<not> ss_complete s" for l
    using that by (intro inv_set_maps [OF assms] maps_ok_lease broker_invD(7) [OF assms])
  have clear: "broker_inv (st\<lparr>sourceMapSets := jset ?k (v\<lparr>ss_maps := [], ss_updatedAt := now\<rparr>) (sourceMapSets st),
      sourceMapLeases := jset ?k l (sourceMapLeases st)\<rparr>)"
    if "jget (sourceMapSets st) ?k = Some v" "\<not> ss_complete v" for v l
    using that m(2) m(3,5) [OF that(1)]
    by (intro inv_set_maps [OF assms] maps_ok_put broker_invD(7) [OF assms]) auto
  show ?thesis
    using claim clear assms by (cases "jget (sourceMapSets st) ?k") (simp_all add: sourceMapStatus_def Let_def)
qed

lemma assert_cases:
  obtains (refused) e where "assertSourceMapUploader now sid c u s st = (st, Err e)"
  | (held) l where "assertSourceMapUploader now sid c u s st =
        (st\<lparr>sourceMapLeases := jset (sourceMapKey s sid c) (l\<lparr>le_expiresAt := now + LEASE_MS\<rparr>) (sourceMapLeases st)\<rparr>, Ok ())"
      "jget (sourceMapLeases st) (sourceMapKey s sid c) = Some l" "now < le_expiresAt l" "le_uploaderId l = u"
proof (cases "jget (sourceMapLeases st) (sourceMapKey s sid c)")
  case None
  then show ?thesis using refused by (simp add: assertSourceMapUploader_def Let_def)
next
  case (Some l)
  show ?thesis
  proof (cases "le_expiresAt l \<le> now \<or> le_uploaderId l \<noteq> u")
    case True
    with Some show ?thesis using refused by (simp add: assertSourceMapUploader_def Let_def)
  next
    case False
    with Some show ?thesis by (intro held [of l]) (simp_all add: assertSourceMapUploader_def Let_def)
  qed
qed

lemma inv_renew:
  assumes "broker_inv st" "jhas (sourceMapLeases st) k"
  shows "broker_inv (st\<lparr>sourceMapLeases := jset k l (sourceMapLeases st)\<rparr>)"
proof -
  have "\<not> ss_complete s" if "jget (sourceMapSets st) k = Some s" for s
    using maps_okD(4) [OF broker_invD(7) [OF assms(1)] that] assms(2) by blast
  then have "maps_ok (st\<lparr>sourceMapSets := sourceMapSets st, sourceMapLeases := jset k l (sourceMapLeases st)\<rparr>)"
    by (rule maps_ok_lease [OF broker_invD(7) [OF assms(1)]])
  from inv_set_maps [OF assms(1) this] show ?thesis by simp
qed

lemma set_or_new_key:
  "maps_ok st \<Longrightarrow> sourceMapKey s sid c = sourceMapKey (ss_scope (set_or_new now s sid c st))
     (ss_serviceId (set_or_new now s sid c st)) (ss_commitSha (set_or_new now s sid c st))"
  by (auto simp: set_or_new_def dest: maps_okD(3) split: option.split)

lemma set_or_new_commit:
  "maps_ok st \<Longrightarrow> nul \<notin> set c \<Longrightarrow> nul \<notin> set (ss_commitSha (set_or_new now s sid c st))"
  by (auto simp: set_or_new_def dest: maps_okD(5) split: option.split)

lemma inv_upload:
  assumes "broker_inv st" "nul \<notin> set (ui_commitSha i)"
  shows "broker_inv (fst (uploadSourceMap env now i s st))"
proof (cases now "ui_serviceId i" "ui_commitSha i" "ui_uploaderId i" s st rule: assert_cases)
  case (refused e)
  then show ?thesis using assms(1) by (simp add: uploadSourceMap_def)
next
  case (held l)
  let ?k = "sourceMapKey s (ui_serviceId i) (ui_commitSha i)"
  let ?st = "st\<lparr>sourceMapLeases := jset ?k (l\<lparr>le_expiresAt := now + LEASE_MS\<rparr>) (sourceMapLeases st)\<rparr>"
  have st: "broker_inv ?st" using held assms(1) by (intro inv_renew) (simp_all add: jhas_def)
  note mo = broker_invD(7) [OF st]
  have "broker_inv (?st\<lparr>sourceMapSets := jset ?k ((set_or_new now s (ui_serviceId i) (ui_commitSha i) ?st)
      \<lparr>ss_complete := False, ss_updatedAt := now, ss_maps := ms\<rparr>) (sourceMapSets ?st), sourceMapLeases := sourceMapLeases ?st\<rparr>)" for ms
    using set_or_new_key [OF mo, of s "ui_serviceId i" "ui_commitSha i" now] maps_okD(2) [OF mo] set_or_new_commit [OF mo assms(2)]
    by (intro inv_set_maps [OF st] maps_ok_put mo) auto
  then have "broker_inv (?st\<lparr>sourceMapSets := jset ?k ((set_or_new now s (ui_serviceId i) (ui_commitSha i) ?st)
      \<lparr>ss_complete := False, ss_updatedAt := now, ss_maps := ms\<rparr>) (sourceMapSets ?st)\<rparr>)" for ms
    by (rule broker_inv_frame) simp_all
  with st held(1) show ?thesis by (auto simp: uploadSourceMap_def Let_def split: sum.split)
qed

lemma jget_fold_jdel: "jget (fold jdel ks m) k = (if k \<in> set ks then None else jget m k)"
  by (induction ks arbitrary: m) auto

lemma jhas_fold_jdel: "jhas (fold jdel ks m) k \<longleftrightarrow> k \<notin> set ks \<and> jhas m k"
  by (simp add: jhas_def jget_fold_jdel)

lemma jwf_fold_jdel: "jwf m \<Longrightarrow> jwf (fold jdel ks m)"
  by (induction ks arbitrary: m) simp_all

lemma inv_complete:
  assumes "broker_inv st" "nul \<notin> set c"
  shows "broker_inv (fst (completeSourceMaps env now sid c u s st))"
proof (cases now sid c u s st rule: assert_cases)
  case (refused e)
  then show ?thesis using assms by (simp add: completeSourceMaps_def)
next
  case (held l)
  let ?k = "sourceMapKey s sid c"
  let ?st = "st\<lparr>sourceMapLeases := jset ?k (l\<lparr>le_expiresAt := now + LEASE_MS\<rparr>) (sourceMapLeases st)\<rparr>"
  have st: "broker_inv ?st" using held assms(1) by (intro inv_renew) (simp_all add: jhas_def)
  note mo = broker_invD(7) [OF st]
  let ?st2 = "?st\<lparr>sourceMapSets := jset ?k ((set_or_new now s sid c ?st)\<lparr>ss_complete := True, ss_updatedAt := now\<rparr>) (sourceMapSets ?st),
    sourceMapLeases := jdel ?k (sourceMapLeases ?st)\<rparr>"
  have st2: "broker_inv ?st2"
    using set_or_new_key [OF mo, of s sid c now] maps_okD(2) [OF mo] set_or_new_commit [OF mo assms(2)]
    by (intro inv_set_maps [OF st] maps_ok_put mo) auto
  have st3: "broker_inv (fst (incrementServiceVersion sid s ?st2))" using st2 by (rule inv_increment)
  have "broker_inv (st3\<lparr>sourceMapSets := fold jdel ks (sourceMapSets st3), sourceMapLeases := fold jdel ks (sourceMapLeases st3)\<rparr>)"
    if "broker_inv st3" for st3 ks
    using maps_okD [OF broker_invD(7) [OF that]]
    by (intro inv_set_maps [OF that] maps_okI) (auto simp: jget_fold_jdel jwf_fold_jdel jhas_fold_jdel split: if_splits)
  from this [OF st3] held(1) show ?thesis by (simp add: completeSourceMaps_def Let_def)
qed

end
