(* ===== verification/Broker_Native.thy ===== *)
theory Broker_Native
  imports Broker_Source_Maps
begin

text \<open>
  The native host agents of \<^verbatim>\<open>BrokerState\<close>: registration, the instances an agent reports, the
  assignments it polls, the ingestion of its events with the latching of terminal states, the
  derived logical status, and the safety overview.
\<close>

section \<open>Definitions\<close>

subsection \<open>Registration\<close>

definition NATIVE_CAPABILITIES :: "string list" where
  "NATIVE_CAPABILITIES = [''uprobe'', ''ring-buffer'', ''btf'', ''dwarf'', ''count'',
     ''snapshot-scalar'', ''log'', ''counter'', ''metric'']"

record registration =
  rg_agentId :: string
  rg_hostname :: string
  rg_capabilities :: "string list"
  rg_agentVersion :: string

definition scope_ok :: "resource_scope \<Rightarrow> bool" where
  "scope_ok s \<longleftrightarrow> len_between 1 200 (tenantId s) \<and> len_between 1 200 (projectId s) \<and>
     len_between 1 200 (environmentId s)"

definition persistedNativeAgent_parse :: "native_agent \<Rightarrow> native_agent option" where
  "persistedNativeAgent_parse a =
     (case (trimmed 1 200 (na_agentId a), trimmed 1 255 (na_hostname a), trimmed 1 100 (na_agentVersion a)) of
        (Some aid, Some host, Some version) \<Rightarrow>
          if scope_ok (na_scope a) \<and> 1 \<le> length (na_capabilities a) \<and> length (na_capabilities a) \<le> 32 \<and>
             list_all (\<lambda>c. c \<in> set NATIVE_CAPABILITIES) (na_capabilities a)
          then Some (a\<lparr>na_agentId := aid, na_hostname := host, na_agentVersion := version\<rparr>) else None
      | _ \<Rightarrow> None)"

definition registerNativeAgent ::
  "int \<Rightarrow> registration \<Rightarrow> resource_scope \<Rightarrow> broker \<Rightarrow> native_agent broker_res" where
  "registerNativeAgent now input scope st =
     (case persistedNativeAgent_parse \<lparr>na_scope = scope, na_agentId = rg_agentId input,
          na_hostname = rg_hostname input, na_capabilities = rg_capabilities input,
          na_agentVersion = rg_agentVersion input, na_lastSeen = now\<rparr> of
        None \<Rightarrow> (st, Err (SchemaError ''persistedNativeAgentSchema''))
      | Some record \<Rightarrow>
          let key = nativeAgentKey scope (rg_agentId input) in
          (st\<lparr>nativeAgents := jset key record (nativeAgents st),
              nativeAssignmentVersions :=
                (if jhas (nativeAssignmentVersions st) key then nativeAssignmentVersions st
                 else jset key 0 (nativeAssignmentVersions st))\<rparr>, Ok record))"

subsection \<open>Instances\<close>

text \<open>A reported instance; \<open>None\<close> as capabilities means those of the agent.\<close>

record reported_instance =
  rp_instanceId :: string
  rp_serviceId :: string
  rp_language :: language
  rp_pid :: int
  rp_processStartTime :: string
  rp_executablePath :: string
  rp_executableDevice :: "string option"
  rp_executableInode :: "string option"
  rp_buildId :: string
  rp_capabilities :: "string list option"
  rp_cgroup :: "string option"
  rp_containerId :: "string option"
  rp_lastSeen :: int

definition to_instance :: "resource_scope \<Rightarrow> string \<Rightarrow> string list \<Rightarrow> reported_instance \<Rightarrow> native_instance" where
  "to_instance scope agentId fallback r =
     \<lparr>ni_scope = scope, ni_agentId = agentId, ni_instanceId = rp_instanceId r,
      ni_serviceId = rp_serviceId r, ni_language = rp_language r, ni_pid = rp_pid r,
      ni_processStartTime = rp_processStartTime r, ni_executablePath = rp_executablePath r,
      ni_executableDevice = rp_executableDevice r, ni_executableInode = rp_executableInode r,
      ni_buildId = rp_buildId r,
      ni_capabilities = (case rp_capabilities r of None \<Rightarrow> fallback | Some c \<Rightarrow> c),
      ni_cgroup = rp_cgroup r, ni_containerId = rp_containerId r, ni_lastSeen = rp_lastSeen r\<rparr>"

definition persistedNativeInstance_parse :: "native_instance \<Rightarrow> native_instance option" where
  "persistedNativeInstance_parse i =
     (case (trimmed 1 200 (ni_agentId i), trimmed 1 300 (ni_instanceId i), serviceId_parse (ni_serviceId i),
            trimmed 1 100 (ni_processStartTime i), opt_parse (trimmed 1 100) (ni_executableDevice i),
            buildId_parse (ni_buildId i)) of
        (Some aid, Some iid, Some sid, Some start, Some dev, Some build) \<Rightarrow>
          if scope_ok (ni_scope i) \<and> ni_language i \<in> {LangRust, LangCpp} \<and> positive_int (ni_pid i) \<and>
             prefix ''/'' (ni_executablePath i) \<and> length (ni_executablePath i) \<le> 4096 \<and>
             (case ni_executableInode i of None \<Rightarrow> True | Some n \<Rightarrow> n \<noteq> [] \<and> list_all is_digit n) \<and>
             (case ni_cgroup i of None \<Rightarrow> True | Some c \<Rightarrow> length c \<le> 4096) \<and>
             (case ni_containerId i of None \<Rightarrow> True | Some c \<Rightarrow> length c \<le> 256)
          then Some (i\<lparr>ni_agentId := aid, ni_instanceId := iid, ni_serviceId := sid,
            ni_processStartTime := start, ni_executableDevice := dev, ni_buildId := build\<rparr>) else None
      | _ \<Rightarrow> None)"

fun language_name :: "language \<Rightarrow> string" where
  "language_name LangNode = ''node''"
| "language_name LangPython = ''python''"
| "language_name LangJvm = ''jvm''"
| "language_name LangRust = ''rust''"
| "language_name LangCpp = ''cpp''"

definition json_member :: "string \<Rightarrow> string \<Rightarrow> string" where
  "json_member name v = json_string name @ '':'' @ v"

text \<open>\<^verbatim>\<open>JSON.stringify\<close> leaves out a member whose value is undefined.\<close>

definition json_opt_member :: "string \<Rightarrow> string option \<Rightarrow> string list" where
  "json_opt_member name v = (case v of None \<Rightarrow> [] | Some s \<Rightarrow> [json_member name (json_string s)])"

definition nativeAttachmentIdentity :: "native_instance \<Rightarrow> string" where
  "nativeAttachmentIdentity i =
     ''{'' @ js_join CHR '',''
       ([json_member ''instanceId'' (json_string (ni_instanceId i)),
         json_member ''serviceId'' (json_string (ni_serviceId i)),
         json_member ''language'' (json_string (language_name (ni_language i))),
         json_member ''pid'' (show_int (ni_pid i)),
         json_member ''processStartTime'' (json_string (ni_processStartTime i)),
         json_member ''executablePath'' (json_string (ni_executablePath i))] @
        json_opt_member ''executableDevice'' (ni_executableDevice i) @
        json_opt_member ''executableInode'' (ni_executableInode i) @
        [json_member ''buildId'' (json_string (ni_buildId i)),
         json_member ''architecture'' (json_string ''x86_64''),
         json_member ''capabilities'' (json_string_array (sort (ni_capabilities i)))] @
        json_opt_member ''cgroup'' (ni_cgroup i) @
        json_opt_member ''containerId'' (ni_containerId i)) @ ''}''"

definition NATIVE_LIMITATIONS :: "string list" where
  "NATIVE_LIMITATIONS = [''Linux x86-64 only'',
     ''bounded scalar, C-string, and fixed-field DWARF capture only'',
     ''no floating-register, STL, deep traversal, or suspended-future capture'']"

text \<open>\<^verbatim>\<open>grouped.get(id) ?? []\<close>, push, set: the instances of the scope by service, in order.\<close>

definition group_by_service :: "resource_scope \<Rightarrow> native_instance list \<Rightarrow> (string, native_instance list) jsmap" where
  "group_by_service scope is =
     fold (\<lambda>i g. if sameResourceScope (ni_scope i) scope
        then jset (ni_serviceId i) ((case jget g (ni_serviceId i) of None \<Rightarrow> [] | Some l \<Rightarrow> l) @ [i]) g else g) is []"

definition latest_instance :: "native_instance \<Rightarrow> native_instance \<Rightarrow> native_instance" where
  "latest_instance l r = (if ni_lastSeen r \<le> ni_lastSeen l then l else r)"

fun common_capabilities :: "native_instance list \<Rightarrow> string list" where
  "common_capabilities [] = []"
| "common_capabilities (i # is) =
     sort (filter (\<lambda>c. list_all (\<lambda>j. c \<in> set (ni_capabilities j)) (i # is)) (js_set (ni_capabilities i)))"

definition native_service :: "resource_scope \<Rightarrow> string \<Rightarrow> native_instance list \<Rightarrow> service_record" where
  "native_service scope serviceId is =
     (let l = foldl latest_instance (hd is) (tl is) in
      \<lparr>sr_scope = scope, sr_serviceId = serviceId, sr_lastSeen = ni_lastSeen l, sr_sdk = None,
       sr_commitSha = None, sr_commitSource = None, sr_capabilities = Some (common_capabilities is),
       sr_agentStatus = None, sr_backend = Some NativeEbpf, sr_language = Some (ni_language l),
       sr_instanceCount = Some (length is), sr_buildIds = Some (sort (js_set (map ni_buildId is))),
       sr_nativeLimitations = Some NATIVE_LIMITATIONS\<rparr>)"

definition rebuildNativeServices :: "resource_scope \<Rightarrow> broker \<Rightarrow> broker" where
  "rebuildNativeServices scope st =
     (let grouped = group_by_service scope (jvalues (nativeInstances st));
          kept = filter (\<lambda>(_, s). \<not> (sameResourceScope (sr_scope s) scope \<and>
             sr_backend s = Some NativeEbpf \<and> \<not> jhas grouped (sr_serviceId s))) (services st) in
      st\<lparr>services := fold (\<lambda>(sid, is). jset (serviceKey scope sid) (native_service scope sid is)) grouped kept\<rparr>)"

text \<open>The checks of the loop over the reported instances; \<open>ids\<close> are those seen so far.\<close>

fun replace_error ::
  "string list \<Rightarrow> resource_scope \<Rightarrow> string \<Rightarrow> broker \<Rightarrow> string list \<Rightarrow> reported_instance list \<Rightarrow> broker_error option" where
  "replace_error allowed scope agentId st ids [] = None"
| "replace_error allowed scope agentId st ids (r # rs) =
     (if ''*'' \<notin> set allowed \<and> rp_serviceId r \<notin> set allowed
      then Some (HttpError 403 ''forbidden'' (''service '' @ rp_serviceId r @ '' is not allowed''))
      else if rp_instanceId r \<in> set ids
      then Some (http400 ''duplicate native instance'')
      else if list_ex (\<lambda>c. sameResourceScope (ni_scope c) scope \<and> ni_instanceId c = rp_instanceId r \<and>
                ni_agentId c \<noteq> agentId) (jvalues (nativeInstances st))
      then Some (HttpError 409 ''native_instance_owned'' ''native instance has another owner'')
      else replace_error allowed scope agentId st (rp_instanceId r # ids) rs)"

text \<open>Stores the instances one by one; a schema failure leaves the earlier ones stored.\<close>

fun store_instances ::
  "resource_scope \<Rightarrow> string \<Rightarrow> string list \<Rightarrow> reported_instance list \<Rightarrow> broker \<Rightarrow> unit broker_res" where
  "store_instances scope agentId fallback [] st = (st, Ok ())"
| "store_instances scope agentId fallback (r # rs) st =
     (case persistedNativeInstance_parse (to_instance scope agentId fallback r) of
        None \<Rightarrow> (st, Err (SchemaError ''persistedNativeInstanceSchema''))
      | Some i \<Rightarrow>
          store_instances scope agentId fallback rs
            (st\<lparr>nativeInstances :=
              jset (nativeInstanceKey scope agentId (rp_instanceId r)) i (nativeInstances st)\<rparr>))"

definition replaceNativeInstances ::
  "int \<Rightarrow> string \<Rightarrow> reported_instance list \<Rightarrow> resource_scope \<Rightarrow> string list \<Rightarrow> broker \<Rightarrow> nat broker_res" where
  "replaceNativeInstances now agentId reported scope allowed st =
     (let agentKey = nativeAgentKey scope agentId in
      case jget (nativeAgents st) agentKey of
        None \<Rightarrow> (st, Err (HttpError 404 ''native_agent_not_found'' ''native agent is not registered''))
      | Some agent \<Rightarrow>
          (case replace_error allowed scope agentId st [] reported of
             Some e \<Rightarrow> (st, Err e)
           | None \<Rightarrow>
               let ids = map rp_instanceId reported;
                   mine = (\<lambda>i. sameResourceScope (ni_scope i) scope \<and> ni_agentId i = agentId);
                   previous = sort (map nativeAttachmentIdentity (filter mine (jvalues (nativeInstances st))));
                   new = sort (map (\<lambda>r. nativeAttachmentIdentity (to_instance scope agentId (na_capabilities agent) r)) reported);
                   st1 = st\<lparr>nativeInstances :=
                     filter (\<lambda>(_, i). \<not> (mine i \<and> ni_instanceId i \<notin> set ids)) (nativeInstances st)\<rparr> in
               (case store_instances scope agentId (na_capabilities agent) reported st1 of
                  (st2, Inl e) \<Rightarrow> (st2, Err e)
                | (st2, Inr _) \<Rightarrow>
                    let st3 = st2\<lparr>nativeAgents := jset agentKey (agent\<lparr>na_lastSeen := now\<rparr>) (nativeAgents st2)\<rparr>;
                        st4 = (if json_string_array previous \<noteq> json_string_array new
                               then bumpNativeAssignmentVersion scope agentId st3 else st3) in
                    (rebuildNativeServices scope st4, Ok (length reported)))))"

subsection \<open>Assignments\<close>

record native_assignment =
  as_instanceId :: string
  as_serviceId :: string
  as_buildId :: string
  as_probes :: "probe_definition list"

definition nativeTerminal ::
  "probe_definition \<Rightarrow> string \<Rightarrow> string \<Rightarrow> string \<Rightarrow> resource_scope \<Rightarrow> broker \<Rightarrow> bool" where
  "nativeTerminal probe agentId instanceId buildId scope st \<longleftrightarrow>
     (case jget (nativeStatuses st) (nativeStatusKey scope (pd_id probe) (pd_version probe) agentId instanceId buildId) of
        None \<Rightarrow> False
      | Some s \<Rightarrow> nativeStatusEndsAssignment (ps_status s))"

definition assignment_of :: "string \<Rightarrow> resource_scope \<Rightarrow> broker \<Rightarrow> native_instance \<Rightarrow> native_assignment" where
  "assignment_of agentId scope st i =
     \<lparr>as_instanceId = ni_instanceId i, as_serviceId = ni_serviceId i, as_buildId = ni_buildId i,
      as_probes = map sp_probe (filter (\<lambda>s. sameResourceScope (sp_scope s) scope \<and>
          pd_serviceId (sp_probe s) = ni_serviceId i \<and> \<not> sp_expired s \<and>
          \<not> nativeTerminal (sp_probe s) agentId (ni_instanceId i) (ni_buildId i) scope st)
        (jvalues (probes st)))\<rparr>"

definition nativeAssignments ::
  "env \<Rightarrow> int \<Rightarrow> string \<Rightarrow> int \<Rightarrow> resource_scope \<Rightarrow> string list \<Rightarrow> broker \<Rightarrow>
    (int \<times> native_assignment list) broker_res" where
  "nativeAssignments env now agentId since scope allowed st =
     (let agentKey = nativeAgentKey scope agentId in
      if \<not> jhas (nativeAgents st) agentKey
      then (st, Err (HttpError 404 ''native_agent_not_found'' ''native agent is not registered''))
      else let
        st1 = fst (expireDueProbes now st);
        v = (case jget (nativeAssignmentVersions st1) agentKey of None \<Rightarrow> 0 | Some v \<Rightarrow> v) in
        if since = v then (st1, Ok (v, []))
        else (st1, Ok (v, map (assignment_of agentId scope st1)
          (stable_sort (\<lambda>l r. localeCompare env (ni_instanceId l) (ni_instanceId r) \<le> 0)
            (filter (\<lambda>i. sameResourceScope (ni_scope i) scope \<and> ni_agentId i = agentId \<and>
                (''*'' \<in> set allowed \<or> ni_serviceId i \<in> set allowed))
              (jvalues (nativeInstances st1)))))))"

subsection \<open>Ingestion\<close>

record native_ingest =
  ng_agentId :: string
  ng_serviceId :: string
  ng_instanceId :: string
  ng_buildId :: string
  ng_agentStatus :: agent_status
  ng_events :: "probe_event list"

definition health_of :: "broker \<Rightarrow> string \<Rightarrow> native_ingest_health" where
  "health_of st key =
     (case jget (nativeIngestHealth st) key of
        Some h \<Rightarrow> h
      | None \<Rightarrow> \<lparr>nh_staleEventsDropped = 0, nh_rejectedBatches = 0, nh_lastRejectionAt = None,
          nh_lastRejectionCode = None\<rparr>)"

text \<open>\<^verbatim>\<open>nativeHealth\<close> returns the record for mutation: the update is applied in place.\<close>

definition nativeHealth ::
  "resource_scope \<Rightarrow> string \<Rightarrow> (native_ingest_health \<Rightarrow> native_ingest_health) \<Rightarrow> broker \<Rightarrow> broker" where
  "nativeHealth scope serviceId f st =
     (let key = serviceKey scope serviceId in
      st\<lparr>nativeIngestHealth := jset key (f (health_of st key)) (nativeIngestHealth st)\<rparr>)"

text \<open>What the validation loop decides for one event.\<close>

datatype native_verdict = Accept | Skip | Reject broker_error

definition native_mismatch :: broker_error where
  "native_mismatch = http400 ''native event does not match its logical probe''"

definition native_verdict_of :: "native_ingest \<Rightarrow> resource_scope \<Rightarrow> broker \<Rightarrow> probe_event \<Rightarrow> native_verdict" where
  "native_verdict_of input scope st e =
     (case jget (probes st) (ev_probeId e) of
        None \<Rightarrow> if jhas (recentlyRemovedProbes st) (ev_probeId e) then Skip else Reject native_mismatch
      | Some stored \<Rightarrow>
          if \<not> sameResourceScope (sp_scope stored) scope \<or>
             pd_serviceId (sp_probe stored) \<noteq> ng_serviceId input \<or>
             (case event_type (ev_body e) of None \<Rightarrow> False | Some t \<Rightarrow> t \<noteq> pd_type (sp_probe stored))
          then Reject native_mismatch
          else if ev_probeVersion e \<noteq> Some (pd_version (sp_probe stored))
          then Reject (HttpError 409 ''probe_version_changed''
            ''native event probe version does not match the logical probe'')
          else (case ev_body e of
              StatusEvent _ _ m \<Rightarrow>
                if nm_agentId m \<noteq> Some (ng_agentId input) \<or> nm_instanceId m \<noteq> Some (ng_instanceId input) \<or>
                   nm_buildId m \<noteq> Some (ng_buildId input)
                then Reject (HttpError 409 ''target-instance-changed'' ''native status identity mismatch'')
                else Accept
            | _ \<Rightarrow> Accept))"

text \<open>The accepted events and the number of skipped ones, or the first rejection.\<close>

fun partition_events :: "('a \<Rightarrow> native_verdict) \<Rightarrow> 'a list \<Rightarrow> (broker_error, 'a list \<times> nat) res" where
  "partition_events f [] = Ok ([], 0)"
| "partition_events f (e # es) =
     (case f e of
        Reject err \<Rightarrow> Err err
      | Skip \<Rightarrow> bind_res (partition_events f es) (\<lambda>(acc, n). Ok (acc, n + 1))
      | Accept \<Rightarrow> bind_res (partition_events f es) (\<lambda>(acc, n). Ok (e # acc, n)))"

text \<open>The earliest \<^verbatim>\<open>armed\<close> report, unless the logical status already carries one.\<close>

fun earliest_armed :: "int option \<Rightarrow> probe_status list \<Rightarrow> int option" where
  "earliest_armed best [] = best"
| "earliest_armed best (s # ss) =
     earliest_armed
       (if ps_status s = Armed \<and> (case best of None \<Rightarrow> True | Some b \<Rightarrow> ps_updatedAt s < b)
        then Some (ps_updatedAt s) else best) ss"

definition deriveNativeArmedAt :: "string \<Rightarrow> probe_status list \<Rightarrow> broker \<Rightarrow> int option" where
  "deriveNativeArmedAt probeId ss st =
     (case (case jget (statuses st) probeId of None \<Rightarrow> None | Some s \<Rightarrow> ps_armedAt s) of
        Some t \<Rightarrow> Some t
      | None \<Rightarrow> earliest_armed None ss)"

definition instance_statuses :: "string \<Rightarrow> resource_scope \<Rightarrow> stored_probe \<Rightarrow> broker \<Rightarrow> probe_status option list" where
  "instance_statuses probeId scope stored st =
     map (\<lambda>i. jget (nativeStatuses st) (nativeStatusKey scope probeId (pd_version (sp_probe stored))
            (ni_agentId i) (ni_instanceId i) (ni_buildId i)))
       (filter (\<lambda>i. sameResourceScope (ni_scope i) scope \<and> ni_serviceId i = pd_serviceId (sp_probe stored))
         (jvalues (nativeInstances st)))"

definition newest_first :: "probe_status list \<Rightarrow> probe_status list" where
  "newest_first = stable_sort (desc_by ps_updatedAt)"

definition deriveNativeLogicalStatus :: "string \<Rightarrow> resource_scope \<Rightarrow> broker \<Rightarrow> broker" where
  "deriveNativeLogicalStatus probeId scope st =
     (case jget (probes st) probeId of
        None \<Rightarrow> st
      | Some stored \<Rightarrow>
          if \<not> sameResourceScope (sp_scope stored) scope \<or> sp_expired stored then st
          else let
            all = instance_statuses probeId scope stored st;
            defined = List.map_filter (\<lambda>s. s) all;
            armedAt = deriveNativeArmedAt probeId defined st;
            withArmedAt = (\<lambda>s. case armedAt of None \<Rightarrow> s | Some t \<Rightarrow> s\<lparr>ps_armedAt := Some t\<rparr>);
            isArmed = (\<lambda>s. ps_status s = Armed);
            choice = newest_first (if None \<in> set all \<or> list_ex isArmed defined
                       then filter isArmed defined else defined) in
            (case choice of
               [] \<Rightarrow> st
             | s # _ \<Rightarrow> st\<lparr>statuses := jset probeId (withArmedAt s) (statuses st)\<rparr>))"

definition native_event :: "native_ingest \<Rightarrow> resource_scope \<Rightarrow> probe_event \<Rightarrow> broker \<Rightarrow> broker" where
  "native_event input scope e st0 =
     (let st = appendEvent e st0 in
      case ev_body e of
        StatusEvent s detail meta \<Rightarrow>
          let key = nativeStatusKey scope (ev_probeId e) (case ev_probeVersion e of None \<Rightarrow> 0 | Some v \<Rightarrow> v)
                (ng_agentId input) (ng_instanceId input) (ng_buildId input);
              previous = jget (nativeStatuses st) key in
          if (case previous of None \<Rightarrow> False
              | Some p \<Rightarrow> ev_ts e < ps_updatedAt p \<or>
                  nativeStatusEndsAssignment (ps_status p) \<and> \<not> nativeStatusEndsAssignment s)
          then st
          else let
            st1 = st\<lparr>nativeStatuses := jset key
              \<lparr>ps_status = s, ps_updatedAt = ev_ts e, ps_detail = detail, ps_armedAt = None,
               ps_probeVersion = ev_probeVersion e, ps_metadata = meta\<rparr> (nativeStatuses st)\<rparr>;
            st2 = (if nativeStatusEndsAssignment s \<and>
                      (case previous of None \<Rightarrow> True | Some p \<Rightarrow> \<not> nativeStatusEndsAssignment (ps_status p))
                   then bumpNativeAssignmentVersion scope (ng_agentId input) st1 else st1) in
            deriveNativeLogicalStatus (ev_probeId e) scope st2
      | _ \<Rightarrow> st)"

definition ingestNativeChecked ::
  "int \<Rightarrow> native_ingest \<Rightarrow> resource_scope \<Rightarrow> broker \<Rightarrow> nat broker_res" where
  "ingestNativeChecked now input scope st =
     (let changed = HttpError 409 ''target-instance-changed'' ''native instance identity changed'' in
      case jget (nativeInstances st) (nativeInstanceKey scope (ng_agentId input) (ng_instanceId input)) of
        None \<Rightarrow> (st, Err changed)
      | Some i \<Rightarrow>
          if ni_serviceId i \<noteq> ng_serviceId input \<or> ni_buildId i \<noteq> ng_buildId input then (st, Err changed)
          else let st1 = pruneRemovedProbes now st in
            (case partition_events (native_verdict_of input scope st1) (ng_events input) of
               Inl e \<Rightarrow> (st1, Err e)
             | Inr (accepted, skipped) \<Rightarrow>
                 let st2 = (if 0 < skipped
                       then nativeHealth scope (ng_serviceId input)
                         (\<lambda>h. h\<lparr>nh_staleEventsDropped := nh_staleEventsDropped h + skipped\<rparr>) st1 else st1);
                     st3 = fold (native_event input scope) accepted st2;
                     key = serviceKey scope (ng_serviceId input);
                     st4 = (case jget (services st3) key of
                         None \<Rightarrow> st3
                       | Some s \<Rightarrow> st3\<lparr>services := jset key
                           (s\<lparr>sr_lastSeen := now, sr_agentStatus := Some (ng_agentStatus input)\<rparr>) (services st3)\<rparr>) in
                 (st4, Ok (length accepted))))"

definition ingestNative :: "int \<Rightarrow> native_ingest \<Rightarrow> resource_scope \<Rightarrow> broker \<Rightarrow> nat broker_res" where
  "ingestNative now input scope st =
     (case ingestNativeChecked now input scope st of
        (st1, Inl (HttpError status code msg)) \<Rightarrow>
          (nativeHealth scope (ng_serviceId input)
             (\<lambda>h. h\<lparr>nh_rejectedBatches := nh_rejectedBatches h + 1, nh_lastRejectionAt := Some now,
                   nh_lastRejectionCode := Some code\<rparr>) st1, Err (HttpError status code msg))
      | r \<Rightarrow> r)"

subsection \<open>Services\<close>

definition listServices :: "env \<Rightarrow> int \<Rightarrow> resource_scope \<Rightarrow> broker \<Rightarrow> broker \<times> service_record list" where
  "listServices env now scope st =
     (let st1 = fold (\<lambda>s. if sameResourceScope (sr_scope s) scope
            then refreshServiceCapabilities now scope (sr_serviceId s) else (\<lambda>x. x)) (jvalues (services st)) st;
          sdk_language = (\<lambda>k. case k of Node \<Rightarrow> LangNode | Python \<Rightarrow> LangPython | Jvm \<Rightarrow> LangJvm) in
      (st1, stable_sort (\<lambda>l r. localeCompare env (sr_serviceId l) (sr_serviceId r) \<le> 0)
        (map (\<lambda>s. s\<lparr>sr_backend := (case sr_backend s of None \<Rightarrow> Some ManagedRuntime | b \<Rightarrow> b),
              sr_language := (case sr_language s of None \<Rightarrow> map_option sdk_language (sr_sdk s) | l \<Rightarrow> l),
              sr_instanceCount := (case sr_instanceCount s of None \<Rightarrow> Some 1 | n \<Rightarrow> n)\<rparr>)
          (filter (\<lambda>s. sameResourceScope (sr_scope s) scope) (jvalues (services st1))))))"

section \<open>Lemmas\<close>

subsection \<open>Frames\<close>

lemma nativeHealth_frame [simp]:
  "probes (nativeHealth s sid f st) = probes st"
  "serviceVersions (nativeHealth s sid f st) = serviceVersions st"
  "events (nativeHealth s sid f st) = events st"
  "services (nativeHealth s sid f st) = services st"
  "agentCapabilityReports (nativeHealth s sid f st) = agentCapabilityReports st"
  "statuses (nativeHealth s sid f st) = statuses st"
  "sourceMapSets (nativeHealth s sid f st) = sourceMapSets st"
  "sourceMapLeases (nativeHealth s sid f st) = sourceMapLeases st"
  "nativeAgents (nativeHealth s sid f st) = nativeAgents st"
  "nativeInstances (nativeHealth s sid f st) = nativeInstances st"
  "nativeStatuses (nativeHealth s sid f st) = nativeStatuses st"
  "recentlyRemovedProbes (nativeHealth s sid f st) = recentlyRemovedProbes st"
  "nativeAssignmentVersions (nativeHealth s sid f st) = nativeAssignmentVersions st"
  "listeners (nativeHealth s sid f st) = listeners st"
  "resolved (nativeHealth s sid f st) = resolved st"
  "ringCapacity (nativeHealth s sid f st) = ringCapacity st"
  by (simp_all add: nativeHealth_def Let_def)

lemma deriveNativeLogicalStatus_frame [simp]:
  "probes (deriveNativeLogicalStatus p s st) = probes st"
  "serviceVersions (deriveNativeLogicalStatus p s st) = serviceVersions st"
  "events (deriveNativeLogicalStatus p s st) = events st"
  "services (deriveNativeLogicalStatus p s st) = services st"
  "agentCapabilityReports (deriveNativeLogicalStatus p s st) = agentCapabilityReports st"
  "sourceMapSets (deriveNativeLogicalStatus p s st) = sourceMapSets st"
  "sourceMapLeases (deriveNativeLogicalStatus p s st) = sourceMapLeases st"
  "nativeAgents (deriveNativeLogicalStatus p s st) = nativeAgents st"
  "nativeInstances (deriveNativeLogicalStatus p s st) = nativeInstances st"
  "nativeStatuses (deriveNativeLogicalStatus p s st) = nativeStatuses st"
  "recentlyRemovedProbes (deriveNativeLogicalStatus p s st) = recentlyRemovedProbes st"
  "nativeIngestHealth (deriveNativeLogicalStatus p s st) = nativeIngestHealth st"
  "nativeAssignmentVersions (deriveNativeLogicalStatus p s st) = nativeAssignmentVersions st"
  "listeners (deriveNativeLogicalStatus p s st) = listeners st"
  "resolved (deriveNativeLogicalStatus p s st) = resolved st"
  "ringCapacity (deriveNativeLogicalStatus p s st) = ringCapacity st"
  by (simp_all add: deriveNativeLogicalStatus_def Let_def split: option.split list.split)

lemma native_event_frame [simp]:
  "probes (native_event i s e st) = probes st"
  "serviceVersions (native_event i s e st) = serviceVersions st"
  "services (native_event i s e st) = services st"
  "agentCapabilityReports (native_event i s e st) = agentCapabilityReports st"
  "sourceMapSets (native_event i s e st) = sourceMapSets st"
  "sourceMapLeases (native_event i s e st) = sourceMapLeases st"
  "nativeAgents (native_event i s e st) = nativeAgents st"
  "nativeInstances (native_event i s e st) = nativeInstances st"
  "recentlyRemovedProbes (native_event i s e st) = recentlyRemovedProbes st"
  "nativeIngestHealth (native_event i s e st) = nativeIngestHealth st"
  "ringCapacity (native_event i s e st) = ringCapacity st"
  by (simp_all add: native_event_def Let_def split: event_body.split)

lemma rebuildNativeServices_frame [simp]:
  "probes (rebuildNativeServices s st) = probes st"
  "serviceVersions (rebuildNativeServices s st) = serviceVersions st"
  "events (rebuildNativeServices s st) = events st"
  "agentCapabilityReports (rebuildNativeServices s st) = agentCapabilityReports st"
  "statuses (rebuildNativeServices s st) = statuses st"
  "sourceMapSets (rebuildNativeServices s st) = sourceMapSets st"
  "sourceMapLeases (rebuildNativeServices s st) = sourceMapLeases st"
  "nativeAgents (rebuildNativeServices s st) = nativeAgents st"
  "nativeInstances (rebuildNativeServices s st) = nativeInstances st"
  "nativeStatuses (rebuildNativeServices s st) = nativeStatuses st"
  "recentlyRemovedProbes (rebuildNativeServices s st) = recentlyRemovedProbes st"
  "nativeIngestHealth (rebuildNativeServices s st) = nativeIngestHealth st"
  "nativeAssignmentVersions (rebuildNativeServices s st) = nativeAssignmentVersions st"
  "listeners (rebuildNativeServices s st) = listeners st"
  "resolved (rebuildNativeServices s st) = resolved st"
  "ringCapacity (rebuildNativeServices s st) = ringCapacity st"
  by (simp_all add: rebuildNativeServices_def Let_def)

lemma store_instances_frame [simp]:
  "probes (fst (store_instances s a fb rs st)) = probes st"
  "serviceVersions (fst (store_instances s a fb rs st)) = serviceVersions st"
  "events (fst (store_instances s a fb rs st)) = events st"
  "services (fst (store_instances s a fb rs st)) = services st"
  "agentCapabilityReports (fst (store_instances s a fb rs st)) = agentCapabilityReports st"
  "statuses (fst (store_instances s a fb rs st)) = statuses st"
  "sourceMapSets (fst (store_instances s a fb rs st)) = sourceMapSets st"
  "sourceMapLeases (fst (store_instances s a fb rs st)) = sourceMapLeases st"
  "nativeAgents (fst (store_instances s a fb rs st)) = nativeAgents st"
  "nativeStatuses (fst (store_instances s a fb rs st)) = nativeStatuses st"
  "recentlyRemovedProbes (fst (store_instances s a fb rs st)) = recentlyRemovedProbes st"
  "nativeIngestHealth (fst (store_instances s a fb rs st)) = nativeIngestHealth st"
  "nativeAssignmentVersions (fst (store_instances s a fb rs st)) = nativeAssignmentVersions st"
  "listeners (fst (store_instances s a fb rs st)) = listeners st"
  "resolved (fst (store_instances s a fb rs st)) = resolved st"
  "ringCapacity (fst (store_instances s a fb rs st)) = ringCapacity st"
  by (induction rs arbitrary: st) (simp_all split: option.split)

lemma listServices_frame [simp]:
  "probes (fst (listServices env now s st)) = probes st"
  "serviceVersions (fst (listServices env now s st)) = serviceVersions st"
  "events (fst (listServices env now s st)) = events st"
  "statuses (fst (listServices env now s st)) = statuses st"
  "sourceMapSets (fst (listServices env now s st)) = sourceMapSets st"
  "sourceMapLeases (fst (listServices env now s st)) = sourceMapLeases st"
  "nativeAgents (fst (listServices env now s st)) = nativeAgents st"
  "nativeInstances (fst (listServices env now s st)) = nativeInstances st"
  "nativeStatuses (fst (listServices env now s st)) = nativeStatuses st"
  "recentlyRemovedProbes (fst (listServices env now s st)) = recentlyRemovedProbes st"
  "nativeIngestHealth (fst (listServices env now s st)) = nativeIngestHealth st"
  "nativeAssignmentVersions (fst (listServices env now s st)) = nativeAssignmentVersions st"
  "listeners (fst (listServices env now s st)) = listeners st"
  "resolved (fst (listServices env now s st)) = resolved st"
  "ringCapacity (fst (listServices env now s st)) = ringCapacity st"
  by (simp_all add: listServices_def Let_def fold_frame)


subsection \<open>Native operations keep the invariant\<close>

lemma inv_derive:
  assumes "broker_inv st"
  shows "broker_inv (deriveNativeLogicalStatus p s st)"
proof (cases "jget (probes st) p")
  case (Some v)
  then have "jhas (probes st) p" by (simp add: jhas_def)
  from inv_set_status [OF assms this] assms Some show ?thesis
    by (auto simp: deriveNativeLogicalStatus_def Let_def split: list.split)
qed (simp add: deriveNativeLogicalStatus_def assms)

lemma inv_bump: "broker_inv st \<Longrightarrow> broker_inv (bumpNativeAssignmentVersion s a st)"
  by (rule broker_inv_frame [where st = st]) simp_all

lemma inv_set_nativeStatuses: "broker_inv st \<Longrightarrow> broker_inv (st\<lparr>nativeStatuses := m\<rparr>)"
  by (rule broker_inv_frame [where st = st]) simp_all

lemma inv_native_event:
  assumes "broker_inv st" "jhas (probes st) (ev_probeId e)"
  shows "broker_inv (native_event i s e st)"
  using inv_appendEvent [OF assms]
  by (auto simp: native_event_def Let_def intro!: inv_derive inv_bump inv_set_nativeStatuses split: event_body.split)

lemma partition_events_Ok:
  "partition_events f es = Ok (acc, n) \<Longrightarrow>
   acc = filter (\<lambda>e. f e = Accept) es \<and> n = length (filter (\<lambda>e. f e = Skip) es) \<and> (\<forall>e \<in> set es. \<forall>x. f e \<noteq> Reject x)"
  by (induction es arbitrary: acc n) (auto simp: bind_res_Inr_iff split: native_verdict.splits)

lemma verdict_Accept:
  "native_verdict_of i s st e = Accept \<Longrightarrow> \<exists>v. jget (probes st) (ev_probeId e) = Some v \<and> sp_scope v = s \<and>
     pd_serviceId (sp_probe v) = ng_serviceId i \<and> ev_probeVersion e = Some (pd_version (sp_probe v))"
  by (auto simp: native_verdict_of_def split: option.splits if_splits)

lemma inv_prune: "broker_inv st \<Longrightarrow> broker_inv (pruneRemovedProbes now st)"
  by (rule broker_inv_frame [where st = st]) simp_all

lemma inv_health: "broker_inv st \<Longrightarrow> broker_inv (nativeHealth s sid f st)"
  by (rule broker_inv_frame [where st = st]) simp_all

lemma inv_ingestNativeChecked:
  assumes "broker_inv st"
  shows "broker_inv (fst (ingestNativeChecked now i s st))"
proof (cases "partition_events (native_verdict_of i s (pruneRemovedProbes now st)) (ng_events i)")
  case (Inl e)
  then show ?thesis using assms by (auto simp: ingestNativeChecked_def Let_def inv_prune split: option.split)
next
  case (Inr an)
  obtain acc n where an: "an = (acc, n)" by (cases an)
  have has: "jhas (probes st) (ev_probeId e)" if "e \<in> set acc" for e
    using partition_events_Ok [OF Inr [unfolded an]] verdict_Accept [of i s "pruneRemovedProbes now st" e] that
    by (auto simp: jhas_def)
  have f: "broker_inv (fold (native_event i s) acc st2)" if "broker_inv st2" "probes st2 = probes st" for st2
    by (rule inv_fold_events) (simp_all add: that has inv_native_event)
  have g: "broker_inv (fold (native_event i s) acc st2\<lparr>services := jset (serviceKey s (ng_serviceId i))
      (v\<lparr>sr_lastSeen := now, sr_agentStatus := a\<rparr>) (services (fold (native_event i s) acc st2))\<rparr>)"
    if "broker_inv st2" "probes st2 = probes st"
      "jget (services (fold (native_event i s) acc st2)) (serviceKey s (ng_serviceId i)) = Some v" for st2 v a
    using inv_put_service [OF f [OF that(1,2)], of "v\<lparr>sr_lastSeen := now, sr_agentStatus := a\<rparr>"]
      services_okD [OF broker_invD(6) [OF f [OF that(1,2)]] that(3)] by simp
  show ?thesis using assms an Inr
    by (auto simp: ingestNativeChecked_def Let_def inv_prune inv_health intro!: f g split: option.split)
qed

lemma inv_ingestNative:
  assumes "broker_inv st"
  shows "broker_inv (fst (ingestNative now i s st))"
proof -
  obtain st1 r where e: "ingestNativeChecked now i s st = (st1, r)" by fastforce
  then have "broker_inv st1" using inv_ingestNativeChecked [OF assms, of now i s] by simp
  then show ?thesis by (auto simp: ingestNative_def e inv_health split: sum.split broker_error.split)
qed

lemma rebuild_services_ok:
  assumes "jwf m" "\<And>k v. jget m k = Some v \<Longrightarrow> k = serviceKey (sr_scope v) (sr_serviceId v)"
  shows "jwf (fold (\<lambda>(sid, is). jset (serviceKey s sid) (native_service s sid is)) g m) \<and>
    (\<forall>k v. jget (fold (\<lambda>(sid, is). jset (serviceKey s sid) (native_service s sid is)) g m) k = Some v \<longrightarrow>
       k = serviceKey (sr_scope v) (sr_serviceId v))"
  using assms
proof (induction g arbitrary: m)
  case (Cons x g)
  obtain sid ins where x: "x = (sid, ins)" by (cases x)
  show ?case unfolding x fold_Cons o_def prod.case
    using Cons.prems by (intro Cons.IH) (auto simp: native_service_def Let_def split: if_splits)
qed simp

lemma map_of_filter_Some: "jwf m \<Longrightarrow> jget (filter P m) k = Some v \<Longrightarrow> jget m k = Some v"
  by (auto dest!: map_of_SomeD)

lemma jwf_filter: "jwf m \<Longrightarrow> jwf (filter P m)"
  by (simp add: distinct_map_filter)

lemma inv_rebuild:
  assumes "broker_inv st"
  shows "broker_inv (rebuildNativeServices s st)"
  unfolding rebuildNativeServices_def Let_def
proof (rule inv_set_services [OF assms])
  note so = broker_invD(6) [OF assms, unfolded services_ok_def]
  let ?kept = "filter (\<lambda>(_, sa). \<not> (sameResourceScope (sr_scope sa) s \<and> sr_backend sa = Some NativeEbpf \<and>
     \<not> jhas (group_by_service s (jvalues (nativeInstances st))) (sr_serviceId sa))) (services st)"
  have "jwf ?kept" using so by (simp only: jwf_filter)
  moreover have "k = serviceKey (sr_scope v) (sr_serviceId v)" if "jget ?kept k = Some v" for k v
    using so map_of_filter_Some [OF _ that] by simp
  ultimately have r: "jwf (fold (\<lambda>(sid, is). jset (serviceKey s sid) (native_service s sid is)) g ?kept) \<and>
    (\<forall>k v. jget (fold (\<lambda>(sid, is). jset (serviceKey s sid) (native_service s sid is)) g ?kept) k = Some v \<longrightarrow>
       k = serviceKey (sr_scope v) (sr_serviceId v))" for g by (rule rebuild_services_ok)
  then show "jwf (fold (\<lambda>(sid, is). jset (serviceKey s sid) (native_service s sid is))
      (group_by_service s (jvalues (nativeInstances st))) ?kept)" by blast
  show "k = serviceKey (sr_scope v) (sr_serviceId v)"
    if "jget (fold (\<lambda>(sid, is). jset (serviceKey s sid) (native_service s sid is))
      (group_by_service s (jvalues (nativeInstances st))) ?kept) k = Some v" for k v
    using r that by blast
qed

lemma inv_native_frame:
  assumes "broker_inv st"
  shows "broker_inv (st\<lparr>nativeInstances := a\<rparr>)" "broker_inv (st\<lparr>nativeAgents := b\<rparr>)"
    "broker_inv (fst (store_instances s aid fb rs st))"
    "broker_inv (st\<lparr>nativeAgents := b, nativeAssignmentVersions := d\<rparr>)"
  by (rule broker_inv_frame [OF assms]; simp)+

lemma inv_registerNativeAgent: "broker_inv st \<Longrightarrow> broker_inv (fst (registerNativeAgent now i s st))"
  by (auto simp: registerNativeAgent_def Let_def inv_native_frame split: option.split)

lemma inv_replaceNativeInstances:
  assumes "broker_inv st"
  shows "broker_inv (fst (replaceNativeInstances now aid rs s al st))"
proof -
  have "broker_inv (fst (case store_instances s aid fb rs (st\<lparr>nativeInstances := m\<rparr>) of
      (st2, Inl e) \<Rightarrow> (st2, Err e)
    | (st2, Inr _) \<Rightarrow> (rebuildNativeServices s (if b then bumpNativeAssignmentVersion s aid (st2\<lparr>nativeAgents := jset k v (nativeAgents st2)\<rparr>)
        else st2\<lparr>nativeAgents := jset k v (nativeAgents st2)\<rparr>), Ok (length rs))))" for fb m b k v
  proof -
    obtain st2 r where e: "store_instances s aid fb rs (st\<lparr>nativeInstances := m\<rparr>) = (st2, r)" by fastforce
    have "broker_inv st2" using inv_native_frame(3) [OF inv_native_frame(1) [OF assms], of s aid fb rs m] e by simp
    then show ?thesis by (auto simp: e inv_rebuild inv_bump inv_native_frame split: sum.split)
  qed
  then show ?thesis using assms
    by (auto simp: replaceNativeInstances_def Let_def simp del: sameResourceScope_eq split: option.split)
qed

lemma inv_listServices: "broker_inv st \<Longrightarrow> broker_inv (fst (listServices env now s st))"
proof -
  have "broker_inv st \<Longrightarrow> broker_inv (fold (\<lambda>v. if sr_scope v = s
      then refreshServiceCapabilities now s (sr_serviceId v) else (\<lambda>x. x)) vs st)" for vs st
    by (induction vs arbitrary: st) (simp_all add: inv_refresh)
  then show "broker_inv st \<Longrightarrow> broker_inv (fst (listServices env now s st))" by (simp add: listServices_def Let_def)
qed

lemma inv_poll: "broker_inv st \<Longrightarrow> broker_inv (fst (pollProbes env now sid since c s st))"
  by (simp add: pollProbes_def Let_def inv_touch inv_sweep)

lemma inv_dispose:
  assumes "broker_inv st"
  shows "broker_inv (dispose st)"
proof -
  have f: "broker_inv s \<Longrightarrow> broker_inv (fold (\<lambda>l. finish p l Aborted) ls s)" for p ls s
    by (induction ls arbitrary: s) (simp_all add: inv_finish)
  have "broker_inv s \<Longrightarrow> broker_inv (fold (\<lambda>(p, ls). fold (\<lambda>l. finish p l Aborted) ls) m s)" for m s
    by (induction m arbitrary: s) (auto simp: f)
  from this [OF assms] show ?thesis unfolding dispose_def Let_def
    by (rule inv_listeners) (simp_all add: waiting_def)
qed

end
