(* ===== verification/Wire_Schemas.thy ===== *)
theory Wire_Schemas
  imports Broker_Native
begin

text \<open>
  The schemas of the broker's requests and of what it persists, complete with their checks:
  agent capabilities, map paths, native metadata, captured values, events, agent status, ingestion
  batches, registrations and reported instances.  Each is a function into \<open>option\<close>.  The locale
  \<open>schema\<close> states what the broker relies on when it validates a value again that an earlier
  validation returned: the value comes back unchanged.
\<close>

section \<open>Definitions\<close>

subsection \<open>Identifiers\<close>

definition agentCapability_parse :: "string \<Rightarrow> string option" where
  "agentCapability_parse s =
     (let t = js_trim s in
      if len_between 1 64 t \<and> (is_lower (hd t) \<or> is_digit (hd t)) \<and>
         list_all (\<lambda>c. is_lower c \<or> is_digit c \<or> c \<in> set ''.-'') t then Some t else None)"

definition agentId_parse :: "string \<Rightarrow> string option" where
  "agentId_parse = trimmed 1 200"

definition sourceMapPath_parse :: "string \<Rightarrow> string option" where
  "sourceMapPath_parse s =
     (let t = js_trim s in
      if len_between 1 4096 t \<and> suffix ''.js.map'' t \<and> \<not> prefix ''/'' t \<and> CHR 0x5C \<notin> set t \<and>
         ''..'' \<notin> set (js_split CHR ''/'' t) then Some t else None)"

subsection \<open>Native metadata\<close>

definition NATIVE_REASON_CODES :: "string list" where
  "NATIVE_REASON_CODES = [''service-not-found'', ''ambiguous-service-match'', ''target-instance-changed'',
     ''build-mismatch'', ''no-build-id'', ''no-debug-info'', ''no-line-info'', ''source-file-not-found'',
     ''source-file-ambiguous'', ''no-executable-address'', ''variable-not-found'', ''variable-optimized-out'',
     ''unsupported-location-expression'', ''unsupported-register-piece'', ''unsupported-type'',
     ''floating-point-register-unavailable'', ''attach-permission-denied'', ''uprobe-attach-failed'',
     ''raw-hit-budget-exceeded'', ''ring-buffer-full'', ''local-policy-denied'',
     ''process-inspection-permission-denied'', ''capture-event-invalid'', ''process-inspection-failed'',
     ''process-metadata-invalid'', ''invalid-build-identity'', ''unsupported-architecture'']"

definition checked :: "('a \<Rightarrow> bool) \<Rightarrow> 'a \<Rightarrow> 'a option" where
  "checked P x = (if P x then Some x else None)"

abbreviation reasonCode_parse :: "string \<Rightarrow> string option" where
  "reasonCode_parse \<equiv> checked (\<lambda>c. c \<in> set NATIVE_REASON_CODES)"

definition nonnegative_int :: "int \<Rightarrow> bool" where
  "nonnegative_int n \<longleftrightarrow> 0 \<le> n \<and> safe_int n"

definition nonnegative_num :: "jsnum \<Rightarrow> bool" where
  "nonnegative_num n \<longleftrightarrow> is_finite_num n \<and> js_le (Fin 0) n"

abbreviation at_most :: "nat \<Rightarrow> string \<Rightarrow> string option" where
  "at_most n \<equiv> checked (\<lambda>s. length s \<le> n)"

text \<open>The metadata of a status keeps a build id as it is written, hexadecimal but not lowered.\<close>

definition plainBuildId_ok :: "string \<Rightarrow> bool" where
  "plainBuildId_ok s \<longleftrightarrow> len_between 8 128 s \<and> list_all is_hex s"

definition resolution_parse :: "native_resolution \<Rightarrow> native_resolution option" where
  "resolution_parse r =
     (case sourceFile_parse (nr_sourceFile r) of
        None \<Rightarrow> None
      | Some f \<Rightarrow>
          if positive_int (nr_line r) \<and> nonnegative_int (nr_resolvedSiteCount r) \<and>
             nonnegative_int (nr_requestedPathCount r)
          then Some (r\<lparr>nr_sourceFile := f\<rparr>) else None)"

definition availability_parse :: "variable_availability \<Rightarrow> variable_availability option" where
  "availability_parse a =
     (case (dotPath_parse (va_path a), opt_parse reasonCode_parse (va_reasonCode a),
            bounded_list 256 (trimmed 1 300) (va_siteIds a)) of
        (Some p, Some c, Some ids) \<Rightarrow> Some (a\<lparr>va_path := p, va_reasonCode := c, va_siteIds := ids\<rparr>)
      | _ \<Rightarrow> None)"

definition metadata_parse :: "native_metadata \<Rightarrow> native_metadata option" where
  "metadata_parse m =
     (case (opt_parse reasonCode_parse (nm_reasonCode m), opt_parse (trimmed 1 200) (nm_agentId m),
            opt_parse (trimmed 1 300) (nm_instanceId m), opt_parse (checked plainBuildId_ok) (nm_buildId m),
            opt_parse (trimmed 1 300) (nm_siteId m), opt_parse resolution_parse (nm_resolution m),
            opt_parse (bounded_list 100 availability_parse) (nm_variableAvailability m)) of
        (Some c, Some aid, Some iid, Some b, Some site, Some r, Some va) \<Rightarrow>
          if pred_option nonnegative_int (nm_physicalSiteCount m) \<and> pred_option nonnegative_num (nm_rawHitRate m) \<and>
             pred_option nonnegative_int (nm_droppedEventCount m)
          then Some (m\<lparr>nm_reasonCode := c, nm_agentId := aid, nm_instanceId := iid, nm_buildId := b,
            nm_siteId := site, nm_resolution := r, nm_variableAvailability := va\<rparr>) else None
      | _ \<Rightarrow> None)"

subsection \<open>Captured values and events\<close>

definition unavailable_parse :: "unavailable_value \<Rightarrow> unavailable_value option" where
  "unavailable_parse u =
     (case opt_parse buildId_parse (uv_buildId u) of
        None \<Rightarrow> None
      | Some b \<Rightarrow>
          if uv_reasonCode u \<in> set NATIVE_REASON_CODES \<and> pred_option (\<lambda>s. length s \<le> 4096) (uv_detail u) \<and>
             pred_option (\<lambda>s. length s \<le> 300) (uv_siteId u)
          then Some (u\<lparr>uv_buildId := b\<rparr>) else None)"

lemma traverse_cong [fundef_cong]:
  "xs = ys \<Longrightarrow> (\<And>x. x \<in> set ys \<Longrightarrow> f x = g x) \<Longrightarrow> traverse f xs = traverse g ys"
  by (induction xs arbitrary: ys) (auto split: option.splits)

text \<open>
  Captured values appear in two schemas that differ in the metadata of an unavailable value (argument
  \<open>up\<close>); a stack frame differs in the schema of its file (argument \<open>fp\<close>).
\<close>

fun node_parse :: "(unavailable_value \<Rightarrow> unavailable_value option) \<Rightarrow> serialized_node \<Rightarrow> serialized_node option" where
  "node_parse up (NNum n) = (if is_finite_num n then Some (NNum n) else None)"
| "node_parse up (NUnavailable u) = map_option NUnavailable (up u)"
| "node_parse up (NObj ms m) =
     map_option (\<lambda>ms. NObj ms m) (traverse (\<lambda>p. map_option (Pair (fst p)) (node_parse up (snd p))) ms)"
| "node_parse up (NArr ns m) = map_option (\<lambda>ns. NArr ns m) (traverse (node_parse up) ns)"
| "node_parse up n = Some n"

definition frame_parse ::
  "(unavailable_value \<Rightarrow> unavailable_value option) \<Rightarrow> (string \<Rightarrow> string option) \<Rightarrow> stack_frame \<Rightarrow> stack_frame option" where
  "frame_parse up fp f =
     (case (fp (sf_file f), opt_parse (node_parse up) (sf_variables f)) of
        (Some file, Some v) \<Rightarrow>
          if length (sf_fn f) \<le> 1024 \<and> positive_int (sf_line f)
          then Some (f\<lparr>sf_file := file, sf_variables := v\<rparr>) else None
      | _ \<Rightarrow> None)"

definition watch_parse ::
  "(unavailable_value \<Rightarrow> unavailable_value option) \<Rightarrow> string \<times> serialized_node \<Rightarrow> (string \<times> serialized_node) option" where
  "watch_parse up w = map_option (Pair (fst w)) (node_parse up (snd w))"

fun body_parse ::
  "(unavailable_value \<Rightarrow> unavailable_value option) \<Rightarrow> (string \<Rightarrow> string option) \<Rightarrow> event_body \<Rightarrow> event_body option" where
  "body_parse up fp (SnapshotEvent vars watches stack) =
     (case (node_parse up vars, traverse (watch_parse up) watches, bounded_list 8 (frame_parse up fp) stack) of
        (Some v, Some w, Some s) \<Rightarrow> Some (SnapshotEvent v w s)
      | _ \<Rightarrow> None)"
| "body_parse up fp (LogEvent m lv) = (if length m \<le> 65536 then Some (LogEvent m lv) else None)"
| "body_parse up fp (CounterEvent d) = (if positive_int d then Some (CounterEvent d) else None)"
| "body_parse up fp (MetricEvent c s mn mx l) =
     (if positive_int c \<and> is_finite_num s \<and> is_finite_num mn \<and> is_finite_num mx \<and> is_finite_num l \<and> \<not> js_lt mx mn
      then Some (MetricEvent c s mn mx l) else None)"
| "body_parse up fp (StatusEvent s d m) =
     (if pred_option (\<lambda>t. length t \<le> 4096) d then map_option (StatusEvent s d) (metadata_parse m) else None)"

definition eventBody_parse :: "event_body \<Rightarrow> event_body option" where
  "eventBody_parse = body_parse unavailable_parse (at_most 4096)"

definition probeEvent_parse :: "probe_event \<Rightarrow> probe_event option" where
  "probeEvent_parse e =
     (if probeId_ok (ev_probeId e) \<and> pred_option positive_int (ev_probeVersion e)
      then map_option (\<lambda>b. e\<lparr>ev_body := b\<rparr>) (eventBody_parse (ev_body e)) else None)"

subsection \<open>Agent status and batches\<close>

definition SAFETY_REASON_CODES :: "string list" where
  "SAFETY_REASON_CODES = [''event_loop_lag'', ''pause_budget'', ''rate_limited'', ''instrumentation_failure'',
     ''agent_worker_failure'']"

definition safetyLimits_ok :: "safety_limits \<Rightarrow> bool" where
  "safetyLimits_ok l \<longleftrightarrow>
     pred_option nonnegative_num (sl_maxProbeHitsPerSecond l) \<and> pred_option nonnegative_num (sl_maxProbePauseMsPerSecond l) \<and>
     pred_option nonnegative_int (sl_safetyCooldownMs l) \<and> pred_option nonnegative_num (sl_maxTelemetryBytesPerSecond l) \<and>
     pred_option positive_int (sl_maxBufferedEventBytes l) \<and>
     pred_option (\<lambda>n. is_finite_num n \<and> js_lt (Fin 0) n) (sl_maxEventLoopLagMs l)"

text \<open>The last conjunct is the cross-field rule: a reason code only with state red.\<close>

definition agentStatus_ok :: "agent_status \<Rightarrow> bool" where
  "agentStatus_ok a \<longleftrightarrow>
     pred_option (\<lambda>t. length t \<le> 4096) (as_detail a) \<and>
     pred_option (\<lambda>c. c \<in> set SAFETY_REASON_CODES) (as_reasonCode a) \<and> pred_option safetyLimits_ok (as_limits a) \<and>
     (as_state a = Green \<longrightarrow> as_reasonCode a = None)"

definition ingest_parse :: "ingest_input \<Rightarrow> ingest_input option" where
  "ingest_parse i =
     (case (serviceId_parse (ig_serviceId i), opt_parse agentId_parse (ig_agentId i), sourceCommit_parse (ig_commitSha i),
            bounded_list 32 agentCapability_parse (case ig_capabilities i of None \<Rightarrow> [] | Some c \<Rightarrow> c),
            bounded_list 10000 probeEvent_parse (ig_events i)) of
        (Some sid, Some aid, Some sha, Some caps, Some es) \<Rightarrow>
          if agentStatus_ok (ig_agentStatus i)
          then Some (i\<lparr>ig_serviceId := sid, ig_agentId := aid, ig_commitSha := sha, ig_capabilities := Some caps,
            ig_events := es\<rparr>) else None
      | _ \<Rightarrow> None)"

subsection \<open>Native requests\<close>

definition registration_parse :: "registration \<Rightarrow> registration option" where
  "registration_parse r =
     (case (trimmed 1 200 (rg_agentId r), trimmed 1 255 (rg_hostname r), trimmed 1 100 (rg_agentVersion r)) of
        (Some aid, Some host, Some version) \<Rightarrow>
          if 1 \<le> length (rg_capabilities r) \<and> length (rg_capabilities r) \<le> 32 \<and>
             list_all (\<lambda>c. c \<in> set NATIVE_CAPABILITIES) (rg_capabilities r)
          then Some (r\<lparr>rg_agentId := aid, rg_hostname := host, rg_agentVersion := version\<rparr>) else None
      | _ \<Rightarrow> None)"

definition reportedInstance_parse :: "reported_instance \<Rightarrow> reported_instance option" where
  "reportedInstance_parse r =
     (case (trimmed 1 300 (rp_instanceId r), serviceId_parse (rp_serviceId r), trimmed 1 100 (rp_processStartTime r),
            opt_parse (trimmed 1 100) (rp_executableDevice r), buildId_parse (rp_buildId r)) of
        (Some iid, Some sid, Some start, Some dev, Some build) \<Rightarrow>
          if rp_language r \<in> {LangRust, LangCpp} \<and> positive_int (rp_pid r) \<and>
             prefix ''/'' (rp_executablePath r) \<and> length (rp_executablePath r) \<le> 4096 \<and>
             pred_option (\<lambda>n. n \<noteq> [] \<and> list_all is_digit n) (rp_executableInode r) \<and>
             pred_option (\<lambda>cs. 1 \<le> length cs \<and> length cs \<le> 32 \<and> list_all (\<lambda>c. c \<in> set NATIVE_CAPABILITIES) cs) (rp_capabilities r) \<and>
             pred_option (\<lambda>c. length c \<le> 4096) (rp_cgroup r) \<and> pred_option (\<lambda>c. length c \<le> 256) (rp_containerId r)
          then Some (r\<lparr>rp_instanceId := iid, rp_serviceId := sid, rp_processStartTime := start,
            rp_executableDevice := dev, rp_buildId := build\<rparr>) else None
      | _ \<Rightarrow> None)"

definition instanceSet_parse :: "reported_instance list \<Rightarrow> reported_instance list option" where
  "instanceSet_parse = bounded_list 10000 reportedInstance_parse"

text \<open>
  Native events: the version is required, the file of a stack frame is trimmed, and a value that is
  unavailable names its site and build as in the status metadata.
\<close>

definition nativeUnavailable_parse :: "unavailable_value \<Rightarrow> unavailable_value option" where
  "nativeUnavailable_parse u =
     (case opt_parse (trimmed 1 300) (uv_siteId u) of
        None \<Rightarrow> None
      | Some site \<Rightarrow>
          if uv_reasonCode u \<in> set NATIVE_REASON_CODES \<and> pred_option (\<lambda>s. length s \<le> 4096) (uv_detail u) \<and>
             pred_option plainBuildId_ok (uv_buildId u)
          then Some (u\<lparr>uv_siteId := site\<rparr>) else None)"

definition nativeEvent_parse :: "probe_event \<Rightarrow> probe_event option" where
  "nativeEvent_parse e =
     (if probeId_ok (ev_probeId e) \<and> (case ev_probeVersion e of None \<Rightarrow> False | Some v \<Rightarrow> positive_int v)
      then map_option (\<lambda>b. e\<lparr>ev_body := b\<rparr>) (body_parse nativeUnavailable_parse sourceFile_parse (ev_body e)) else None)"

definition nativeIngest_parse :: "native_ingest \<Rightarrow> native_ingest option" where
  "nativeIngest_parse i =
     (case (trimmed 1 200 (ng_agentId i), serviceId_parse (ng_serviceId i), trimmed 1 300 (ng_instanceId i),
            buildId_parse (ng_buildId i), bounded_list 1000 nativeEvent_parse (ng_events i)) of
        (Some aid, Some sid, Some iid, Some b, Some es) \<Rightarrow>
          if pred_option (\<lambda>t. length t \<le> 4096) (as_detail (ng_agentStatus i)) \<and>
             as_reasonCode (ng_agentStatus i) = None \<and> as_limits (ng_agentStatus i) = None
          then Some (i\<lparr>ng_agentId := aid, ng_serviceId := sid, ng_instanceId := iid, ng_buildId := b, ng_events := es\<rparr>)
          else None
      | _ \<Rightarrow> None)"

section \<open>Lemmas\<close>

subsection \<open>Validating again\<close>

locale schema =
  fixes parse :: "'a \<Rightarrow> 'a option"
  assumes again: "parse x = Some y \<Longrightarrow> parse y = Some y"
begin

lemma opt_again: "opt_parse parse x = Some y \<Longrightarrow> opt_parse parse y = Some y"
  using again by (auto simp: opt_parse_Some)

lemma traverse_again: "traverse parse xs = Some ys \<Longrightarrow> traverse parse ys = Some ys"
proof -
  assume "traverse parse xs = Some ys"
  then have "list_all2 (\<lambda>x y. parse x = Some y) xs ys" by (simp add: traverse_Some_iff)
  then have "\<forall>y \<in> set ys. parse y = Some y" using again by (fastforce simp: list_all2_conv_all_nth in_set_conv_nth)
  then show ?thesis by (intro traverse_cong_id) simp
qed

lemma bounded_again: "bounded_list n parse xs = Some ys \<Longrightarrow> bounded_list n parse ys = Some ys"
  using traverse_again [of xs ys] traverse_length [of parse xs ys] by (auto simp: bounded_list_def split: if_splits)

end

lemma schema_opt: "schema f \<Longrightarrow> schema (opt_parse f)"
  by (rule schema.intro) (rule schema.opt_again)

lemma schema_bounded: "schema f \<Longrightarrow> schema (bounded_list n f)"
  by (rule schema.intro) (rule schema.bounded_again)

lemma schema_traverse: "schema f \<Longrightarrow> schema (traverse f)"
  by (rule schema.intro) (rule schema.traverse_again)

lemma schema_checked [intro]: "schema (checked P)"
  by (auto simp: schema_def checked_def)

lemma schema_trimmed [intro]: "schema (trimmed lo hi)"
  by (auto simp: schema_def trimmed_Some js_trim_idem)

lemma to_lower_idem: "to_lower_char (to_lower_char c) = to_lower_char c"
proof (cases "char_in 65 90 c \<or> (char_in 192 222 c \<and> c \<noteq> char_of (215 :: nat))")
  case True
  then have n: "of_char c + 32 < (256 :: nat)" "of_char c + 32 \<in> {97..122} \<union> {224..254 :: nat}" by (auto simp: char_in_def)
  have "of_char (to_lower_char c) = (of_char c + 32 :: nat)" using True n(1) by (simp add: to_lower_char_def of_char_char_of_small)
  with n(2) have "\<not> char_in 65 90 (to_lower_char c)" "\<not> char_in 192 222 (to_lower_char c)" by (auto simp: char_in_def)
  then show ?thesis by (simp add: to_lower_char_def [of "to_lower_char c"])
next
  case False
  then have "to_lower_char c = c" unfolding to_lower_char_def by (rule if_not_P)
  then show ?thesis by simp
qed

lemma js_lower_idem: "js_lower (js_lower s) = js_lower s"
  by (simp add: js_lower_def to_lower_idem)

lemma hex_lower_char: "is_hex c \<Longrightarrow> is_hex (to_lower_char c)"
proof -
  assume h: "is_hex c"
  then have n: "of_char c + 32 < (256 :: nat)" by (auto simp: is_hex_def is_digit_def char_in_def)
  show ?thesis using h n
    by (auto simp: is_hex_def is_digit_def char_in_def to_lower_char_def of_char_char_of_small)
qed

lemma lower_hex: "list_all is_hex s \<Longrightarrow> list_all is_hex (js_lower s)"
  by (auto simp: js_lower_def list_all_iff hex_lower_char)

lemma trim_no_space: "list_all (\<lambda>c. \<not> js_space c) s \<Longrightarrow> js_trim s = s"
proof -
  assume a: "list_all (\<lambda>c. \<not> js_space c) s"
  have "dropWhile js_space t = t" if "set t \<subseteq> set s" for t
    using that a by (cases t) (auto simp: list_all_iff)
  then show ?thesis by (simp add: js_trim_def)
qed

lemma hex_no_space: "is_hex c \<Longrightarrow> \<not> js_space c"
  by (auto simp: is_hex_def is_digit_def char_in_def js_space_def)

lemma trim_hex: "list_all is_hex s \<Longrightarrow> js_trim s = s"
  by (rule trim_no_space) (auto simp: list_all_iff hex_no_space)

lemma schema_dotPath [intro]: "schema dotPath_parse"
  by (auto simp: schema_def dotPath_parse_def Let_def js_trim_idem split: if_splits)

lemma schema_sourceCommit [intro]: "schema sourceCommit_parse"
  by (auto simp: schema_def sourceCommit_parse_def Let_def len_between_def lower_hex trim_hex js_lower_idem split: if_splits)

lemma schema_buildId [intro]: "schema buildId_parse"
  by (auto simp: schema_def buildId_parse_def len_between_def lower_hex js_lower_idem split: if_splits)

lemma schema_capability [intro]: "schema agentCapability_parse"
  by (auto simp: schema_def agentCapability_parse_def Let_def js_trim_idem split: if_splits)

lemma schema_mapPath [intro]: "schema sourceMapPath_parse"
  by (auto simp: schema_def sourceMapPath_parse_def Let_def js_trim_idem split: if_splits)

lemma schema_names [intro]: "schema serviceId_parse" "schema sourceFile_parse" "schema agentId_parse"
    "schema expressionSource_parse"
  by (auto simp: serviceId_parse_def sourceFile_parse_def agentId_parse_def expressionSource_parse_def)

lemma schema_resolution [intro]: "schema resolution_parse"
  using schema.again [OF schema_names(2)] by (auto simp: schema_def resolution_parse_def split: option.splits if_splits)

lemma schema_availability [intro]: "schema availability_parse"
proof
  fix a a'
  assume p: "availability_parse a = Some a'"
  then obtain x y z where q: "dotPath_parse (va_path a) = Some x" "opt_parse reasonCode_parse (va_reasonCode a) = Some y"
      "bounded_list 256 (trimmed 1 300) (va_siteIds a) = Some z" by (auto simp: availability_parse_def split: option.splits)
  note r = q(1) [THEN schema.again [OF schema_dotPath]] q(2) [THEN schema.again [OF schema_opt [OF schema_checked]]]
    q(3) [THEN schema.again [OF schema_bounded [OF schema_trimmed]]]
  show "availability_parse a' = Some a'" using p q r by (auto simp: availability_parse_def)
qed

lemma schema_metadata [intro]: "schema metadata_parse"
proof
  fix m m'
  assume a: "metadata_parse m = Some m'"
  note again = schema.again [OF schema_opt]
  obtain c aid iid b site r va where p: "opt_parse reasonCode_parse (nm_reasonCode m) = Some c"
      "opt_parse (trimmed 1 200) (nm_agentId m) = Some aid" "opt_parse (trimmed 1 300) (nm_instanceId m) = Some iid"
      "opt_parse (checked plainBuildId_ok) (nm_buildId m) = Some b" "opt_parse (trimmed 1 300) (nm_siteId m) = Some site"
      "opt_parse resolution_parse (nm_resolution m) = Some r"
      "opt_parse (bounded_list 100 availability_parse) (nm_variableAvailability m) = Some va"
    using a by (auto simp: metadata_parse_def split: option.splits)
  note q = p(1) [THEN again [OF schema_checked]] p(2) [THEN again [OF schema_trimmed]] p(3) [THEN again [OF schema_trimmed]]
    p(4) [THEN again [OF schema_checked]] p(5) [THEN again [OF schema_trimmed]] p(6) [THEN again [OF schema_resolution]]
    p(7) [THEN again [OF schema_bounded [OF schema_availability]]]
  show "metadata_parse m' = Some m'" using a p q by (auto simp: metadata_parse_def split: if_splits)
qed

lemma schema_unavailable [intro]: "schema unavailable_parse"
  using schema.again [OF schema_opt [OF schema_buildId]]
  by (auto simp: schema_def unavailable_parse_def split: option.splits if_splits)

lemma schema_nativeUnavailable [intro]: "schema nativeUnavailable_parse"
  using schema.again [OF schema_opt [OF schema_trimmed]]
  by (auto simp: schema_def nativeUnavailable_parse_def split: option.splits if_splits)

lemma traverse_again_on:
  assumes "traverse f xs = Some ys" "\<And>x y. x \<in> set xs \<Longrightarrow> f x = Some y \<Longrightarrow> f y = Some y"
  shows "traverse f ys = Some ys"
proof -
  have "list_all2 (\<lambda>x y. f x = Some y) xs ys" using assms(1) by (simp add: traverse_Some_iff)
  then have "\<forall>y \<in> set ys. f y = Some y" using assms(2) by (fastforce simp: list_all2_conv_all_nth in_set_conv_nth)
  then show ?thesis by (intro traverse_cong_id) simp
qed

lemma schema_node [intro]: "schema up \<Longrightarrow> schema (node_parse up)"
proof
  fix n n'
  assume s: "schema up" "node_parse up n = Some n'"
  from s(2) show "node_parse up n' = Some n'"
    using s(1)
  proof (induction up n arbitrary: n' rule: node_parse.induct)
    case (3 up ms m)
    then obtain ms' where t: "traverse (\<lambda>p. map_option (Pair (fst p)) (node_parse up (snd p))) ms = Some ms'" "n' = NObj ms' m"
      by auto
    have "traverse (\<lambda>p. map_option (Pair (fst p)) (node_parse up (snd p))) ms' = Some ms'"
      by (rule traverse_again_on [OF t(1)]) (use "3.IH" "3.prems"(2) in fastforce)
    with t(2) show ?case by simp
  next
    case (4 up ns m)
    then obtain ns' where t: "traverse (node_parse up) ns = Some ns'" "n' = NArr ns' m" by auto
    have "traverse (node_parse up) ns' = Some ns'"
      by (rule traverse_again_on [OF t(1)]) (use "4.IH" "4.prems"(2) in blast)
    with t(2) show ?case by simp
  qed (auto split: if_splits dest: schema.again)
qed

lemma schema_frame [intro]: "schema up \<Longrightarrow> schema fp \<Longrightarrow> schema (frame_parse up fp)"
proof
  fix f f'
  assume s: "schema up" "schema fp" and p: "frame_parse up fp f = Some f'"
  then obtain x y where q: "fp (sf_file f) = Some x" "opt_parse (node_parse up) (sf_variables f) = Some y"
    by (auto simp: frame_parse_def split: option.splits)
  note r = q(1) [THEN schema.again [OF s(2)]] q(2) [THEN schema.again [OF schema_opt [OF schema_node [OF s(1)]]]]
  show "frame_parse up fp f' = Some f'" using p q r by (auto simp: frame_parse_def split: if_splits)
qed

lemma schema_watch [intro]: "schema up \<Longrightarrow> schema (watch_parse up)"
  using schema.again [OF schema_node] by (fastforce simp: schema_def watch_parse_def)

lemma schema_body [intro]: "schema up \<Longrightarrow> schema fp \<Longrightarrow> schema (body_parse up fp)"
proof
  fix b b'
  assume s: "schema up" "schema fp" and p: "body_parse up fp b = Some b'"
  note again = schema.again [OF schema_node [OF s(1)]] schema.again [OF schema_traverse [OF schema_watch [OF s(1)]]]
    schema.again [OF schema_bounded [OF schema_frame [OF s]]] schema.again [OF schema_metadata]
  show "body_parse up fp b' = Some b'"
  proof (cases b)
    case (SnapshotEvent v w st)
    then obtain v' w' st' where q: "node_parse up v = Some v'" "traverse (watch_parse up) w = Some w'"
        "bounded_list 8 (frame_parse up fp) st = Some st'" "b' = SnapshotEvent v' w' st'"
      using p by (auto split: option.splits)
    with again show ?thesis by simp
  qed (use p again in \<open>auto split: if_splits\<close>)
qed

lemma schema_event [intro]: "schema probeEvent_parse"
  using schema.again [OF schema_body [OF schema_unavailable schema_checked]]
  by (fastforce simp: schema_def probeEvent_parse_def eventBody_parse_def split: if_splits)

lemma schema_nativeEvent [intro]: "schema nativeEvent_parse"
  using schema.again [OF schema_body [OF schema_nativeUnavailable schema_names(2)]]
  by (fastforce simp: schema_def nativeEvent_parse_def split: if_splits option.splits)

subsection \<open>Requests\<close>

interpretation ingests: schema ingest_parse
proof
  fix i j
  assume p: "ingest_parse i = Some j"
  then obtain a b c d e where q: "serviceId_parse (ig_serviceId i) = Some a" "opt_parse agentId_parse (ig_agentId i) = Some b"
      "sourceCommit_parse (ig_commitSha i) = Some c"
      "bounded_list 32 agentCapability_parse (case ig_capabilities i of None \<Rightarrow> [] | Some c \<Rightarrow> c) = Some d"
      "bounded_list 10000 probeEvent_parse (ig_events i) = Some e"
    by (auto simp: ingest_parse_def split: option.splits)
  note r = q(1) [THEN schema.again [OF schema_names(1)]] q(2) [THEN schema.again [OF schema_opt [OF schema_names(3)]]]
    q(3) [THEN schema.again [OF schema_sourceCommit]] q(4) [THEN schema.again [OF schema_bounded [OF schema_capability]]]
    q(5) [THEN schema.again [OF schema_bounded [OF schema_event]]]
  show "ingest_parse j = Some j" using p q r by (auto simp: ingest_parse_def split: if_splits)
qed

interpretation native_ingests: schema nativeIngest_parse
proof
  fix i j
  assume p: "nativeIngest_parse i = Some j"
  then obtain a b c d e where q: "trimmed 1 200 (ng_agentId i) = Some a" "serviceId_parse (ng_serviceId i) = Some b"
      "trimmed 1 300 (ng_instanceId i) = Some c" "buildId_parse (ng_buildId i) = Some d"
      "bounded_list 1000 nativeEvent_parse (ng_events i) = Some e"
    by (auto simp: nativeIngest_parse_def split: option.splits)
  note r = q(1) [THEN schema.again [OF schema_trimmed]] q(2) [THEN schema.again [OF schema_names(1)]]
    q(3) [THEN schema.again [OF schema_trimmed]] q(4) [THEN schema.again [OF schema_buildId]]
    q(5) [THEN schema.again [OF schema_bounded [OF schema_nativeEvent]]]
  show "nativeIngest_parse j = Some j" using p q r by (auto simp: nativeIngest_parse_def split: if_splits)
qed

interpretation registrations: schema registration_parse
proof
  fix r r'
  assume p: "registration_parse r = Some r'"
  then obtain a b c where q: "trimmed 1 200 (rg_agentId r) = Some a" "trimmed 1 255 (rg_hostname r) = Some b"
      "trimmed 1 100 (rg_agentVersion r) = Some c"
    by (auto simp: registration_parse_def split: option.splits)
  note again = q [THEN schema.again [OF schema_trimmed]]
  show "registration_parse r' = Some r'" using p q again by (auto simp: registration_parse_def split: if_splits)
qed

lemma schema_reportedInstance [intro]: "schema reportedInstance_parse"
proof
  fix r r'
  assume p: "reportedInstance_parse r = Some r'"
  then obtain a b c d e where q: "trimmed 1 300 (rp_instanceId r) = Some a" "serviceId_parse (rp_serviceId r) = Some b"
      "trimmed 1 100 (rp_processStartTime r) = Some c" "opt_parse (trimmed 1 100) (rp_executableDevice r) = Some d"
      "buildId_parse (rp_buildId r) = Some e"
    by (auto simp: reportedInstance_parse_def split: option.splits)
  note again = q(1) [THEN schema.again [OF schema_trimmed]] q(2) [THEN schema.again [OF schema_names(1)]]
    q(3) [THEN schema.again [OF schema_trimmed]] q(4) [THEN schema.again [OF schema_opt [OF schema_trimmed]]]
    q(5) [THEN schema.again [OF schema_buildId]]
  show "reportedInstance_parse r' = Some r'" using p q again by (auto simp: reportedInstance_parse_def split: if_splits)
qed

interpretation instance_sets: schema instanceSet_parse
  unfolding instanceSet_parse_def by (rule schema_bounded) (rule schema_reportedInstance)

subsection \<open>Probe definitions\<close>

lemma schema_condition [intro]: "schema condition_parse"
  using schema.again [OF schema_dotPath] by (auto simp: schema_def condition_parse_def split: option.splits if_splits)

lemma schema_segment [intro]: "schema segment_parse"
proof
  fix x y
  show "segment_parse x = Some y \<Longrightarrow> segment_parse y = Some y"
    using schema.again [OF schema_trimmed] by (cases x) (auto split: if_splits)
qed

lemma schema_expressionNode [intro]: "schema expressionNode_parse"
proof
  fix x y
  show "expressionNode_parse x = Some y \<Longrightarrow> expressionNode_parse y = Some y"
  proof (induction x arbitrary: y)
    case (Reference p)
    then obtain q where q: "traverse segment_parse p = Some q" "y = Reference q" "1 \<le> length p" "length p \<le> 64"
      by (auto split: if_splits)
    with schema.traverse_again [OF schema_segment q(1)] traverse_length [OF q(1)] show ?case by simp
  next
    case (Unary u e)
    obtain e' where "expressionNode_parse e = Some e'" "y = Unary u e'" using Unary.prems by auto
    with Unary.IH [of e'] show ?case by simp
  next
    case (Binary b l r)
    obtain l' r' where "expressionNode_parse l = Some l'" "expressionNode_parse r = Some r'" "y = Binary b l' r'"
      using Binary.prems by (cases "expressionNode_parse l") auto
    with Binary.IH(1) [of l'] Binary.IH(2) [of r'] show ?case by simp
  qed (auto split: if_splits)
qed

lemma schema_compiledExpression [intro]: "schema compiledExpression_parse"
proof
  fix x y
  assume "compiledExpression_parse x = Some y"
  then obtain a where "expressionNode_parse (ce_ast x) = Some a" "len_between 1 4096 (ce_source x)" "y = x\<lparr>ce_ast := a\<rparr>"
    by (auto simp: compiledExpression_parse_def split: if_splits)
  with schema.again [OF schema_expressionNode this(1)] show "compiledExpression_parse y = Some y"
    by (simp add: compiledExpression_parse_def)
qed

lemma schema_templateSegment [intro]: "schema templateSegment_parse"
proof
  fix x y
  assume p: "templateSegment_parse x = Some y"
  show "templateSegment_parse y = Some y"
  proof (cases x)
    case (TExpr e)
    then obtain e' where "compiledExpression_parse e = Some e'" "y = TExpr e'" using p by auto
    with schema.again [OF schema_compiledExpression this(1)] show ?thesis by simp
  qed (use p in \<open>auto split: if_splits\<close>)
qed

lemma schema_runtime [intro]: "schema runtime_parse"
  using schema.again [OF schema_names(2)] by (auto simp: schema_def runtime_parse_def split: option.splits if_splits)

lemma schema_probeBody [intro]: "schema probeBody_parse"
proof
  fix x y
  assume p: "probeBody_parse x = Some y"
  note again = schema.again [OF schema_opt [OF schema_bounded [OF schema_dotPath]]]
    schema.again [OF schema_opt [OF schema_bounded [OF schema_compiledExpression]]]
    schema.again [OF schema_opt [OF schema_bounded [OF schema_templateSegment]]]
    schema.again [OF schema_opt [OF schema_dotPath]] schema.again [OF schema_opt [OF schema_compiledExpression]]
  show "probeBody_parse y = Some y"
  proof (cases x)
    case (SnapshotProbe wp we sl fl)
    then obtain wp' we' where "opt_parse (bounded_list 100 dotPath_parse) wp = Some wp'"
        "opt_parse (bounded_list 100 compiledExpression_parse) we = Some we'" "1 \<le> fl \<and> fl \<le> 8" "y = SnapshotProbe wp' we' sl fl"
      using p by (auto split: option.splits if_splits)
    with again show ?thesis by simp
  next
    case (MetricProbe mp me)
    then obtain mp' me' where "opt_parse dotPath_parse mp = Some mp'" "opt_parse compiledExpression_parse me = Some me'"
        "y = MetricProbe mp' me'"
      using p by (auto split: option.splits)
    with again show ?thesis by simp
  next
    case (LogProbe t lv ts)
    then obtain ts' where "opt_parse (bounded_list 201 templateSegment_parse) ts = Some ts'" "len_between 1 16384 t" "y = LogProbe t lv ts'"
      using p by (auto split: if_splits)
    with again show ?thesis by simp
  qed (use p in simp)
qed

interpretation probe_definitions: schema probeDefinition_parse
proof
  fix p p'
  assume pp: "probeDefinition_parse p = Some p'"
  then obtain a b c d e f g h where q: "serviceId_parse (pd_serviceId p) = Some a" "opt_parse sourceCommit_parse (pd_sourceCommit p) = Some b"
      "sourceFile_parse (pd_file p) = Some c" "opt_parse runtime_parse (pd_runtime p) = Some d"
      "opt_parse condition_parse (pd_condition p) = Some e" "opt_parse compiledExpression_parse (pd_conditionExpression p) = Some f"
      "trimmed 1 500 (pd_createdBy p) = Some g" "probeBody_parse (pd_body p) = Some h"
    by (auto simp: probeDefinition_parse_def split: option.splits)
  note r = q(1) [THEN schema.again [OF schema_names(1)]] q(2) [THEN schema.again [OF schema_opt [OF schema_sourceCommit]]]
    q(3) [THEN schema.again [OF schema_names(2)]] q(4) [THEN schema.again [OF schema_opt [OF schema_runtime]]]
    q(5) [THEN schema.again [OF schema_opt [OF schema_condition]]] q(6) [THEN schema.again [OF schema_opt [OF schema_compiledExpression]]]
    q(7) [THEN schema.again [OF schema_trimmed]] q(8) [THEN schema.again [OF schema_probeBody]]
  show "probeDefinition_parse p' = Some p'" using pp q r by (auto simp: probeDefinition_parse_def split: if_splits)
qed

end
