(* ===== verification/Broker_System.thy ===== *)
theory Broker_System
  imports Broker_Native
begin

text \<open>
  The broker as a transition system: one step per public operation, the reachable states, and
  the contract between the service version and what a poll sees.  A version never decreases, and
  while it stands still the answer of a poll stands still too.
\<close>

section \<open>Definitions\<close>

definition complete_maps :: "broker \<Rightarrow> resource_scope \<Rightarrow> string \<Rightarrow> string \<Rightarrow> stored_source_map list option" where
  "complete_maps st s sid c =
     (case jget (sourceMapSets st) (sourceMapKey s sid c) of
        None \<Rightarrow> None
      | Some v \<Rightarrow> if ss_complete v then Some (jvalues (ss_maps v)) else None)"

definition poll_answer ::
  "env \<Rightarrow> broker \<Rightarrow> resource_scope \<Rightarrow> string \<Rightarrow> string option \<Rightarrow> (broker_error, probe_definition list) res" where
  "poll_answer env st s sid c = map_res (withRuntimeLocation env c s st) (live_probes st s sid)"

definition coherent :: "broker \<Rightarrow> broker \<Rightarrow> bool" where
  "coherent st st' \<longleftrightarrow> (\<forall>s sid. service_version st s sid \<le> service_version st' s sid \<and>
     (service_version st s sid = service_version st' s sid \<longrightarrow>
        live_probes st s sid = live_probes st' s sid \<and>
        (\<forall>c. nul \<notin> set c \<longrightarrow> complete_maps st s sid c = complete_maps st' s sid c)))"

text \<open>The sets of a service dropped by the retention rule.\<close>

definition dropped_sets :: "env \<Rightarrow> resource_scope \<Rightarrow> string \<Rightarrow> broker \<Rightarrow> string list" where
  "dropped_sets env s sid st = map fst (drop SOURCE_MAP_COMMITS_PER_SERVICE (retained_sets env s sid st))"

text \<open>
  One rule per public operation of \<^verbatim>\<open>BrokerState\<close> that changes the state, at an arbitrary
  clock reading.  The guards are what the HTTP handlers guarantee of the arguments: requests
  have passed their schemas and a listener is a fresh closure.
\<close>

inductive broker_step :: "env \<Rightarrow> broker \<Rightarrow> broker \<Rightarrow> bool" for env :: env where
  step_create: "createProbeInput_parse raw = Some input \<Longrightarrow>
    broker_step env st (fst (createProbe env gen now input scope st))"
| step_delete: "broker_step env st (fst (deleteProbe now pid scope st))"
| step_sweep: "broker_step env st (sweep now st)"
| step_poll: "broker_step env st (fst (pollProbes env now sid since commit scope st))"
| step_ingest: "broker_step env st (fst (ingest now input scope st))"
| step_wait: "(\<And>q. l \<notin> set (waiting st q)) \<Longrightarrow>
    broker_step env st (waitForEvents pid timeoutMs aborted l st)"
| step_finish: "broker_step env st (finish pid l reason st)"
| step_map_status: "sourceCommit_parse raw_sha = Some sha \<Longrightarrow>
    broker_step env st (fst (sourceMapStatus now sid sha uploader scope st))"
| step_map_upload: "sourceCommit_parse raw_sha = Some (ui_commitSha i) \<Longrightarrow>
    broker_step env st (fst (uploadSourceMap env now i scope st))"
| step_map_complete: "sourceCommit_parse raw_sha = Some sha \<Longrightarrow>
    broker_step env st (fst (completeSourceMaps env now sid sha uploader scope st))"
| step_register: "broker_step env st (fst (registerNativeAgent now reg scope st))"
| step_replace: "broker_step env st (fst (replaceNativeInstances now aid reported scope allowed st))"
| step_assignments: "broker_step env st (fst (nativeAssignments env now aid since scope allowed st))"
| step_ingest_native: "broker_step env st (fst (ingestNative now ni scope st))"
| step_list_services: "broker_step env st (fst (listServices env now scope st))"
| step_dispose: "broker_step env st (dispose st)"

inductive reachable :: "env \<Rightarrow> broker \<Rightarrow> bool" for env :: env where
  reachable_init: "new_broker cap = Ok st \<Longrightarrow> reachable env st"
| reachable_step: "reachable env st \<Longrightarrow> broker_step env st st' \<Longrightarrow> reachable env st'"

definition poll_view :: "resource_scope \<times> string \<Rightarrow> broker \<Rightarrow> probe_definition list \<times> (string \<Rightarrow> stored_source_map list option)" where
  "poll_view k st = (live_probes st (fst k) (snd k),
     \<lambda>c. if nul \<in> set c then None else complete_maps st (fst k) (snd k) c)"

section \<open>Lemmas\<close>

subsection \<open>What a poll sees\<close>

lemma coherent_refl [simp]: "coherent st st"
  by (simp add: coherent_def)

lemma coherent_trans:
  assumes "coherent a b" "coherent b c"
  shows "coherent a c"
  unfolding coherent_def
proof (intro allI)
  fix s sid
  have ab: "service_version a s sid \<le> service_version b s sid" and bc: "service_version b s sid \<le> service_version c s sid"
    using assms by (auto simp: coherent_def)
  show "service_version a s sid \<le> service_version c s sid \<and>
     (service_version a s sid = service_version c s sid \<longrightarrow>
        live_probes a s sid = live_probes c s sid \<and>
        (\<forall>d. nul \<notin> set d \<longrightarrow> complete_maps a s sid d = complete_maps c s sid d))"
  proof (intro conjI impI)
    assume "service_version a s sid = service_version c s sid"
    then have "service_version a s sid = service_version b s sid" "service_version b s sid = service_version c s sid"
      using ab bc by simp_all
    then show "live_probes a s sid = live_probes c s sid"
      "\<forall>d. nul \<notin> set d \<longrightarrow> complete_maps a s sid d = complete_maps c s sid d"
      using assms by (auto simp: coherent_def)
  qed (use ab bc in simp)
qed

lemma coherent_frame:
  assumes "probes st' = probes st" "serviceVersions st' = serviceVersions st" "sourceMapSets st' = sourceMapSets st"
  shows "coherent st st'"
  using assms by (simp add: coherent_def live_probes_def complete_maps_def service_version_def)

text \<open>A change inside one service that moves its version on.\<close>

lemma coherentI:
  assumes "\<And>s sid. (s, sid) \<noteq> (s0, sid0) \<Longrightarrow> service_version st' s sid = service_version st s sid"
    "service_version st s0 sid0 < service_version st' s0 sid0"
    "\<And>s sid. (s, sid) \<noteq> (s0, sid0) \<Longrightarrow> live_probes st s sid = live_probes st' s sid"
    "\<And>s sid c. (s, sid) \<noteq> (s0, sid0) \<Longrightarrow> nul \<notin> set c \<Longrightarrow> complete_maps st s sid c = complete_maps st' s sid c"
  shows "coherent st st'"
  unfolding coherent_def
proof (intro allI)
  fix s sid
  show "service_version st s sid \<le> service_version st' s sid \<and>
     (service_version st s sid = service_version st' s sid \<longrightarrow>
        live_probes st s sid = live_probes st' s sid \<and>
        (\<forall>c. nul \<notin> set c \<longrightarrow> complete_maps st s sid c = complete_maps st' s sid c))"
    using assms by (cases "(s, sid) = (s0, sid0)") auto
qed

lemma coherent_increment: "coherent st (fst (incrementServiceVersion sid s st))"
  by (rule coherentI [of s sid]) (auto simp: live_probes_def complete_maps_def)

lemma filter_map_cond: "(\<And>x. x \<in> set xs \<Longrightarrow> P (f x) = Q x \<and> (Q x \<longrightarrow> g (f x) = g x)) \<Longrightarrow>
    map g (filter P (map f xs)) = map g (filter Q xs)"
  by (induction xs) auto

lemma live_probes_sweep:
  assumes "probes_ok st"
  shows "live_probes (sweep now st) s sid = map sp_probe (filter (\<lambda>v. sp_scope v = s \<and>
      pd_serviceId (sp_probe v) = sid \<and> \<not> sp_expired v \<and> \<not> sp_expiresAt v \<le> now) (jvalues (probes st)))"
proof -
  have "jvalues (probes (sweep now st)) = map (expire_stored now) (jvalues (probes st))"
    by (simp add: sweep_probes [OF assms] case_prod_beta)
  then show ?thesis by (simp only: live_probes_def) (rule filter_map_cond, auto)
qed

lemma coherent_sweep:
  assumes "probes_ok st"
  shows "coherent st (sweep now st)"
  unfolding coherent_def
proof (intro allI conjI impI)
  fix s sid
  show "service_version st s sid \<le> service_version (sweep now st) s sid" by (simp add: sweep_version [OF assms])
  assume "service_version st s sid = service_version (sweep now st) s sid"
  then have n: "\<not> (due_at now st k \<and> owns st s sid k)" if "k \<in> set (jkeys (probes st))" for k
    using that by (auto simp: sweep_version [OF assms] filter_empty_conv)
  have "\<not> (sp_scope v = s \<and> pd_serviceId (sp_probe v) = sid \<and> due now v)" if "v \<in> set (jvalues (probes st))" for v
  proof -
    from that obtain k where k: "(k, v) \<in> set (probes st)" by auto
    then have "jget (probes st) k = Some v" using assms by (simp add: probes_ok_def)
    with n [of k] k show ?thesis by (force simp: due_at_def owns_def)
  qed
  then have "live_probes st s sid = map sp_probe (filter (\<lambda>v. sp_scope v = s \<and>
      pd_serviceId (sp_probe v) = sid \<and> \<not> sp_expired v \<and> \<not> sp_expiresAt v \<le> now) (jvalues (probes st)))"
    unfolding live_probes_def
    by (intro arg_cong [where f = "map sp_probe"] filter_cong) (auto simp: due_def)
  then show "live_probes st s sid = live_probes (sweep now st) s sid"
    by (simp add: live_probes_sweep [OF assms])
qed (simp add: complete_maps_def)

lemma live_probes_jset_new:
  "\<not> jhas (probes st) k \<Longrightarrow> live_probes (st\<lparr>probes := jset k v (probes st)\<rparr>) s sid =
   live_probes st s sid @ (if sp_scope v = s \<and> pd_serviceId (sp_probe v) = sid \<and> \<not> sp_expired v then [sp_probe v] else [])"
  by (simp add: live_probes_def jset_new)

lemma coherent_createProbe:
  assumes "js_trim (ci_serviceId input) = ci_serviceId input"
  shows "coherent st (fst (createProbe env gen now input scope st))"
proof -
  obtain st' r where e: "createProbe env gen now input scope st = (st', r)" by fastforce
  have rf: "coherent st (refreshServiceCapabilities now scope (ci_serviceId input) st)"
    by (rule coherent_frame) simp_all
  show ?thesis
  proof (cases r)
    case (Inl err)
    from e [unfolded this] show ?thesis
      by (cases rule: createProbe_ErrE) (simp_all add: e rf coherent_trans [OF rf coherent_increment])
  next
    case (Inr p)
    from e [unfolded this] obtain cp st1 where c:
      "st1 = refreshServiceCapabilities now scope (ci_serviceId input) st" "\<not> jhas (probes st) (pd_id p)"
      "probeDefinition_parse (assemble_probe input cp (pd_id p)
       (service_version st scope (ci_serviceId input) + 1)) = Some p"
      "st' = (fst (incrementServiceVersion (ci_serviceId input) scope st1))
       \<lparr>probes := jset (pd_id p) \<lparr>sp_scope = scope, sp_probe = p,
          sp_expiresAt = expires_at now (pd_ttlSeconds p), sp_expired = False\<rparr> (probes st),
        events := jset (pd_id p) [] (events st)\<rparr>"
      by (cases rule: createProbe_OkE)
    have sid: "pd_serviceId p = ci_serviceId input"
      using probeDefinition_parse_Some(3) [OF c(3)] assms by (simp add: assemble_probe_def)
    have v: "service_version st' s' sid' = service_version (fst (incrementServiceVersion (ci_serviceId input) scope st1)) s' sid'" for s' sid'
      by (rule service_version_frame) (simp add: c(4))
    have v1: "service_version st1 s' sid' = service_version st s' sid'" for s' sid'
      by (rule service_version_frame) (simp add: c(1))
    have pr: "probes st' = probes st @ [(pd_id p, \<lparr>sp_scope = scope, sp_probe = p,
          sp_expiresAt = expires_at now (pd_ttlSeconds p), sp_expired = False\<rparr>)]"
      and ma: "sourceMapSets st' = sourceMapSets st" using c(2) by (simp_all add: c(1,4) jset_new)
    have "coherent st st'"
      by (rule coherentI [of scope "ci_serviceId input"])
        (auto simp: v v1 pr ma sid live_probes_def complete_maps_def)
    then show ?thesis by (simp add: e)
  qed
qed

lemma coherent_deleteProbe:
  assumes "probes_ok st"
  shows "coherent st (fst (deleteProbe now pid scope st))"
proof (cases "jget (probes st) pid")
  case (Some v)
  have drop: "filter (\<lambda>x. sp_scope x = s \<and> pd_serviceId (sp_probe x) = sid \<and> \<not> sp_expired x) (jvalues (jdel pid (probes st))) =
      filter (\<lambda>x. sp_scope x = s \<and> pd_serviceId (sp_probe x) = sid \<and> \<not> sp_expired x) (jvalues (probes st))"
    if "\<not> (sp_scope v = s \<and> pd_serviceId (sp_probe v) = sid \<and> \<not> sp_expired v)" for s sid
  proof -
    have "filter (\<lambda>q. (\<lambda>x. sp_scope x = s \<and> pd_serviceId (sp_probe x) = sid \<and> \<not> sp_expired x) (snd q)) (jdel pid (probes st)) =
       filter (\<lambda>q. (\<lambda>x. sp_scope x = s \<and> pd_serviceId (sp_probe x) = sid \<and> \<not> sp_expired x) (snd q)) (probes st)"
      by (rule jm.del_absorb_filter) (use assms Some that in \<open>auto simp: probes_ok_def\<close>)
    then show ?thesis by (simp add: filter_map o_def)
  qed
  show ?thesis
  proof (cases "sp_scope v = scope \<and> \<not> sp_expired v")
    case True
    then show ?thesis using Some drop
      by (intro coherentI [of scope "pd_serviceId (sp_probe v)"])
        (auto simp: deleteProbe_def Let_def live_probes_def complete_maps_def service_version_def serviceVersions_increment serviceKey_inj)
  next
    case False
    with Some drop show ?thesis
      by (auto simp: coherent_def deleteProbe_def Let_def live_probes_def complete_maps_def service_version_def)
  qed
qed (simp add: deleteProbe_def)

lemma withRuntimeLocation_cong:
  "(\<And>c. cs = Some c \<Longrightarrow> complete_maps st s (pd_serviceId p) c = complete_maps st' s (pd_serviceId p) c) \<Longrightarrow>
   withRuntimeLocation env cs s st p = withRuntimeLocation env cs s st' p"
  by (cases cs) (force simp: withRuntimeLocation_def complete_maps_def split: option.splits if_splits)+

lemma map_res_cong: "(\<And>x. x \<in> set xs \<Longrightarrow> f x = g x) \<Longrightarrow> map_res f xs = map_res g xs"
  by (induction xs) (auto split: sum.splits)

lemma complete_maps_other:
  assumes "maps_ok st" "nul \<notin> set c" "nul \<notin> set c0" "(s, sid, c) \<noteq> (s0, sid0, c0)"
  shows "sourceMapKey s sid c \<noteq> sourceMapKey s0 sid0 c0"
  using assms by (simp add: sourceMapKey_inj)

lemma coherent_maps:
  assumes "probes st' = probes st" "serviceVersions st' = serviceVersions st"
    "\<And>s sid c. nul \<notin> set c \<Longrightarrow> complete_maps st s sid c = complete_maps st' s sid c"
  shows "coherent st st'"
  using assms by (simp add: coherent_def live_probes_def service_version_def)

lemma complete_maps_put:
  assumes "\<not> ss_complete v" "\<And>w. jget (sourceMapSets st) k = Some w \<Longrightarrow> \<not> ss_complete w"
    "sourceMapSets st' = jset k v (sourceMapSets st)"
  shows "complete_maps st' s sid c = complete_maps st s sid c"
  using assms by (auto simp: complete_maps_def split: option.split)

lemma coherent_sourceMapStatus:
  "coherent st (fst (sourceMapStatus now sid c u s st))"
proof (rule coherent_maps)
  show "complete_maps st s' sid' c' = complete_maps (fst (sourceMapStatus now sid c u s st)) s' sid' c'" for s' sid' c'
  proof (cases "jget (sourceMapSets st) (sourceMapKey s sid c)")
    case (Some v)
    then show ?thesis by (auto simp: sourceMapStatus_def Let_def complete_maps_def split: option.splits)
  qed (simp add: sourceMapStatus_def Let_def complete_maps_def)
qed (simp_all add: sourceMapStatus_def Let_def)

lemma coherent_assert: "coherent st (fst (assertSourceMapUploader now sid c u s st))"
  by (rule coherent_frame) simp_all

lemma held_incomplete:
  assumes "maps_ok st" "jget (sourceMapLeases st) k = Some l" "jget (sourceMapSets st) k = Some v"
  shows "\<not> ss_complete v"
  using maps_okD(4) [OF assms(1,3)] assms(2) by (auto simp: jhas_def)

lemma coherent_upload:
  assumes "maps_ok st"
  shows "coherent st (fst (uploadSourceMap env now i s st))"
proof (cases now "ui_serviceId i" "ui_commitSha i" "ui_uploaderId i" s st rule: assert_cases)
  case (refused e)
  then show ?thesis by (simp add: uploadSourceMap_def)
next
  case (held l)
  show ?thesis
  proof (rule coherent_maps)
    fix s' sid' c'
    show "complete_maps st s' sid' c' = complete_maps (fst (uploadSourceMap env now i s st)) s' sid' c'"
      using held(1) held_incomplete [OF assms held(2)]
      by (auto simp: uploadSourceMap_def Let_def complete_maps_def split: sum.split option.split)
  qed (auto simp: uploadSourceMap_def Let_def held(1) split: sum.split)
qed

lemma dropped_own:
  assumes "k \<in> set (dropped_sets env s sid st)"
  shows "\<exists>v. (k, v) \<in> set (sourceMapSets st) \<and> ss_scope v = s \<and> ss_serviceId v = sid"
proof -
  obtain v where "(k, v) \<in> set (retained_sets env s sid st)"
    using assms by (auto simp: dropped_sets_def dest: in_set_dropD)
  then show ?thesis by (auto simp: retained_sets_def)
qed

lemma completeSourceMaps_held:
  assumes "jget (sourceMapLeases st) (sourceMapKey s sid c) = Some l" "now < le_expiresAt l" "le_uploaderId l = u"
  defines "st1 \<equiv> st\<lparr>sourceMapLeases := jset (sourceMapKey s sid c) (l\<lparr>le_expiresAt := now + LEASE_MS\<rparr>) (sourceMapLeases st)\<rparr>"
  defines "st3 \<equiv> fst (incrementServiceVersion sid s (st1\<lparr>sourceMapSets := jset (sourceMapKey s sid c)
        ((set_or_new now s sid c st1)\<lparr>ss_complete := True, ss_updatedAt := now\<rparr>) (sourceMapSets st1),
      sourceMapLeases := jdel (sourceMapKey s sid c) (sourceMapLeases st1)\<rparr>))"
  shows "completeSourceMaps env now sid c u s st =
    (st3\<lparr>sourceMapSets := fold jdel (dropped_sets env s sid st3) (sourceMapSets st3),
         sourceMapLeases := fold jdel (dropped_sets env s sid st3) (sourceMapLeases st3)\<rparr>, Ok ())"
  using assms by (simp add: completeSourceMaps_def assertSourceMapUploader_def Let_def dropped_sets_def)

lemma coherent_complete:
  assumes "broker_inv st" "nul \<notin> set c"
  shows "coherent st (fst (completeSourceMaps env now sid c u s st))"
proof (cases now sid c u s st rule: assert_cases)
  case (refused e)
  then show ?thesis by (simp add: completeSourceMaps_def)
next
  case (held l)
  note mo = broker_invD(7) [OF assms(1)]
  define st1 where "st1 = st\<lparr>sourceMapLeases := jset (sourceMapKey s sid c) (l\<lparr>le_expiresAt := now + LEASE_MS\<rparr>) (sourceMapLeases st)\<rparr>"
  define v where "v = (set_or_new now s sid c st1)\<lparr>ss_complete := True, ss_updatedAt := now\<rparr>"
  define st3 where "st3 = fst (incrementServiceVersion sid s (st1\<lparr>sourceMapSets := jset (sourceMapKey s sid c) v (sourceMapSets st1),
      sourceMapLeases := jdel (sourceMapKey s sid c) (sourceMapLeases st1)\<rparr>))"
  have e: "completeSourceMaps env now sid c u s st =
    (st3\<lparr>sourceMapSets := fold jdel (dropped_sets env s sid st3) (sourceMapSets st3),
         sourceMapLeases := fold jdel (dropped_sets env s sid st3) (sourceMapLeases st3)\<rparr>, Ok ())"
    unfolding st3_def v_def st1_def by (rule completeSourceMaps_held [OF held(2-4)])
  have sets: "sourceMapSets st3 = jset (sourceMapKey s sid c) v (sourceMapSets st)" by (simp add: st3_def st1_def)
  have key: "\<exists>c0. k = sourceMapKey s sid c0 \<and> nul \<notin> set c0" if k: "k \<in> set (dropped_sets env s sid st3)" for k
  proof -
    obtain w where w: "(k, w) \<in> set (sourceMapSets st3)" "ss_scope w = s" "ss_serviceId w = sid"
      using dropped_own [OF k] by blast
    show ?thesis
    proof (cases "k = sourceMapKey s sid c")
      case False
      then have "jget (sourceMapSets st) k = Some w"
        using w(1) maps_okD(1) [OF mo] by (auto simp: sets set_jset)
      from maps_okD(3,5) [OF mo this] w show ?thesis by blast
    qed (use assms(2) in blast)
  qed
  have same: "complete_maps st s' sid' c' = complete_maps (fst (completeSourceMaps env now sid c u s st)) s' sid' c'"
    if o: "(s', sid') \<noteq> (s, sid)" and n: "nul \<notin> set c'" for s' sid' c'
  proof -
    have "sourceMapKey s' sid' c' \<notin> set (dropped_sets env s sid st3)"
      using key n o by (fastforce simp: sourceMapKey_inj)
    moreover have "sourceMapKey s' sid' c' \<noteq> sourceMapKey s sid c" using n o assms(2) by (auto simp: sourceMapKey_inj)
    ultimately show ?thesis by (simp add: e complete_maps_def jget_fold_jdel sets)
  qed
  show ?thesis
  proof (rule coherentI [of s sid, OF _ _ _ same])
    have ver: "service_version (fst (completeSourceMaps env now sid c u s st)) s' sid' =
       (if s' = s \<and> sid' = sid then service_version st s sid + 1 else service_version st s' sid')" for s' sid'
    proof -
      have "service_version (fst (completeSourceMaps env now sid c u s st)) s' sid' = service_version st3 s' sid'"
        by (rule service_version_frame) (simp add: e)
      then show ?thesis by (simp add: st3_def) (simp add: service_version_def st1_def)
    qed
    show "(s', sid') \<noteq> (s, sid) \<Longrightarrow> service_version (fst (completeSourceMaps env now sid c u s st)) s' sid' =
        service_version st s' sid'" for s' sid' by (auto simp: ver)
    show "service_version st s sid < service_version (fst (completeSourceMaps env now sid c u s st)) s sid" by (simp add: ver)
    show "(s', sid') \<noteq> (s, sid) \<Longrightarrow> live_probes st s' sid' =
        live_probes (fst (completeSourceMaps env now sid c u s st)) s' sid'" for s' sid'
      by (simp add: e live_probes_def st3_def st1_def)
  qed
qed

lemma coherent_ingest:
  assumes "probes_ok st"
  shows "coherent st (fst (ingest now input scope st))"
proof -
  have "coherent (sweep now st) (fst (ingest now input scope st))"
    by (rule coherent_frame) (auto simp: ingest_def Let_def case_prod_beta fold_frame split: option.split)
  with coherent_sweep [OF assms] show ?thesis by (rule coherent_trans)
qed

lemma coherent_poll:
  assumes "probes_ok st"
  shows "coherent st (fst (pollProbes env now sid since c s st))"
proof -
  have "coherent (sweep now st) (fst (pollProbes env now sid since c s st))"
    by (rule coherent_frame) (auto simp: pollProbes_def Let_def)
  with coherent_sweep [OF assms] show ?thesis by (rule coherent_trans)
qed

lemma fst_nativeAssignments:
  "fst (nativeAssignments env now aid since s al st) = st \<or> fst (nativeAssignments env now aid since s al st) = sweep now st"
  by (simp add: nativeAssignments_def Let_def)

text \<open>The native operations leave probes, versions of services and source maps alone.\<close>

lemma native_ops_frame:
  "probes (fst (ingestNative now i s st)) = probes st"
  "serviceVersions (fst (ingestNative now i s st)) = serviceVersions st"
  "sourceMapSets (fst (ingestNative now i s st)) = sourceMapSets st"
proof -
  have c: "probes (fst (ingestNativeChecked now i s st)) = probes st"
    "serviceVersions (fst (ingestNativeChecked now i s st)) = serviceVersions st"
    "sourceMapSets (fst (ingestNativeChecked now i s st)) = sourceMapSets st"
    by (auto simp: ingestNativeChecked_def Let_def fold_frame split: option.split sum.split)
  obtain st1 r where e: "ingestNativeChecked now i s st = (st1, r)" by fastforce
  show "probes (fst (ingestNative now i s st)) = probes st"
    "serviceVersions (fst (ingestNative now i s st)) = serviceVersions st"
    "sourceMapSets (fst (ingestNative now i s st)) = sourceMapSets st"
    using c by (auto simp: ingestNative_def e split: sum.split broker_error.split)
qed

lemma replace_frame:
  "probes (fst (replaceNativeInstances now aid rs s al st)) = probes st"
  "serviceVersions (fst (replaceNativeInstances now aid rs s al st)) = serviceVersions st"
  "sourceMapSets (fst (replaceNativeInstances now aid rs s al st)) = sourceMapSets st"
proof -
  have "probes st2 = probes st \<and> serviceVersions st2 = serviceVersions st \<and> sourceMapSets st2 = sourceMapSets st"
    if "store_instances s aid fb rs (st\<lparr>nativeInstances := m\<rparr>) = (st2, r)" for fb m st2 r
    using store_instances_frame [of s aid fb rs "st\<lparr>nativeInstances := m\<rparr>"] that by simp
  then show "probes (fst (replaceNativeInstances now aid rs s al st)) = probes st"
    "serviceVersions (fst (replaceNativeInstances now aid rs s al st)) = serviceVersions st"
    "sourceMapSets (fst (replaceNativeInstances now aid rs s al st)) = sourceMapSets st"
    by (auto simp: replaceNativeInstances_def Let_def split: option.split prod.split sum.split)
qed

lemma register_frame:
  "probes (fst (registerNativeAgent now i s st)) = probes st"
  "serviceVersions (fst (registerNativeAgent now i s st)) = serviceVersions st"
  "sourceMapSets (fst (registerNativeAgent now i s st)) = sourceMapSets st"
  by (auto simp: registerNativeAgent_def Let_def split: option.split)

lemma dispose_frame:
  "probes (dispose st) = probes st" "serviceVersions (dispose st) = serviceVersions st"
  "sourceMapSets (dispose st) = sourceMapSets st"
  by (auto simp: dispose_def Let_def case_prod_beta fold_frame)

subsection \<open>The broker as a transition system\<close>

lemma sourceCommit_no_nul: "sourceCommit_parse r = Some c \<Longrightarrow> nul \<notin> set c"
proof -
  assume "sourceCommit_parse r = Some c"
  then obtain t where t: "list_all is_hex t" "c = js_lower t"
    by (auto simp: sourceCommit_parse_def Let_def split: if_splits)
  have "to_lower_char x \<noteq> nul" if "is_hex x" for x
    using that by (auto simp: to_lower_char_def nul_code is_hex_def is_digit_def char_in_def dest: arg_cong [where f = "of_char :: char \<Rightarrow> nat"])
  with t show "nul \<notin> set c" by (auto simp: js_lower_def list_all_iff) metis
qed

lemma createProbeInput_service:
  "createProbeInput_parse raw = Some input \<Longrightarrow> js_trim (ci_serviceId input) = ci_serviceId input"
  by (auto simp: createProbeInput_parse_def serviceId_parse_def trimmed_Some js_trim_idem Let_def
      split: option.splits if_splits)

lemma inv_step: "broker_step env st st' \<Longrightarrow> broker_inv st \<Longrightarrow> broker_inv st'"
  by (induction rule: broker_step.induct)
    (auto simp: inv_createProbe createProbeInput_service inv_deleteProbe inv_sweep inv_poll inv_ingest
      waitForEvents_def inv_register inv_finish inv_sourceMapStatus inv_upload inv_complete sourceCommit_no_nul
      inv_registerNativeAgent inv_replaceNativeInstances inv_ingestNative inv_listServices inv_dispose
      nativeAssignments_def Let_def)

lemma inv_empty: "0 < cap \<Longrightarrow> broker_inv (empty_broker cap)"
  by (simp add: inv_defs empty_broker_def ring_def waiting_def service_version_def)

lemma inv_reachable: "reachable env st \<Longrightarrow> broker_inv st"
  by (induction rule: reachable.induct)
    (auto simp: new_broker_def inv_empty DEFAULT_RING_CAPACITY_def split: option.splits if_splits intro: inv_step)

lemma coherent_step: "broker_step env st st' \<Longrightarrow> broker_inv st \<Longrightarrow> coherent st st'"
proof (induction rule: broker_step.induct)
  case (step_assignments st now aid since scope allowed)
  then show ?case using fst_nativeAssignments [of env now aid since scope allowed st] coherent_sweep broker_invD(1) by force
next
  case (step_map_complete raw_sha sha st now sid uploader scope)
  then show ?case by (intro coherent_complete sourceCommit_no_nul)
qed (auto intro: coherent_createProbe createProbeInput_service coherent_deleteProbe coherent_sweep coherent_poll
    coherent_ingest coherent_sourceMapStatus coherent_upload coherent_complete sourceCommit_no_nul broker_invD
    coherent_frame [where st' = "fst (registerNativeAgent now reg scope st)" for now reg scope st]
    coherent_frame simp: waitForEvents_def register_frame replace_frame native_ops_frame dispose_frame)

subsection \<open>Versioned views\<close>

text \<open>
  The contract of a change counter: a step never lowers it, and a step that leaves it alone
  leaves the view it guards alone.  Then the same holds between any two states of a run, which
  is what lets a client that knows the version skip the view.
\<close>

locale versioned_store =
  fixes step :: "'st \<Rightarrow> 'st \<Rightarrow> bool"
    and ok :: "'st \<Rightarrow> bool"
    and version :: "'k \<Rightarrow> 'st \<Rightarrow> int"
    and view :: "'k \<Rightarrow> 'st \<Rightarrow> 'v"
  assumes ok_step: "ok st \<Longrightarrow> step st st' \<Longrightarrow> ok st'"
    and version_step: "ok st \<Longrightarrow> step st st' \<Longrightarrow> version k st \<le> version k st'"
    and view_step: "ok st \<Longrightarrow> step st st' \<Longrightarrow> version k st = version k st' \<Longrightarrow> view k st = view k st'"
begin

lemma ok_run: "step\<^sup>*\<^sup>* st st' \<Longrightarrow> ok st \<Longrightarrow> ok st'"
  by (induction rule: rtranclp_induct) (auto intro: ok_step)

lemma version_run: "step\<^sup>*\<^sup>* st st' \<Longrightarrow> ok st \<Longrightarrow> version k st \<le> version k st'"
  by (induction rule: rtranclp_induct) (auto dest: version_step ok_run intro: order_trans)

lemma view_run: "step\<^sup>*\<^sup>* st st' \<Longrightarrow> ok st \<Longrightarrow> version k st = version k st' \<Longrightarrow> view k st = view k st'"
proof (induction rule: rtranclp_induct)
  case (step b c)
  have ok: "ok b" using step ok_run by blast
  have "version k st \<le> version k b" "version k b \<le> version k c"
    using version_run [OF step.hyps(1) step.prems(1)] version_step [OF ok step.hyps(2)] by auto
  with step have "version k st = version k b" "version k b = version k c" by auto
  with step ok show ?case using view_step by metis
qed simp

text \<open>Knowing the version of an earlier state is enough to know the view.\<close>

lemma cached_view: "step\<^sup>*\<^sup>* st st' \<Longrightarrow> ok st \<Longrightarrow> view k st \<noteq> view k st' \<Longrightarrow> version k st < version k st'"
  using version_run view_run by (metis order_le_less)

end

interpretation polls: versioned_store "broker_step env" broker_inv "\<lambda>k st. service_version st (fst k) (snd k)" poll_view
  for env
proof
  fix st st' k assume "broker_inv st" and step: "broker_step env st st'"
  then have c: "coherent st st'" by (intro coherent_step)
  show "broker_inv st'" using inv_step [OF step \<open>broker_inv st\<close>] .
  show "service_version st (fst k) (snd k) \<le> service_version st' (fst k) (snd k)" using c by (simp add: coherent_def)
  assume "service_version st (fst k) (snd k) = service_version st' (fst k) (snd k)"
  with c show "poll_view k st = poll_view k st'" by (auto simp: poll_view_def coherent_def)
qed

lemma poll_answer_view:
  assumes "poll_view (s, sid) st = poll_view (s, sid) st'" "\<And>c. cs = Some c \<Longrightarrow> nul \<notin> set c"
  shows "poll_answer env st s sid cs = poll_answer env st' s sid cs"
proof -
  have l: "live_probes st s sid = live_probes st' s sid"
    and m: "\<And>c. nul \<notin> set c \<Longrightarrow> complete_maps st s sid c = complete_maps st' s sid c"
    using assms(1) by (auto simp: poll_view_def fun_eq_iff split: if_splits)
  have "withRuntimeLocation env cs s st p = withRuntimeLocation env cs s st' p" if "p \<in> set (live_probes st' s sid)" for p
  proof (rule withRuntimeLocation_cong)
    fix c assume "cs = Some c"
    moreover have "pd_serviceId p = sid" using that by (auto simp: live_probes_def)
    ultimately show "complete_maps st s (pd_serviceId p) c = complete_maps st' s (pd_serviceId p) c" using m assms(2) by simp
  qed
  then show ?thesis unfolding poll_answer_def l by (rule map_res_cong)
qed

end
