(* ===== verification/Broker_Tenants.thy ===== *)
theory Broker_Tenants
  imports Broker_System
begin

text \<open>
  Isolation of tenants: an operation run with a credential of one resource scope leaves every map
  entry of every other scope alone, up to the expiry sweep that any traffic triggers.
\<close>

section \<open>Definitions\<close>

definition mine :: "broker \<Rightarrow> resource_scope \<Rightarrow> string \<Rightarrow> bool" where
  "mine st s pid \<longleftrightarrow> visible_probe st pid s \<noteq> None"

definition same_tenant :: "resource_scope \<Rightarrow> broker \<Rightarrow> broker \<Rightarrow> bool" where
  "same_tenant s st st' \<longleftrightarrow>
     filter (\<lambda>p. sp_scope (snd p) = s) (probes st) = filter (\<lambda>p. sp_scope (snd p) = s) (probes st') \<and>
     (\<forall>pid. mine st s pid \<longrightarrow> ring st pid = ring st' pid \<and> waiting st pid = waiting st' pid \<and>
        jget (statuses st) pid = jget (statuses st') pid) \<and>
     (\<forall>sid. service_version st s sid = service_version st' s sid \<and>
        jget (services st) (serviceKey s sid) = jget (services st') (serviceKey s sid) \<and>
        jget (agentCapabilityReports st) (serviceKey s sid) = jget (agentCapabilityReports st') (serviceKey s sid) \<and>
        jget (nativeIngestHealth st) (serviceKey s sid) = jget (nativeIngestHealth st') (serviceKey s sid)) \<and>
     (\<forall>sid c. jget (sourceMapSets st) (sourceMapKey s sid c) = jget (sourceMapSets st') (sourceMapKey s sid c) \<and>
        jget (sourceMapLeases st) (sourceMapKey s sid c) = jget (sourceMapLeases st') (sourceMapKey s sid c)) \<and>
     (\<forall>aid. jget (nativeAgents st) (nativeAgentKey s aid) = jget (nativeAgents st') (nativeAgentKey s aid) \<and>
        jget (nativeAssignmentVersions st) (nativeAgentKey s aid) = jget (nativeAssignmentVersions st') (nativeAgentKey s aid)) \<and>
     filter (\<lambda>p. ni_scope (snd p) = s) (nativeInstances st) = filter (\<lambda>p. ni_scope (snd p) = s) (nativeInstances st') \<and>
     (\<forall>p v a i b. jget (nativeStatuses st) (nativeStatusKey s p v a i b) = jget (nativeStatuses st') (nativeStatusKey s p v a i b))"

text \<open>Native instances are stored under a key of their own scope.\<close>

definition native_ok :: "broker \<Rightarrow> bool" where
  "native_ok st \<longleftrightarrow> jwf (nativeInstances st) \<and>
     (\<forall>k i. jget (nativeInstances st) k = Some i \<longrightarrow> (\<exists>a n. k = nativeInstanceKey (ni_scope i) a n))"

text \<open>
  The operations a credential of one scope can run, and what each leaves of the others' state:
  the state itself, or the state after the sweep that every tenant's traffic triggers.
\<close>

datatype scoped_op =
    OpCreate "nat \<Rightarrow> string" create_input
  | OpDelete string
  | OpPoll string int "string option"
  | OpIngest ingest_input
  | OpList "string option"
  | OpGetProbe string
  | OpGetEvents string
  | OpGetStatus string
  | OpMapStatus string string string
  | OpMapUpload upload_input
  | OpMapComplete string string string
  | OpRegister registration
  | OpReplace string "reported_instance list" "string list"
  | OpAssignments string int "string list"
  | OpIngestNative native_ingest
  | OpListServices

fun run_op :: "env \<Rightarrow> int \<Rightarrow> resource_scope \<Rightarrow> scoped_op \<Rightarrow> broker \<Rightarrow> broker" where
  "run_op env now scope (OpCreate gen input) st = fst (createProbe env gen now input scope st)"
| "run_op env now scope (OpDelete pid) st = fst (deleteProbe now pid scope st)"
| "run_op env now scope (OpPoll sid since commit) st = fst (pollProbes env now sid since commit scope st)"
| "run_op env now scope (OpIngest input) st = fst (ingest now input scope st)"
| "run_op env now scope (OpList sid) st = fst (listProbes now sid scope st)"
| "run_op env now scope (OpGetProbe pid) st = fst (getProbe now pid scope st)"
| "run_op env now scope (OpGetEvents pid) st = fst (getEvents now pid scope st)"
| "run_op env now scope (OpGetStatus pid) st = fst (getStatus now pid scope st)"
| "run_op env now scope (OpMapStatus sid sha u) st = fst (sourceMapStatus now sid sha u scope st)"
| "run_op env now scope (OpMapUpload i) st = fst (uploadSourceMap env now i scope st)"
| "run_op env now scope (OpMapComplete sid sha u) st = fst (completeSourceMaps env now sid sha u scope st)"
| "run_op env now scope (OpRegister r) st = fst (registerNativeAgent now r scope st)"
| "run_op env now scope (OpReplace aid rs allowed) st = fst (replaceNativeInstances now aid rs scope allowed st)"
| "run_op env now scope (OpAssignments aid since allowed) st = fst (nativeAssignments env now aid since scope allowed st)"
| "run_op env now scope (OpIngestNative i) st = fst (ingestNative now i scope st)"
| "run_op env now scope OpListServices st = fst (listServices env now scope st)"

fun op_commit_ok :: "scoped_op \<Rightarrow> bool" where
  "op_commit_ok (OpMapComplete _ sha _) = (nul \<notin> set sha)"
| "op_commit_ok _ = True"

section \<open>Lemmas\<close>

subsection \<open>What belongs to a tenant\<close>

lemma jget_filter: "jwf m \<Longrightarrow> jget (filter P m) k = (case jget m k of None \<Rightarrow> None | Some v \<Rightarrow> if P (k, v) then Some v else None)"
  by (induction m) (auto split: option.splits intro: rev_image_eqI)

lemma mine_filter:
  "jwf (probes st) \<Longrightarrow> mine st s pid \<longleftrightarrow> jget (filter (\<lambda>p. sp_scope (snd p) = s) (probes st)) pid \<noteq> None"
  by (auto simp: mine_def visible_probe_def jget_filter split: option.split)

lemma same_tenant_refl [simp]: "same_tenant s st st"
  by (simp add: same_tenant_def)

lemma same_tenant_trans:
  assumes "jwf (probes a)" "jwf (probes b)" "same_tenant s a b" "same_tenant s b c"
  shows "same_tenant s a c"
proof -
  have "mine a s pid = mine b s pid" for pid
    using assms(1-3) by (simp add: mine_filter same_tenant_def)
  with assms(3,4) show ?thesis by (simp add: same_tenant_def)
qed

lemma native_ok_frame: "nativeInstances st' = nativeInstances st \<Longrightarrow> native_ok st' = native_ok st"
  by (simp add: native_ok_def)

lemma filter_jset_other:
  assumes "jwf m" "\<not> P (k, v)" "\<And>w. jget m k = Some w \<Longrightarrow> \<not> P (k, w)"
  shows "filter P (jset k v m) = filter P m"
  using assms
proof (induction m)
  case (Cons x m)
  show ?case
  proof (cases "fst x = k")
    case True
    then show ?thesis using Cons.prems by (cases x) auto
  next
    case False
    then show ?thesis using Cons by (cases x) auto
  qed
qed simp

text \<open>Changes that concern another scope, field by field.\<close>

lemma tenant_increment:
  assumes "s0 \<noteq> s"
  shows "same_tenant s st (fst (incrementServiceVersion sid s0 st))"
proof -
  have v: "jget (nativeAssignmentVersions (fold (\<lambda>i. if sameResourceScope (ni_scope i) s0 \<and> ni_serviceId i = sid
                 then bumpNativeAssignmentVersion s0 (ni_agentId i) else (\<lambda>s. s)) is st1)) (nativeAgentKey s aid) =
      jget (nativeAssignmentVersions st1) (nativeAgentKey s aid)" for "is" st1 aid
    by (induction "is" arbitrary: st1) (use assms in \<open>auto simp: bumpNativeAssignmentVersion_def Let_def nativeAgentKey_inj\<close>)
  have "jget (nativeAssignmentVersions (fst (incrementServiceVersion sid s0 st))) (nativeAgentKey s aid) =
      jget (nativeAssignmentVersions st) (nativeAgentKey s aid)" for aid
    by (simp add: incrementServiceVersion_def Let_def v del: sameResourceScope_eq)
  then show ?thesis using assms by (auto simp: same_tenant_def ring_def waiting_def)
qed

lemma tenant_service:
  assumes "s0 \<noteq> s"
  shows "same_tenant s st (st\<lparr>services := jset (serviceKey s0 sid) v (services st)\<rparr>)"
    "same_tenant s st (st\<lparr>agentCapabilityReports := jset (serviceKey s0 sid) w (agentCapabilityReports st)\<rparr>)"
    "same_tenant s st (st\<lparr>agentCapabilityReports := jset (serviceKey s0 sid) w (agentCapabilityReports st),
        services := jset (serviceKey s0 sid) v (services st)\<rparr>)"
    "same_tenant s st (st\<lparr>nativeIngestHealth := jset (serviceKey s0 sid) h (nativeIngestHealth st)\<rparr>)"
  using assms by (auto simp: same_tenant_def ring_def waiting_def service_version_def serviceKey_inj)

lemma tenant_refresh: "s0 \<noteq> s \<Longrightarrow> same_tenant s st (refreshServiceCapabilities now s0 sid st)"
  by (auto simp: refreshServiceCapabilities_def Let_def tenant_service split: option.split prod.split)

lemma tenant_touch: "s0 \<noteq> s \<Longrightarrow> same_tenant s st (touchService now sid k a c cs s0 caps st)"
  by (simp add: touchService_def Let_def tenant_service)

lemma tenant_report: "s0 \<noteq> s \<Longrightarrow> same_tenant s st (fst (reportAgentCapabilities now s0 sid a c st))"
  by (simp add: reportAgentCapabilities_def Let_def case_prod_beta tenant_service)

lemma tenant_append: "\<not> mine st s (ev_probeId e) \<Longrightarrow> same_tenant s st (appendEvent e st)"
  by (auto simp: same_tenant_def service_version_def)

lemma tenant_status: "\<not> mine st s pid \<Longrightarrow> same_tenant s st (st\<lparr>statuses := jset pid v (statuses st)\<rparr>)"
  by (auto simp: same_tenant_def service_version_def ring_def waiting_def)

lemma mine_frame: "probes st' = probes st \<Longrightarrow> mine st' s pid = mine st s pid"
  by (simp add: mine_def visible_probe_def)

lemma tenant_ingest_event:
  assumes "jwf (probes st)" "\<not> mine st s (ev_probeId e)"
  shows "same_tenant s st (ingest_event e st)"
proof -
  have a: "same_tenant s st (appendEvent e st)" using assms(2) by (rule tenant_append)
  have n: "\<not> mine (appendEvent e st) s (ev_probeId e)" using assms(2) by (simp add: mine_def visible_probe_def)
  show ?thesis
    using a same_tenant_trans [OF assms(1) _ a tenant_status [OF n]] assms(1)
    by (auto simp: ingest_event_def Let_def split: event_body.split)
qed

lemma tenant_fold:
  assumes "jwf (probes st)" "\<And>x st. jwf (probes st) \<Longrightarrow> Q x st \<Longrightarrow> same_tenant s st (f x st)"
    "\<And>x st. probes (f x st) = probes st" "\<And>x y st. Q x (f y st) = Q x st" "\<And>x. x \<in> set xs \<Longrightarrow> Q x st"
  shows "same_tenant s st (fold f xs st)"
  using assms(1,5)
proof (induction xs arbitrary: st)
  case (Cons x xs)
  have "same_tenant s st (f x st)" using Cons.prems assms(2) by simp
  moreover have "same_tenant s (f x st) (fold f xs (f x st))"
    using Cons.prems by (intro Cons.IH) (simp_all add: assms(3,4))
  ultimately show ?case using Cons.prems(1) by (simp add: assms(3)) (rule same_tenant_trans, simp_all add: assms(3))
qed simp

lemma not_mine: "jget (probes st) pid = Some v \<Longrightarrow> sp_scope v \<noteq> s \<Longrightarrow> \<not> mine st s pid"
  by (simp add: mine_def visible_probe_def)

subsection \<open>Operations of another tenant\<close>

lemma tenant_createProbe:
  assumes "s0 \<noteq> s" "jwf (probes st)"
  shows "same_tenant s st (fst (createProbe env gen now input s0 st))"
proof -
  let ?st1 = "refreshServiceCapabilities now s0 (ci_serviceId input) st"
  let ?st2 = "fst (incrementServiceVersion (ci_serviceId input) s0 ?st1)"
  have a: "same_tenant s st ?st1" using assms(1) by (rule tenant_refresh)
  have b: "same_tenant s st ?st2" 
    by (rule same_tenant_trans [OF assms(2) _ a tenant_increment [OF assms(1)]]) (simp add: assms(2))
  obtain st' r where e: "createProbe env gen now input s0 st = (st', r)" by fastforce
  show ?thesis
  proof (cases r)
    case (Inl err)
    from e [unfolded this] show ?thesis by (cases rule: createProbe_ErrE) (simp_all add: e a b)
  next
    case (Inr p)
    from e [unfolded this] obtain cp st1 where c:
      "st1 = ?st1" "\<not> jhas (probes st) (pd_id p)"
      "st' = (fst (incrementServiceVersion (ci_serviceId input) s0 st1))
       \<lparr>probes := jset (pd_id p) \<lparr>sp_scope = s0, sp_probe = p,
          sp_expiresAt = expires_at now (pd_ttlSeconds p), sp_expired = False\<rparr> (probes st),
        events := jset (pd_id p) [] (events st)\<rparr>"
      by (cases rule: createProbe_OkE)
    have nm: "\<not> mine st s (pd_id p)" using c(2) by (simp add: mine_def visible_probe_def jhas_def)
    have "same_tenant s ?st2 st'"
      using assms(1) c(2) nm
      by (auto simp: same_tenant_def c(1,3) jset_new ring_def waiting_def service_version_def mine_def visible_probe_def)
    from same_tenant_trans [OF assms(2) _ b this] show ?thesis by (simp add: e assms(2))
  qed
qed

lemma tenant_remove:
  assumes "jwf (probes st)" "jget (probes st) pid = Some v" "sp_scope v \<noteq> s"
  shows "same_tenant s st (signalActivity pid (st\<lparr>probes := jdel pid (probes st), events := jdel pid (events st),
      statuses := jdel pid (statuses st), recentlyRemovedProbes := m\<rparr>))" (is "same_tenant s st (signalActivity pid ?st)")
proof -
  have f: "filter (\<lambda>p. sp_scope (snd p) = s) (jdel pid (probes st)) = filter (\<lambda>p. sp_scope (snd p) = s) (probes st)"
    by (rule jm.del_absorb_filter) (use assms in auto)
  have r: "ring ?st q = (if q = pid then [] else ring st q)" "waiting ?st q = waiting st q" for q
    by (simp_all add: ring_def waiting_def)
  have nm: "mine st s q \<Longrightarrow> q \<noteq> pid" for q using not_mine [OF assms(2,3)] by blast
  show ?thesis using f nm by (simp add: same_tenant_def r service_version_def)
qed

lemma tenant_deleteProbe:
  assumes "s0 \<noteq> s" "probes_ok st"
  shows "same_tenant s st (fst (deleteProbe now pid s0 st))"
proof (cases "jget (probes st) pid")
  case (Some v)
  have w: "jwf (probes st)" using assms(2) by (simp add: probes_ok_def)
  show ?thesis
  proof (cases "sp_scope v = s0")
    case True
    then have n: "sp_scope v \<noteq> s" using assms(1) by simp
    note i = tenant_increment [OF assms(1), of st "pd_serviceId (sp_probe v)"]
    have "same_tenant s (fst (incrementServiceVersion (pd_serviceId (sp_probe v)) s0 st)) (signalActivity pid
      (fst (incrementServiceVersion (pd_serviceId (sp_probe v)) s0 st)\<lparr>probes := jdel pid (probes st), events := jdel pid (events st),
        statuses := jdel pid (statuses st), recentlyRemovedProbes := m\<rparr>))" for m
      using tenant_remove [of "fst (incrementServiceVersion (pd_serviceId (sp_probe v)) s0 st)" pid v s m] w Some n by simp
    from same_tenant_trans [OF w _ i this] tenant_remove [OF w Some n] w True Some
    show ?thesis by (simp add: deleteProbe_def Let_def)
  qed (simp add: deleteProbe_def Some)
qed (simp add: deleteProbe_def)

lemma tenant_ingest:
  assumes "s0 \<noteq> s" "probes_ok st"
  shows "same_tenant s (sweep now st) (fst (ingest now input s0 st))"
proof (cases "first_error (ingest_event_error s0 (ig_serviceId input) (sweep now st)) (ig_events input)")
  case None
  have w: "jwf (probes (sweep now st))" using probes_ok_sweep [OF assms(2)] by (simp add: probes_ok_def)
  have nm: "\<not> mine (sweep now st) s (ev_probeId e)" if "e \<in> set (ig_events input)" for e
  proof -
    have "ingest_event_error s0 (ig_serviceId input) (sweep now st) e = None"
      using None that by (simp add: first_error_None)
    then show ?thesis by (rule ingest_event_error_None) (use assms(1) in \<open>auto simp: mine_def visible_probe_def\<close>)
  qed
  define st2 where "st2 = fst (reportAgentCapabilities now s0 (ig_serviceId input) (case ig_agentId input of Some a \<Rightarrow> a
      | None \<Rightarrow> ''legacy:'' @ sdk_name (ig_sdk input) @ '':'' @ ig_commitSha input)
      (case ig_capabilities input of None \<Rightarrow> [] | Some c \<Rightarrow> c) (sweep now st))"
  have p2: "probes st2 = probes (sweep now st)" by (simp add: st2_def)
  have t2: "same_tenant s (sweep now st) st2" unfolding st2_def using assms(1) by (rule tenant_report)
  have t3: "same_tenant s (sweep now st) (touchService now a b c d e s0 f st2)" for a b c d e f
    by (rule same_tenant_trans [OF w _ t2 tenant_touch [OF assms(1)]]) (simp add: p2 w)
  have t4: "same_tenant s (touchService now a b c d e s0 f st2) (fold ingest_event (ig_events input) (touchService now a b c d e s0 f st2))" for a b c d e f
    by (rule tenant_fold [where Q = "\<lambda>e st. \<not> mine st s (ev_probeId e)"])
      (use nm w in \<open>auto simp: tenant_ingest_event p2 mine_def visible_probe_def\<close>)
  have "same_tenant s (sweep now st) (fold ingest_event (ig_events input) (touchService now a b c d e s0 f st2))" for a b c d e f
    by (rule same_tenant_trans [OF w _ t3 t4]) (simp add: p2 w)
  then show ?thesis using None by (simp add: ingest_def Let_def case_prod_beta st2_def)
qed (simp add: ingest_def Let_def)

lemma tenant_poll:
  assumes "s0 \<noteq> s"
  shows "same_tenant s (sweep now st) (fst (pollProbes env now sid since c s0 st))"
  using tenant_touch [OF assms] by (simp add: pollProbes_def Let_def)

lemma tenant_maps:
  assumes "\<And>sid c. jget a (sourceMapKey s sid c) = jget (sourceMapSets st) (sourceMapKey s sid c)"
    "\<And>sid c. jget b (sourceMapKey s sid c) = jget (sourceMapLeases st) (sourceMapKey s sid c)"
  shows "same_tenant s st (st\<lparr>sourceMapSets := a, sourceMapLeases := b\<rparr>)"
  using assms by (simp add: same_tenant_def ring_def waiting_def service_version_def)

lemma tenant_put_maps:
  assumes "s0 \<noteq> s"
  shows "same_tenant s st (st\<lparr>sourceMapLeases := jset (sourceMapKey s0 sid c) l (sourceMapLeases st)\<rparr>)"
    "same_tenant s st (st\<lparr>sourceMapSets := jset (sourceMapKey s0 sid c) v (sourceMapSets st)\<rparr>)"
    "same_tenant s st (st\<lparr>sourceMapSets := jset (sourceMapKey s0 sid c) v (sourceMapSets st),
       sourceMapLeases := jset (sourceMapKey s0 sid c) l (sourceMapLeases st)\<rparr>)"
  using assms by (auto simp: same_tenant_def ring_def waiting_def service_version_def dest: sourceMapKey_scope)

lemma tenant_sourceMapStatus:
  assumes "s0 \<noteq> s"
  shows "same_tenant s st (fst (sourceMapStatus now sid c u s0 st))"
  using tenant_put_maps [OF assms]
  by (cases "jget (sourceMapSets st) (sourceMapKey s0 sid c)") (simp_all add: sourceMapStatus_def Let_def)

lemma tenant_assert:
  assumes "s0 \<noteq> s"
  shows "same_tenant s st (fst (assertSourceMapUploader now sid c u s0 st))"
  using tenant_put_maps [OF assms] by (auto simp: assertSourceMapUploader_def Let_def split: option.split)

lemma tenant_upload:
  assumes "s0 \<noteq> s" "jwf (probes st)"
  shows "same_tenant s st (fst (uploadSourceMap env now i s0 st))"
proof -
  obtain st1 r where e: "assertSourceMapUploader now (ui_serviceId i) (ui_commitSha i) (ui_uploaderId i) s0 st = (st1, r)" by fastforce
  have a: "same_tenant s st st1" and w: "jwf (probes st1)"
    using tenant_assert [OF assms(1), of st now "ui_serviceId i" "ui_commitSha i" "ui_uploaderId i"]
      assertSourceMapUploader_frame(1) [of now "ui_serviceId i" "ui_commitSha i" "ui_uploaderId i" s0 st] e assms(2) by simp_all
  from same_tenant_trans [OF assms(2) w a tenant_put_maps(2) [OF assms(1)]] a show ?thesis
    by (auto simp: uploadSourceMap_def e Let_def split: sum.split)
qed

lemma tenant_complete:
  assumes "s0 \<noteq> s" "broker_inv st" "nul \<notin> set c"
  shows "same_tenant s st (fst (completeSourceMaps env now sid c u s0 st))"
proof (cases now sid c u s0 st rule: assert_cases)
  case (refused e)
  then show ?thesis by (simp add: completeSourceMaps_def)
next
  case (held l)
  let ?k = "sourceMapKey s0 sid c"
  let ?st1 = "st\<lparr>sourceMapLeases := jset ?k (l\<lparr>le_expiresAt := now + LEASE_MS\<rparr>) (sourceMapLeases st)\<rparr>"
  let ?st2 = "?st1\<lparr>sourceMapSets := jset ?k ((set_or_new now s0 sid c ?st1)\<lparr>ss_complete := True, ss_updatedAt := now\<rparr>) (sourceMapSets ?st1),
     sourceMapLeases := jdel ?k (sourceMapLeases ?st1)\<rparr>"
  let ?st3 = "fst (incrementServiceVersion sid s0 ?st2)"
  have w: "jwf (probes st)" using broker_invD(1) [OF assms(2)] by (simp add: probes_ok_def)
  have st1: "broker_inv ?st1" using held assms(2) by (intro inv_renew) (simp_all add: jhas_def)
  have "broker_inv ?st2"
    using set_or_new_key [OF broker_invD(7) [OF st1], of s0 sid c now] maps_okD(2) [OF broker_invD(7) [OF st1]]
      set_or_new_commit [OF broker_invD(7) [OF st1] assms(3)]
    by (intro inv_set_maps [OF st1] maps_ok_put broker_invD(7) [OF st1]) auto
  then have mo: "maps_ok ?st3" by (intro broker_invD(7) inv_increment)
  have a: "same_tenant s st ?st2"
    using assms(1) by (auto simp: same_tenant_def ring_def waiting_def service_version_def dest: sourceMapKey_scope)
  have b: "same_tenant s st ?st3"
    by (rule same_tenant_trans [OF w _ a tenant_increment [OF assms(1)]]) (simp add: w)
  have "sourceMapKey s sid' c' \<notin> set (dropped_sets env s0 sid ?st3)" for sid' c'
  proof
    assume "sourceMapKey s sid' c' \<in> set (dropped_sets env s0 sid ?st3)"
    then obtain v where v: "(sourceMapKey s sid' c', v) \<in> set (sourceMapSets ?st3)" "ss_scope v = s0"
      using dropped_own by blast
    have "jget (sourceMapSets ?st3) (sourceMapKey s sid' c') = Some v"
      using maps_okD(1) [OF mo] v(1) by (rule map_of_is_SomeI)
    from maps_okD(3) [OF mo this] v(2) assms(1) show False by (auto dest: sourceMapKey_scope)
  qed
  then have "same_tenant s ?st3 (?st3\<lparr>sourceMapSets := fold jdel (dropped_sets env s0 sid ?st3) (sourceMapSets ?st3),
       sourceMapLeases := fold jdel (dropped_sets env s0 sid ?st3) (sourceMapLeases ?st3)\<rparr>)"
    by (intro tenant_maps) (auto simp: jget_fold_jdel)
  from same_tenant_trans [OF w _ b this] show ?thesis by (simp add: completeSourceMaps_held [OF held(2-4)] w)
qed

lemma tenant_native_fields:
  assumes "s0 \<noteq> s"
  shows "same_tenant s st (bumpNativeAssignmentVersion s0 a st)"
    "same_tenant s st (st\<lparr>nativeAgents := jset (nativeAgentKey s0 a) v (nativeAgents st)\<rparr>)"
    "same_tenant s st (st\<lparr>nativeStatuses := jset (nativeStatusKey s0 p n a i b) w (nativeStatuses st)\<rparr>)"
    "same_tenant s st (nativeHealth s0 sid f st)"
    "same_tenant s st (pruneRemovedProbes now st)"
  using assms
  by (auto simp: bumpNativeAssignmentVersion_def pruneRemovedProbes_def nativeHealth_def Let_def same_tenant_def ring_def waiting_def
      service_version_def nativeAgentKey_inj serviceKey_inj dest: nativeStatusKey_scope)

lemma tenant_register:
  assumes "s0 \<noteq> s"
  shows "same_tenant s st (fst (registerNativeAgent now r s0 st))"
  using assms
  by (auto simp: registerNativeAgent_def Let_def same_tenant_def ring_def waiting_def service_version_def nativeAgentKey_inj
      split: option.split)

lemma tenant_derive:
  "\<not> mine st s p \<Longrightarrow> same_tenant s st (deriveNativeLogicalStatus p s0 st)"
  by (auto simp: deriveNativeLogicalStatus_def Let_def tenant_status split: option.split list.split)

lemma tenant_native_event:
  assumes "s0 \<noteq> s" "jwf (probes st)" "\<not> mine st s (ev_probeId e)"
  shows "same_tenant s st (native_event i s0 e st)"
proof -
  have a: "same_tenant s st (appendEvent e st)" using assms(3) by (rule tenant_append)
  have n: "same_tenant s st (st1\<lparr>nativeStatuses := jset (nativeStatusKey s0 p v x y z) w (nativeStatuses st)\<rparr>)"
    if "same_tenant s st st1" "probes st1 = probes st" "nativeStatuses st1 = nativeStatuses st" for st1 p v x y z w
    unfolding that(3) [symmetric]
    by (rule same_tenant_trans [OF assms(2) _ that(1) tenant_native_fields(3) [OF assms(1)]]) (simp add: that assms(2))
  have b: "same_tenant s st (bumpNativeAssignmentVersion s0 x st1)" if "same_tenant s st st1" "probes st1 = probes st" for st1 x
    by (rule same_tenant_trans [OF assms(2) _ that(1) tenant_native_fields(1) [OF assms(1)]]) (simp add: that assms(2))
  have d: "same_tenant s st (deriveNativeLogicalStatus (ev_probeId e) s0 st1)" if "same_tenant s st st1" "probes st1 = probes st" for st1
    using assms(3) that
    by (intro same_tenant_trans [OF assms(2) _ that(1) tenant_derive]) (simp_all add: assms(2) mine_def visible_probe_def)
  show ?thesis using a by (auto simp: native_event_def Let_def intro!: d b n split: event_body.split)
qed

lemma tenant_ingestNative:
  assumes "s0 \<noteq> s" "jwf (probes st)"
  shows "same_tenant s st (fst (ingestNative now i s0 st))"
proof -
  have st1: "same_tenant s st (pruneRemovedProbes now st)" using tenant_native_fields(5) [OF assms(1)] .
  have h: "same_tenant s st (nativeHealth s0 sid f st1)" if "same_tenant s st st1" "probes st1 = probes st" for st1 f sid
    by (rule same_tenant_trans [OF assms(2) _ that(1) tenant_native_fields(4) [OF assms(1)]]) (simp add: that assms(2))
  have ev: "same_tenant s st (fold (native_event i s0) acc st2)"
    if "partition_events (native_verdict_of i s0 (pruneRemovedProbes now st)) (ng_events i) = Ok (acc, n)"
      "same_tenant s st st2" "probes st2 = probes st" for acc n st2
  proof -
    have "\<not> mine st2 s (ev_probeId e)" if e: "e \<in> set acc" for e
    proof -
      from partition_events_Ok [OF \<open>partition_events _ _ = Ok (acc, n)\<close>] e
      have "native_verdict_of i s0 (pruneRemovedProbes now st) e = Accept" by auto
      from verdict_Accept [OF this] show ?thesis
        using assms(1) \<open>probes st2 = probes st\<close> by (auto simp: mine_def visible_probe_def)
    qed
    then have "same_tenant s st2 (fold (native_event i s0) acc st2)"
      by (intro tenant_fold [where Q = "\<lambda>e st. \<not> mine st s (ev_probeId e)"])
        (use that assms in \<open>auto simp: tenant_native_event mine_def visible_probe_def\<close>)
    from same_tenant_trans [OF assms(2) _ that(2) this] show ?thesis by (simp add: that(3) assms(2))
  qed
  have sv: "same_tenant s st (st1\<lparr>services := jset (serviceKey s0 sid) v (services st)\<rparr>)"
    if "same_tenant s st st1" "probes st1 = probes st" "services st1 = services st" for st1 sid v
    unfolding that(3) [symmetric]
    by (rule same_tenant_trans [OF assms(2) _ that(1) tenant_service(1) [OF assms(1)]]) (simp add: that assms(2))
  have c: "same_tenant s st (fst (ingestNativeChecked now i s0 st)) \<and> probes (fst (ingestNativeChecked now i s0 st)) = probes st"
    by (auto simp: ingestNativeChecked_def Let_def st1 fold_frame intro!: sv ev h split: option.split sum.split)
  obtain st3 r where e: "ingestNativeChecked now i s0 st = (st3, r)" by fastforce
  show ?thesis using c by (auto simp: ingestNative_def e intro!: h split: sum.split broker_error.split)
qed

lemma jget_fold_native_services:
  "s0 \<noteq> s \<Longrightarrow> jget (fold (\<lambda>(sid, ins). jset (serviceKey s0 sid) (native_service s0 sid ins)) g m) (serviceKey s x) = jget m (serviceKey s x)"
  by (induction g arbitrary: m) (auto simp: serviceKey_inj)

lemma tenant_rebuild:
  assumes "s0 \<noteq> s" "services_ok st"
  shows "same_tenant s st (rebuildNativeServices s0 st)"
proof -
  have k: "jget (filter (\<lambda>(_, v). P v) (services st)) (serviceKey s x) = jget (services st) (serviceKey s x)"
    if P: "\<And>v. sr_scope v \<noteq> s0 \<Longrightarrow> P v" for P x
  proof (cases "jget (services st) (serviceKey s x)")
    case (Some v)
    then have "sr_scope v = s" using services_okD [OF assms(2) Some] by (simp add: serviceKey_inj)
    with Some assms P [of v] show ?thesis by (simp add: jget_filter services_ok_def)
  qed (use assms in \<open>simp add: jget_filter services_ok_def\<close>)
  have "jget (services (rebuildNativeServices s0 st)) (serviceKey s x) = jget (services st) (serviceKey s x)" for x
    by (simp add: rebuildNativeServices_def Let_def jget_fold_native_services [OF assms(1)]) (rule k, simp)
  then show ?thesis by (simp add: same_tenant_def ring_def waiting_def service_version_def)
qed

lemma native_parse_scope: "persistedNativeInstance_parse i = Some j \<Longrightarrow> ni_scope j = ni_scope i"
  by (auto simp: persistedNativeInstance_parse_def split: option.splits if_splits)

lemma store_native_ok: "native_ok st \<Longrightarrow> native_ok (fst (store_instances s0 a fb rs st))"
proof (induction rs arbitrary: st)
  case (Cons r rs)
  show ?case
  proof (cases "persistedNativeInstance_parse (to_instance s0 a fb r)")
    case (Some i)
    have "ni_scope i = s0" using native_parse_scope [OF Some] by (simp add: to_instance_def)
    with Cons.prems have "native_ok (st\<lparr>nativeInstances := jset (nativeInstanceKey s0 a (rp_instanceId r)) i (nativeInstances st)\<rparr>)"
      by (auto simp: native_ok_def split: if_splits)
    from Cons.IH [OF this] Some show ?thesis by simp
  qed (use Cons.prems in simp)
qed simp

lemma tenant_store:
  assumes "s0 \<noteq> s" "native_ok st" "jwf (probes st)"
  shows "same_tenant s st (fst (store_instances s0 a fb rs st))"
  using assms(2,3)
proof (induction rs arbitrary: st)
  case (Cons r rs)
  show ?case
  proof (cases "persistedNativeInstance_parse (to_instance s0 a fb r)")
    case (Some i)
    let ?k = "nativeInstanceKey s0 a (rp_instanceId r)"
    let ?st = "st\<lparr>nativeInstances := jset ?k i (nativeInstances st)\<rparr>"
    have sc: "ni_scope i = s0" using native_parse_scope [OF Some] by (simp add: to_instance_def)
    then have ok: "native_ok ?st" using Cons.prems by (auto simp: native_ok_def split: if_splits)
    have "filter (\<lambda>p. ni_scope (snd p) = s) (jset ?k i (nativeInstances st)) = filter (\<lambda>p. ni_scope (snd p) = s) (nativeInstances st)"
      by (rule filter_jset_other) (use Cons.prems sc assms(1) in \<open>auto simp: native_ok_def\<close>, metis nativeInstanceKey_scope)
    then have "same_tenant s st ?st" by (simp add: same_tenant_def ring_def waiting_def service_version_def)
    from same_tenant_trans [OF Cons.prems(2) _ this Cons.IH [OF ok]] Cons.prems(2) Some show ?thesis by simp
  qed simp
qed simp

lemma native_ok_filter: "native_ok st \<Longrightarrow> native_ok (st\<lparr>nativeInstances := filter P (nativeInstances st)\<rparr>)"
  by (auto simp: native_ok_def jwf_filter dest: map_of_filter_Some)

lemma replace_cases:
  obtains (err) e where "replaceNativeInstances now aid rs s0 al st = (st, Err e)"
  | (ok) fb P b v where "replaceNativeInstances now aid rs s0 al st =
     (case store_instances s0 aid fb rs (st\<lparr>nativeInstances := filter (\<lambda>(_, i). \<not> (sameResourceScope (ni_scope i) s0 \<and> P i)) (nativeInstances st)\<rparr>) of
        (st2, Inl e) \<Rightarrow> (st2, Err e)
      | (st2, Inr _) \<Rightarrow> (rebuildNativeServices s0 (if b then bumpNativeAssignmentVersion s0 aid (st2\<lparr>nativeAgents := jset (nativeAgentKey s0 aid) v (nativeAgents st2)\<rparr>)
        else st2\<lparr>nativeAgents := jset (nativeAgentKey s0 aid) v (nativeAgents st2)\<rparr>), Ok (length rs)))"
proof (cases "jget (nativeAgents st) (nativeAgentKey s0 aid)")
  case None
  then show ?thesis using err by (simp add: replaceNativeInstances_def Let_def)
next
  case (Some agent)
  show ?thesis
  proof (cases "replace_error al s0 aid st [] rs")
    case (Some e)
    with \<open>jget (nativeAgents st) _ = _\<close> show ?thesis using err by (simp add: replaceNativeInstances_def Let_def)
  next
    case None
    with \<open>jget (nativeAgents st) _ = _\<close> show ?thesis
      by (intro ok [where fb = "na_capabilities agent" and P = "\<lambda>i. ni_agentId i = aid \<and> ni_instanceId i \<notin> set (map rp_instanceId rs)"
          and v = "agent\<lparr>na_lastSeen := now\<rparr>"])
        (simp only: replaceNativeInstances_def Let_def option.case conj_assoc)
  qed
qed

lemma tenant_replace:
  assumes "s0 \<noteq> s" "native_ok st" "broker_inv st"
  shows "same_tenant s st (fst (replaceNativeInstances now aid rs s0 al st)) \<and> native_ok (fst (replaceNativeInstances now aid rs s0 al st))"
proof (cases now aid rs s0 al st rule: replace_cases)
  case (err e)
  then show ?thesis using assms by simp
next
  case (ok fb P b v)
  let ?st1 = "st\<lparr>nativeInstances := filter (\<lambda>(_, i). \<not> (sameResourceScope (ni_scope i) s0 \<and> P i)) (nativeInstances st)\<rparr>"
  obtain st2 r where e: "store_instances s0 aid fb rs ?st1 = (st2, r)" by fastforce
  let ?st3 = "st2\<lparr>nativeAgents := jset (nativeAgentKey s0 aid) v (nativeAgents st2)\<rparr>"
  have w: "jwf (probes st)" using broker_invD(1) [OF assms(3)] by (simp add: probes_ok_def)
  have "filter (\<lambda>p. ni_scope (snd p) = s) (filter (\<lambda>(_, i). \<not> (ni_scope i = s0 \<and> P i)) (nativeInstances st)) =
      filter (\<lambda>p. ni_scope (snd p) = s) (nativeInstances st)"
    using assms(1) by (auto simp: filter_filter intro: filter_cong)
  then have t1: "same_tenant s st ?st1" by (simp add: same_tenant_def ring_def waiting_def service_version_def)
  have n1: "native_ok ?st1" using assms(2) by (rule native_ok_filter)
  have t12: "same_tenant s ?st1 st2" and n2: "native_ok st2"
    using tenant_store [OF assms(1) n1, of aid fb rs] store_native_ok [OF n1, of s0 aid fb rs] w e by simp_all
  have p2: "probes st2 = probes st" and v2: "services st2 = services st"
    using arg_cong [OF e, of "\<lambda>x. probes (fst x)"] arg_cong [OF e, of "\<lambda>x. services (fst x)"] by simp_all
  have t2: "same_tenant s st st2" using same_tenant_trans [OF w _ t1 t12] w by simp
  have t3: "same_tenant s st ?st3"
    using same_tenant_trans [OF w _ t2 tenant_native_fields(2) [OF assms(1)]] w p2 by simp
  have t4: "same_tenant s st (bumpNativeAssignmentVersion s0 aid ?st3)"
    using same_tenant_trans [OF w _ t3 tenant_native_fields(1) [OF assms(1)]] w p2 by simp
  have so: "services_ok st4" if "services st4 = services st" for st4
    using broker_invD(6) [OF assms(3)] that by (simp add: services_ok_def)
  have t5: "same_tenant s st (rebuildNativeServices s0 st4)" if "same_tenant s st st4" "probes st4 = probes st" "services st4 = services st" for st4
    using same_tenant_trans [OF w _ that(1) tenant_rebuild [OF assms(1) so [OF that(3)]]] w that(2) by simp
  have n3: "native_ok (rebuildNativeServices s0 st4)" if "nativeInstances st4 = nativeInstances st2" for st4
    using n2 that by (simp add: native_ok_def)
  show ?thesis unfolding ok e
    using t2 n2 t5 [OF t3] t5 [OF t4] n3 [of ?st3] n3 [of "bumpNativeAssignmentVersion s0 aid ?st3"] p2 v2 by (auto split: sum.split)
qed

lemma tenant_listServices:
  assumes "s0 \<noteq> s" "jwf (probes st)"
  shows "same_tenant s st (fst (listServices env now s0 st))"
proof -
  have "same_tenant s st (fold (\<lambda>v. if sameResourceScope (sr_scope v) s0 then refreshServiceCapabilities now s0 (sr_serviceId v) else (\<lambda>x. x)) vs st)" for vs
    using assms by (intro tenant_fold [where Q = "\<lambda>_ _. True"]) (auto simp: tenant_refresh)
  then show ?thesis by (simp add: listServices_def Let_def del: sameResourceScope_eq)
qed

text \<open>The native registry stays well formed along a run.\<close>

lemma native_ok_replace:
  assumes "native_ok st"
  shows "native_ok (fst (replaceNativeInstances now aid rs s0 al st))"
proof (cases now aid rs s0 al st rule: replace_cases)
  case (err e)
  then show ?thesis using assms by simp
next
  case (ok fb P b v)
  let ?st1 = "st\<lparr>nativeInstances := filter (\<lambda>(_, i). \<not> (sameResourceScope (ni_scope i) s0 \<and> P i)) (nativeInstances st)\<rparr>"
  obtain st2 r where e: "store_instances s0 aid fb rs ?st1 = (st2, r)" by fastforce
  have n2: "native_ok st2" using store_native_ok [OF native_ok_filter [OF assms], of s0 aid fb rs] e by (metis fst_conv)
  then have "native_ok (rebuildNativeServices s0 st4)" if "nativeInstances st4 = nativeInstances st2" for st4
    using that by (simp add: native_ok_def)
  with n2 show ?thesis unfolding ok e by (auto split: sum.split)
qed

lemma native_ok_step: "broker_step env st st' \<Longrightarrow> native_ok st \<Longrightarrow> native_ok st'"
proof (induction rule: broker_step.induct)
  case (step_replace st now aid reported scope allowed)
  then show ?case by (intro native_ok_replace)
next
  case (step_create raw input st gen now scope)
  have "nativeInstances (fst (createProbe env gen now input scope st)) = nativeInstances st"
    by (auto simp: createProbe_def Let_def case_prod_beta split: sum.split option.split)
  then show ?case using step_create by (simp add: native_ok_def)
next
  case (step_ingest_native st now ni scope)
  have "nativeInstances (fst (ingestNativeChecked now ni scope st)) = nativeInstances st"
    by (auto simp: ingestNativeChecked_def Let_def fold_frame split: option.split sum.split)
  then have "nativeInstances (fst (ingestNative now ni scope st)) = nativeInstances st"
    by (cases "ingestNativeChecked now ni scope st") (auto simp: ingestNative_def split: sum.split broker_error.split)
  then show ?case using step_ingest_native by (simp add: native_ok_def)
next
  case (step_map_upload raw_sha i st now scope)
  have "nativeInstances (fst (uploadSourceMap env now i scope st)) = nativeInstances st"
    by (cases now "ui_serviceId i" "ui_commitSha i" "ui_uploaderId i" scope st rule: assert_cases)
      (auto simp: uploadSourceMap_def Let_def split: sum.split)
  then show ?case using step_map_upload by (simp add: native_ok_def)
next
  case (step_map_complete raw_sha sha st now sid uploader scope)
  have "nativeInstances (fst (completeSourceMaps env now sid sha uploader scope st)) = nativeInstances st"
    by (cases now sid sha uploader scope st rule: assert_cases) (auto simp: completeSourceMaps_def Let_def)
  then show ?case using step_map_complete by (simp add: native_ok_def)
qed (auto simp: native_ok_def deleteProbe_def pollProbes_def ingest_def waitForEvents_def sourceMapStatus_def registerNativeAgent_def
    nativeAssignments_def dispose_def Let_def case_prod_beta fold_frame split: option.splits)

lemma native_ok_reachable: "reachable env st \<Longrightarrow> native_ok st"
  by (induction rule: reachable.induct)
    (auto simp: new_broker_def empty_broker_def native_ok_def split: option.splits if_splits dest: native_ok_step [unfolded native_ok_def])

lemma tenant_run_op:
  assumes "s0 \<noteq> s" "broker_inv st" "native_ok st" "op_commit_ok op"
  shows "same_tenant s st (run_op env now s0 op st) \<or> same_tenant s (sweep now st) (run_op env now s0 op st)"
proof -
  note p = broker_invD(1) [OF assms(2)]
  have w: "jwf (probes st)" using p by (simp add: probes_ok_def)
  show ?thesis
  proof (cases op)
    case (OpAssignments aid since allowed)
    then show ?thesis using fst_nativeAssignments [of env now aid since s0 allowed st] by auto
  qed (use assms p w in \<open>auto simp: tenant_createProbe tenant_deleteProbe tenant_poll tenant_ingest listProbes_def
      getProbe_def getEvents_def getStatus_def Let_def tenant_sourceMapStatus tenant_upload tenant_complete tenant_register
      tenant_replace tenant_ingestNative tenant_listServices\<close>)
qed

end
