(* ===== verification/Broker_Sample.thy ===== *)
theory Broker_Sample
  imports Broker_Tenants
begin

text \<open>
  A small concrete run of the broker, on which the properties are instantiated: a broker with
  rings of two events, one counter probe of service \<^verbatim>\<open>pay\<close> created at instant 1000 with a time
  to live of sixty seconds, and a poll at instant 2000.
\<close>

section \<open>Definitions\<close>

definition sample_env :: env where
  "sample_env = \<lparr>jsep = (\<lambda>_. Err ''syntax''), traceMap = (\<lambda>_ _. None),
     decodeURIComponent = Some, localeCompare = (\<lambda>x y. if x < y then - 1 else if x = y then 0 else 1)\<rparr>"

definition sample_request :: raw_create where
  "sample_request = \<lparr>rc_serviceId = ''pay'', rc_sourceCommit = None, rc_file = ''a.ts'', rc_line = 3,
     rc_condition = None, rc_conditionExpression = None, rc_ttlSeconds = Some 60, rc_createdBy = ''me'',
     rc_hitLimit = None, rc_body = RawCounter\<rparr>"

definition sample_input :: create_input where
  "sample_input = \<lparr>ci_serviceId = ''pay'', ci_sourceCommit = None, ci_file = ''a.ts'', ci_line = 3,
     ci_condition = None, ci_conditionExpression = None, ci_ttlSeconds = 60, ci_createdBy = ''me'',
     ci_hitLimit = 10000, ci_body = CreateCounter\<rparr>"

definition sample_id :: string where
  "sample_id = ''prb_0123456789ABCDEFGHJKMNPQRS''"

definition sample_probe :: probe_definition where
  "sample_probe = \<lparr>pd_id = sample_id, pd_serviceId = ''pay'', pd_sourceCommit = None, pd_file = ''a.ts'',
     pd_line = 3, pd_runtime = None, pd_condition = None, pd_conditionExpression = None,
     pd_ttlSeconds = 60, pd_hitLimit = 10000, pd_version = 1, pd_createdBy = ''me'', pd_body = CounterProbe\<rparr>"

definition sample_stored :: stored_probe where
  "sample_stored = \<lparr>sp_scope = DEFAULT_RESOURCE_SCOPE, sp_probe = sample_probe, sp_expiresAt = 61000, sp_expired = False\<rparr>"

definition sample_broker :: broker where
  "sample_broker = (empty_broker 2)\<lparr>probes := [(sample_id, sample_stored)], events := [(sample_id, [])],
     serviceVersions := [(serviceKey DEFAULT_RESOURCE_SCOPE ''pay'',
       \<lparr>sv_scope = DEFAULT_RESOURCE_SCOPE, sv_serviceId = ''pay'', sv_version = 1\<rparr>)]\<rparr>"

definition sample_polled :: broker where
  "sample_polled = touchService 2000 ''pay'' None None None None DEFAULT_RESOURCE_SCOPE None sample_broker"

definition other_scope :: resource_scope where
  "other_scope = \<lparr>tenantId = ''acme'', projectId = ''default'', environmentId = ''default''\<rparr>"

section \<open>Lemmas\<close>

lemma trim_sample: "js_trim ''pay'' = ''pay''" "js_trim ''a.ts'' = ''a.ts''" "js_trim ''me'' = ''me''"
  by (simp_all add: js_trim_def js_space_def)

lemma sample_parse: "createProbeInput_parse sample_request = Some sample_input"
  by (simp add: createProbeInput_parse_def sample_request_def sample_input_def serviceId_parse_def sourceFile_parse_def
      trimmed_def len_between_def opt_parse_def trim_sample positive_int_def safe_int_def max_safe_def Let_def)

lemma sample_id_ok: "probeId_ok sample_id"
  by code_simp

lemma sample_probe_parse: "probeDefinition_parse sample_probe = Some sample_probe"
  by (simp add: probeDefinition_parse_def sample_probe_def serviceId_parse_def sourceFile_parse_def sample_id_ok
      trimmed_def len_between_def opt_parse_def trim_sample positive_int_def safe_int_def max_safe_def Let_def)

lemma sample_create:
  "createProbe sample_env (\<lambda>_. sample_id) 1000 sample_input DEFAULT_RESOURCE_SCOPE (empty_broker 2) = (sample_broker, Ok sample_probe)"
proof -
  have a: "assemble_probe sample_input \<lparr>cp_conditionExpression = None, cp_body = CounterProbe\<rparr> sample_id 1 = sample_probe"
    by (simp add: assemble_probe_def sample_input_def sample_probe_def)
  have c: "compileProbeInput sample_env sample_input = Ok \<lparr>cp_conditionExpression = None, cp_body = CounterProbe\<rparr>"
    by (simp add: compileProbeInput_def sample_input_def compile_opt_def)
  have sid: "ci_serviceId sample_input = ''pay''" by (simp add: sample_input_def)
  have r: "refreshServiceCapabilities 1000 DEFAULT_RESOURCE_SCOPE ''pay'' (empty_broker 2) = empty_broker 2"
    by (simp add: refreshServiceCapabilities_def empty_broker_def)
  have ce: "create_error sample_input \<lparr>cp_conditionExpression = None, cp_body = CounterProbe\<rparr> x = None" if "x = None" for x
    using that by (simp add: create_error_def capability_error_def sample_input_def requiresExpressionCapability_def)
  have n: "jget (services (empty_broker 2)) k = None" for k by (simp add: empty_broker_def)
  have p: "pick_id (\<lambda>_. sample_id) (empty_broker 2) 0 = Ok sample_id"
    by (subst pick_id.simps) (simp add: empty_broker_def)
  have e: "expires_at 1000 60 = 61000" by (simp add: expires_at_exact)
  have i: "incrementServiceVersion ''pay'' DEFAULT_RESOURCE_SCOPE (empty_broker 2) =
      ((empty_broker 2)\<lparr>serviceVersions := [(serviceKey DEFAULT_RESOURCE_SCOPE ''pay'',
       \<lparr>sv_scope = DEFAULT_RESOURCE_SCOPE, sv_serviceId = ''pay'', sv_version = 1\<rparr>)]\<rparr>, 1)"
    by (simp add: incrementServiceVersion_def service_version_def empty_broker_def Let_def)
  show ?thesis
    by (simp add: createProbe_def c sid r ce [OF n] p sample_id_ok i a sample_probe_parse Let_def)
       (simp add: empty_broker_def sample_broker_def sample_stored_def sample_probe_def e)
qed

lemma sample_reachable: "reachable sample_env sample_broker"
proof -
  have "reachable sample_env (empty_broker 2)"
    by (rule reachable_init [of "Some 2"]) (simp add: new_broker_def)
  from reachable_step [OF this step_create [OF sample_parse, where gen = "\<lambda>_. sample_id" and now = 1000 and scope = DEFAULT_RESOURCE_SCOPE]]
  show ?thesis by (simp add: sample_create)
qed

lemma sample_inv: "broker_inv sample_broker"
  using sample_reachable by (rule inv_reachable)

lemma sample_ring: "ring sample_broker sample_id = []"
  by (simp add: ring_def sample_broker_def)

lemma sample_live: "live_probes sample_broker DEFAULT_RESOURCE_SCOPE ''pay'' = [sample_probe]"
  by (simp add: live_probes_def sample_broker_def sample_stored_def sample_probe_def)

lemma sample_no_due: "now < 61000 \<Longrightarrow> expireDueProbes now sample_broker = (sample_broker, 0)"
  by (rule expire_idle) (simp add: due_at_def due_def sample_broker_def sample_stored_def)

lemma sample_version: "service_version sample_broker DEFAULT_RESOURCE_SCOPE ''pay'' = 1"
  by (simp add: service_version_def sample_broker_def)

lemma sample_poll:
  "pollProbes sample_env 2000 ''pay'' 0 None DEFAULT_RESOURCE_SCOPE sample_broker = (sample_polled, Ok (PollProbes 1 [sample_probe]))"
proof -
  have v: "service_version sample_polled DEFAULT_RESOURCE_SCOPE ''pay'' = 1"
    using sample_version by (simp add: service_version_def sample_polled_def)
  have l: "live_probes sample_polled DEFAULT_RESOURCE_SCOPE ''pay'' = [sample_probe]"
    using sample_live by (simp add: live_probes_def sample_polled_def)
  show ?thesis
    by (simp add: pollProbes_def Let_def sample_no_due sample_polled_def [symmetric] v l withRuntimeLocation_def)
qed

lemma sample_poll_again:
  "\<exists>st3. pollProbes sample_env 2500 ''pay'' 1 None DEFAULT_RESOURCE_SCOPE sample_polled = (st3, Ok (Unchanged 1))"
proof -
  have "expireDueProbes 2500 sample_polled = (sample_polled, 0)"
    by (rule expire_idle) (simp add: due_at_def due_def sample_polled_def sample_broker_def sample_stored_def)
  moreover have "service_version (touchService 2500 ''pay'' None None None None DEFAULT_RESOURCE_SCOPE None sample_polled) DEFAULT_RESOURCE_SCOPE ''pay'' = 1"
    using sample_version by (simp add: service_version_def sample_polled_def)
  ultimately show ?thesis by (simp add: pollProbes_def Let_def)
qed

end
