(* ===== verification/Broker_Snapshot.thy ===== *)
theory Broker_Snapshot
  imports Wire_Schemas Broker_Sample
begin

text \<open>
  What the broker keeps across restarts and how a durable change is undone: the snapshot of
  \<^verbatim>\<open>BrokerState\<close>, its schema and the upgrade of the older format, the loading of a snapshot, and
  \<^verbatim>\<open>mutateDurably\<close>, which runs a change, stores it and loads the earlier snapshot when storing fails.
\<close>

section \<open>Definitions\<close>

subsection \<open>The persisted format\<close>

record persisted_events =
  pe_scope :: resource_scope
  pe_probeId :: string
  pe_values :: "probe_event list"

record persisted_status =
  pt_scope :: resource_scope
  pt_probeId :: string
  pt_value :: probe_status

record persisted_set =
  pm_scope :: resource_scope
  pm_serviceId :: string
  pm_commitSha :: string
  pm_complete :: bool
  pm_updatedAt :: int
  pm_maps :: "stored_source_map list"

text \<open>The version of a native status is read back from its key; \<open>None\<close> is \<^verbatim>\<open>NaN\<close>.\<close>

record persisted_native_status =
  pn_scope :: resource_scope
  pn_probeId :: string
  pn_probeVersion :: "int option"
  pn_agentId :: string
  pn_instanceId :: string
  pn_buildId :: string
  pn_value :: probe_status

record persisted_assignment_version =
  pa_scope :: resource_scope
  pa_agentId :: string
  pa_version :: int

record broker_snapshot =
  sn_savedAt :: int
  sn_probes :: "stored_probe list"
  sn_serviceVersions :: "service_version list"
  sn_events :: "persisted_events list"
  sn_services :: "service_record list"
  sn_statuses :: "persisted_status list"
  sn_sourceMapSets :: "persisted_set list"
  sn_nativeAgents :: "native_agent list"
  sn_nativeInstances :: "native_instance list"
  sn_nativeStatuses :: "persisted_native_status list"
  sn_nativeAssignmentVersions :: "persisted_assignment_version list"

definition persistedStatus_parse :: "probe_status \<Rightarrow> probe_status option" where
  "persistedStatus_parse s =
     (if pred_option (\<lambda>t. length t \<le> 4096) (ps_detail s) \<and> pred_option positive_int (ps_probeVersion s)
      then map_option (\<lambda>m. s\<lparr>ps_metadata := m\<rparr>) (metadata_parse (ps_metadata s)) else None)"

definition persistedService_parse :: "service_record \<Rightarrow> service_record option" where
  "persistedService_parse s =
     (case (serviceId_parse (sr_serviceId s), opt_parse sourceCommit_parse (sr_commitSha s),
            bounded_list 32 agentCapability_parse (case sr_capabilities s of None \<Rightarrow> [] | Some c \<Rightarrow> c),
            opt_parse (traverse buildId_parse) (sr_buildIds s)) of
        (Some sid, Some sha, Some caps, Some builds) \<Rightarrow>
          if scope_ok (sr_scope s) \<and> pred_option agentStatus_ok (sr_agentStatus s)
          then Some (s\<lparr>sr_serviceId := sid, sr_commitSha := sha, sr_capabilities := Some caps, sr_buildIds := builds\<rparr>)
          else None
      | _ \<Rightarrow> None)"

definition storedProbe_parse :: "stored_probe \<Rightarrow> stored_probe option" where
  "storedProbe_parse s =
     (if scope_ok (sp_scope s) \<and> nonnegative_int (sp_expiresAt s)
      then map_option (\<lambda>p. s\<lparr>sp_probe := p\<rparr>) (probeDefinition_parse (sp_probe s)) else None)"

definition serviceVersion_parse :: "service_version \<Rightarrow> service_version option" where
  "serviceVersion_parse v =
     (if scope_ok (sv_scope v) \<and> nonnegative_int (sv_version v)
      then map_option (\<lambda>sid. v\<lparr>sv_serviceId := sid\<rparr>) (serviceId_parse (sv_serviceId v)) else None)"

definition persistedEvents_parse :: "persisted_events \<Rightarrow> persisted_events option" where
  "persistedEvents_parse e =
     (if scope_ok (pe_scope e) \<and> probeId_ok (pe_probeId e)
      then map_option (\<lambda>vs. e\<lparr>pe_values := vs\<rparr>) (traverse probeEvent_parse (pe_values e)) else None)"

definition statusEntry_parse :: "persisted_status \<Rightarrow> persisted_status option" where
  "statusEntry_parse e =
     (if scope_ok (pt_scope e) \<and> probeId_ok (pt_probeId e)
      then map_option (\<lambda>v. e\<lparr>pt_value := v\<rparr>) (persistedStatus_parse (pt_value e)) else None)"

definition persistedMap_parse :: "stored_source_map \<Rightarrow> stored_source_map option" where
  "persistedMap_parse m =
     (case (sourceMapPath_parse (sm_mapPath m), sm_map m) of
        (Some p, JObj _) \<Rightarrow> Some (m\<lparr>sm_mapPath := p\<rparr>)
      | _ \<Rightarrow> None)"

definition persistedSourceMapSet_parse :: "persisted_set \<Rightarrow> persisted_set option" where
  "persistedSourceMapSet_parse s =
     (case (serviceId_parse (pm_serviceId s), sourceCommit_parse (pm_commitSha s), traverse persistedMap_parse (pm_maps s)) of
        (Some sid, Some sha, Some ms) \<Rightarrow>
          if scope_ok (pm_scope s) then Some (s\<lparr>pm_serviceId := sid, pm_commitSha := sha, pm_maps := ms\<rparr>) else None
      | _ \<Rightarrow> None)"

definition persistedNativeStatus_parse :: "persisted_native_status \<Rightarrow> persisted_native_status option" where
  "persistedNativeStatus_parse e =
     (case (trimmed 1 200 (pn_agentId e), trimmed 1 300 (pn_instanceId e), buildId_parse (pn_buildId e),
            persistedStatus_parse (pn_value e)) of
        (Some aid, Some iid, Some b, Some v) \<Rightarrow>
          if scope_ok (pn_scope e) \<and> probeId_ok (pn_probeId e) \<and>
             (case pn_probeVersion e of None \<Rightarrow> False | Some n \<Rightarrow> positive_int n)
          then Some (e\<lparr>pn_agentId := aid, pn_instanceId := iid, pn_buildId := b, pn_value := v\<rparr>) else None
      | _ \<Rightarrow> None)"

definition persistedAssignmentVersion_parse :: "persisted_assignment_version \<Rightarrow> persisted_assignment_version option" where
  "persistedAssignmentVersion_parse e =
     (if scope_ok (pa_scope e) \<and> nonnegative_int (pa_version e)
      then map_option (\<lambda>a. e\<lparr>pa_agentId := a\<rparr>) (trimmed 1 200 (pa_agentId e)) else None)"

definition snapshotSchema_parse :: "broker_snapshot \<Rightarrow> broker_snapshot option" where
  "snapshotSchema_parse s =
     (case (traverse storedProbe_parse (sn_probes s), traverse serviceVersion_parse (sn_serviceVersions s),
            traverse persistedEvents_parse (sn_events s), traverse persistedService_parse (sn_services s),
            traverse statusEntry_parse (sn_statuses s), traverse persistedSourceMapSet_parse (sn_sourceMapSets s),
            traverse persistedNativeAgent_parse (sn_nativeAgents s),
            traverse persistedNativeInstance_parse (sn_nativeInstances s),
            traverse persistedNativeStatus_parse (sn_nativeStatuses s),
            traverse persistedAssignmentVersion_parse (sn_nativeAssignmentVersions s)) of
        (Some ps, Some vs, Some es, Some svs, Some sts, Some ms, Some as, Some is, Some ns, Some avs) \<Rightarrow>
          Some (s\<lparr>sn_probes := ps, sn_serviceVersions := vs, sn_events := es, sn_services := svs, sn_statuses := sts,
            sn_sourceMapSets := ms, sn_nativeAgents := as, sn_nativeInstances := is, sn_nativeStatuses := ns,
            sn_nativeAssignmentVersions := avs\<rparr>)
      | _ \<Rightarrow> None)"

subsection \<open>The older format\<close>

text \<open>
  Format 1 has no scopes: a probe is stored with its expiry only, versions and statuses are pairs, and the scope
  fields of services and source-map sets are absent (their value here is not read).
\<close>

record legacy_snapshot =
  lg_savedAt :: int
  lg_probes :: "(probe_definition \<times> int \<times> bool) list"
  lg_serviceVersions :: "(string \<times> int) list"
  lg_events :: "(string \<times> probe_event list) list"
  lg_services :: "service_record list"
  lg_statuses :: "(string \<times> probe_status) list"
  lg_sourceMapSets :: "persisted_set list"

datatype stored_snapshot = Format1 legacy_snapshot | Format2 broker_snapshot

definition upgradeLegacy :: "legacy_snapshot \<Rightarrow> broker_snapshot" where
  "upgradeLegacy l =
     \<lparr>sn_savedAt = lg_savedAt l,
      sn_probes = map (\<lambda>(p, t, x). \<lparr>sp_scope = DEFAULT_RESOURCE_SCOPE, sp_probe = p, sp_expiresAt = t, sp_expired = x\<rparr>) (lg_probes l),
      sn_serviceVersions = map (\<lambda>(sid, v). \<lparr>sv_scope = DEFAULT_RESOURCE_SCOPE, sv_serviceId = sid, sv_version = v\<rparr>) (lg_serviceVersions l),
      sn_events = map (\<lambda>(pid, vs). \<lparr>pe_scope = DEFAULT_RESOURCE_SCOPE, pe_probeId = pid, pe_values = vs\<rparr>) (lg_events l),
      sn_services = map (\<lambda>s. s\<lparr>sr_scope := DEFAULT_RESOURCE_SCOPE\<rparr>) (lg_services l),
      sn_statuses = map (\<lambda>(pid, v). \<lparr>pt_scope = DEFAULT_RESOURCE_SCOPE, pt_probeId = pid, pt_value = v\<rparr>) (lg_statuses l),
      sn_sourceMapSets = map (\<lambda>s. s\<lparr>pm_scope := DEFAULT_RESOURCE_SCOPE\<rparr>) (lg_sourceMapSets l),
      sn_nativeAgents = [], sn_nativeInstances = [], sn_nativeStatuses = [], sn_nativeAssignmentVersions = []\<rparr>"

text \<open>
  The schema of format 1 checks each part as format 2 does; a value it accepts is upgraded and checked again, so
  the first pass has no effect of its own on the outcome.
\<close>

definition parseBrokerSnapshot :: "stored_snapshot \<Rightarrow> broker_snapshot option" where
  "parseBrokerSnapshot v =
     (case v of
        Format2 s \<Rightarrow> snapshotSchema_parse s
      | Format1 l \<Rightarrow> Option.bind (snapshotSchema_parse (upgradeLegacy l)) snapshotSchema_parse)"

subsection \<open>Taking a snapshot\<close>

text \<open>\<^verbatim>\<open>Number(text)\<close> for a part of a key: its version part is written as a decimal integer.\<close>

definition decimal :: "string \<Rightarrow> int option" where
  "decimal s =
     (if s \<noteq> [] \<and> list_all is_digit s
      then Some (foldl (\<lambda>n c. 10 * n + (int (of_char c) - 48)) 0 s) else None)"

definition snapshot_events :: "broker \<Rightarrow> persisted_events list" where
  "snapshot_events st = List.map_filter (\<lambda>(pid, vs).
     (case jget (probes st) pid of
        None \<Rightarrow> None
      | Some stored \<Rightarrow> Some \<lparr>pe_scope = sp_scope stored, pe_probeId = pid, pe_values = vs\<rparr>)) (events st)"

definition snapshot_statuses :: "broker \<Rightarrow> persisted_status list" where
  "snapshot_statuses st = List.map_filter (\<lambda>(pid, v).
     (case jget (probes st) pid of
        None \<Rightarrow> None
      | Some stored \<Rightarrow> Some \<lparr>pt_scope = sp_scope stored, pt_probeId = pid, pt_value = v\<rparr>)) (statuses st)"

definition snapshot_set :: "source_map_set \<Rightarrow> persisted_set" where
  "snapshot_set s = \<lparr>pm_scope = ss_scope s, pm_serviceId = ss_serviceId s, pm_commitSha = ss_commitSha s,
     pm_complete = ss_complete s, pm_updatedAt = ss_updatedAt s, pm_maps = jvalues (ss_maps s)\<rparr>"

definition snapshot_native_status :: "broker \<Rightarrow> string \<times> probe_status \<Rightarrow> persisted_native_status option" where
  "snapshot_native_status st = (\<lambda>(key, v).
     (case js_split nul key of
        _ # pid # version # aid # iid # build # _ \<Rightarrow>
          (case jget (probes st) pid of
             None \<Rightarrow> None
           | Some stored \<Rightarrow> Some \<lparr>pn_scope = sp_scope stored, pn_probeId = pid, pn_probeVersion = decimal version,
               pn_agentId = aid, pn_instanceId = iid, pn_buildId = build, pn_value = v\<rparr>)
      | _ \<Rightarrow> None))"

definition snapshot_assignment_version :: "broker \<Rightarrow> string \<times> int \<Rightarrow> persisted_assignment_version option" where
  "snapshot_assignment_version st = (\<lambda>(key, v).
     (case js_split nul key of
        _ # aid # _ \<Rightarrow>
          (case List.find (\<lambda>a. nativeAgentKey (na_scope a) (na_agentId a) = key) (jvalues (nativeAgents st)) of
             None \<Rightarrow> None
           | Some a \<Rightarrow> Some \<lparr>pa_scope = na_scope a, pa_agentId = aid, pa_version = v\<rparr>)
      | _ \<Rightarrow> None))"

definition snapshot_of :: "int \<Rightarrow> broker \<Rightarrow> broker_snapshot" where
  "snapshot_of now st =
     \<lparr>sn_savedAt = now, sn_probes = jvalues (probes st), sn_serviceVersions = jvalues (serviceVersions st),
      sn_events = snapshot_events st, sn_services = jvalues (services st), sn_statuses = snapshot_statuses st,
      sn_sourceMapSets = map snapshot_set (jvalues (sourceMapSets st)), sn_nativeAgents = jvalues (nativeAgents st),
      sn_nativeInstances = jvalues (nativeInstances st),
      sn_nativeStatuses = List.map_filter (snapshot_native_status st) (nativeStatuses st),
      sn_nativeAssignmentVersions = List.map_filter (snapshot_assignment_version st) (nativeAssignmentVersions st)\<rparr>"

definition snapshot :: "int \<Rightarrow> broker \<Rightarrow> (broker_error, broker_snapshot) res" where
  "snapshot now st =
     (case snapshotSchema_parse (snapshot_of now st) of
        None \<Rightarrow> Err (SchemaError ''snapshotSchema'')
      | Some s \<Rightarrow> Ok s)"

subsection \<open>Loading a snapshot\<close>

definition stored_set :: "persisted_set \<Rightarrow> source_map_set" where
  "stored_set s = \<lparr>ss_scope = pm_scope s, ss_serviceId = pm_serviceId s, ss_commitSha = pm_commitSha s,
     ss_complete = pm_complete s, ss_updatedAt = pm_updatedAt s,
     ss_maps = fold (\<lambda>m. jset (sm_mapPath m) m) (pm_maps s) []\<rparr>"

definition loadSourceMapSets :: "persisted_set list \<Rightarrow> (string, source_map_set) jsmap \<Rightarrow> (string, source_map_set) jsmap" where
  "loadSourceMapSets sets m =
     fold (\<lambda>s. jset (sourceMapKey (pm_scope s) (pm_serviceId s) (pm_commitSha s)) (stored_set s)) sets m"

text \<open>\<open>newest\<close> is \<^verbatim>\<open>values.slice(-capacity)\<close>.\<close>

definition replaceWithSnapshot :: "int \<Rightarrow> broker_snapshot \<Rightarrow> broker \<Rightarrow> broker" where
  "replaceWithSnapshot now s st =
     sweep now (st\<lparr>probes := fold (\<lambda>p. jset (pd_id (sp_probe p)) p) (sn_probes s) [],
       serviceVersions := fold (\<lambda>v. jset (serviceKey (sv_scope v) (sv_serviceId v)) v) (sn_serviceVersions s) [],
       events := fold (\<lambda>e. jset (pe_probeId e) (newest (ringCapacity st) (pe_values e))) (sn_events s) [],
       services := fold (\<lambda>v. jset (serviceKey (sr_scope v) (sr_serviceId v)) (v\<lparr>sr_capabilities := Some []\<rparr>)) (sn_services s) [],
       agentCapabilityReports := [],
       statuses := fold (\<lambda>e. jset (pt_probeId e) (pt_value e)) (sn_statuses s) [],
       sourceMapSets := loadSourceMapSets (sn_sourceMapSets s) [],
       sourceMapLeases := [],
       nativeAgents := fold (\<lambda>a. jset (nativeAgentKey (na_scope a) (na_agentId a)) a) (sn_nativeAgents s) [],
       nativeInstances := fold (\<lambda>i. jset (nativeInstanceKey (ni_scope i) (ni_agentId i) (ni_instanceId i)) i) (sn_nativeInstances s) [],
       nativeStatuses := fold (\<lambda>e. jset (nativeStatusKey (pn_scope e) (pn_probeId e)
           (case pn_probeVersion e of None \<Rightarrow> 0 | Some v \<Rightarrow> v) (pn_agentId e) (pn_instanceId e) (pn_buildId e)) (pn_value e))
         (sn_nativeStatuses s) [],
       nativeAssignmentVersions := fold (\<lambda>e. jset (nativeAgentKey (pa_scope e) (pa_agentId e)) (pa_version e))
         (sn_nativeAssignmentVersions s) []\<rparr>)"

definition loadSnapshot :: "int \<Rightarrow> stored_snapshot \<Rightarrow> broker \<Rightarrow> unit broker_res" where
  "loadSnapshot now v st =
     (case parseBrokerSnapshot v of
        None \<Rightarrow> (st, Err (SchemaError ''snapshotSchema''))
      | Some s \<Rightarrow> (replaceWithSnapshot now s st, Ok ()))"

subsection \<open>Durable changes\<close>

text \<open>
  A durable change runs alone among the durable ones.  While \<open>persist\<close> is awaited, requests that are not durable
  may still change the state, so \<open>persist\<close> returns the state at the time it settles, and \<open>None\<close> or the error it
  failed with; \<open>now\<close> and \<open>now'\<close> are the clock before and after.
\<close>

definition mutateDurably ::
  "int \<Rightarrow> int \<Rightarrow> (broker \<Rightarrow> 'a broker_res) \<Rightarrow> ('a \<Rightarrow> broker \<Rightarrow> broker \<times> broker_error option) \<Rightarrow> broker \<Rightarrow> 'a broker_res" where
  "mutateDurably now now' mutate persist st =
     (case snapshot now st of
        Inl e \<Rightarrow> (st, Err e)
      | Inr before \<Rightarrow>
          (case mutate st of
             (st1, Inl e) \<Rightarrow> (st1, Err e)
           | (st1, Inr a) \<Rightarrow>
               (case persist a st1 of
                  (st2, None) \<Rightarrow> (st2, Ok a)
                | (st2, Some e) \<Rightarrow>
                    (case loadSnapshot now' (Format2 before) st2 of
                       (st3, Inl e') \<Rightarrow> (st3, Err e')
                     | (st3, Inr _) \<Rightarrow> (st3, Err e)))))"

text \<open>The store that keeps nothing.\<close>

definition no_store :: "'a \<Rightarrow> broker \<Rightarrow> broker \<times> broker_error option" where
  "no_store _ st = (st, None)"

text \<open>
  What must hold for a snapshot to be exact: every stored value is as its schema returns it (a service may lack its
  capabilities, which are not kept), and the native maps are filed under the keys their entries name.
\<close>

definition services_normal :: "broker \<Rightarrow> bool" where
  "services_normal st \<longleftrightarrow>
     (\<forall>s \<in> set (jvalues (services st)).
        persistedService_parse s = Some (s\<lparr>sr_capabilities := Some (case sr_capabilities s of None \<Rightarrow> [] | Some c \<Rightarrow> c)\<rparr>))"

definition sets_normal :: "broker \<Rightarrow> bool" where
  "sets_normal st \<longleftrightarrow>
     (\<forall>s \<in> set (jvalues (sourceMapSets st)).
        persistedSourceMapSet_parse (snapshot_set s) = Some (snapshot_set s) \<and> jwf (ss_maps s) \<and>
        (\<forall>(k, m) \<in> set (ss_maps s). sm_mapPath m = k))"

definition probes_normal :: "broker \<Rightarrow> bool" where
  "probes_normal st \<longleftrightarrow>
     (\<forall>s \<in> set (jvalues (probes st)). storedProbe_parse s = Some s) \<and>
     (\<forall>v \<in> set (jvalues (serviceVersions st)). serviceVersion_parse v = Some v) \<and>
     (\<forall>es \<in> set (jvalues (events st)). \<forall>e \<in> set es. probeEvent_parse e = Some e) \<and>
     (\<forall>s \<in> set (jvalues (statuses st)). persistedStatus_parse s = Some s)"

definition native_normal :: "broker \<Rightarrow> bool" where
  "native_normal st \<longleftrightarrow>
     (\<forall>(k, a) \<in> set (nativeAgents st). persistedNativeAgent_parse a = Some a \<and> k = nativeAgentKey (na_scope a) (na_agentId a)) \<and>
     (\<forall>(k, i) \<in> set (nativeInstances st). persistedNativeInstance_parse i = Some i \<and>
        k = nativeInstanceKey (ni_scope i) (ni_agentId i) (ni_instanceId i)) \<and>
     (\<forall>(k, v) \<in> set (nativeStatuses st). case snapshot_native_status st (k, v) of None \<Rightarrow> True
        | Some e \<Rightarrow> persistedNativeStatus_parse e = Some e \<and>
            k = nativeStatusKey (pn_scope e) (pn_probeId e) (case pn_probeVersion e of None \<Rightarrow> 0 | Some v \<Rightarrow> v)
              (pn_agentId e) (pn_instanceId e) (pn_buildId e)) \<and>
     (\<forall>(k, v) \<in> set (nativeAssignmentVersions st). case snapshot_assignment_version st (k, v) of None \<Rightarrow> True
        | Some e \<Rightarrow> persistedAssignmentVersion_parse e = Some e \<and> k = nativeAgentKey (pa_scope e) (pa_agentId e))"

definition stored_normal :: "broker \<Rightarrow> bool" where
  "stored_normal st \<longleftrightarrow> probes_normal st \<and> services_normal st \<and> sets_normal st \<and> native_normal st"

text \<open>The state \<open>st0\<close> with everything that is persisted taken from \<open>st\<close>, as a restart of \<open>st\<close> would leave it.\<close>

definition recalled :: "broker \<Rightarrow> broker \<Rightarrow> broker" where
  "recalled st st0 =
     st0\<lparr>probes := probes st, serviceVersions := serviceVersions st, events := events st,
       services := map (\<lambda>(k, s). (k, s\<lparr>sr_capabilities := Some []\<rparr>)) (services st),
       agentCapabilityReports := [], statuses := statuses st, sourceMapSets := sourceMapSets st, sourceMapLeases := [],
       nativeAgents := nativeAgents st, nativeInstances := nativeInstances st,
       nativeStatuses := filter (\<lambda>p. snapshot_native_status st p \<noteq> None) (nativeStatuses st),
       nativeAssignmentVersions := filter (\<lambda>p. snapshot_assignment_version st p \<noteq> None) (nativeAssignmentVersions st)\<rparr>"

definition kept_service :: "service_record \<Rightarrow> service_record" where
  "kept_service s = s\<lparr>sr_capabilities := Some (case sr_capabilities s of None \<Rightarrow> [] | Some c \<Rightarrow> c)\<rparr>"

text \<open>The remaining maps of the broker have no duplicate keys.\<close>

definition maps_wf :: "broker \<Rightarrow> bool" where
  "maps_wf st \<longleftrightarrow> jwf (serviceVersions st) \<and> jwf (nativeAgents st) \<and>
     jwf (nativeStatuses st) \<and> jwf (nativeAssignmentVersions st)"

text \<open>The sample request with any admissible identifier and time to live, on an empty broker.\<close>

definition ttl_input :: "int \<Rightarrow> create_input" where
  "ttl_input ttl = sample_input\<lparr>ci_ttlSeconds := ttl\<rparr>"

definition ttl_probe :: "string \<Rightarrow> int \<Rightarrow> probe_definition" where
  "ttl_probe pid ttl = sample_probe\<lparr>pd_id := pid, pd_ttlSeconds := ttl\<rparr>"

definition ttl_broker :: "string \<Rightarrow> int \<Rightarrow> broker" where
  "ttl_broker pid ttl = (empty_broker 2)\<lparr>probes := [(pid, \<lparr>sp_scope = DEFAULT_RESOURCE_SCOPE, sp_probe = ttl_probe pid ttl,
       sp_expiresAt = expires_at 1000 ttl, sp_expired = False\<rparr>)], events := [(pid, [])],
     serviceVersions := [(serviceKey DEFAULT_RESOURCE_SCOPE ''pay'',
       \<lparr>sv_scope = DEFAULT_RESOURCE_SCOPE, sv_serviceId = ''pay'', sv_version = 1\<rparr>)]\<rparr>"

definition far_ttl :: int where "far_ttl = 9007199254741"

text \<open>A poll that arrives while the store is busy, and a second identifier.\<close>

definition polled_store :: "'a \<Rightarrow> broker \<Rightarrow> broker \<times> broker_error option" where
  "polled_store _ st = (fst (pollProbes sample_env 2000 ''pay'' 0 None DEFAULT_RESOURCE_SCOPE st), Some (PlainError ''disk full''))"

definition other_id :: string where
  "other_id = ''prb_0000000000ABCDEFGHJKMNPQRS''"

section \<open>Lemmas\<close>

subsection \<open>Rebuilding a map\<close>

lemma fold_jset_distinct:
  assumes "distinct (map key xs)" "\<And>x. x \<in> set xs \<Longrightarrow> \<not> jhas m (key x)"
  shows "fold (\<lambda>x. jset (key x) (val x)) xs m = m @ map (\<lambda>x. (key x, val x)) xs"
  using assms
proof (induction xs arbitrary: m)
  case (Cons x xs)
  then have "jset (key x) (val x) m = m @ [(key x, val x)]" by (intro jset_new) simp
  moreover have "\<not> jhas (m @ [(key x, val x)]) (key y)" if "y \<in> set xs" for y
    using Cons.prems(1) Cons.prems(2) [of y] that by (auto simp: jhas_iff_key) (metis imageI)
  ultimately show ?case using Cons.IH [of "m @ [(key x, val x)]"] Cons.prems(1) by simp
qed simp

lemma rebuild_map:
  assumes "jwf m" "\<And>k v. (k, v) \<in> set m \<Longrightarrow> key (f (k, v)) = k \<and> val (f (k, v)) = v"
  shows "fold (\<lambda>x. jset (key x) (val x)) (map f m) [] = m"
proof -
  have k: "map key (map f m) = map fst m" using assms(2) by auto
  have "fold (\<lambda>x. jset (key x) (val x)) (map f m) [] = map (\<lambda>x. (key x, val x)) (map f m)"
    using fold_jset_distinct [of key "map f m" "[]" val] assms(1) by (simp only: k) simp
  also have "\<dots> = m" using assms(2) by (auto intro: map_idI)
  finally show ?thesis .
qed

lemma rebuild_filtered:
  assumes "jwf m" "\<And>k v e. (k, v) \<in> set m \<Longrightarrow> f (k, v) = Some e \<Longrightarrow> key e = k \<and> val e = v"
  shows "fold (\<lambda>x. jset (key x) (val x)) (List.map_filter f m) [] = filter (\<lambda>p. f p \<noteq> None) m"
proof -
  have "List.map_filter f m = map (the \<circ> f) (filter (\<lambda>p. f p \<noteq> None) m)"
    by (simp add: map_filter_def)
  moreover have "fold (\<lambda>x. jset (key x) (val x)) (map (the \<circ> f) (filter (\<lambda>p. f p \<noteq> None) m)) [] = filter (\<lambda>p. f p \<noteq> None) m"
    using assms by (intro rebuild_map) (auto simp: distinct_map_filter)
  ultimately show ?thesis by simp
qed

subsection \<open>A normal state is its own snapshot\<close>

lemma traverse_id: "(\<And>x. x \<in> set xs \<Longrightarrow> f x = Some x) \<Longrightarrow> traverse f xs = Some xs"
  by (rule traverse_cong_id)

lemma map_filter_Some: "x \<in> set (List.map_filter f xs) \<longleftrightarrow> (\<exists>y \<in> set xs. f y = Some x)"
  by (force simp: map_filter_def)

lemma probes_normalD:
  assumes "probes_normal st"
  shows "(k, s) \<in> set (probes st) \<Longrightarrow> storedProbe_parse s = Some s"
    "(k, v) \<in> set (serviceVersions st) \<Longrightarrow> serviceVersion_parse v = Some v"
    "(k, es) \<in> set (events st) \<Longrightarrow> e \<in> set es \<Longrightarrow> probeEvent_parse e = Some e"
    "(k, t) \<in> set (statuses st) \<Longrightarrow> persistedStatus_parse t = Some t"
  using assms by (auto simp: probes_normal_def)

lemma native_normalD:
  assumes "native_normal st"
  shows "(k, a) \<in> set (nativeAgents st) \<Longrightarrow> persistedNativeAgent_parse a = Some a \<and> k = nativeAgentKey (na_scope a) (na_agentId a)"
    "(k, i) \<in> set (nativeInstances st) \<Longrightarrow> persistedNativeInstance_parse i = Some i \<and>
       k = nativeInstanceKey (ni_scope i) (ni_agentId i) (ni_instanceId i)"
    "(k, v) \<in> set (nativeStatuses st) \<Longrightarrow> snapshot_native_status st (k, v) = Some e \<Longrightarrow>
       persistedNativeStatus_parse e = Some e \<and>
       k = nativeStatusKey (pn_scope e) (pn_probeId e) (case pn_probeVersion e of None \<Rightarrow> 0 | Some v \<Rightarrow> v)
              (pn_agentId e) (pn_instanceId e) (pn_buildId e)"
    "(k, n) \<in> set (nativeAssignmentVersions st) \<Longrightarrow> snapshot_assignment_version st (k, n) = Some w \<Longrightarrow>
       persistedAssignmentVersion_parse w = Some w \<and> k = nativeAgentKey (pa_scope w) (pa_agentId w)"
  using assms by (fastforce simp: native_normal_def)+

lemma scope_probe_ok: "storedProbe_parse s = Some t \<Longrightarrow> scope_ok (sp_scope s) \<and> probeId_ok (pd_id (sp_probe s))"
  by (auto simp: storedProbe_parse_def probeDefinition_parse_def split: if_splits option.splits)

lemma normal_probe:
  assumes "broker_inv st" "probes_normal st" "jget (probes st) pid = Some s"
  shows "scope_ok (sp_scope s)" "probeId_ok pid"
proof -
  have w: "jwf (probes st)" "pd_id (sp_probe s) = pid" using broker_invD(1) [OF assms(1)] assms(3) by (auto simp: probes_ok_def)
  have "storedProbe_parse s = Some s" using probes_normalD(1) [OF assms(2) map_of_SomeD [OF assms(3)]] .
  from scope_probe_ok [OF this] w(2) show "scope_ok (sp_scope s)" "probeId_ok pid" by simp_all
qed

lemma events_normal:
  assumes "broker_inv st" "probes_normal st" "e \<in> set (snapshot_events st)"
  shows "persistedEvents_parse e = Some e"
proof -
  obtain pid vs s where e: "(pid, vs) \<in> set (events st)" "jget (probes st) pid = Some s"
      "e = \<lparr>pe_scope = sp_scope s, pe_probeId = pid, pe_values = vs\<rparr>"
    using assms(3) by (auto simp: snapshot_events_def map_filter_Some split: option.splits)
  have "traverse probeEvent_parse vs = Some vs" by (rule traverse_id) (rule probes_normalD(3) [OF assms(2) e(1)])
  then show ?thesis using normal_probe [OF assms(1,2) e(2)] by (simp add: e(3) persistedEvents_parse_def)
qed

lemma statuses_normal:
  assumes "broker_inv st" "probes_normal st" "e \<in> set (snapshot_statuses st)"
  shows "statusEntry_parse e = Some e"
proof -
  obtain pid v s where e: "(pid, v) \<in> set (statuses st)" "jget (probes st) pid = Some s"
      "e = \<lparr>pt_scope = sp_scope s, pt_probeId = pid, pt_value = v\<rparr>"
    using assms(3) by (auto simp: snapshot_statuses_def map_filter_Some split: option.splits)
  have "persistedStatus_parse v = Some v" by (rule probes_normalD(4) [OF assms(2) e(1)])
  then show ?thesis using normal_probe [OF assms(1,2) e(2)] by (simp add: e(3) statusEntry_parse_def)
qed

lemma services_traverse: "services_normal st \<Longrightarrow>
    traverse persistedService_parse (jvalues (services st)) = Some (map kept_service (jvalues (services st)))"
  by (auto simp: traverse_Some_iff list_all2_conv_all_nth services_normal_def kept_service_def)

lemma snapshot_Ok:
  assumes "broker_inv st" "stored_normal st"
  shows "snapshot now st = Ok ((snapshot_of now st)\<lparr>sn_services := map kept_service (jvalues (services st))\<rparr>)"
proof -
  have n: "probes_normal st" "services_normal st" "sets_normal st" "native_normal st" using assms(2) by (simp_all add: stored_normal_def)
  have p: "traverse storedProbe_parse (jvalues (probes st)) = Some (jvalues (probes st))"
    "traverse serviceVersion_parse (jvalues (serviceVersions st)) = Some (jvalues (serviceVersions st))"
    using probes_normalD [OF n(1)] by (auto intro!: traverse_id)
  have e: "traverse persistedEvents_parse (snapshot_events st) = Some (snapshot_events st)"
    by (rule traverse_id) (rule events_normal [OF assms(1) n(1)])
  have s: "traverse statusEntry_parse (snapshot_statuses st) = Some (snapshot_statuses st)"
    by (rule traverse_id) (rule statuses_normal [OF assms(1) n(1)])
  have m: "traverse persistedSourceMapSet_parse (map snapshot_set (jvalues (sourceMapSets st))) =
      Some (map snapshot_set (jvalues (sourceMapSets st)))"
    using n(3) by (auto intro!: traverse_id simp: sets_normal_def)
  have a: "traverse persistedNativeAgent_parse (jvalues (nativeAgents st)) = Some (jvalues (nativeAgents st))"
    "traverse persistedNativeInstance_parse (jvalues (nativeInstances st)) = Some (jvalues (nativeInstances st))"
    using native_normalD(1,2) [OF n(4)] by (auto intro!: traverse_id)
  have ns: "traverse persistedNativeStatus_parse (List.map_filter (snapshot_native_status st) (nativeStatuses st)) =
      Some (List.map_filter (snapshot_native_status st) (nativeStatuses st))"
    using native_normalD(3) [OF n(4)] by (intro traverse_id) (auto simp: map_filter_Some)
  have av: "traverse persistedAssignmentVersion_parse (List.map_filter (snapshot_assignment_version st) (nativeAssignmentVersions st)) =
      Some (List.map_filter (snapshot_assignment_version st) (nativeAssignmentVersions st))"
    using native_normalD(4) [OF n(4)] by (intro traverse_id) (auto simp: map_filter_Some)
  show ?thesis
    by (simp del: map_map add: snapshot_def snapshotSchema_parse_def snapshot_of_def p e s m a ns av services_traverse [OF n(2)])
qed


subsection \<open>Validating a snapshot again\<close>

lemma schema_status [intro]: "schema persistedStatus_parse"
proof
  fix x y
  assume "persistedStatus_parse x = Some y"
  then obtain m where m: "metadata_parse (ps_metadata x) = Some m" "y = x\<lparr>ps_metadata := m\<rparr>"
      "pred_option (\<lambda>t. length t \<le> 4096) (ps_detail x)" "pred_option positive_int (ps_probeVersion x)"
    by (auto simp: persistedStatus_parse_def split: if_splits)
  with schema.again [OF schema_metadata m(1)] show "persistedStatus_parse y = Some y" by (simp add: persistedStatus_parse_def)
qed

lemma schema_service [intro]: "schema persistedService_parse"
proof
  fix x y
  assume p: "persistedService_parse x = Some y"
  then obtain a b c d where q: "serviceId_parse (sr_serviceId x) = Some a" "opt_parse sourceCommit_parse (sr_commitSha x) = Some b"
      "bounded_list 32 agentCapability_parse (case sr_capabilities x of None \<Rightarrow> [] | Some c \<Rightarrow> c) = Some c"
      "opt_parse (traverse buildId_parse) (sr_buildIds x) = Some d"
    by (auto simp: persistedService_parse_def split: option.splits)
  note r = q(1) [THEN schema.again [OF schema_names(1)]] q(2) [THEN schema.again [OF schema_opt [OF schema_sourceCommit]]]
    q(3) [THEN schema.again [OF schema_bounded [OF schema_capability]]] q(4) [THEN schema.again [OF schema_opt [OF schema_traverse [OF schema_buildId]]]]
  show "persistedService_parse y = Some y" using p q r by (auto simp: persistedService_parse_def split: if_splits)
qed

text \<open>A schema that keeps one part of a record normal and checks the rest.\<close>

lemma schema_part:
  assumes "schema f" "\<And>x v. get (put v x) = v" "\<And>x v w. put v (put w x) = put v x" "\<And>x v. P (put v x) = P x"
  shows "schema (\<lambda>x. if P x then map_option (\<lambda>v. put v x) (f (get x)) else None)"
proof
  fix x y
  assume "(if P x then map_option (\<lambda>v. put v x) (f (get x)) else None) = Some y"
  then obtain v where v: "f (get x) = Some v" "P x" "y = put v x" by (auto split: if_splits)
  with schema.again [OF assms(1) v(1)] assms(2-) show "(if P y then map_option (\<lambda>v. put v y) (f (get y)) else None) = Some y" by simp
qed

lemma schema_parts [intro]: "schema storedProbe_parse" "schema serviceVersion_parse" "schema persistedEvents_parse"
    "schema statusEntry_parse" "schema persistedAssignmentVersion_parse"
  unfolding storedProbe_parse_def [abs_def] serviceVersion_parse_def [abs_def] persistedEvents_parse_def [abs_def]
    statusEntry_parse_def [abs_def] persistedAssignmentVersion_parse_def [abs_def]
  by (rule schema_part, auto intro: probe_definitions.schema_axioms schema_traverse)+

lemma schema_map [intro]: "schema persistedMap_parse"
proof
  fix x y
  assume "persistedMap_parse x = Some y"
  then obtain q ms where "sourceMapPath_parse (sm_mapPath x) = Some q" "sm_map x = JObj ms" "y = x\<lparr>sm_mapPath := q\<rparr>"
    by (auto simp: persistedMap_parse_def split: option.splits json.splits)
  with schema.again [OF schema_mapPath this(1)] show "persistedMap_parse y = Some y" by (simp add: persistedMap_parse_def)
qed

lemma schema_set [intro]: "schema persistedSourceMapSet_parse"
proof
  fix x y
  assume p: "persistedSourceMapSet_parse x = Some y"
  then obtain a b c where q: "serviceId_parse (pm_serviceId x) = Some a" "sourceCommit_parse (pm_commitSha x) = Some b"
      "traverse persistedMap_parse (pm_maps x) = Some c"
    by (auto simp: persistedSourceMapSet_parse_def split: option.splits)
  note r = q(1) [THEN schema.again [OF schema_names(1)]] q(2) [THEN schema.again [OF schema_sourceCommit]]
    q(3) [THEN schema.again [OF schema_traverse [OF schema_map]]]
  show "persistedSourceMapSet_parse y = Some y" using p q r by (auto simp: persistedSourceMapSet_parse_def split: if_splits)
qed

lemma schema_nativeAgent [intro]: "schema persistedNativeAgent_parse"
proof
  fix x y
  assume p: "persistedNativeAgent_parse x = Some y"
  then obtain a b c where q: "trimmed 1 200 (na_agentId x) = Some a" "trimmed 1 255 (na_hostname x) = Some b"
      "trimmed 1 100 (na_agentVersion x) = Some c"
    by (auto simp: persistedNativeAgent_parse_def split: option.splits)
  note r = q [THEN schema.again [OF schema_trimmed]]
  show "persistedNativeAgent_parse y = Some y" using p q r by (auto simp: persistedNativeAgent_parse_def split: if_splits)
qed

lemma schema_nativeInstance [intro]: "schema persistedNativeInstance_parse"
proof
  fix x y
  assume p: "persistedNativeInstance_parse x = Some y"
  then obtain a b c d e f where q: "trimmed 1 200 (ni_agentId x) = Some a" "trimmed 1 300 (ni_instanceId x) = Some b"
      "serviceId_parse (ni_serviceId x) = Some c" "trimmed 1 100 (ni_processStartTime x) = Some d"
      "opt_parse (trimmed 1 100) (ni_executableDevice x) = Some e" "buildId_parse (ni_buildId x) = Some f"
    by (auto simp: persistedNativeInstance_parse_def split: option.splits)
  note r = q(1,2,4) [THEN schema.again [OF schema_trimmed]] q(3) [THEN schema.again [OF schema_names(1)]]
    q(5) [THEN schema.again [OF schema_opt [OF schema_trimmed]]] q(6) [THEN schema.again [OF schema_buildId]]
  show "persistedNativeInstance_parse y = Some y" using p q r by (auto simp: persistedNativeInstance_parse_def split: if_splits)
qed

lemma schema_nativeStatus [intro]: "schema persistedNativeStatus_parse"
proof
  fix x y
  assume p: "persistedNativeStatus_parse x = Some y"
  then obtain a b c d where q: "trimmed 1 200 (pn_agentId x) = Some a" "trimmed 1 300 (pn_instanceId x) = Some b"
      "buildId_parse (pn_buildId x) = Some c" "persistedStatus_parse (pn_value x) = Some d"
    by (auto simp: persistedNativeStatus_parse_def split: option.splits)
  note r = q(1,2) [THEN schema.again [OF schema_trimmed]] q(3) [THEN schema.again [OF schema_buildId]]
    q(4) [THEN schema.again [OF schema_status]]
  show "persistedNativeStatus_parse y = Some y" using p q r by (auto simp: persistedNativeStatus_parse_def split: if_splits)
qed

interpretation snapshots: schema snapshotSchema_parse
proof
  fix x y
  assume p: "snapshotSchema_parse x = Some y"
  note again = schema.again [OF schema_traverse]
  obtain a b c d e f g h i j where q: "traverse storedProbe_parse (sn_probes x) = Some a" "traverse serviceVersion_parse (sn_serviceVersions x) = Some b"
      "traverse persistedEvents_parse (sn_events x) = Some c" "traverse persistedService_parse (sn_services x) = Some d"
      "traverse statusEntry_parse (sn_statuses x) = Some e" "traverse persistedSourceMapSet_parse (sn_sourceMapSets x) = Some f"
      "traverse persistedNativeAgent_parse (sn_nativeAgents x) = Some g" "traverse persistedNativeInstance_parse (sn_nativeInstances x) = Some h"
      "traverse persistedNativeStatus_parse (sn_nativeStatuses x) = Some i"
      "traverse persistedAssignmentVersion_parse (sn_nativeAssignmentVersions x) = Some j"
    using p by (auto simp: snapshotSchema_parse_def split: option.splits)
  note r = q(1) [THEN again [OF schema_parts(1)]] q(2) [THEN again [OF schema_parts(2)]] q(3) [THEN again [OF schema_parts(3)]]
    q(4) [THEN again [OF schema_service]] q(5) [THEN again [OF schema_parts(4)]] q(6) [THEN again [OF schema_set]]
    q(7) [THEN again [OF schema_nativeAgent]] q(8) [THEN again [OF schema_nativeInstance]] q(9) [THEN again [OF schema_nativeStatus]]
    q(10) [THEN again [OF schema_parts(5)]]
  show "snapshotSchema_parse y = Some y" using p q r by (auto simp: snapshotSchema_parse_def)
qed

subsection \<open>Loading restores\<close>

lemma present: "(\<And>k. jhas m k \<Longrightarrow> jhas p k) \<Longrightarrow> (k, v) \<in> set m \<Longrightarrow> \<exists>s. jget p k = Some s"
proof -
  assume a: "\<And>k. jhas m k \<Longrightarrow> jhas p k" "(k, v) \<in> set m"
  from a(2) have "jhas m k" by (force simp: jhas_iff_key)
  from a(1) [OF this] show ?thesis by (auto simp: jhas_def)
qed

lemma newest_id [simp]: "length xs \<le> n \<Longrightarrow> newest n xs = xs"
  by (simp add: newest_def)

lemma stored_snapshot_set:
  assumes "jwf (ss_maps s)" "\<forall>(k, m) \<in> set (ss_maps s). sm_mapPath m = k"
  shows "stored_set (snapshot_set s) = s"
proof -
  have "fold (\<lambda>m. jset (sm_mapPath m) m) (map snd (ss_maps s)) [] = ss_maps s"
    using assms by (intro rebuild_map [where val = "\<lambda>m. m"]) auto
  then show ?thesis by (simp add: stored_set_def snapshot_set_def)
qed

lemma rebuild_events:
  assumes "broker_inv st" "ringCapacity st0 = ringCapacity st"
  shows "fold (\<lambda>e. jset (pe_probeId e) (newest (ringCapacity st0) (pe_values e))) (snapshot_events st) [] = events st"
proof -
  note r = broker_invD(2) [OF assms(1)]
  let ?f = "\<lambda>(pid, vs). case jget (probes st) pid of None \<Rightarrow> None
      | Some stored \<Rightarrow> Some \<lparr>pe_scope = sp_scope stored, pe_probeId = pid, pe_values = vs\<rparr>"
  have len: "length vs \<le> ringCapacity st" if "(k, vs) \<in> set (events st)" for k vs
  proof -
    have "ring st k = vs" using that r jwf_get_iff [of "events st" k vs] by (simp add: rings_ok_def ring_def)
    then show ?thesis using r by (auto simp: rings_ok_def)
  qed
  have "fold (\<lambda>e. jset (pe_probeId e) (newest (ringCapacity st0) (pe_values e))) (List.map_filter ?f (events st)) [] =
      filter (\<lambda>p. ?f p \<noteq> None) (events st)"
    using r len assms(2) by (intro rebuild_filtered) (auto simp: rings_ok_def split: option.splits)
  also have "\<dots> = events st" using r present [of "events st" "probes st"]
    by (intro filter_True) (fastforce simp: rings_ok_def)
  finally show ?thesis by (simp add: snapshot_events_def)
qed

lemma rebuild_statuses:
  assumes "statuses_ok st"
  shows "fold (\<lambda>e. jset (pt_probeId e) (pt_value e)) (snapshot_statuses st) [] = statuses st"
proof -
  let ?f = "\<lambda>(pid, v). case jget (probes st) pid of None \<Rightarrow> None
      | Some stored \<Rightarrow> Some \<lparr>pt_scope = sp_scope stored, pt_probeId = pid, pt_value = v\<rparr>"
  have "fold (\<lambda>e. jset (pt_probeId e) (pt_value e)) (List.map_filter ?f (statuses st)) [] = filter (\<lambda>p. ?f p \<noteq> None) (statuses st)"
    using assms by (intro rebuild_filtered) (auto simp: statuses_ok_def split: option.splits)
  also have "\<dots> = statuses st" using assms present [of "statuses st" "probes st"]
    by (intro filter_True) (fastforce simp: statuses_ok_def)
  finally show ?thesis by (simp add: snapshot_statuses_def)
qed

lemma rebuild_services:
  assumes "services_ok st"
  shows "fold (\<lambda>v. jset (serviceKey (sr_scope v) (sr_serviceId v)) (v\<lparr>sr_capabilities := Some []\<rparr>)) (map kept_service (jvalues (services st))) [] =
      map (\<lambda>(k, s). (k, s\<lparr>sr_capabilities := Some []\<rparr>)) (services st)"
proof -
  let ?key = "\<lambda>v. serviceKey (sr_scope v) (sr_serviceId v)"
  have own: "?key s = k" if "(k, s) \<in> set (services st)" for k s
    using that assms jwf_get_iff [of "services st" k s] by (auto simp: services_ok_def)
  have k: "map ?key (map kept_service (jvalues (services st))) = map fst (services st)"
    using own by (auto simp: kept_service_def)
  have "distinct (map ?key (map kept_service (jvalues (services st))))" unfolding k using assms by (simp add: services_ok_def)
  from fold_jset_distinct [OF this, of "[]" "\<lambda>v. v\<lparr>sr_capabilities := Some []\<rparr>"] show ?thesis
    using own by (auto simp: kept_service_def)
qed

lemma rebuild_sets:
  assumes "maps_ok st" "sets_normal st"
  shows "loadSourceMapSets (map snapshot_set (jvalues (sourceMapSets st))) [] = sourceMapSets st"
proof -
  have n: "stored_set (snapshot_set s) = s" if "(k, s) \<in> set (sourceMapSets st)" for k s
    using that assms(2) by (intro stored_snapshot_set) (auto simp: sets_normal_def)
  have "fold (\<lambda>s. jset (sourceMapKey (pm_scope s) (pm_serviceId s) (pm_commitSha s)) (stored_set s)) (map (snapshot_set \<circ> snd) (sourceMapSets st)) [] =
      sourceMapSets st"
    using assms(1) n by (intro rebuild_map) (auto simp: maps_ok_def snapshot_set_def)
  then show ?thesis by (simp add: loadSourceMapSets_def)
qed

lemma restore_recalls:
  assumes i: "broker_inv st" and n: "stored_normal st" and w: "maps_wf st" "native_ok st" and c: "ringCapacity st0 = ringCapacity st"
  shows "replaceWithSnapshot now ((snapshot_of now' st)\<lparr>sn_services := map kept_service (jvalues (services st))\<rparr>) st0 =
    sweep now (recalled st st0)"
proof -
  have nn: "probes_normal st" "services_normal st" "sets_normal st" "native_normal st" using n by (simp_all add: stored_normal_def)
  have p: "fold (\<lambda>p. jset (pd_id (sp_probe p)) p) (jvalues (probes st)) [] = probes st"
    using broker_invD(1) [OF i] by (intro rebuild_map [where val = "\<lambda>p. p"]) (auto simp: probes_ok_def)
  have v: "fold (\<lambda>v. jset (serviceKey (sv_scope v) (sv_serviceId v)) v) (jvalues (serviceVersions st)) [] = serviceVersions st"
    using broker_invD(5) [OF i] w by (intro rebuild_map [where val = "\<lambda>v. v"]) (auto simp: versions_ok_def maps_wf_def)
  have e: "fold (\<lambda>e. jset (pe_probeId e) (newest (ringCapacity st0) (pe_values e))) (snapshot_events st) [] = events st"
    by (rule rebuild_events [OF i c])
  have s: "fold (\<lambda>v. jset (serviceKey (sr_scope v) (sr_serviceId v)) (v\<lparr>sr_capabilities := Some []\<rparr>)) (map kept_service (jvalues (services st))) [] =
      map (\<lambda>(k, s). (k, s\<lparr>sr_capabilities := Some []\<rparr>)) (services st)"
    by (rule rebuild_services [OF broker_invD(6) [OF i]])
  have t: "fold (\<lambda>e. jset (pt_probeId e) (pt_value e)) (snapshot_statuses st) [] = statuses st"
    by (rule rebuild_statuses [OF broker_invD(3) [OF i]])
  have m: "loadSourceMapSets (map snapshot_set (jvalues (sourceMapSets st))) [] = sourceMapSets st"
    by (rule rebuild_sets [OF broker_invD(7) [OF i] nn(3)])
  have a: "fold (\<lambda>a. jset (nativeAgentKey (na_scope a) (na_agentId a)) a) (jvalues (nativeAgents st)) [] = nativeAgents st"
    using native_normalD(1) [OF nn(4)] w by (intro rebuild_map [where val = "\<lambda>v. v"]) (auto simp: maps_wf_def)
  have ii: "fold (\<lambda>i. jset (nativeInstanceKey (ni_scope i) (ni_agentId i) (ni_instanceId i)) i) (jvalues (nativeInstances st)) [] = nativeInstances st"
    using native_normalD(2) [OF nn(4)] w(2) by (intro rebuild_map [where val = "\<lambda>v. v"]) (auto simp: native_ok_def)
  have ns: "fold (\<lambda>e. jset (nativeStatusKey (pn_scope e) (pn_probeId e)
           (case pn_probeVersion e of None \<Rightarrow> 0 | Some v \<Rightarrow> v) (pn_agentId e) (pn_instanceId e) (pn_buildId e)) (pn_value e))
         (List.map_filter (snapshot_native_status st) (nativeStatuses st)) [] = filter (\<lambda>p. snapshot_native_status st p \<noteq> None) (nativeStatuses st)"
    using native_normalD(3) [OF nn(4)] w
    by (intro rebuild_filtered) (auto simp: maps_wf_def snapshot_native_status_def split: list.splits option.splits)
  have av: "fold (\<lambda>e. jset (nativeAgentKey (pa_scope e) (pa_agentId e)) (pa_version e))
         (List.map_filter (snapshot_assignment_version st) (nativeAssignmentVersions st)) [] =
       filter (\<lambda>p. snapshot_assignment_version st p \<noteq> None) (nativeAssignmentVersions st)"
    using native_normalD(4) [OF nn(4)] w
    by (intro rebuild_filtered) (auto simp: maps_wf_def snapshot_assignment_version_def split: list.splits option.splits)
  show ?thesis
    by (simp del: map_map add: replaceWithSnapshot_def snapshot_of_def recalled_def p v e s t m a ii ns av)
qed

subsection \<open>No duplicate keys\<close>

lemma maps_wf_frame:
  assumes "serviceVersions st' = serviceVersions st" "nativeAgents st' = nativeAgents st" "nativeStatuses st' = nativeStatuses st"
    "nativeAssignmentVersions st' = nativeAssignmentVersions st"
  shows "maps_wf st' = maps_wf st"
  using assms by (simp add: maps_wf_def)

lemma maps_wf_bump: "maps_wf st \<Longrightarrow> maps_wf (bumpNativeAssignmentVersion s a st)"
  by (simp add: maps_wf_def bumpNativeAssignmentVersion_def Let_def)

lemma maps_wf_fold: "(\<And>x st. maps_wf st \<Longrightarrow> maps_wf (f x st)) \<Longrightarrow> maps_wf st \<Longrightarrow> maps_wf (fold f xs st)"
  by (induction xs arbitrary: st) auto

lemma maps_wf_increment: "maps_wf st \<Longrightarrow> maps_wf (fst (incrementServiceVersion sid s st))"
  unfolding incrementServiceVersion_def Let_def fst_conv
  by (rule maps_wf_fold) (auto simp: maps_wf_bump, simp add: maps_wf_def)

lemma maps_wf_expire: "maps_wf st \<Longrightarrow> maps_wf (fst (expire_step now k (st, n)))"
proof (cases "due_at now st k")
  case False
  then show "maps_wf st \<Longrightarrow> ?thesis" by (simp add: expire_step_not_due)
next
  case True
  assume w: "maps_wf st"
  from True obtain stored where g: "jget (probes st) k = Some stored" "\<not> sp_expired stored" "sp_expiresAt stored \<le> now"
    by (auto simp: due_at_def due_def split: option.splits)
  let ?st1 = "st\<lparr>probes := jset k (stored\<lparr>sp_expired := True\<rparr>) (probes st)\<rparr>"
  have "maps_wf ?st1" using w by (simp add: maps_wf_def)
  then have "maps_wf (fst (incrementServiceVersion (pd_serviceId (sp_probe stored)) (sp_scope stored) ?st1))" by (rule maps_wf_increment)
  then show ?thesis using g by (simp add: expire_step_def Let_def maps_wf_def)
qed

lemma maps_wf_sweep: "maps_wf st \<Longrightarrow> maps_wf (sweep now st)"
proof -
  have "maps_wf (fst x) \<Longrightarrow> maps_wf (fst (fold (expire_step now) ks x))" for ks and x :: "broker \<times> nat"
  proof (induction ks arbitrary: x)
    case (Cons k ks)
    then show ?case using Cons.IH [of "expire_step now k x"] maps_wf_expire [of "fst x" now k "snd x"] by simp
  qed simp
  from this [of "(st, 0)"] show "maps_wf st \<Longrightarrow> ?thesis" by (simp add: expireDueProbes_def)
qed

lemma maps_wf_native_event: "maps_wf st \<Longrightarrow> maps_wf (native_event i s e st)"
proof -
  assume w: "maps_wf st"
  have f: "maps_wf (deriveNativeLogicalStatus p s st) = maps_wf st" for p st by (rule maps_wf_frame) simp_all
  have a: "maps_wf (appendEvent e st) = maps_wf st" by (rule maps_wf_frame) simp_all
  have j: "maps_wf (st'\<lparr>nativeStatuses := jset k v m\<rparr>)" if "maps_wf st'" "m = nativeStatuses st'" for k v m st'
    using that by (simp add: maps_wf_def)
  show ?thesis unfolding native_event_def Let_def
    by (cases "ev_body e") (auto simp: f a w intro!: maps_wf_bump j split: option.splits)
qed

lemma maps_wf_ingestNative: "maps_wf st \<Longrightarrow> maps_wf (fst (ingestNative now i s st))"
proof -
  assume w: "maps_wf st"
  have h: "maps_wf (nativeHealth s sid f st) = maps_wf st" for sid f st by (rule maps_wf_frame) simp_all
  have v: "maps_wf (st\<lparr>services := x\<rparr>) = maps_wf st" for x st by (simp add: maps_wf_def)
  have pr: "maps_wf (pruneRemovedProbes now st)" using w maps_wf_frame [of "pruneRemovedProbes now st" st] by simp
  have "maps_wf (fst (ingestNativeChecked now i s st))"
    unfolding ingestNativeChecked_def Let_def
    by (auto simp: w h v pr intro!: maps_wf_fold maps_wf_native_event split: option.split sum.split)
  then show ?thesis
    by (cases "ingestNativeChecked now i s st") (auto simp: ingestNative_def h split: sum.split broker_error.split)
qed

lemma maps_wf_replace: "maps_wf st \<Longrightarrow> maps_wf (fst (replaceNativeInstances now aid rs s al st))"
proof (cases now aid rs s al st rule: replace_cases)
  case (ok fb P b v)
  assume w: "maps_wf st"
  let ?st1 = "st\<lparr>nativeInstances := filter (\<lambda>(_, i). \<not> (sameResourceScope (ni_scope i) s \<and> P i)) (nativeInstances st)\<rparr>"
  obtain st2 r where e: "store_instances s aid fb rs ?st1 = (st2, r)" by fastforce
  have "maps_wf (fst (store_instances s aid fb rs ?st1)) = maps_wf st" by (rule maps_wf_frame) simp_all
  then have w2: "maps_wf st2" using w e by simp
  have j: "maps_wf (st2\<lparr>nativeAgents := jset (nativeAgentKey s aid) v (nativeAgents st2)\<rparr>)" using w2 by (simp add: maps_wf_def)
  have r: "maps_wf (rebuildNativeServices s st4) = maps_wf st4" for st4 by (rule maps_wf_frame) simp_all
  show ?thesis unfolding ok e using w2 j maps_wf_bump [OF j] by (auto simp: r split: sum.split)
qed simp

lemma maps_wf_create: "maps_wf st \<Longrightarrow> maps_wf (fst (createProbe env gen now input scope st))"
proof -
  assume w: "maps_wf st"
  let ?r = "refreshServiceCapabilities now scope (ci_serviceId input) st"
  have r: "maps_wf ?r" using w maps_wf_frame [of ?r st] by simp
  have i: "maps_wf (fst (incrementServiceVersion (ci_serviceId input) scope ?r))" by (rule maps_wf_increment [OF r])
  have u: "maps_wf (st\<lparr>probes := a, events := b\<rparr>) = maps_wf st" for a b st by (simp add: maps_wf_def)
  show ?thesis using w r i by (auto simp: createProbe_def Let_def case_prod_beta u split: sum.split option.split)
qed

lemma maps_wf_delete: "maps_wf st \<Longrightarrow> maps_wf (fst (deleteProbe now pid scope st))"
proof -
  assume w: "maps_wf st"
  have u: "maps_wf (signalActivity pid st) = maps_wf st" for st by (rule maps_wf_frame) simp_all
  have v: "maps_wf (st\<lparr>probes := a, events := b, statuses := c, recentlyRemovedProbes := d\<rparr>) = maps_wf st" for a b c d st
    by (simp add: maps_wf_def)
  show ?thesis using w by (auto simp: deleteProbe_def Let_def u v maps_wf_increment split: option.split)
qed

lemma maps_wf_ingest: "maps_wf st \<Longrightarrow> maps_wf (fst (ingest now i s st))"
proof -
  assume w: "maps_wf st"
  note sw = maps_wf_sweep [OF w, of now]
  have a: "maps_wf (fst (reportAgentCapabilities now s sid a c st)) = maps_wf st" for sid a c st by (rule maps_wf_frame) simp_all
  have t: "maps_wf (touchService now sid k a c cs s caps st) = maps_wf st" for sid k a c cs caps st by (rule maps_wf_frame) simp_all
  have e: "maps_wf st \<Longrightarrow> maps_wf (ingest_event e st)" for e st using maps_wf_frame [of "ingest_event e st" st] by simp
  show ?thesis
    by (auto simp: ingest_def Let_def case_prod_beta sw a t intro!: maps_wf_fold e split: option.split)
qed

lemma maps_wf_complete: "maps_wf st \<Longrightarrow> maps_wf (fst (completeSourceMaps env now sid sha u scope st))"
proof -
  assume w: "maps_wf st"
  have m: "maps_wf (st\<lparr>sourceMapSets := a, sourceMapLeases := b\<rparr>) = maps_wf st" "maps_wf (st\<lparr>sourceMapLeases := b\<rparr>) = maps_wf st"
    "maps_wf (st\<lparr>sourceMapSets := a\<rparr>) = maps_wf st" for a b st
    by (simp_all add: maps_wf_def)
  show ?thesis
    by (cases now sid sha u scope st rule: assert_cases)
      (auto simp: completeSourceMaps_def Let_def m w intro!: maps_wf_increment)
qed

lemma maps_wf_step: "broker_step env st st' \<Longrightarrow> maps_wf st \<Longrightarrow> maps_wf st'"
proof (induction rule: broker_step.induct)
  case (step_map_upload raw_sha i st now scope)
  then show ?case
    by (cases now "ui_serviceId i" "ui_commitSha i" "ui_uploaderId i" scope st rule: assert_cases)
      (auto simp: uploadSourceMap_def Let_def maps_wf_def split: sum.split)
next
  case (step_poll st now sid since commit scope)
  have t: "maps_wf (touchService now sid k a c cs scope caps st) = maps_wf st" for k a c cs caps st by (rule maps_wf_frame) simp_all
  show ?case using maps_wf_sweep [OF step_poll, of now] by (auto simp: pollProbes_def Let_def t split: sum.split)
next
  case (step_register st now reg scope)
  then show ?case by (auto simp: registerNativeAgent_def Let_def maps_wf_def split: option.split)
next
  case (step_list_services st now scope)
  then show ?case using maps_wf_frame [of "fst (listServices env now scope st)" st] by simp
next
  case (step_assignments st now aid since scope allowed)
  then show ?case by (auto simp: nativeAssignments_def Let_def maps_wf_sweep)
next
  case (step_wait l st pid timeoutMs aborted)
  then show ?case by (simp add: waitForEvents_def maps_wf_def)
next
  case (step_map_status raw_sha sha st now sid uploader scope)
  then show ?case by (auto simp: sourceMapStatus_def Let_def maps_wf_def split: option.split)
next
  case (step_finish st pid l reason)
  then show ?case by (simp add: maps_wf_def)
next
  case (step_dispose st)
  have f: "maps_wf st \<Longrightarrow> maps_wf (finish p l Aborted st)" for p l st using maps_wf_frame [of "finish p l Aborted st" st] by simp
  have "maps_wf (fold (\<lambda>(p, ls). fold (\<lambda>l. finish p l Aborted) ls) (listeners st) st)"
    by (rule maps_wf_fold [OF _ step_dispose]) (auto intro!: maps_wf_fold f)
  then show ?case by (simp add: maps_wf_def dispose_def)
qed (blast intro: maps_wf_create maps_wf_delete maps_wf_sweep maps_wf_ingest maps_wf_complete maps_wf_replace maps_wf_ingestNative)+

lemma maps_wf_reachable: "reachable env st \<Longrightarrow> maps_wf st"
  by (induction rule: reachable.induct)
    (auto simp: new_broker_def empty_broker_def maps_wf_def split: option.splits if_splits dest: maps_wf_step [unfolded maps_wf_def])

lemma snapshot_restores:
  assumes "reachable env st" "stored_normal st" "ringCapacity st0 = ringCapacity st"
  obtains s where "snapshot now st = Ok s" "loadSnapshot now' (Format2 s) st0 = (sweep now' (recalled st st0), Ok ())"
proof -
  note i = inv_reachable [OF assms(1)]
  let ?s = "(snapshot_of now st)\<lparr>sn_services := map kept_service (jvalues (services st))\<rparr>"
  have s: "snapshot now st = Ok ?s" by (rule snapshot_Ok [OF i assms(2)])
  then have "snapshotSchema_parse (snapshot_of now st) = Some ?s" by (simp add: snapshot_def split: option.splits)
  then have "snapshotSchema_parse ?s = Some ?s" by (rule snapshots.again)
  moreover have "replaceWithSnapshot now' ?s st0 = sweep now' (recalled st st0)"
    by (rule restore_recalls [OF i assms(2) maps_wf_reachable [OF assms(1)] native_ok_reachable [OF assms(1)] assms(3)])
  ultimately show ?thesis using that s by (simp add: loadSnapshot_def parseBrokerSnapshot_def)
qed

subsection \<open>The concrete broker\<close>



lemma ttl_create:
  assumes "probeId_ok pid" "positive_int ttl"
  shows "createProbe sample_env (\<lambda>_. pid) 1000 (ttl_input ttl) DEFAULT_RESOURCE_SCOPE (empty_broker 2) = (ttl_broker pid ttl, Ok (ttl_probe pid ttl))"
proof -
  have a: "assemble_probe (ttl_input ttl) \<lparr>cp_conditionExpression = None, cp_body = CounterProbe\<rparr> pid 1 = ttl_probe pid ttl"
    by (simp add: assemble_probe_def ttl_input_def sample_input_def ttl_probe_def sample_probe_def)
  have c: "compileProbeInput sample_env (ttl_input ttl) = Ok \<lparr>cp_conditionExpression = None, cp_body = CounterProbe\<rparr>"
    by (simp add: compileProbeInput_def ttl_input_def sample_input_def compile_opt_def)
  have sid: "ci_serviceId (ttl_input ttl) = ''pay''" by (simp add: ttl_input_def sample_input_def)
  have r: "refreshServiceCapabilities 1000 DEFAULT_RESOURCE_SCOPE ''pay'' (empty_broker 2) = empty_broker 2"
    by (simp add: refreshServiceCapabilities_def empty_broker_def)
  have ce: "create_error (ttl_input ttl) \<lparr>cp_conditionExpression = None, cp_body = CounterProbe\<rparr> x = None" if "x = None" for x
    using that by (simp add: create_error_def capability_error_def ttl_input_def sample_input_def requiresExpressionCapability_def)
  have n: "jget (services (empty_broker 2)) k = None" for k by (simp add: empty_broker_def)
  have p: "pick_id (\<lambda>_. pid) (empty_broker 2) 0 = Ok pid" by (subst pick_id.simps) (simp add: empty_broker_def)
  have i: "incrementServiceVersion ''pay'' DEFAULT_RESOURCE_SCOPE (empty_broker 2) =
      ((empty_broker 2)\<lparr>serviceVersions := [(serviceKey DEFAULT_RESOURCE_SCOPE ''pay'',
       \<lparr>sv_scope = DEFAULT_RESOURCE_SCOPE, sv_serviceId = ''pay'', sv_version = 1\<rparr>)]\<rparr>, 1)"
    by (simp add: incrementServiceVersion_def service_version_def empty_broker_def Let_def)
  have q: "probeDefinition_parse (ttl_probe pid ttl) = Some (ttl_probe pid ttl)" using assms
    by (simp add: probeDefinition_parse_def ttl_probe_def sample_probe_def serviceId_parse_def sourceFile_parse_def
      trimmed_def len_between_def opt_parse_def trim_sample positive_int_def safe_int_def max_safe_def Let_def abs_le_iff)
  have t: "pd_ttlSeconds (ttl_probe pid ttl) = ttl" by (simp add: ttl_probe_def)
  show ?thesis
    by (simp add: createProbe_def c sid r ce [OF n] p assms(1) i a q t Let_def) (simp add: empty_broker_def ttl_broker_def)
qed

lemma empty_snapshot: "snapshot now (empty_broker 2) = Ok (snapshot_of now (empty_broker 2))"
  by (simp add: snapshot_def snapshotSchema_parse_def snapshot_of_def snapshot_events_def snapshot_statuses_def empty_broker_def map_filter_def)

text \<open>One probe whose expiry is out of range blocks every durable change.\<close>

lemma traverse_None: "x \<in> set xs \<Longrightarrow> f x = None \<Longrightarrow> traverse f xs = None"
  by (induction xs) (auto split: option.split)

lemma snapshot_blocked:
  assumes "(k, s) \<in> set (probes st)" "\<not> nonnegative_int (sp_expiresAt s)"
  shows "mutateDurably now now' mutate persist st = (st, Err (SchemaError ''snapshotSchema''))"
proof -
  have "traverse storedProbe_parse (jvalues (probes st)) = None"
    using assms by (intro traverse_None [of s]) (force simp: storedProbe_parse_def)+
  then show ?thesis by (simp add: mutateDurably_def snapshot_def snapshotSchema_parse_def snapshot_of_def)
qed

lemma pow2_eval: "pow2 53 = 9007199254740992" "pow2 54 = 18014398509481984" "pow2 1 = 2"
  by (simp_all add: pow2_def)

lemma far_expiry: "expires_at 1000 far_ttl = 9007199254742000"
proof -
  have a: "fround 9007199254741000 = Fin 9007199254741000"
    using fround_evalI [of 53 9007199254741000 4503599627370500] by (simp add: pow2_eval)
  have b: "fround 9007199254742000 = Fin 9007199254742000"
    using fround_evalI [of 53 9007199254742000 4503599627371000] by (simp add: pow2_eval)
  show ?thesis by (simp add: expires_at_def far_ttl_def a b)
qed

lemma other_id_ok: "probeId_ok other_id"
  by code_simp

lemma rolled_back:
  "mutateDurably 1000 2000 (createProbe sample_env (\<lambda>_. sample_id) 1000 sample_input DEFAULT_RESOURCE_SCOPE) polled_store (empty_broker 2) =
     (empty_broker 2, Err (PlainError ''disk full''))"
proof -
  have r: "reachable sample_env (empty_broker 2)" by (rule reachable_init [of "Some 2"]) (simp add: new_broker_def)
  have n: "stored_normal (empty_broker 2)"
    by (simp add: stored_normal_def probes_normal_def services_normal_def sets_normal_def native_normal_def empty_broker_def)
  have c: "ringCapacity sample_polled = ringCapacity (empty_broker 2)"
    by (simp add: sample_polled_def sample_broker_def empty_broker_def)
  obtain s where s: "snapshot 1000 (empty_broker 2) = Ok s"
      "loadSnapshot 2000 (Format2 s) sample_polled = (sweep 2000 (recalled (empty_broker 2) sample_polled), Ok ())"
    using snapshot_restores [OF r n c, of 1000 2000] by blast
  have "recalled (empty_broker 2) sample_polled = empty_broker 2"
    by (simp add: recalled_def sample_polled_def touchService_def sample_broker_def empty_broker_def Let_def)
  moreover have "sweep 2000 (empty_broker 2) = empty_broker 2" by (simp add: expireDueProbes_def empty_broker_def)
  ultimately show ?thesis using s by (simp add: mutateDurably_def sample_create polled_store_def sample_poll)
qed

lemma second_created:
  "mutateDurably 2000 2000 (createProbe sample_env (\<lambda>_. other_id) 1000 (ttl_input 60) DEFAULT_RESOURCE_SCOPE) no_store (empty_broker 2) =
     (ttl_broker other_id 60, Ok (ttl_probe other_id 60))"
proof -
  have "positive_int 60" by (simp add: positive_int_def safe_int_def max_safe_def)
  from ttl_create [OF other_id_ok this] show ?thesis by (simp add: mutateDurably_def empty_snapshot no_store_def)
qed

lemma second_poll:
  "snd (pollProbes sample_env 2500 ''pay'' 1 None DEFAULT_RESOURCE_SCOPE (ttl_broker other_id 60)) = Ok (Unchanged 1)"
proof -
  have e: "expires_at 1000 60 = 61000" by (simp add: expires_at_exact)
  have "expireDueProbes 2500 (ttl_broker other_id 60) = (ttl_broker other_id 60, 0)"
    by (rule expire_idle) (simp add: due_at_def due_def ttl_broker_def e)
  moreover have "service_version (touchService 2500 ''pay'' None None None None DEFAULT_RESOURCE_SCOPE None (ttl_broker other_id 60)) DEFAULT_RESOURCE_SCOPE ''pay'' = 1"
    by (simp add: service_version_def ttl_broker_def)
  ultimately show ?thesis by (simp add: pollProbes_def Let_def)
qed

section \<open>Properties\<close>





text \<open>The time to live of a probe has no upper bound, and one whose expiry leaves the exact integers is accepted and
  then blocks the broker: on a broker without a store every later durable change, the deletion of that probe
  included, is refused because the state no longer passes its own snapshot schema.\<close>

theorem unbounded_ttl_blocks_broker:
  "createProbeInput_parse (sample_request\<lparr>rc_ttlSeconds := Some far_ttl\<rparr>) = Some (ttl_input far_ttl) \<and>
   mutateDurably 1000 1000 (createProbe sample_env (\<lambda>_. sample_id) 1000 (ttl_input far_ttl) DEFAULT_RESOURCE_SCOPE) no_store (empty_broker 2) =
     (ttl_broker sample_id far_ttl, Ok (ttl_probe sample_id far_ttl)) \<and>
   (\<forall>now now' mutate persist. mutateDurably now now' (mutate :: broker \<Rightarrow> unit broker_res) persist (ttl_broker sample_id far_ttl) =
     (ttl_broker sample_id far_ttl, Err (SchemaError ''snapshotSchema'')))"
proof (intro conjI allI)
  show "createProbeInput_parse (sample_request\<lparr>rc_ttlSeconds := Some far_ttl\<rparr>) = Some (ttl_input far_ttl)"
    by (simp add: createProbeInput_parse_def sample_request_def ttl_input_def sample_input_def serviceId_parse_def sourceFile_parse_def
      trimmed_def len_between_def opt_parse_def trim_sample positive_int_def safe_int_def max_safe_def far_ttl_def Let_def)
  have "positive_int far_ttl" by (simp add: positive_int_def safe_int_def max_safe_def far_ttl_def)
  from ttl_create [OF sample_id_ok this]
  show "mutateDurably 1000 1000 (createProbe sample_env (\<lambda>_. sample_id) 1000 (ttl_input far_ttl) DEFAULT_RESOURCE_SCOPE) no_store (empty_broker 2) =
     (ttl_broker sample_id far_ttl, Ok (ttl_probe sample_id far_ttl))"
    by (simp add: mutateDurably_def empty_snapshot no_store_def)
  fix now now' persist and mutate :: "broker \<Rightarrow> unit broker_res"
  show "mutateDurably now now' mutate persist (ttl_broker sample_id far_ttl) = (ttl_broker sample_id far_ttl, Err (SchemaError ''snapshotSchema''))"
    by (rule snapshot_blocked [of sample_id "\<lparr>sp_scope = DEFAULT_RESOURCE_SCOPE, sp_probe = ttl_probe sample_id far_ttl,
       sp_expiresAt = expires_at 1000 far_ttl, sp_expired = False\<rparr>"])
      (simp_all add: ttl_broker_def far_expiry nonnegative_int_def safe_int_def max_safe_def)
qed

text \<open>A rollback gives a version back that an agent may already have seen: an agent that polls while a creation is
  being stored learns of the probe under version 1; storing fails, the probe is gone, and the next creation takes
  version 1 again, so the agent's next poll is answered with "unchanged" although its only probe is a different one.\<close>

theorem rollback_reuses_version:
  "snd (pollProbes sample_env 2000 ''pay'' 0 None DEFAULT_RESOURCE_SCOPE
       (fst (createProbe sample_env (\<lambda>_. sample_id) 1000 sample_input DEFAULT_RESOURCE_SCOPE (empty_broker 2)))) = Ok (PollProbes 1 [sample_probe]) \<and>
   mutateDurably 1000 2000 (createProbe sample_env (\<lambda>_. sample_id) 1000 sample_input DEFAULT_RESOURCE_SCOPE) polled_store (empty_broker 2) =
     (empty_broker 2, Err (PlainError ''disk full'')) \<and>
   fst (mutateDurably 2000 2000 (createProbe sample_env (\<lambda>_. other_id) 1000 (ttl_input 60) DEFAULT_RESOURCE_SCOPE) no_store (empty_broker 2)) =
     ttl_broker other_id 60 \<and>
   live_probes (ttl_broker other_id 60) DEFAULT_RESOURCE_SCOPE ''pay'' = [ttl_probe other_id 60] \<and> ttl_probe other_id 60 \<noteq> sample_probe \<and>
   snd (pollProbes sample_env 2500 ''pay'' 1 None DEFAULT_RESOURCE_SCOPE (ttl_broker other_id 60)) = Ok (Unchanged 1)"
proof -
  have "pd_id (ttl_probe other_id 60) \<noteq> pd_id sample_probe" by (simp add: ttl_probe_def sample_probe_def other_id_def sample_id_def)
  then have "ttl_probe other_id 60 \<noteq> sample_probe" by metis
  moreover have "live_probes (ttl_broker other_id 60) DEFAULT_RESOURCE_SCOPE ''pay'' = [ttl_probe other_id 60]"
    by (simp add: live_probes_def ttl_broker_def ttl_probe_def sample_probe_def)
  ultimately show ?thesis by (simp add: sample_create sample_poll rolled_back second_created second_poll)
qed

end
