(* ===== verification/Broker_Auth.thy ===== *)
theory Broker_Auth
  imports Broker_Types
begin

text \<open>
  Who may call the broker, and for which tenant: \<^verbatim>\<open>packages/broker/src/auth.ts\<close>,
  \<^verbatim>\<open>packages/broker/src/clerk-auth.ts\<close> and the authentication hook and access guards of
  \<^verbatim>\<open>packages/broker/src/index.ts\<close>.  Parameters: \<open>randomBytes\<close> output (already in the text form
  the source gives it), SHA-256 as \<open>sha256\<close>, the verifiers and the membership service of Clerk, and
  the credential tables of the durable store (record \<open>credential_store\<close>, the optional methods of
  the interface \<^verbatim>\<open>BrokerStore\<close>).
  The lemmas show where a principal can come from, that the scope of a request
  stays inside the tenant of its principal and, for runtime credentials, inside their own
  environment, and that what a human may do in an organization is read from the current membership.
\<close>

section \<open>Definitions\<close>

subsection \<open>Principals and credentials\<close>

datatype human_role = Admin | Operator | Viewer
datatype shared_id = SharedKey | Development

record user_identity =
  ui_principalId :: string
  ui_role :: human_role
  ui_organizationId :: "string option"
  ui_organizationRole :: "string option"
  ui_tenantDisplayName :: "string option"

datatype broker_principal =
    SharedPrincipal (principal_scope: resource_scope) shared_id
  | UserPrincipal (principal_scope: resource_scope) user_identity
  | ServicePrincipal (principal_scope: resource_scope) (service_principalId: string) (service_serviceId: string)
  | NativePrincipal (principal_scope: resource_scope) (native_principalId: string) (native_agentId: string)
      (native_allowed: "string list")

record service_credential =
  sc_credentialId :: string
  sc_scope :: resource_scope
  sc_serviceId :: string
  sc_label :: string
  sc_keyPrefix :: string
  sc_secretHash :: string
  sc_createdAt :: int

record native_credential =
  nc_credentialId :: string
  nc_scope :: resource_scope
  nc_agentId :: string
  nc_allowedServiceIds :: "string list"
  nc_label :: string
  nc_keyPrefix :: string
  nc_secretHash :: string
  nc_createdAt :: int

definition SERVICE_API_KEY_PREFIX :: string where "SERVICE_API_KEY_PREFIX = ''lp_service_''"
definition NATIVE_API_KEY_PREFIX :: string where "NATIVE_API_KEY_PREFIX = ''lp_native_''"

text \<open>The default \<^verbatim>\<open>sort()\<close> compares code units.\<close>

definition sorted_names :: "string list \<Rightarrow> string list" where
  "sorted_names = stable_sort (\<lambda>x y. x \<le> y)"

definition createServiceCredentialMaterial ::
  "(string \<Rightarrow> string) \<Rightarrow> string \<Rightarrow> string \<Rightarrow> int \<Rightarrow> string \<Rightarrow> string \<Rightarrow> resource_scope option \<Rightarrow> string \<times> service_credential" where
  "createServiceCredentialMaterial sha256 secret idHex now serviceId label scope =
     (let apiKey = SERVICE_API_KEY_PREFIX @ secret in
      (apiKey,
       \<lparr>sc_credentialId = ''svc_'' @ idHex,
        sc_scope = (case scope of None \<Rightarrow> DEFAULT_RESOURCE_SCOPE | Some s \<Rightarrow> s),
        sc_serviceId = serviceId, sc_label = label,
        sc_keyPrefix = SERVICE_API_KEY_PREFIX @ take 8 secret,
        sc_secretHash = sha256 apiKey, sc_createdAt = now\<rparr>))"

definition createNativeCredentialMaterial ::
  "(string \<Rightarrow> string) \<Rightarrow> string \<Rightarrow> string \<Rightarrow> int \<Rightarrow> string \<Rightarrow> string list \<Rightarrow> string \<Rightarrow> resource_scope option \<Rightarrow>
   string \<times> native_credential" where
  "createNativeCredentialMaterial sha256 secret idHex now agentId allowed label scope =
     (let apiKey = NATIVE_API_KEY_PREFIX @ secret in
      (apiKey,
       \<lparr>nc_credentialId = ''nat_'' @ idHex,
        nc_scope = (case scope of None \<Rightarrow> DEFAULT_RESOURCE_SCOPE | Some s \<Rightarrow> s),
        nc_agentId = agentId, nc_allowedServiceIds = sorted_names (js_set allowed), nc_label = label,
        nc_keyPrefix = NATIVE_API_KEY_PREFIX @ take 8 secret,
        nc_secretHash = sha256 apiKey, nc_createdAt = now\<rparr>))"

definition servicePrincipal :: "service_credential \<Rightarrow> broker_principal" where
  "servicePrincipal c = ServicePrincipal (sc_scope c) (sc_credentialId c) (sc_serviceId c)"

definition nativePrincipal :: "native_credential \<Rightarrow> broker_principal" where
  "nativePrincipal c = NativePrincipal (nc_scope c) (nc_credentialId c) (nc_agentId c) (nc_allowedServiceIds c)"

definition sharedPrincipal :: "shared_id \<Rightarrow> broker_principal" where
  "sharedPrincipal i = SharedPrincipal DEFAULT_RESOURCE_SCOPE i"

subsection \<open>Clerk sessions\<close>

datatype bearer_error =
    BearerAuthenticationError nat string string
  | OtherAuthError string

type_synonym bearer_authenticator = "string \<Rightarrow> (bearer_error, broker_principal option) res"

definition normalizedRole :: "string option \<Rightarrow> string option" where
  "normalizedRole role =
     (case role of None \<Rightarrow> None
      | Some r \<Rightarrow> Some (if take 4 r = ''org:'' then r else ''org:'' @ r))"

definition mapped_roles :: "string list" where
  "mapped_roles = [''org:admin'', ''org:member'', ''org:operator'', ''org:liveprobe_operator'',
     ''org:viewer'', ''org:liveprobe_viewer'']"

definition liveProbeRoleForClerkRole :: "string \<Rightarrow> (bearer_error, human_role) res" where
  "liveProbeRoleForClerkRole role =
     (case normalizedRole (Some role) of
        Some r \<Rightarrow> if r \<in> set mapped_roles then Ok Operator
          else Err (BearerAuthenticationError 403 ''unsupported_organization_role''
            (''Clerk organization role '' @ role @ '' is not mapped to a LiveProbe role''))
      | None \<Rightarrow> Err (OtherAuthError ''''))"

text \<open>A membership is its role; the permissions the source also carries are not read.\<close>

type_synonym membership_resolver = "string \<Rightarrow> string \<Rightarrow> (bearer_error, string option) res"

definition resolveHumanRole ::
  "string \<Rightarrow> string \<Rightarrow> string option \<Rightarrow> membership_resolver option \<Rightarrow> (bearer_error, human_role \<times> string) res" where
  "resolveHumanRole userId organizationId tokenRole resolver =
     bind_res
       (case resolver of
          None \<Rightarrow> Ok (normalizedRole tokenRole)
        | Some resolve \<Rightarrow> bind_res (resolve userId organizationId) (\<lambda>membership.
            case membership of
              None \<Rightarrow> Err (BearerAuthenticationError 403 ''organization_membership_required''
                ''the Clerk user is no longer a member of the selected organization'')
            | Some role \<Rightarrow> Ok (normalizedRole (Some role))))
       (\<lambda>organizationRole.
          case organizationRole of
            None \<Rightarrow> Err (BearerAuthenticationError 403 ''organization_role_required''
              ''the Clerk organization membership has no role'')
          | Some r \<Rightarrow> bind_res (liveProbeRoleForClerkRole r) (\<lambda>role. Ok (role, r)))"

text \<open>
  The membership cache of \<^verbatim>\<open>createClerkMembershipResolver\<close>: the Clerk API call is the parameter
  \<open>fetch\<close>; the clock is read before the call and again after it (\<open>now'\<close>).
\<close>

record cached_membership =
  cm_expiresAt :: int
  cm_membership :: "string option"

definition resolve_membership ::
  "(string \<Rightarrow> string \<Rightarrow> string option option) \<Rightarrow> int \<Rightarrow> int \<Rightarrow> int \<Rightarrow> string \<Rightarrow> string \<Rightarrow>
   (string, cached_membership) jsmap \<Rightarrow> (string, cached_membership) jsmap \<times> (bearer_error, string option) res" where
  "resolve_membership fetch cacheTtlMs now now' userId organizationId cache =
     (let cacheKey = organizationId @ '':'' @ userId;
          miss = (case fetch userId organizationId of
              None \<Rightarrow> (cache, Err (BearerAuthenticationError 503 ''clerk_membership_unavailable''
                ''Clerk organization membership could not be verified''))
            | Some membership \<Rightarrow>
                (jset cacheKey \<lparr>cm_expiresAt = now' + cacheTtlMs, cm_membership = membership\<rparr>
                  (if 1000 \<le> length cache then [] else cache), Ok membership)) in
      case jget cache cacheKey of
        None \<Rightarrow> miss
      | Some cached \<Rightarrow> if now < cm_expiresAt cached then (cache, Ok (cm_membership cached)) else miss)"

record clerk_org_claims =
  oc_id :: string
  oc_slg :: "string option"
  oc_rol :: "string option"

record clerk_claims =
  cc_sub :: string
  cc_sts :: "string option"
  cc_o :: "clerk_org_claims option"
  cc_org_id :: "string option"
  cc_org_slug :: "string option"
  cc_org_role :: "string option"

definition opt_len :: "nat \<Rightarrow> string option \<Rightarrow> bool" where
  "opt_len hi v = (case v of None \<Rightarrow> True | Some s \<Rightarrow> len_between 1 hi s)"

definition clerkClaims_ok :: "clerk_claims \<Rightarrow> bool" where
  "clerkClaims_ok c \<longleftrightarrow> len_between 1 512 (cc_sub c) \<and>
     (case cc_o c of None \<Rightarrow> True
      | Some o1 \<Rightarrow> len_between 1 512 (oc_id o1) \<and> opt_len 512 (oc_slg o1) \<and> opt_len 200 (oc_rol o1)) \<and>
     opt_len 512 (cc_org_id c) \<and> opt_len 512 (cc_org_slug c) \<and> opt_len 200 (cc_org_role c)"

text \<open>\<^verbatim>\<open>a?.f ?? b\<close>\<close>

definition first_of :: "'a option \<Rightarrow> ('a \<Rightarrow> 'b option) \<Rightarrow> 'b option \<Rightarrow> 'b option" where
  "first_of a f b = (case Option.bind a f of None \<Rightarrow> b | Some v \<Rightarrow> Some v)"

text \<open>
  The closure \<^verbatim>\<open>createClerkAuthenticator\<close> returns, for the checked options: \<open>verifier\<close> is None where the
  token does not verify, and the claims where it does.
\<close>

definition clerk_authenticate ::
  "(string \<Rightarrow> clerk_claims option) \<Rightarrow> string \<Rightarrow> string \<Rightarrow> membership_resolver option \<Rightarrow> bearer_authenticator" where
  "clerk_authenticate verifier project environment resolver token =
     (case verifier token of
        None \<Rightarrow> Ok None
      | Some claims \<Rightarrow>
          if \<not> clerkClaims_ok claims then Ok None
          else if cc_sts claims = Some ''pending''
          then Err (BearerAuthenticationError 403 ''clerk_session_pending'' ''Clerk account setup is incomplete'')
          else case first_of (cc_o claims) (\<lambda>o1. Some (oc_id o1)) (cc_org_id claims) of
            None \<Rightarrow> Err (BearerAuthenticationError 403 ''organization_required''
              ''select or join a Clerk organization before using LiveProbe'')
          | Some organizationId \<Rightarrow>
              bind_res (resolveHumanRole (cc_sub claims) organizationId
                  (first_of (cc_o claims) oc_rol (cc_org_role claims)) resolver)
                (\<lambda>(role, organizationRole). Ok (Some (UserPrincipal
                  \<lparr>tenantId = organizationId, projectId = project, environmentId = environment\<rparr>
                  \<lparr>ui_principalId = cc_sub claims, ui_role = role, ui_organizationId = Some organizationId,
                   ui_organizationRole = Some organizationRole,
                   ui_tenantDisplayName = Some (case first_of (cc_o claims) oc_slg (cc_org_slug claims) of
                     None \<Rightarrow> organizationId | Some slug \<Rightarrow> slug)\<rparr>))))"

record oauth_claims =
  oa_sub :: string
  oa_org_id :: "string option"
  oa_org_name :: "string option"
  oa_org_slug :: "string option"

definition oauthClaims_ok :: "oauth_claims \<Rightarrow> bool" where
  "oauthClaims_ok c \<longleftrightarrow> len_between 1 512 (oa_sub c) \<and> opt_len 512 (oa_org_id c) \<and>
     opt_len 512 (oa_org_name c) \<and> opt_len 512 (oa_org_slug c)"

record oauth_verification =
  ov_userId :: string
  ov_scopes :: "string list"
  ov_claims :: "oauth_claims option"

text \<open>\<open>ov_claims\<close> is None where the payload of the token is not an object with these fields.\<close>

definition clerk_oauth_authenticate ::
  "(string \<Rightarrow> oauth_verification option) \<Rightarrow> string list \<Rightarrow> string \<Rightarrow> string \<Rightarrow> membership_resolver \<Rightarrow> bearer_authenticator" where
  "clerk_oauth_authenticate verifier requiredScopes project environment resolver token =
     (case verifier token of
        None \<Rightarrow> Ok None
      | Some verified \<Rightarrow>
          case List.find (\<lambda>s. s \<notin> set (ov_scopes verified)) requiredScopes of
            Some missing \<Rightarrow> Err (BearerAuthenticationError 403 ''insufficient_scope''
              (''Clerk OAuth token is missing required scope '' @ missing))
          | None \<Rightarrow>
              case ov_claims verified of
                None \<Rightarrow> Ok None
              | Some claims \<Rightarrow>
                  if \<not> oauthClaims_ok claims \<or> oa_sub claims \<noteq> ov_userId verified then Ok None
                  else case oa_org_id claims of
                    None \<Rightarrow> Err (BearerAuthenticationError 403 ''organization_required''
                      ''select a Clerk organization when authorizing LiveProbe'')
                  | Some org \<Rightarrow>
                      bind_res (resolveHumanRole (ov_userId verified) org None (Some resolver))
                        (\<lambda>(role, organizationRole). Ok (Some (UserPrincipal
                          \<lparr>tenantId = org, projectId = project, environmentId = environment\<rparr>
                          \<lparr>ui_principalId = ov_userId verified, ui_role = role, ui_organizationId = Some org,
                           ui_organizationRole = Some organizationRole,
                           ui_tenantDisplayName = Some (case oa_org_slug claims of Some v \<Rightarrow> v
                             | None \<Rightarrow> case oa_org_name claims of Some v \<Rightarrow> v | None \<Rightarrow> org)\<rparr>))))"

fun try_authenticators :: "bearer_authenticator list \<Rightarrow> bearer_authenticator" where
  "try_authenticators [] token = Ok None"
| "try_authenticators (a # as) token =
     bind_res (a token) (\<lambda>p. case p of None \<Rightarrow> try_authenticators as token | Some p \<Rightarrow> Ok (Some p))"

definition combineBearerAuthenticators :: "bearer_authenticator list \<Rightarrow> bearer_authenticator option" where
  "combineBearerAuthenticators as = (if as = [] then None else Some (try_authenticators as))"

subsection \<open>The authentication hook\<close>

record credential_store =
  authenticateServiceCredential :: "(string \<Rightarrow> service_credential option) option"
  authenticateNativeCredential :: "(string \<Rightarrow> native_credential option) option"
  listEnvironments :: "(string \<Rightarrow> string \<Rightarrow> string list) option"

record auth_config =
  ac_apiKeys :: "string list"
  ac_authenticateBearer :: "bearer_authenticator option"
  ac_store :: "credential_store option"
  ac_sha256 :: "string \<Rightarrow> string"

datatype header = NoHeader | HeaderOnce string | HeaderMany "string list"

record request =
  rq_authorization :: "string option"
  rq_project :: header
  rq_environment :: header

definition BEARER :: string where "BEARER = ''Bearer ''"

definition starts_with :: "string \<Rightarrow> string \<Rightarrow> bool" where
  "starts_with s p \<longleftrightarrow> take (length p) s = p"

definition bearerTokenMatches :: "string option \<Rightarrow> string list \<Rightarrow> bool" where
  "bearerTokenMatches authorization apiKeys =
     (case authorization of None \<Rightarrow> False
      | Some a \<Rightarrow> starts_with a BEARER \<and> list_ex (\<lambda>k. drop (length BEARER) a = k) apiKeys)"

definition bearerToken :: "string option \<Rightarrow> string option" where
  "bearerToken authorization =
     (case authorization of None \<Rightarrow> None
      | Some a \<Rightarrow>
          if \<not> starts_with a BEARER then None
          else let token = drop (length BEARER) a in if token = [] then None else Some token)"

definition catalogId_parse :: "string \<Rightarrow> string option" where
  "catalogId_parse s =
     (let t = js_trim s in
      if len_between 1 100 t \<and> (is_lower (hd t) \<or> is_digit (hd t)) \<and>
         list_all (\<lambda>c. is_lower c \<or> is_digit c \<or> c \<in> set ''._-'') t then Some t else None)"

definition authenticateExternalBearer :: "string \<Rightarrow> bearer_authenticator \<Rightarrow> (broker_error, broker_principal option) res" where
  "authenticateExternalBearer token authenticate =
     (case authenticate token of
        Inr p \<Rightarrow> Ok p
      | Inl (BearerAuthenticationError status code msg) \<Rightarrow> Err (HttpError status code msg)
      | Inl (OtherAuthError msg) \<Rightarrow> Err (PlainError msg))"

text \<open>One step of the chain: a source of principals that is asked only while there is none.\<close>

definition or_else :: "broker_principal option \<Rightarrow> broker_principal option \<Rightarrow> broker_principal option" where
  "or_else p q = (case p of None \<Rightarrow> q | Some _ \<Rightarrow> p)"

definition shared_source :: "auth_config \<Rightarrow> request \<Rightarrow> broker_principal option" where
  "shared_source cfg rq =
     (if ac_apiKeys cfg = [] \<and> ac_authenticateBearer cfg = None then Some (sharedPrincipal Development)
      else if bearerTokenMatches (rq_authorization rq) (ac_apiKeys cfg) then Some (sharedPrincipal SharedKey)
      else None)"

definition native_source :: "auth_config \<Rightarrow> string option \<Rightarrow> broker_principal option" where
  "native_source cfg token =
     (case token of None \<Rightarrow> None
      | Some t \<Rightarrow>
          if \<not> starts_with t NATIVE_API_KEY_PREFIX then None
          else case Option.bind (ac_store cfg) authenticateNativeCredential of None \<Rightarrow> None
            | Some authenticate \<Rightarrow> map_option nativePrincipal (authenticate (ac_sha256 cfg t)))"

definition service_source :: "auth_config \<Rightarrow> string option \<Rightarrow> broker_principal option" where
  "service_source cfg token =
     (case token of None \<Rightarrow> None
      | Some t \<Rightarrow>
          if \<not> starts_with t SERVICE_API_KEY_PREFIX then None
          else case Option.bind (ac_store cfg) authenticateServiceCredential of None \<Rightarrow> None
            | Some authenticate \<Rightarrow> map_option servicePrincipal (authenticate (ac_sha256 cfg t)))"

definition external_source :: "auth_config \<Rightarrow> string option \<Rightarrow> (broker_error, broker_principal option) res" where
  "external_source cfg token =
     (case (token, ac_authenticateBearer cfg) of
        (Some t, Some authenticate) \<Rightarrow> authenticateExternalBearer t authenticate
      | _ \<Rightarrow> Ok None)"

definition authenticate_request :: "auth_config \<Rightarrow> request \<Rightarrow> (broker_error, broker_principal) res" where
  "authenticate_request cfg rq =
     (let token = bearerToken (rq_authorization rq);
          known = or_else (or_else (shared_source cfg rq) (native_source cfg token)) (service_source cfg token) in
      bind_res (case known of Some p \<Rightarrow> Ok (Some p) | None \<Rightarrow> external_source cfg token)
        (\<lambda>p. case p of
           None \<Rightarrow> Err (HttpError 401 ''unauthorized'' ''missing or invalid Authorization bearer token'')
         | Some p \<Rightarrow> Ok p))"

definition selected_id :: "header \<Rightarrow> string \<Rightarrow> (broker_error, string) res" where
  "selected_id h dflt =
     (case h of
        NoHeader \<Rightarrow> Ok dflt
      | HeaderOnce v \<Rightarrow> (case catalogId_parse v of None \<Rightarrow> Err (SchemaError ''invalid catalog id'') | Some i \<Rightarrow> Ok i)
      | HeaderMany _ \<Rightarrow> Err (SchemaError ''invalid catalog id''))"

fun is_runtime :: "broker_principal \<Rightarrow> bool" where
  "is_runtime (ServicePrincipal _ _ _) = True"
| "is_runtime (NativePrincipal _ _ _ _) = True"
| "is_runtime _ = False"

fun is_many :: "header \<Rightarrow> bool" where
  "is_many (HeaderMany _) = True"
| "is_many _ = False"

definition scope_request :: "auth_config \<Rightarrow> request \<Rightarrow> broker_principal \<Rightarrow> (broker_error, resource_scope) res" where
  "scope_request cfg rq p =
     (let own = principal_scope p in
      if is_many (rq_project rq) \<or> is_many (rq_environment rq)
      then Err (HttpError 400 ''invalid_scope'' ''LiveProbe project and environment headers may only occur once'')
      else bind_res (selected_id (rq_project rq) (projectId own)) (\<lambda>project.
        bind_res (selected_id (rq_environment rq) (environmentId own)) (\<lambda>environment.
          let scope = \<lparr>tenantId = tenantId own, projectId = project, environmentId = environment\<rparr>;
              moved = (project \<noteq> projectId own \<or> environment \<noteq> environmentId own) in
          if is_runtime p \<and> moved
          then Err (HttpError 403 ''scope_mismatch'' ''runtime credentials cannot switch project or environment'')
          else if \<not> is_runtime p \<and> moved
          then case Option.bind (ac_store cfg) listEnvironments of
              None \<Rightarrow> Err (HttpError 503 ''scope_store_unavailable''
                ''non-default environment routing requires the PostgreSQL durable store'')
            | Some environments \<Rightarrow>
                if environment \<notin> set (environments (tenantId own) project)
                then Err (HttpError 404 ''environment_not_found''
                  (''active environment '' @ project @ ''/'' @ environment @ '' was not found''))
                else Ok scope
          else Ok scope)))"

text \<open>The \<^verbatim>\<open>preHandler\<close> hook of every \<^verbatim>\<open>/v1/\<close> route.\<close>

definition pre_handler :: "auth_config \<Rightarrow> request \<Rightarrow> (broker_error, broker_principal \<times> resource_scope) res" where
  "pre_handler cfg rq =
     bind_res (authenticate_request cfg rq) (\<lambda>p.
       bind_res (scope_request cfg rq p) (\<lambda>scope. Ok (p, scope)))"

subsection \<open>Access guards of the routes\<close>

definition requireHumanRead :: "broker_principal \<Rightarrow> (broker_error, broker_principal) res" where
  "requireHumanRead p =
     (if is_runtime p then Err (HttpError 403 ''forbidden'' ''runtime credentials cannot read human control-plane resources'')
      else Ok p)"

definition requireProbeManager :: "broker_principal \<Rightarrow> (broker_error, broker_principal) res" where
  "requireProbeManager = requireHumanRead"

definition requireAdmin :: "broker_principal \<Rightarrow> (broker_error, broker_principal) res" where
  "requireAdmin = requireHumanRead"

definition selectedResourceScope :: "resource_scope \<Rightarrow> string option \<Rightarrow> string option \<Rightarrow> resource_scope" where
  "selectedResourceScope base project environment =
     \<lparr>tenantId = tenantId base,
      projectId = (case project of None \<Rightarrow> projectId base | Some p \<Rightarrow> p),
      environmentId = (case environment of None \<Rightarrow> environmentId base | Some e \<Rightarrow> e)\<rparr>"

fun requireServiceAccess :: "broker_principal \<Rightarrow> string \<Rightarrow> (broker_error, broker_principal) res" where
  "requireServiceAccess (NativePrincipal _ _ _ _) serviceId =
     Err (HttpError 403 ''forbidden'' ''native credentials cannot call managed runtime routes'')"
| "requireServiceAccess (UserPrincipal _ _) serviceId =
     Err (HttpError 403 ''forbidden'' ''human credentials cannot call runtime agent routes'')"
| "requireServiceAccess (ServicePrincipal s i own) serviceId =
     (if own \<noteq> serviceId then Err (HttpError 403 ''forbidden'' (''service credential cannot access service '' @ serviceId))
      else Ok (ServicePrincipal s i own))"
| "requireServiceAccess (SharedPrincipal s i) serviceId = Ok (SharedPrincipal s i)"

text \<open>The scope and the allowed services of the caller; the wildcard stands for every service.\<close>

fun requireNativeAccess :: "broker_principal \<Rightarrow> string \<Rightarrow> (broker_error, resource_scope \<times> string list) res" where
  "requireNativeAccess (SharedPrincipal s i) agentId = Ok (s, [''*''])"
| "requireNativeAccess (NativePrincipal s i own allowed) agentId =
     (if own \<noteq> agentId then Err (HttpError 403 ''forbidden'' ''native credential agent ID mismatch'') else Ok (s, allowed))"
| "requireNativeAccess _ agentId =
     Err (HttpError 403 ''forbidden'' ''only native host-agent credentials may call native runtime routes'')"

subsection \<open>Vocabulary of the lemmas\<close>

text \<open>Credential tables that hold the given credentials: lookups by the hash of the secret.\<close>

definition credential_tables :: "service_credential list \<Rightarrow> native_credential list \<Rightarrow> credential_store" where
  "credential_tables scs ncs =
     \<lparr>authenticateServiceCredential = Some (\<lambda>h. List.find (\<lambda>c. sc_secretHash c = h) scs),
      authenticateNativeCredential = Some (\<lambda>h. List.find (\<lambda>c. nc_secretHash c = h) ncs),
      listEnvironments = None\<rparr>"

text \<open>A call of the membership resolver, with what the Clerk API would answer to it.\<close>

record membership_call =
  mc_userId :: string
  mc_organizationId :: string
  mc_answer :: "string option option"
  mc_now :: int
  mc_fetched :: int

definition membership_step ::
  "int \<Rightarrow> membership_call \<Rightarrow> (string, cached_membership) jsmap \<Rightarrow>
   (string, cached_membership) jsmap \<times> (bearer_error, string option) res" where
  "membership_step ttl c cache =
     resolve_membership (\<lambda>_ _. mc_answer c) ttl (mc_now c) (mc_fetched c) (mc_userId c) (mc_organizationId c) cache"

text \<open>Every cached entry is an answer that was given, and it expires a lifetime after that.\<close>

definition cache_justified :: "int \<Rightarrow> membership_call list \<Rightarrow> (string, cached_membership) jsmap \<Rightarrow> bool" where
  "cache_justified ttl past cache \<longleftrightarrow>
     (\<forall>k e. jget cache k = Some e \<longrightarrow>
       (\<exists>c \<in> set past. k = mc_organizationId c @ '':'' @ mc_userId c \<and> mc_answer c = Some (cm_membership e) \<and>
          cm_expiresAt e = mc_fetched c + ttl))"

definition sample_service_credential :: service_credential where
  "sample_service_credential = snd (createServiceCredentialMaterial (\<lambda>k. ''h:'' @ k) ''s3cret'' ''00'' 1000 ''pay'' ''ci'' None)"

definition sample_auth :: auth_config where
  "sample_auth = \<lparr>ac_apiKeys = [''root-key''], ac_authenticateBearer = None,
     ac_store = Some (credential_tables [sample_service_credential] []), ac_sha256 = (\<lambda>k. ''h:'' @ k)\<rparr>"

definition sample_rq :: request where
  "sample_rq = \<lparr>rq_authorization = Some (BEARER @ ''lp_service_s3cret''), rq_project = NoHeader, rq_environment = NoHeader\<rparr>"

section \<open>Lemmas\<close>

subsection \<open>The hook\<close>

lemma starts_with_split: "starts_with s p \<Longrightarrow> s = p @ drop (length p) s"
  by (metis append_take_drop_id starts_with_def)

lemma starts_with_append [simp]: "starts_with (p @ s) p"
  by (simp add: starts_with_def)

lemma bearerToken_append: "t \<noteq> [] \<Longrightarrow> bearerToken (Some (BEARER @ t)) = Some t"
  by (simp add: bearerToken_def)

lemma bearerToken_Some: "bearerToken a = Some t \<longleftrightarrow> a = Some (BEARER @ t) \<and> t \<noteq> []"
  using starts_with_split by (auto simp: bearerToken_def Let_def split: option.splits if_splits)

lemma bearerTokenMatches_iff: "bearerTokenMatches a ks \<longleftrightarrow> (\<exists>k \<in> set ks. a = Some (BEARER @ k))"
  using starts_with_split by (fastforce simp: bearerTokenMatches_def list_ex_iff split: option.splits)

lemma principal_origin:
  assumes "authenticate_request cfg rq = Ok p"
  obtains (development) "ac_apiKeys cfg = []" "ac_authenticateBearer cfg = None" "p = sharedPrincipal Development"
  | (shared) k where "k \<in> set (ac_apiKeys cfg)" "rq_authorization rq = Some (BEARER @ k)" "p = sharedPrincipal SharedKey"
  | (native) t db c where "rq_authorization rq = Some (BEARER @ t)" "starts_with t NATIVE_API_KEY_PREFIX"
      "Option.bind (ac_store cfg) authenticateNativeCredential = Some db" "db (ac_sha256 cfg t) = Some c" "p = nativePrincipal c"
  | (service) t db c where "rq_authorization rq = Some (BEARER @ t)" "starts_with t SERVICE_API_KEY_PREFIX"
      "Option.bind (ac_store cfg) authenticateServiceCredential = Some db" "db (ac_sha256 cfg t) = Some c" "p = servicePrincipal c"
  | (external) t f where "rq_authorization rq = Some (BEARER @ t)" "ac_authenticateBearer cfg = Some f" "f t = Ok (Some p)"
proof -
  let ?t = "bearerToken (rq_authorization rq)"
  consider "shared_source cfg rq = Some p" | "native_source cfg ?t = Some p" | "service_source cfg ?t = Some p"
    | "external_source cfg ?t = Ok (Some p)"
    using assms by (auto simp: authenticate_request_def Let_def or_else_def bind_res_Inr_iff split: option.splits)
  then show ?thesis
  proof cases
    case 1
    then show ?thesis
      using development shared by (auto simp: shared_source_def bearerTokenMatches_iff split: if_splits)
  next
    case 2
    then show ?thesis using native by (auto simp: native_source_def bearerToken_Some split: option.splits if_splits)
  next
    case 3
    then show ?thesis using service by (auto simp: service_source_def bearerToken_Some split: option.splits if_splits)
  next
    case 4
    then obtain t f where "?t = Some t" "ac_authenticateBearer cfg = Some f" "authenticateExternalBearer t f = Ok (Some p)"
      by (auto simp: external_source_def split: option.splits)
    moreover from this(3) have "f t = Ok (Some p)"
      by (auto simp: authenticateExternalBearer_def split: sum.splits bearer_error.splits)
    ultimately show ?thesis using external by (simp add: bearerToken_Some)
  qed
qed

lemma scope_request_cases:
  assumes "scope_request cfg rq p = Ok s"
  shows "tenantId s = tenantId (principal_scope p) \<and>
    (s = principal_scope p \<or> \<not> is_runtime p \<and>
      (\<exists>envs. Option.bind (ac_store cfg) listEnvironments = Some envs \<and> environmentId s \<in> set (envs (tenantId s) (projectId s))))"
  using assms
  by (auto simp: scope_request_def Let_def bind_res_Inr_iff split: if_splits option.splits intro!: resource_scope.equality)

lemma selected_scope_tenant [simp]: "tenantId (selectedResourceScope s p e) = tenantId s"
  by (simp add: selectedResourceScope_def)

subsection \<open>Clerk\<close>

lemma liveProbeRole_Ok: "liveProbeRoleForClerkRole r = Ok role \<longleftrightarrow> role = Operator \<and> the (normalizedRole (Some r)) \<in> set mapped_roles"
  by (auto simp: liveProbeRoleForClerkRole_def normalizedRole_def)

lemma normalizedRole_idem: "normalizedRole (normalizedRole r) = normalizedRole r"
  by (auto simp: normalizedRole_def split: option.splits)

lemma resolveHumanRole_Ok:
  assumes "resolveHumanRole u org tokenRole resolver = Ok (role, organizationRole)"
  shows "role = Operator \<and> organizationRole \<in> set mapped_roles \<and>
    (case resolver of None \<Rightarrow> normalizedRole tokenRole = Some organizationRole
     | Some resolve \<Rightarrow> \<exists>r. resolve u org = Ok (Some r) \<and> normalizedRole (Some r) = Some organizationRole)"
proof -
  have "normalizedRole (Some organizationRole) = Some organizationRole" if "normalizedRole x = Some organizationRole" for x
    using normalizedRole_idem [of x] that by simp
  with assms show ?thesis
    by (auto simp: resolveHumanRole_def bind_res_Inr_iff liveProbeRole_Ok split: option.splits)
qed

lemma membership_step_Ok:
  assumes "membership_step ttl c cache = (cache', Ok m)"
  shows "cache' = cache \<and> (\<exists>e. jget cache (mc_organizationId c @ '':'' @ mc_userId c) = Some e \<and> mc_now c < cm_expiresAt e \<and> m = cm_membership e) \<or>
    mc_answer c = Some m"
  using assms by (auto simp: membership_step_def resolve_membership_def Let_def split: option.splits if_splits)

lemma cache_justified_step:
  assumes "cache_justified ttl past cache"
  shows "cache_justified ttl (past @ [c]) (fst (membership_step ttl c cache))"
  using assms
  by (auto simp: cache_justified_def membership_step_def resolve_membership_def Let_def split: option.splits if_splits)

section \<open>Properties\<close>

text \<open>A request that passes the authentication hook acts inside the tenant of its principal; a service or native
  credential acts only in its own project and environment, and a person or the shared key outside the default one only
  where the catalog lists the environment for that tenant.\<close>

theorem request_scope_confined:
  assumes "pre_handler cfg rq = Ok (p, s)"
  shows "tenantId s = tenantId (principal_scope p) \<and> (is_runtime p \<longrightarrow> s = principal_scope p) \<and>
    (s \<noteq> principal_scope p \<longrightarrow> (\<exists>envs. Option.bind (ac_store cfg) listEnvironments = Some envs \<and>
       environmentId s \<in> set (envs (tenantId s) (projectId s))))"
proof -
  have "scope_request cfg rq p = Ok s" using assms by (auto simp: pre_handler_def bind_res_Inr_iff)
  from scope_request_cases [OF this] show ?thesis by blast
qed

lemma sample_request_ok: "pre_handler sample_auth sample_rq = Ok (ServicePrincipal DEFAULT_RESOURCE_SCOPE ''svc_00'' ''pay'', DEFAULT_RESOURCE_SCOPE)"
  by (simp add: pre_handler_def authenticate_request_def sample_auth_def sample_rq_def shared_source_def bearerTokenMatches_def bearerToken_def
      BEARER_def starts_with_def native_source_def NATIVE_API_KEY_PREFIX_def service_source_def SERVICE_API_KEY_PREFIX_def or_else_def
      credential_tables_def sample_service_credential_def createServiceCredentialMaterial_def servicePrincipal_def scope_request_def
      selected_id_def DEFAULT_RESOURCE_SCOPE_def Let_def)

theorem request_scope_confined_witness:
  "tenantId DEFAULT_RESOURCE_SCOPE = tenantId (principal_scope (ServicePrincipal DEFAULT_RESOURCE_SCOPE ''svc_00'' ''pay''))"
  using request_scope_confined [OF sample_request_ok] by blast

text \<open>C10: Where a principal can come from: unless the broker runs without keys and without an identity provider, the
  request carried one of the configured keys, or a token whose hash the credential tables know under its kind, or a
  token the identity provider vouches for.\<close>

theorem principals_are_authenticated:
  assumes "pre_handler cfg rq = Ok (p, s)" "ac_apiKeys cfg \<noteq> [] \<or> ac_authenticateBearer cfg \<noteq> None"
  shows "\<exists>t. rq_authorization rq = Some (BEARER @ t) \<and>
    (t \<in> set (ac_apiKeys cfg) \<and> p = sharedPrincipal SharedKey \<or>
     (\<exists>db c. Option.bind (ac_store cfg) authenticateNativeCredential = Some db \<and> db (ac_sha256 cfg t) = Some c \<and>
        starts_with t NATIVE_API_KEY_PREFIX \<and> p = nativePrincipal c) \<or>
     (\<exists>db c. Option.bind (ac_store cfg) authenticateServiceCredential = Some db \<and> db (ac_sha256 cfg t) = Some c \<and>
        starts_with t SERVICE_API_KEY_PREFIX \<and> p = servicePrincipal c) \<or>
     (\<exists>f. ac_authenticateBearer cfg = Some f \<and> f t = Ok (Some p)))"
proof -
  have "authenticate_request cfg rq = Ok p" using assms(1) by (auto simp: pre_handler_def bind_res_Inr_iff)
  then show ?thesis
  proof (cases rule: principal_origin)
    case development
    with assms(2) show ?thesis by blast
  qed blast+
qed

theorem principals_are_authenticated_witness:
  "\<exists>t. rq_authorization sample_rq = Some (BEARER @ t)"
  using principals_are_authenticated [OF sample_request_ok] by (auto simp: sample_auth_def)

text \<open>A person's rights follow the organization: a Clerk session yields a principal of the organization named in the
  verified claims, never an administrator, with a supported role; where a membership service is configured, the role is
  the one it reports now, whatever the token says.\<close>

theorem clerk_principal_from_membership:
  assumes "clerk_authenticate verifier project environment resolver token = Ok (Some p)"
  shows "\<exists>claims org role u. verifier token = Some claims \<and> clerkClaims_ok claims \<and> cc_sts claims \<noteq> Some ''pending'' \<and>
    first_of (cc_o claims) (\<lambda>o1. Some (oc_id o1)) (cc_org_id claims) = Some org \<and>
    p = UserPrincipal \<lparr>tenantId = org, projectId = project, environmentId = environment\<rparr> u \<and>
    ui_principalId u = cc_sub claims \<and> ui_role u = Operator \<and> ui_organizationRole u = Some role \<and> role \<in> set mapped_roles \<and>
    (\<forall>resolve. resolver = Some resolve \<longrightarrow>
       (\<exists>r. resolve (cc_sub claims) org = Ok (Some r) \<and> normalizedRole (Some r) = Some role))"
proof -
  obtain claims where v: "verifier token = Some claims" "clerkClaims_ok claims" "cc_sts claims \<noteq> Some ''pending''"
    using assms by (auto simp: clerk_authenticate_def split: option.splits if_splits)
  obtain org where o: "first_of (cc_o claims) (\<lambda>o1. Some (oc_id o1)) (cc_org_id claims) = Some org"
    using assms v by (cases "first_of (cc_o claims) (\<lambda>o1. Some (oc_id o1)) (cc_org_id claims)") (simp_all add: clerk_authenticate_def)
  obtain role orole u where c: "resolveHumanRole (cc_sub claims) org (first_of (cc_o claims) oc_rol (cc_org_role claims)) resolver = Ok (role, orole)"
    "p = UserPrincipal \<lparr>tenantId = org, projectId = project, environmentId = environment\<rparr> u" "ui_principalId u = cc_sub claims"
    "ui_role u = role" "ui_organizationRole u = Some orole"
    using assms v o by (auto simp: clerk_authenticate_def bind_res_Inr_iff)
  from resolveHumanRole_Ok [OF c(1)] show ?thesis
    by (intro exI [of _ claims] exI [of _ org] exI [of _ orole] exI [of _ u]) (auto simp: v o c(2-5) split: option.splits)
qed

theorem clerk_principal_from_membership_witness:
  "\<exists>role. role \<in> set mapped_roles \<and> normalizedRole (Some ''viewer'') = Some role"
proof -
  let ?claims = "\<lparr>cc_sub = ''u1'', cc_sts = None, cc_o = None, cc_org_id = Some ''acme'', cc_org_slug = None, cc_org_role = Some ''admin''\<rparr>"
  let ?resolver = "\<lambda>_ _. Ok (Some ''viewer'')"
  obtain p where "clerk_authenticate (\<lambda>_. Some ?claims) ''default'' ''default'' (Some ?resolver) ''t'' = Ok (Some p)"
    by (simp add: clerk_authenticate_def clerkClaims_ok_def len_between_def opt_len_def first_of_def resolveHumanRole_def
        normalizedRole_def liveProbeRoleForClerkRole_def mapped_roles_def)
  from clerk_principal_from_membership [OF this] show ?thesis by auto
qed

text \<open>The membership cache never serves an answer older than its lifetime: an answer is either fetched for this call
  or was fetched for the same user and organization less than the lifetime ago.\<close>

theorem membership_cache_fresh:
  assumes "cache_justified ttl past cache" "membership_step ttl c cache = (cache', Ok m)"
    and "CHR '':'' \<notin> set (mc_organizationId c)" "\<forall>d \<in> set past. CHR '':'' \<notin> set (mc_organizationId d)"
  shows "cache_justified ttl (past @ [c]) cache' \<and>
    (mc_answer c = Some m \<or> (\<exists>d \<in> set past. mc_userId d = mc_userId c \<and> mc_organizationId d = mc_organizationId c \<and>
        mc_answer d = Some m \<and> mc_now c < mc_fetched d + ttl))"
proof -
  have key: "org @ '':'' @ u = org' @ '':'' @ u' \<Longrightarrow> org = org' \<and> u = u'"
    if "CHR '':'' \<notin> set org" "CHR '':'' \<notin> set org'" for org org' u u' :: string
    using js_split_append_sep [OF that(1), of u] js_split_append_sep [OF that(2), of u'] by auto
  show ?thesis
  proof (cases "mc_answer c = Some m")
    case True
    then show ?thesis using cache_justified_step [OF assms(1), of c] assms(2) by simp
  next
    case False
    with membership_step_Ok [OF assms(2)] obtain e where e: "cache' = cache"
      "jget cache (mc_organizationId c @ '':'' @ mc_userId c) = Some e" "mc_now c < cm_expiresAt e" "m = cm_membership e" by blast
    from assms(1) e(2) obtain d where d: "d \<in> set past" "mc_organizationId c @ '':'' @ mc_userId c = mc_organizationId d @ '':'' @ mc_userId d"
      "mc_answer d = Some (cm_membership e)" "cm_expiresAt e = mc_fetched d + ttl"
      unfolding cache_justified_def by blast
    have "mc_organizationId c = mc_organizationId d \<and> mc_userId c = mc_userId d"
      using key [OF assms(3) _ d(2)] assms(4) d(1) by blast
    then show ?thesis using cache_justified_step [OF assms(1), of c] assms(2) d e by auto
  qed
qed

theorem membership_cache_fresh_witness:
  "\<exists>d \<in> set [\<lparr>mc_userId = ''u'', mc_organizationId = ''o'', mc_answer = Some (Some ''admin''), mc_now = 0, mc_fetched = 1\<rparr>].
     mc_answer d = Some (Some ''admin'') \<and> 20000 < mc_fetched d + 30000"
proof -
  let ?d = "\<lparr>mc_userId = ''u'', mc_organizationId = ''o'', mc_answer = Some (Some ''admin''), mc_now = 0, mc_fetched = 1\<rparr>"
  let ?c = "\<lparr>mc_userId = ''u'', mc_organizationId = ''o'', mc_answer = Some None, mc_now = 20000, mc_fetched = 20001\<rparr>"
  let ?cache = "[(''o:u'', \<lparr>cm_expiresAt = 30001, cm_membership = Some ''admin''\<rparr>)]"
  have "cache_justified 30000 [?d] ?cache" by (simp add: cache_justified_def)
  moreover have "membership_step 30000 ?c ?cache = (?cache, Ok (Some ''admin''))"
    by (simp add: membership_step_def resolve_membership_def)
  ultimately show ?thesis using membership_cache_fresh [of 30000 "[?d]" ?cache ?c ?cache "Some ''admin''"] by auto
qed

end
