(* ===== verification/Broker_Routes.thy ===== *)
theory Broker_Routes
  imports Broker_Snapshot Broker_Auth Broker_Tenants
begin

text \<open>
  The routes of \<^verbatim>\<open>buildBroker\<close> (\<^verbatim>\<open>packages/broker/src/index.ts\<close>) that work on the broker state: what each
  validates, whom it lets in, which operation it runs durably and what it writes to the audit log.  A request that
  passed the authentication hook is a principal with the selected scope.  Bodies and parameters are given as typed
  values and run through their schemas; a value that would not have the type is refused by the same schemas.  The
  store and the audit log are parameters: every call of them may fail.
\<close>

section \<open>Definitions\<close>

subsection \<open>The audit log\<close>

datatype audit_outcome = Attempt | Success | Denied | Failed

record audit_context =
  ax_action :: string
  ax_resourceType :: string
  ax_resourceId :: "string option"
  ax_metadata :: "(string \<times> string) list"
  ax_successStatus :: nat
  ax_scope :: "resource_scope option"

record audit_event =
  ae_scope :: resource_scope
  ae_occurredAt :: int
  ae_actorType :: string
  ae_actorId :: string
  ae_actorRole :: string
  ae_action :: string
  ae_resourceType :: string
  ae_resourceId :: "string option"
  ae_outcome :: audit_outcome
  ae_statusCode :: "nat option"
  ae_errorCode :: "string option"
  ae_metadata :: "(string \<times> string) list"

type_synonym caller = "broker_principal \<times> resource_scope"

fun actor_type :: "broker_principal \<Rightarrow> string" where
  "actor_type (SharedPrincipal _ _) = ''shared''"
| "actor_type (UserPrincipal _ _) = ''user''"
| "actor_type (ServicePrincipal _ _ _) = ''service''"
| "actor_type (NativePrincipal _ _ _ _) = ''native''"

fun actor_id :: "broker_principal \<Rightarrow> string" where
  "actor_id (SharedPrincipal _ SharedKey) = ''shared-key''"
| "actor_id (SharedPrincipal _ Development) = ''development''"
| "actor_id (UserPrincipal _ u) = ui_principalId u"
| "actor_id (ServicePrincipal _ i _) = i"
| "actor_id (NativePrincipal _ i _ _) = i"

fun actor_role :: "broker_principal \<Rightarrow> string" where
  "actor_role (SharedPrincipal _ _) = ''admin''"
| "actor_role (UserPrincipal _ u) = (case ui_role u of Admin \<Rightarrow> ''admin'' | Operator \<Rightarrow> ''operator'' | Viewer \<Rightarrow> ''viewer'')"
| "actor_role (ServicePrincipal _ _ _) = ''agent''"
| "actor_role (NativePrincipal _ _ _ _) = ''native-agent''"

text \<open>
  The routes, with the body, the parameters and the query as the schemas receive them.  A request that waits for data
  carries the identity of the promise it would install.  The parameters of a request: the clock before and after the store is called, the random ids, the store, and the audit
  log, \<open>None\<close> when the store keeps none; both answer \<open>None\<close> for success or the error they failed with.
\<close>

datatype route =
    PostProbe raw_create
  | DeleteProbe string
  | GetProbes "string option"
  | GetServices
  | PostNativeAgent registration
  | PutInstances string "reported_instance list"
  | GetAssignments string int
  | PostNativeIngest native_ingest
  | GetPing
  | GetServiceProbes string int "string option"
  | PostMapStatus string string string
  | PostMapUpload upload_input
  | PostMapComplete string string string
  | PostIngest ingest_input
  | GetProbeData string jsnum nat

record web_env =
  we_env :: env
  we_gen :: "nat \<Rightarrow> string"
  we_now :: int
  we_now' :: int
  we_persist :: "route \<Rightarrow> broker \<Rightarrow> broker \<times> broker_error option"
  we_audit :: "(audit_event \<Rightarrow> broker_error option) option"

record web =
  wb_state :: broker
  wb_audit :: "audit_event list"

type_synonym 'a web_res = "web \<times> (broker_error, 'a) res"

definition audit_event_of :: "int \<Rightarrow> caller \<Rightarrow> audit_context \<Rightarrow> audit_outcome \<Rightarrow> nat option \<Rightarrow> string option \<Rightarrow> audit_event" where
  "audit_event_of now c ctx outcome statusCode errorCode =
     \<lparr>ae_scope = (case ax_scope ctx of None \<Rightarrow> snd c | Some s \<Rightarrow> s), ae_occurredAt = now, ae_actorType = actor_type (fst c), ae_actorId = actor_id (fst c),
      ae_actorRole = actor_role (fst c), ae_action = ax_action ctx, ae_resourceType = ax_resourceType ctx,
      ae_resourceId = ax_resourceId ctx, ae_outcome = outcome, ae_statusCode = statusCode, ae_errorCode = errorCode,
      ae_metadata = ax_metadata ctx\<rparr>"

definition appendAuditEvent ::
  "web_env \<Rightarrow> caller \<Rightarrow> audit_context \<Rightarrow> audit_outcome \<Rightarrow> nat option \<Rightarrow> string option \<Rightarrow> web \<Rightarrow> unit web_res" where
  "appendAuditEvent env c ctx outcome statusCode errorCode w =
     (case we_audit env of
        None \<Rightarrow> (w, Ok ())
      | Some put \<Rightarrow>
          let e = audit_event_of (we_now env) c ctx outcome statusCode errorCode in
          (case put e of None \<Rightarrow> (w\<lparr>wb_audit := wb_audit w @ [e]\<rparr>, Ok ()) | Some err \<Rightarrow> (w, Err err)))"

fun status_of :: "broker_error \<Rightarrow> nat" where
  "status_of (HttpError n _ _) = n"
| "status_of (SchemaError _) = 400"
| "status_of (PlainError _) = 500"

fun code_of :: "broker_error \<Rightarrow> string" where
  "code_of (HttpError _ code _) = code"
| "code_of (SchemaError _) = ''invalid_request''"
| "code_of (PlainError _) = ''internal_error''"

text \<open>
  An audited change, over any state: \<open>record\<close> appends an event.  The \<^verbatim>\<open>catch\<close> of the change: a failure of the log
  itself replaces the error.
\<close>

type_synonym 's recorder = "audit_context \<Rightarrow> audit_outcome \<Rightarrow> nat option \<Rightarrow> string option \<Rightarrow> 's \<Rightarrow> 's \<times> (broker_error, unit) res"

definition audit_failure :: "'s recorder \<Rightarrow> audit_context \<Rightarrow> broker_error \<Rightarrow> 's \<Rightarrow> 's \<times> (broker_error, 'a) res" where
  "audit_failure rec ctx e w =
     (case rec ctx (if status_of e = 401 \<or> status_of e = 403 then Denied else Failed) (Some (status_of e)) (Some (code_of e)) w of
        (w1, Inl e1) \<Rightarrow> (w1, Err e1)
      | (w1, Inr _) \<Rightarrow> (w1, Err e))"

text \<open>The operation also returns the resource id it has put into the context.\<close>

definition runAuditedMutation ::
  "'s recorder \<Rightarrow> audit_context \<Rightarrow> ('s \<Rightarrow> 's \<times> (broker_error, 'a \<times> string option) res) \<Rightarrow> 's \<Rightarrow> 's \<times> (broker_error, 'a) res" where
  "runAuditedMutation rec ctx operation w =
     (case rec ctx Attempt None None w of
        (w1, Inl e) \<Rightarrow> (w1, Err e)
      | (w1, Inr _) \<Rightarrow>
          (case operation w1 of
             (w2, Inl e) \<Rightarrow> audit_failure rec ctx e w2
           | (w2, Inr (a, rid)) \<Rightarrow>
               let ctx1 = ctx\<lparr>ax_resourceId := rid\<rparr> in
               (case rec ctx1 Success (Some (ax_successStatus ctx)) None w2 of
                  (w3, Inl e) \<Rightarrow> audit_failure rec ctx1 e w3
                | (w3, Inr _) \<Rightarrow> (w3, Ok a))))"

fun is_rejection :: "broker_error \<Rightarrow> bool" where
  "is_rejection (HttpError n _ _) \<longleftrightarrow> n \<in> {400, 403, 404, 409}"
| "is_rejection _ \<longleftrightarrow> False"

definition auditNativeRejection ::
  "web_env \<Rightarrow> caller \<Rightarrow> string \<Rightarrow> string \<Rightarrow> (web \<Rightarrow> 'a web_res) \<Rightarrow> web \<Rightarrow> 'a web_res" where
  "auditNativeRejection env c action resourceId operation w =
     (case operation w of
        (w1, Inr a) \<Rightarrow> (w1, Ok a)
      | (w1, Inl e) \<Rightarrow>
          if is_rejection e
          then (case appendAuditEvent env c
                  \<lparr>ax_action = action, ax_resourceType = ''native_runtime'', ax_resourceId = Some resourceId, ax_metadata = [], ax_successStatus = 200, ax_scope = None\<rparr>
                  (if status_of e = 403 then Denied else Failed) (Some (status_of e)) (Some (code_of e)) w1 of
                  (w2, Inl e1) \<Rightarrow> (w2, Err e1)
                | (w2, Inr _) \<Rightarrow> (w2, Err e))
          else (w1, Err e))"

subsection \<open>The routes\<close>

datatype payload =
    Probe probe_definition
  | NoContent
  | ProbeList "(probe_definition \<times> probe_status option) list"
  | ServiceList "service_record list"
  | Registered native_agent "string list"
  | Accepted nat
  | Assigned int "native_assignment list"
  | Pong
  | Polled poll_result
  | Role upload_role
  | MapAccepted
  | MapsComplete
  | ProbeData probe_definition "probe_status option" "probe_event list"
  | Pending

definition on_state :: "(broker \<Rightarrow> 'a broker_res) \<Rightarrow> web \<Rightarrow> 'a web_res" where
  "on_state f w = (case f (wb_state w) of (st, r) \<Rightarrow> (w\<lparr>wb_state := st\<rparr>, r))"

definition durably :: "web_env \<Rightarrow> route \<Rightarrow> (broker \<Rightarrow> 'a broker_res) \<Rightarrow> web \<Rightarrow> 'a web_res" where
  "durably env r mutate = on_state (mutateDurably (we_now env) (we_now' env) mutate (\<lambda>_. we_persist env r))"

definition guarded :: "(broker_error, 'b) res \<Rightarrow> ('b \<Rightarrow> web \<Rightarrow> 'a web_res) \<Rightarrow> web \<Rightarrow> 'a web_res" where
  "guarded g k w = (case g of Inl e \<Rightarrow> (w, Err e) | Inr b \<Rightarrow> k b w)"

abbreviation parsed :: "string \<Rightarrow> 'b option \<Rightarrow> (broker_error, 'b) res" where
  "parsed name v \<equiv> (case v of None \<Rightarrow> Err (SchemaError name) | Some b \<Rightarrow> Ok b)"

abbreviation reply :: "nat \<Rightarrow> ('a \<Rightarrow> payload) \<Rightarrow> 'a web_res \<Rightarrow> (nat \<times> payload) web_res" where
  "reply n f r \<equiv> (fst r, case snd r of Inl e \<Rightarrow> Err e | Inr a \<Rightarrow> Ok (n, f a))"

abbreviation total_op :: "(broker \<Rightarrow> broker \<times> 'a) \<Rightarrow> broker \<Rightarrow> 'a broker_res" where
  "total_op f st \<equiv> (fst (f st), Ok (snd (f st)))"

definition mapIdentity_parse :: "string \<Rightarrow> string \<Rightarrow> string \<Rightarrow> (string \<times> string \<times> string) option" where
  "mapIdentity_parse sid sha uploader =
     (case (serviceId_parse sid, sourceCommit_parse sha, agentId_parse uploader) of
        (Some a, Some b, Some c) \<Rightarrow> Some (a, b, c) | _ \<Rightarrow> None)"

definition sourceMapUpload_parse :: "upload_input \<Rightarrow> upload_input option" where
  "sourceMapUpload_parse i =
     (case (mapIdentity_parse (ui_serviceId i) (ui_commitSha i) (ui_uploaderId i), sourceMapPath_parse (ui_mapPath i)) of
        (Some (a, b, c), Some p) \<Rightarrow> Some \<lparr>ui_serviceId = a, ui_commitSha = b, ui_uploaderId = c, ui_mapPath = p, ui_map = ui_map i\<rparr>
      | _ \<Rightarrow> None)"

fun create_type :: "create_body \<Rightarrow> probe_type" where
  "create_type (CreateSnapshot _ _ _ _) = TSnapshot"
| "create_type (CreateLog _ _) = TLog"
| "create_type CreateCounter = TCounter"
| "create_type (CreateMetric _ _) = TMetric"

definition postProbe :: "web_env \<Rightarrow> caller \<Rightarrow> raw_create \<Rightarrow> web \<Rightarrow> (nat \<times> payload) web_res" where
  "postProbe env c raw =
     guarded (parsed ''CreateProbeSchema'' (createProbeInput_parse raw)) (\<lambda>input w.
       reply 201 Probe (runAuditedMutation (appendAuditEvent env c)
         \<lparr>ax_action = ''probe.create'', ax_resourceType = ''probe'', ax_resourceId = None,
          ax_metadata = [(''serviceId'', ci_serviceId input), (''probeType'', probe_type_name (create_type (ci_body input)))], ax_successStatus = 201, ax_scope = None\<rparr>
         (guarded (requireProbeManager (fst c)) (\<lambda>_ w1.
            case durably env (PostProbe raw) (createProbe (we_env env) (we_gen env) (we_now env) input (snd c)) w1 of
              (w2, Inl e) \<Rightarrow> (w2, Err e)
            | (w2, Inr p) \<Rightarrow> (w2, Ok (p, Some (pd_id p))))) w))"

definition deleteProbeRoute :: "web_env \<Rightarrow> caller \<Rightarrow> string \<Rightarrow> web \<Rightarrow> (nat \<times> payload) web_res" where
  "deleteProbeRoute env c pid =
     guarded (if probeId_ok pid then Ok () else Err (SchemaError ''probeParamsSchema'')) (\<lambda>_ w.
       reply 204 (\<lambda>_. NoContent) (runAuditedMutation (appendAuditEvent env c)
         \<lparr>ax_action = ''probe.delete'', ax_resourceType = ''probe'', ax_resourceId = Some pid, ax_metadata = [], ax_successStatus = 204, ax_scope = None\<rparr>
         (guarded (requireProbeManager (fst c)) (\<lambda>_ w1.
            case durably env (DeleteProbe pid) (total_op (deleteProbe (we_now env) pid (snd c))) w1 of
              (w2, Inl e) \<Rightarrow> (w2, Err e)
            | (w2, Inr b) \<Rightarrow> (w2, Ok (b, Some pid)))) w))"

definition nativeRoute ::
  "web_env \<Rightarrow> caller \<Rightarrow> string \<Rightarrow> string \<Rightarrow> (resource_scope \<times> string list \<Rightarrow> web \<Rightarrow> 'a web_res) \<Rightarrow> web \<Rightarrow> 'a web_res" where
  "nativeRoute env c action agentId operation =
     auditNativeRejection env c action agentId (guarded (requireNativeAccess (fst c) agentId) operation)"

definition postNativeAgent :: "web_env \<Rightarrow> caller \<Rightarrow> registration \<Rightarrow> web \<Rightarrow> (nat \<times> payload) web_res" where
  "postNativeAgent env c raw =
     guarded (parsed ''NativeAgentRegistrationSchema'' (registration_parse raw)) (\<lambda>input w.
       reply 201 (\<lambda>(a, allowed). Registered a allowed)
         (nativeRoute env c ''native_agent.register'' (rg_agentId input) (\<lambda>(scope, allowed) w1.
            case durably env (PostNativeAgent raw) (registerNativeAgent (we_now env) input scope) w1 of
              (w2, Inl e) \<Rightarrow> (w2, Err e)
            | (w2, Inr a) \<Rightarrow> (w2, Ok (a, allowed))) w))"

definition putInstances :: "web_env \<Rightarrow> caller \<Rightarrow> string \<Rightarrow> reported_instance list \<Rightarrow> web \<Rightarrow> (nat \<times> payload) web_res" where
  "putInstances env c aid raw =
     guarded (parsed ''nativeAgentParamsSchema'' (agentId_parse aid)) (\<lambda>agentId.
       guarded (parsed ''NativeInstanceSetSchema'' (instanceSet_parse raw)) (\<lambda>instances w.
         reply 202 Accepted (nativeRoute env c ''native_instance.reconcile'' agentId (\<lambda>(scope, allowed).
           durably env (PutInstances aid raw) (replaceNativeInstances (we_now env) agentId instances scope allowed)) w)))"

definition getAssignments :: "web_env \<Rightarrow> caller \<Rightarrow> string \<Rightarrow> int \<Rightarrow> web \<Rightarrow> (nat \<times> payload) web_res" where
  "getAssignments env c aid since =
     guarded (parsed ''nativeAgentParamsSchema'' (agentId_parse aid)) (\<lambda>agentId.
       guarded (if 0 \<le> since \<and> since \<le> max_safe then Ok () else Err (SchemaError ''nativeAssignmentsQuerySchema'')) (\<lambda>_ w.
         reply 200 (\<lambda>(v, as). Assigned v as) (nativeRoute env c ''native_assignment.read'' agentId (\<lambda>(scope, allowed).
           on_state (nativeAssignments (we_env env) (we_now env) agentId since scope allowed)) w)))"

definition postNativeIngest :: "web_env \<Rightarrow> caller \<Rightarrow> native_ingest \<Rightarrow> web \<Rightarrow> (nat \<times> payload) web_res" where
  "postNativeIngest env c raw =
     guarded (parsed ''NativeIngestEnvelopeSchema'' (nativeIngest_parse raw)) (\<lambda>input w.
       reply 202 Accepted (nativeRoute env c ''native_ingest.write'' (ng_agentId input) (\<lambda>(scope, allowed) w1.
         if ''*'' \<notin> set allowed \<and> ng_serviceId input \<notin> set allowed
         then (w1, Err (HttpError 403 ''forbidden'' ''native service is not allowed''))
         else durably env (PostNativeIngest raw) (ingestNative (we_now env) input scope) w1) w))"

definition getServiceProbes :: "web_env \<Rightarrow> caller \<Rightarrow> string \<Rightarrow> int \<Rightarrow> string option \<Rightarrow> web \<Rightarrow> (nat \<times> payload) web_res" where
  "getServiceProbes env c raw since sha =
     guarded (parsed ''pollParamsSchema'' (serviceId_parse raw)) (\<lambda>sid.
       guarded (requireServiceAccess (fst c) sid) (\<lambda>_.
         guarded (parsed ''pollQuerySchema'' (if 0 \<le> since \<and> since \<le> max_safe then opt_parse sourceCommit_parse sha else None)) (\<lambda>commit w.
           reply 200 Polled (on_state (pollProbes (we_env env) (we_now env) sid since commit (snd c)) w))))"

text \<open>A new uploader takes the maps of an abandoned upload away; that is stored, but not undone when storing fails.\<close>

definition postMapStatus :: "web_env \<Rightarrow> caller \<Rightarrow> string \<Rightarrow> string \<Rightarrow> string \<Rightarrow> web \<Rightarrow> (nat \<times> payload) web_res" where
  "postMapStatus env c sid0 sha0 uploader0 =
     guarded (parsed ''sourceMapStatusSchema'' (mapIdentity_parse sid0 sha0 uploader0)) (\<lambda>(sid, sha, uploader).
       guarded (requireServiceAccess (fst c) sid) (\<lambda>_ w.
         let maps = (\<lambda>st. case getSourceMapSet sid sha (snd c) st of None \<Rightarrow> None | Some s \<Rightarrow> Some (length (ss_maps s)));
             (st1, role) = sourceMapStatus (we_now env) sid sha uploader (snd c) (wb_state w) in
         if (case maps (wb_state w) of None \<Rightarrow> False | Some n \<Rightarrow> 0 < n) \<and> role = Uploader \<and> maps st1 = Some 0
         then (case we_persist env (PostMapStatus sid0 sha0 uploader0) st1 of
                 (st2, None) \<Rightarrow> (w\<lparr>wb_state := st2\<rparr>, Ok (200, Role role))
               | (st2, Some e) \<Rightarrow> (w\<lparr>wb_state := st2\<rparr>, Err e))
         else (w\<lparr>wb_state := st1\<rparr>, Ok (200, Role role))))"

definition postMapUpload :: "web_env \<Rightarrow> caller \<Rightarrow> upload_input \<Rightarrow> web \<Rightarrow> (nat \<times> payload) web_res" where
  "postMapUpload env c raw =
     guarded (parsed ''sourceMapUploadSchema'' (sourceMapUpload_parse raw)) (\<lambda>input.
       guarded (requireServiceAccess (fst c) (ui_serviceId input)) (\<lambda>_ w.
         reply 202 (\<lambda>_. MapAccepted) (durably env (PostMapUpload raw) (uploadSourceMap (we_env env) (we_now env) input (snd c)) w)))"

definition postMapComplete :: "web_env \<Rightarrow> caller \<Rightarrow> string \<Rightarrow> string \<Rightarrow> string \<Rightarrow> web \<Rightarrow> (nat \<times> payload) web_res" where
  "postMapComplete env c sid0 sha0 uploader0 =
     guarded (parsed ''sourceMapStatusSchema'' (mapIdentity_parse sid0 sha0 uploader0)) (\<lambda>(sid, sha, uploader).
       guarded (requireServiceAccess (fst c) sid) (\<lambda>_ w.
         reply 202 (\<lambda>_. MapsComplete)
           (durably env (PostMapComplete sid0 sha0 uploader0) (completeSourceMaps (we_env env) (we_now env) sid sha uploader (snd c)) w)))"

definition postIngest :: "web_env \<Rightarrow> caller \<Rightarrow> ingest_input \<Rightarrow> web \<Rightarrow> (nat \<times> payload) web_res" where
  "postIngest env c raw =
     guarded (parsed ''IngestSchema'' (ingest_parse raw)) (\<lambda>input.
       guarded (requireServiceAccess (fst c) (ig_serviceId input)) (\<lambda>_ w.
         reply 202 Accepted (durably env (PostIngest raw) (ingest (we_now env) input (snd c)) w)))"

text \<open>
  A request for the data of a probe that waits stays \<open>Pending\<close> until its listener is resolved; then
  \<open>resumeProbeData\<close> goes on.
\<close>

definition waitSeconds_of :: "jsnum \<Rightarrow> jsnum" where
  "waitSeconds_of q = js_min (Fin 30) (js_max (Fin 0) q)"

text \<open>\<^verbatim>\<open>Math.round(waitSeconds * 1_000)\<close>\<close>

definition wait_ms :: "jsnum \<Rightarrow> int" where
  "wait_ms q = (case js_mult (waitSeconds_of q) (Fin 1000) of Fin r \<Rightarrow> \<lfloor>r + 1 / 2\<rfloor> | _ \<Rightarrow> 0)"

definition sendProbeData :: "web_env \<Rightarrow> caller \<Rightarrow> string \<Rightarrow> string \<Rightarrow> (probe_definition \<Rightarrow> web \<Rightarrow> (nat \<times> payload) web_res) \<Rightarrow>
    web \<Rightarrow> (nat \<times> payload) web_res" where
  "sendProbeData env c pid missing k w =
     (let (st1, found) = getProbe (we_now env) pid (snd c) (wb_state w) in
      case found of
        None \<Rightarrow> (w\<lparr>wb_state := st1\<rparr>, Err (HttpError 404 ''not_found'' (''probe '' @ pid @ missing)))
      | Some p \<Rightarrow> k p (w\<lparr>wb_state := st1\<rparr>))"

definition probeDataReply :: "web_env \<Rightarrow> caller \<Rightarrow> string \<Rightarrow> probe_definition \<Rightarrow> web \<Rightarrow> (nat \<times> payload) web_res" where
  "probeDataReply env c pid p w =
     (let (st2, status) = getStatus (we_now env) pid (snd c) (wb_state w);
          (st3, es) = getEvents (we_now env) pid (snd c) st2 in
      (w\<lparr>wb_state := st3\<rparr>, Ok (200, ProbeData p status es)))"

definition getProbeData :: "web_env \<Rightarrow> caller \<Rightarrow> string \<Rightarrow> jsnum \<Rightarrow> nat \<Rightarrow> web \<Rightarrow> (nat \<times> payload) web_res" where
  "getProbeData env c pid waitSeconds l =
     guarded (requireHumanRead (fst c)) (\<lambda>_.
       guarded (if probeId_ok pid then Ok () else Err (SchemaError ''probeParamsSchema'')) (\<lambda>_.
         guarded (if is_finite_num waitSeconds then Ok () else Err (SchemaError ''dataQuerySchema'')) (\<lambda>_.
           sendProbeData env c pid '' was not found'' (\<lambda>p w1.
             if js_lt (Fin 0) (waitSeconds_of waitSeconds)
             then (w1\<lparr>wb_state := waitForEvents pid (wait_ms waitSeconds) False l (wb_state w1)\<rparr>, Ok (0, Pending))
             else probeDataReply env c pid p w1))))"

definition resumeProbeData :: "web_env \<Rightarrow> caller \<Rightarrow> string \<Rightarrow> web \<Rightarrow> (nat \<times> payload) web_res" where
  "resumeProbeData env c pid = sendProbeData env c pid '' was removed while waiting'' (probeDataReply env c pid)"

fun handle :: "web_env \<Rightarrow> caller \<Rightarrow> route \<Rightarrow> web \<Rightarrow> (nat \<times> payload) web_res" where
  "handle env c (PostProbe raw) = postProbe env c raw"
| "handle env c (DeleteProbe pid) = deleteProbeRoute env c pid"
| "handle env c (GetProbes sid) =
     guarded (requireHumanRead (fst c)) (\<lambda>_. guarded (parsed ''listProbeQuerySchema'' (opt_parse serviceId_parse sid)) (\<lambda>s w.
       reply 200 ProbeList (on_state (total_op (listProbes (we_now env) s (snd c))) w)))"
| "handle env c GetServices =
     guarded (requireHumanRead (fst c)) (\<lambda>_ w. reply 200 ServiceList (on_state (total_op (listServices (we_env env) (we_now env) (snd c))) w))"
| "handle env c (PostNativeAgent raw) = postNativeAgent env c raw"
| "handle env c (PutInstances aid raw) = putInstances env c aid raw"
| "handle env c (GetAssignments aid since) = getAssignments env c aid since"
| "handle env c (PostNativeIngest raw) = postNativeIngest env c raw"
| "handle env c GetPing = (\<lambda>w. (w, Ok (200, Pong)))"
| "handle env c (GetServiceProbes sid since sha) = getServiceProbes env c sid since sha"
| "handle env c (PostMapStatus sid sha u) = postMapStatus env c sid sha u"
| "handle env c (PostMapUpload raw) = postMapUpload env c raw"
| "handle env c (PostMapComplete sid sha u) = postMapComplete env c sid sha u"
| "handle env c (PostIngest raw) = postIngest env c raw"
| "handle env c (GetProbeData pid waitSeconds l) = getProbeData env c pid waitSeconds l"

text \<open>A request from its headers to its answer: an error answers with its status and code.\<close>

datatype answer = Answer nat payload | Refusal nat string

definition to_answer :: "(nat \<times> payload) web_res \<Rightarrow> web \<times> answer" where
  "to_answer r = (fst r, case snd r of Inl e \<Rightarrow> Refusal (status_of e) (code_of e) | Inr (n, p) \<Rightarrow> Answer n p)"

definition serve :: "web_env \<Rightarrow> auth_config \<Rightarrow> request \<Rightarrow> route \<Rightarrow> web \<Rightarrow> web \<times> answer" where
  "serve env cfg rq r w =
     (case pre_handler cfg rq of
        Inl e \<Rightarrow> (w, Refusal (status_of e) (code_of e))
      | Inr c \<Rightarrow> to_answer (handle env c r w))"

text \<open>What the server does besides requests: the expiry timer and its shutdown.\<close>

definition ttlTick :: "int \<Rightarrow> int \<Rightarrow> (broker \<Rightarrow> broker \<times> broker_error option) \<Rightarrow> web \<Rightarrow> web" where
  "ttlTick now now' persist w =
     fst (on_state (mutateDurably now now' (total_op (expireDueProbes now)) (\<lambda>expired st. if 0 < expired then persist st else (st, None))) w)"

definition closeBroker :: "(broker \<Rightarrow> broker \<times> broker_error option) \<Rightarrow> web \<Rightarrow> web" where
  "closeBroker persist w = w\<lparr>wb_state := dispose (fst (persist (wb_state w)))\<rparr>"

end
