(* ===== verification/Postgres_Catalog.thy ===== *)
theory Postgres_Catalog
  imports Broker_Routes
begin

text \<open>
  The resource catalog, the credentials and the audit log of \<^verbatim>\<open>PostgresStore\<close>
  (\<^verbatim>\<open>packages/broker/src/store/postgres.ts\<close>): each table is the list of its rows and each statement the relational
  operation it names, with the primary, unique and foreign keys of \<^verbatim>\<open>store/migrations.ts\<close>.  A violated key makes the
  statement fail and leaves the tables alone.  \<open>now\<close> is the clock of the database; the collation that \<^verbatim>\<open>order by\<close> uses
  on text is a parameter.
\<close>

section \<open>Definitions\<close>

subsection \<open>The tables\<close>

record project_row =
  pr_tenantId :: string
  pr_projectId :: string
  pr_displayName :: string
  pr_createdAt :: int
  pr_archivedAt :: "int option"

record environment_row =
  er_scope :: resource_scope
  er_displayName :: string
  er_createdAt :: int
  er_archivedAt :: "int option"

record registered_service_row =
  rr_tenantId :: string
  rr_projectId :: string
  rr_serviceId :: string
  rr_displayName :: string
  rr_createdAt :: int
  rr_archivedAt :: "int option"

record service_credential_row =
  cr_credential :: service_credential
  cr_lastUsedAt :: "int option"
  cr_revokedAt :: "int option"

record native_credential_row =
  nr_credential :: native_credential
  nr_lastUsedAt :: "int option"
  nr_revokedAt :: "int option"

text \<open>\<open>ct_provisioned\<close> is the map \<^verbatim>\<open>provisionedScopes\<close> of the store object: the scopes whose transaction succeeded.\<close>

record catalog =
  ct_tenants :: "(string \<times> string) list"
  ct_projects :: "project_row list"
  ct_environments :: "environment_row list"
  ct_registeredServices :: "registered_service_row list"
  ct_serviceCredentials :: "service_credential_row list"
  ct_nativeCredentials :: "native_credential_row list"
  ct_auditEvents :: "(string \<times> audit_event) list"
  ct_provisioned :: "resource_scope list"

type_synonym 'a catalog_res = "catalog \<times> (broker_error, 'a) res"

text \<open>The tables after the migration of an empty database.\<close>

definition migrated_catalog :: "int \<Rightarrow> catalog" where
  "migrated_catalog now =
     \<lparr>ct_tenants = [(tenantId DEFAULT_RESOURCE_SCOPE, ''Internal'')],
      ct_projects = [\<lparr>pr_tenantId = tenantId DEFAULT_RESOURCE_SCOPE, pr_projectId = projectId DEFAULT_RESOURCE_SCOPE,
        pr_displayName = ''Default'', pr_createdAt = now, pr_archivedAt = None\<rparr>],
      ct_environments = [\<lparr>er_scope = DEFAULT_RESOURCE_SCOPE, er_displayName = ''Default'', er_createdAt = now, er_archivedAt = None\<rparr>],
      ct_registeredServices = [], ct_serviceCredentials = [], ct_nativeCredentials = [], ct_auditEvents = [], ct_provisioned = []\<rparr>"

subsection \<open>Statements\<close>

text \<open>\<^verbatim>\<open>insert ... on conflict (key) do update\<close>\<close>

definition upsert :: "('r \<Rightarrow> bool) \<Rightarrow> ('r \<Rightarrow> 'r) \<Rightarrow> 'r \<Rightarrow> 'r list \<Rightarrow> 'r list" where
  "upsert same f new rows = (if list_ex same rows then map (\<lambda>r. if same r then f r else r) rows else rows @ [new])"

definition update_where :: "('r \<Rightarrow> bool) \<Rightarrow> ('r \<Rightarrow> 'r) \<Rightarrow> 'r list \<Rightarrow> 'r list" where
  "update_where P f rows = map (\<lambda>r. if P r then f r else r) rows"

text \<open>\<^verbatim>\<open>pg\<close> reports a violated key as an error without an HTTP status.\<close>

abbreviation key_violation :: broker_error where
  "key_violation \<equiv> PlainError ''violates a key constraint''"

definition withTransaction :: "(catalog \<Rightarrow> 'a catalog_res) \<Rightarrow> catalog \<Rightarrow> 'a catalog_res" where
  "withTransaction action ct = (case action ct of (ct1, Inr a) \<Rightarrow> (ct1, Ok a) | (ct1, Inl e) \<Rightarrow> (ct, Err e))"

abbreviation is_project :: "string \<Rightarrow> string \<Rightarrow> project_row \<Rightarrow> bool" where
  "is_project t p r \<equiv> pr_tenantId r = t \<and> pr_projectId r = p"

abbreviation is_service :: "string \<Rightarrow> string \<Rightarrow> string \<Rightarrow> registered_service_row \<Rightarrow> bool" where
  "is_service t p s r \<equiv> rr_tenantId r = t \<and> rr_projectId r = p \<and> rr_serviceId r = s"

abbreviation in_project :: "string \<Rightarrow> string \<Rightarrow> resource_scope \<Rightarrow> bool" where
  "in_project t p s \<equiv> tenantId s = t \<and> projectId s = p"

definition active_project :: "string \<Rightarrow> string \<Rightarrow> catalog \<Rightarrow> bool" where
  "active_project t p ct \<longleftrightarrow> list_ex (\<lambda>r. is_project t p r \<and> pr_archivedAt r = None) (ct_projects ct)"

definition has_environment :: "resource_scope \<Rightarrow> catalog \<Rightarrow> bool" where
  "has_environment s ct \<longleftrightarrow> list_ex (\<lambda>r. er_scope r = s) (ct_environments ct)"

definition active_environment :: "resource_scope \<Rightarrow> catalog \<Rightarrow> bool" where
  "active_environment s ct \<longleftrightarrow> list_ex (\<lambda>r. er_scope r = s \<and> er_archivedAt r = None) (ct_environments ct)"

definition active_service :: "string \<Rightarrow> string \<Rightarrow> string \<Rightarrow> catalog \<Rightarrow> bool" where
  "active_service t p s ct \<longleftrightarrow> list_ex (\<lambda>r. is_service t p s r \<and> rr_archivedAt r = None) (ct_registeredServices ct)"

subsection \<open>Projects, environments and services\<close>

definition provision :: "int \<Rightarrow> resource_scope \<Rightarrow> string option \<Rightarrow> catalog \<Rightarrow> catalog" where
  "provision now s label ct =
     ct\<lparr>ct_tenants := upsert (\<lambda>r. fst r = tenantId s) (\<lambda>r. (fst r, case label of None \<Rightarrow> tenantId s | Some l \<Rightarrow> l))
           (tenantId s, case label of None \<Rightarrow> tenantId s | Some l \<Rightarrow> l) (ct_tenants ct),
        ct_projects := upsert (is_project (tenantId s) (projectId s)) (\<lambda>r. r\<lparr>pr_displayName := projectId s\<rparr>)
           \<lparr>pr_tenantId = tenantId s, pr_projectId = projectId s, pr_displayName = projectId s, pr_createdAt = now, pr_archivedAt = None\<rparr>
           (ct_projects ct),
        ct_environments := upsert (\<lambda>r. er_scope r = s) (\<lambda>r. r\<lparr>er_displayName := environmentId s\<rparr>)
           \<lparr>er_scope = s, er_displayName = environmentId s, er_createdAt = now, er_archivedAt = None\<rparr> (ct_environments ct)\<rparr>"

text \<open>The broker only ever passes the display name of the tenant.\<close>

definition ensureResourceScope :: "int \<Rightarrow> resource_scope \<Rightarrow> string option \<Rightarrow> catalog \<Rightarrow> unit catalog_res" where
  "ensureResourceScope now s label ct =
     (if s \<in> set (ct_provisioned ct) then (ct, Ok ())
      else let ct1 = provision now s label ct in (ct1\<lparr>ct_provisioned := ct_provisioned ct1 @ [s]\<rparr>, Ok ()))"

definition createProject :: "int \<Rightarrow> string \<Rightarrow> string \<Rightarrow> string \<Rightarrow> catalog \<Rightarrow> project_row option catalog_res" where
  "createProject now t p name ct =
     (if list_ex (\<lambda>r. fst r = t) (ct_tenants ct)
      then let rows = upsert (is_project t p) (\<lambda>r. r\<lparr>pr_displayName := name, pr_archivedAt := None\<rparr>)
             \<lparr>pr_tenantId = t, pr_projectId = p, pr_displayName = name, pr_createdAt = now, pr_archivedAt = None\<rparr> (ct_projects ct) in
           (ct\<lparr>ct_projects := rows\<rparr>, Ok (find (is_project t p) rows))
      else (ct, Ok None))"

definition listProjects :: "(string \<Rightarrow> string \<Rightarrow> bool) \<Rightarrow> string \<Rightarrow> bool \<Rightarrow> catalog \<Rightarrow> project_row list" where
  "listProjects le t archived ct =
     stable_sort (\<lambda>a b. le (pr_projectId a) (pr_projectId b))
       (filter (\<lambda>r. pr_tenantId r = t \<and> (archived \<or> pr_archivedAt r = None)) (ct_projects ct))"

text \<open>Revoking what belongs to something archived.\<close>

definition revoke_service_credentials :: "int \<Rightarrow> (service_credential \<Rightarrow> bool) \<Rightarrow> catalog \<Rightarrow> catalog" where
  "revoke_service_credentials now P ct =
     ct\<lparr>ct_serviceCredentials := update_where (\<lambda>r. P (cr_credential r) \<and> cr_revokedAt r = None)
          (\<lambda>r. r\<lparr>cr_revokedAt := Some now\<rparr>) (ct_serviceCredentials ct)\<rparr>"

definition revoke_native_credentials :: "int \<Rightarrow> (native_credential \<Rightarrow> bool) \<Rightarrow> catalog \<Rightarrow> catalog" where
  "revoke_native_credentials now P ct =
     ct\<lparr>ct_nativeCredentials := update_where (\<lambda>r. P (nr_credential r) \<and> nr_revokedAt r = None)
          (\<lambda>r. r\<lparr>nr_revokedAt := Some now\<rparr>) (ct_nativeCredentials ct)\<rparr>"

definition coalesce :: "int \<Rightarrow> int option \<Rightarrow> int option" where
  "coalesce now a = (case a of None \<Rightarrow> Some now | Some t \<Rightarrow> Some t)"

definition archiveProject :: "int \<Rightarrow> string \<Rightarrow> string \<Rightarrow> catalog \<Rightarrow> bool catalog_res" where
  "archiveProject now t p = withTransaction (\<lambda>ct.
     if length (filter (\<lambda>r. is_project t p r \<and> pr_archivedAt r = None) (ct_projects ct)) \<noteq> 1 then (ct, Ok False)
     else (revoke_native_credentials now (\<lambda>c. in_project t p (nc_scope c)) (revoke_service_credentials now (\<lambda>c. in_project t p (sc_scope c))
       (ct\<lparr>ct_projects := update_where (\<lambda>r. is_project t p r \<and> pr_archivedAt r = None) (\<lambda>r. r\<lparr>pr_archivedAt := Some now\<rparr>) (ct_projects ct),
           ct_environments := update_where (\<lambda>r. in_project t p (er_scope r)) (\<lambda>r. r\<lparr>er_archivedAt := coalesce now (er_archivedAt r)\<rparr>)
             (ct_environments ct),
           ct_registeredServices := update_where (\<lambda>r. rr_tenantId r = t \<and> rr_projectId r = p)
             (\<lambda>r. r\<lparr>rr_archivedAt := coalesce now (rr_archivedAt r)\<rparr>) (ct_registeredServices ct)\<rparr>)), Ok True))"

definition createEnvironment :: "int \<Rightarrow> resource_scope \<Rightarrow> string \<Rightarrow> catalog \<Rightarrow> environment_row option catalog_res" where
  "createEnvironment now s name ct =
     (if active_project (tenantId s) (projectId s) ct
      then let rows = upsert (\<lambda>r. er_scope r = s) (\<lambda>r. r\<lparr>er_displayName := name, er_archivedAt := None\<rparr>)
             \<lparr>er_scope = s, er_displayName = name, er_createdAt = now, er_archivedAt = None\<rparr> (ct_environments ct) in
           (ct\<lparr>ct_environments := rows\<rparr>, Ok (find (\<lambda>r. er_scope r = s) rows))
      else (ct, Ok None))"

definition listEnvironmentRows :: "(string \<Rightarrow> string \<Rightarrow> bool) \<Rightarrow> string \<Rightarrow> string \<Rightarrow> bool \<Rightarrow> catalog \<Rightarrow> environment_row list" where
  "listEnvironmentRows le t p archived ct =
     stable_sort (\<lambda>a b. le (environmentId (er_scope a)) (environmentId (er_scope b)))
       (filter (\<lambda>r. in_project t p (er_scope r) \<and> (archived \<or> er_archivedAt r = None)) (ct_environments ct))"

definition archiveEnvironment :: "int \<Rightarrow> resource_scope \<Rightarrow> catalog \<Rightarrow> bool catalog_res" where
  "archiveEnvironment now s = withTransaction (\<lambda>ct.
     if length (filter (\<lambda>r. er_scope r = s \<and> er_archivedAt r = None) (ct_environments ct)) \<noteq> 1 then (ct, Ok False)
     else (revoke_native_credentials now (\<lambda>c. nc_scope c = s) (revoke_service_credentials now (\<lambda>c. sc_scope c = s)
       (ct\<lparr>ct_environments := update_where (\<lambda>r. er_scope r = s \<and> er_archivedAt r = None)
            (\<lambda>r. r\<lparr>er_archivedAt := Some now\<rparr>) (ct_environments ct)\<rparr>)), Ok True))"

definition createRegisteredService ::
  "int \<Rightarrow> string \<Rightarrow> string \<Rightarrow> string \<Rightarrow> string \<Rightarrow> catalog \<Rightarrow> registered_service_row option catalog_res" where
  "createRegisteredService now t p s name ct =
     (if active_project t p ct
      then let rows = upsert (is_service t p s) (\<lambda>r. r\<lparr>rr_displayName := name, rr_archivedAt := None\<rparr>)
             \<lparr>rr_tenantId = t, rr_projectId = p, rr_serviceId = s, rr_displayName = name, rr_createdAt = now, rr_archivedAt = None\<rparr>
             (ct_registeredServices ct) in
           (ct\<lparr>ct_registeredServices := rows\<rparr>, Ok (find (is_service t p s) rows))
      else (ct, Ok None))"

definition getRegisteredService :: "string \<Rightarrow> string \<Rightarrow> string \<Rightarrow> catalog \<Rightarrow> registered_service_row option" where
  "getRegisteredService t p s ct = find (is_service t p s) (ct_registeredServices ct)"

definition listRegisteredServices :: "(string \<Rightarrow> string \<Rightarrow> bool) \<Rightarrow> string \<Rightarrow> string \<Rightarrow> bool \<Rightarrow> catalog \<Rightarrow> registered_service_row list" where
  "listRegisteredServices le t p archived ct =
     stable_sort (\<lambda>a b. le (rr_serviceId a) (rr_serviceId b))
       (filter (\<lambda>r. rr_tenantId r = t \<and> rr_projectId r = p \<and> (archived \<or> rr_archivedAt r = None)) (ct_registeredServices ct))"

definition archiveRegisteredService :: "int \<Rightarrow> string \<Rightarrow> string \<Rightarrow> string \<Rightarrow> catalog \<Rightarrow> bool catalog_res" where
  "archiveRegisteredService now t p s = withTransaction (\<lambda>ct.
     if length (filter (\<lambda>r. is_service t p s r \<and> rr_archivedAt r = None) (ct_registeredServices ct)) \<noteq> 1 then (ct, Ok False)
     else (revoke_service_credentials now (\<lambda>c. in_project t p (sc_scope c) \<and> sc_serviceId c = s)
       (ct\<lparr>ct_registeredServices := update_where (\<lambda>r. is_service t p s r \<and> rr_archivedAt r = None)
            (\<lambda>r. r\<lparr>rr_archivedAt := Some now\<rparr>) (ct_registeredServices ct)\<rparr>), Ok True))"

subsection \<open>Credentials\<close>

definition createServiceCredential :: "service_credential \<Rightarrow> catalog \<Rightarrow> service_credential_row catalog_res" where
  "createServiceCredential c ct =
     (if list_ex (\<lambda>r. sc_credentialId (cr_credential r) = sc_credentialId c \<or> sc_secretHash (cr_credential r) = sc_secretHash c)
           (ct_serviceCredentials ct) \<or> \<not> has_environment (sc_scope c) ct
      then (ct, Err key_violation)
      else let row = \<lparr>cr_credential = c, cr_lastUsedAt = None, cr_revokedAt = None\<rparr> in
        (ct\<lparr>ct_serviceCredentials := ct_serviceCredentials ct @ [row]\<rparr>, Ok row))"

definition created_le :: "(string \<Rightarrow> string \<Rightarrow> bool) \<Rightarrow> int \<times> string \<Rightarrow> int \<times> string \<Rightarrow> bool" where
  "created_le le a b \<longleftrightarrow> fst a < fst b \<or> fst a = fst b \<and> le (snd a) (snd b)"

definition listServiceCredentials :: "(string \<Rightarrow> string \<Rightarrow> bool) \<Rightarrow> resource_scope \<Rightarrow> catalog \<Rightarrow> service_credential_row list" where
  "listServiceCredentials le s ct =
     stable_sort (\<lambda>a b. created_le le (sc_createdAt (cr_credential a), sc_credentialId (cr_credential a))
         (sc_createdAt (cr_credential b), sc_credentialId (cr_credential b)))
       (filter (\<lambda>r. sc_scope (cr_credential r) = s) (ct_serviceCredentials ct))"

definition revokeServiceCredential :: "int \<Rightarrow> string \<Rightarrow> resource_scope \<Rightarrow> catalog \<Rightarrow> bool catalog_res" where
  "revokeServiceCredential now i s ct =
     (let P = (\<lambda>c. sc_credentialId c = i \<and> sc_scope c = s) in
      (revoke_service_credentials now P ct,
       Ok (length (filter (\<lambda>r. P (cr_credential r) \<and> cr_revokedAt r = None) (ct_serviceCredentials ct)) = 1)))"

text \<open>A credential that was not seen for five minutes gets a new time of its last use.\<close>

definition authenticate_service :: "int \<Rightarrow> string \<Rightarrow> catalog \<Rightarrow> service_credential_row option catalog_res" where
  "authenticate_service now hash ct =
     (case find (\<lambda>r. sc_secretHash (cr_credential r) = hash \<and> cr_revokedAt r = None) (ct_serviceCredentials ct) of
        None \<Rightarrow> (ct, Ok None)
      | Some row \<Rightarrow>
          (if (case cr_lastUsedAt row of None \<Rightarrow> True | Some t \<Rightarrow> t < now - 300000)
           then ct\<lparr>ct_serviceCredentials := update_where
              (\<lambda>r. sc_credentialId (cr_credential r) = sc_credentialId (cr_credential row) \<and> cr_revokedAt r = None)
              (\<lambda>r. r\<lparr>cr_lastUsedAt := Some now\<rparr>) (ct_serviceCredentials ct)\<rparr>
           else ct, Ok (Some row)))"

definition createNativeCredential :: "native_credential \<Rightarrow> catalog \<Rightarrow> native_credential_row catalog_res" where
  "createNativeCredential c ct =
     (if list_ex (\<lambda>r. nc_scope (nr_credential r) = nc_scope c \<and> nc_credentialId (nr_credential r) = nc_credentialId c \<or>
             nc_secretHash (nr_credential r) = nc_secretHash c) (ct_nativeCredentials ct) \<or> \<not> has_environment (nc_scope c) ct
      then (ct, Err key_violation)
      else let row = \<lparr>nr_credential = c, nr_lastUsedAt = None, nr_revokedAt = None\<rparr> in
        (ct\<lparr>ct_nativeCredentials := ct_nativeCredentials ct @ [row]\<rparr>, Ok row))"

definition listNativeCredentials :: "(string \<Rightarrow> string \<Rightarrow> bool) \<Rightarrow> resource_scope \<Rightarrow> catalog \<Rightarrow> native_credential_row list" where
  "listNativeCredentials le s ct =
     stable_sort (\<lambda>a b. created_le le (nc_createdAt (nr_credential a), nc_credentialId (nr_credential a))
         (nc_createdAt (nr_credential b), nc_credentialId (nr_credential b)))
       (filter (\<lambda>r. nc_scope (nr_credential r) = s) (ct_nativeCredentials ct))"

definition revokeNativeCredential :: "int \<Rightarrow> string \<Rightarrow> resource_scope \<Rightarrow> catalog \<Rightarrow> bool catalog_res" where
  "revokeNativeCredential now i s ct =
     (let P = (\<lambda>c. nc_credentialId c = i \<and> nc_scope c = s) in
      (revoke_native_credentials now P ct,
       Ok (length (filter (\<lambda>r. P (nr_credential r) \<and> nr_revokedAt r = None) (ct_nativeCredentials ct)) = 1)))"

definition authenticate_native :: "int \<Rightarrow> string \<Rightarrow> catalog \<Rightarrow> native_credential_row option catalog_res" where
  "authenticate_native now hash ct =
     (case find (\<lambda>r. nc_secretHash (nr_credential r) = hash \<and> nr_revokedAt r = None \<and>
             active_project (tenantId (nc_scope (nr_credential r))) (projectId (nc_scope (nr_credential r))) ct \<and>
             active_environment (nc_scope (nr_credential r)) ct) (ct_nativeCredentials ct) of
        None \<Rightarrow> (ct, Ok None)
      | Some row \<Rightarrow>
          (ct\<lparr>ct_nativeCredentials := update_where
              (\<lambda>r. nc_scope (nr_credential r) = nc_scope (nr_credential row) \<and>
                 nc_credentialId (nr_credential r) = nc_credentialId (nr_credential row) \<and> nr_revokedAt r = None)
              (\<lambda>r. r\<lparr>nr_lastUsedAt := Some now\<rparr>) (ct_nativeCredentials ct)\<rparr>, Ok (Some row)))"

subsection \<open>The audit table\<close>

definition insertAuditEvent :: "string \<Rightarrow> audit_event \<Rightarrow> catalog \<Rightarrow> unit catalog_res" where
  "insertAuditEvent i e ct =
     (if list_ex (\<lambda>r. fst r = i) (ct_auditEvents ct) \<or> \<not> has_environment (ae_scope e) ct then (ct, Err key_violation)
      else (ct\<lparr>ct_auditEvents := ct_auditEvents ct @ [(i, e)]\<rparr>, Ok ()))"

definition listAuditEvents :: "(string \<Rightarrow> string \<Rightarrow> bool) \<Rightarrow> resource_scope \<Rightarrow> nat \<Rightarrow> int option \<Rightarrow> catalog \<Rightarrow> (string \<times> audit_event) list" where
  "listAuditEvents le s limit before ct =
     take limit (stable_sort (\<lambda>a b. created_le le (ae_occurredAt (snd b), fst b) (ae_occurredAt (snd a), fst a))
       (filter (\<lambda>r. ae_scope (snd r) = s \<and> (case before of None \<Rightarrow> True | Some t \<Rightarrow> ae_occurredAt (snd r) < t)) (ct_auditEvents ct)))"

end
