(* ===== verification/Catalog_Routes.thy ===== *)
theory Catalog_Routes
  imports Postgres_Catalog
begin

text \<open>
  The routes of \<^verbatim>\<open>buildBroker\<close> that administer projects, environments, services, credentials and the audit log, over
  the catalog of \<^verbatim>\<open>PostgresStore\<close>; without that store they answer 503.  The clock of the broker, the clock of the
  database, the random ids and secrets and SHA-256 are parameters.
\<close>

section \<open>Definitions\<close>

record catalog_env =
  ce_postgres :: bool
  ce_now :: int
  ce_dbNow :: int
  ce_le :: "string \<Rightarrow> string \<Rightarrow> bool"
  ce_auditId :: "nat \<Rightarrow> string"
  ce_sha256 :: "string \<Rightarrow> string"
  ce_secret :: string
  ce_idHex :: string

datatype catalog_route =
    CreateProject string string
  | ListProjects bool
  | ArchiveProject string
  | CreateEnvironment string string string
  | ListEnvironments string bool
  | ArchiveEnvironment string string
  | CreateService string string string
  | ListServices string bool
  | ArchiveService string string
  | CreateServiceCredential "string option" "string option" string string
  | ListServiceCredentials "string option" "string option" "string option"
  | RevokeServiceCredential string "string option" "string option" "string option"
  | CreateNativeCredential string "string list" string
  | ListNativeCredentials
  | RevokeNativeCredential string
  | ListAuditEvents nat "int option"

datatype catalog_payload =
    ProjectBody project_row
  | ProjectsBody "project_row list"
  | EnvironmentBody environment_row
  | EnvironmentsBody "environment_row list"
  | ServiceBody registered_service_row
  | ServicesBody "registered_service_row list"
  | ServiceCredentialBody service_credential_row string
  | ServiceCredentialsBody "service_credential_row list"
  | NativeCredentialBody native_credential_row string
  | NativeCredentialsBody "native_credential_row list"
  | AuditEventsBody "(string \<times> audit_event) list"
  | EmptyBody

definition displayName_parse :: "string \<Rightarrow> string option" where
  "displayName_parse = trimmed 1 200"

definition credentialId_ok :: "string \<Rightarrow> string \<Rightarrow> bool" where
  "credentialId_ok kind i \<longleftrightarrow> take 4 i = kind \<and> length i = 36 \<and> list_all (\<lambda>c. is_digit c \<or> c \<in> set ''abcdef'') (drop 4 i)"

definition catalog_recorder :: "catalog_env \<Rightarrow> caller \<Rightarrow> catalog recorder" where
  "catalog_recorder env c ctx outcome status code ct =
     (if ce_postgres env
      then insertAuditEvent (ce_auditId env (length (ct_auditEvents ct))) (audit_event_of (ce_now env) c ctx outcome status code) ct
      else (ct, Ok ()))"

definition with_checked :: "(broker_error, 'b) res \<Rightarrow> ('b \<Rightarrow> catalog \<Rightarrow> 'a catalog_res) \<Rightarrow> catalog \<Rightarrow> 'a catalog_res" where
  "with_checked g k ct = (case g of Inl e \<Rightarrow> (ct, Err e) | Inr b \<Rightarrow> k b ct)"

definition from_store :: "catalog_env \<Rightarrow> string \<Rightarrow> string \<Rightarrow> (broker_error, unit) res" where
  "from_store env code what =
     (if ce_postgres env then Ok () else Err (HttpError 503 code (what @ '' the PostgreSQL durable store'')))"

abbreviation catalog_store_required :: "catalog_env \<Rightarrow> string \<Rightarrow> (broker_error, unit) res" where
  "catalog_store_required env what \<equiv> from_store env ''catalog_store_unavailable'' (what @ '' management requires'')"

abbreviation credential_store_required :: "catalog_env \<Rightarrow> string \<Rightarrow> (broker_error, unit) res" where
  "credential_store_required env what \<equiv> from_store env ''credential_store_unavailable'' (what @ '' credentials require'')"

text \<open>An answer of the store that may be missing, and one that says whether a row was changed.\<close>

definition found_or :: "broker_error \<Rightarrow> (catalog \<Rightarrow> 'a option catalog_res) \<Rightarrow> catalog \<Rightarrow> 'a catalog_res" where
  "found_or e f ct = (case f ct of (ct1, Inl e1) \<Rightarrow> (ct1, Err e1) | (ct1, Inr None) \<Rightarrow> (ct1, Err e) | (ct1, Inr (Some a)) \<Rightarrow> (ct1, Ok a))"

definition done_or :: "broker_error \<Rightarrow> (catalog \<Rightarrow> bool catalog_res) \<Rightarrow> catalog \<Rightarrow> unit catalog_res" where
  "done_or e f ct = (case f ct of (ct1, Inl e1) \<Rightarrow> (ct1, Err e1) | (ct1, Inr b) \<Rightarrow> (ct1, if b then Ok () else Err e))"

abbreviation answered :: "('a \<Rightarrow> catalog_payload) \<Rightarrow> 'a catalog_res \<Rightarrow> catalog_payload catalog_res" where
  "answered f r \<equiv> (fst r, case snd r of Inl e \<Rightarrow> Err e | Inr a \<Rightarrow> Ok (f a))"

abbreviation with_id :: "('a \<Rightarrow> string option) \<Rightarrow> 'a catalog_res \<Rightarrow> ('a \<times> string option) catalog_res" where
  "with_id f r \<equiv> (fst r, case snd r of Inl e \<Rightarrow> Err e | Inr a \<Rightarrow> Ok (a, f a))"

definition audited :: "catalog_env \<Rightarrow> caller \<Rightarrow> string \<Rightarrow> string \<Rightarrow> string \<Rightarrow> (string \<times> string) list \<Rightarrow> nat \<Rightarrow>
    (catalog \<Rightarrow> 'a catalog_res) \<Rightarrow> catalog \<Rightarrow> 'a catalog_res" where
  "audited env c action type rid meta status operation =
     runAuditedMutation (catalog_recorder env c)
       \<lparr>ax_action = action, ax_resourceType = type, ax_resourceId = Some rid, ax_metadata = meta, ax_successStatus = status, ax_scope = None\<rparr>
       (\<lambda>ct. with_id (\<lambda>_. Some rid) (operation ct))"

subsection \<open>Projects, environments and services\<close>

abbreviation scope_in :: "caller \<Rightarrow> string \<Rightarrow> string \<Rightarrow> resource_scope" where
  "scope_in c p e \<equiv> \<lparr>tenantId = tenantId (principal_scope (fst c)), projectId = p, environmentId = e\<rparr>"

abbreviation caller_tenant :: "caller \<Rightarrow> string" where
  "caller_tenant c \<equiv> tenantId (principal_scope (fst c))"

definition postProject :: "catalog_env \<Rightarrow> caller \<Rightarrow> string \<Rightarrow> string \<Rightarrow> catalog \<Rightarrow> catalog_payload catalog_res" where
  "postProject env c p0 name0 =
     with_checked (parsed ''projectCreateSchema'' (catalogId_parse p0)) (\<lambda>p.
     with_checked (parsed ''projectCreateSchema'' (displayName_parse name0)) (\<lambda>name ct.
       answered ProjectBody (audited env c ''project.create'' ''project'' p [(''projectId'', p)] 201
         (with_checked (requireAdmin (fst c)) (\<lambda>_. with_checked (catalog_store_required env ''project'') (\<lambda>_.
            found_or (HttpError 404 ''tenant_not_found'' (''tenant '' @ caller_tenant c @ '' was not found''))
              (createProject (ce_dbNow env) (caller_tenant c) p name)))) ct)))"

definition deleteProject :: "catalog_env \<Rightarrow> caller \<Rightarrow> string \<Rightarrow> catalog \<Rightarrow> catalog_payload catalog_res" where
  "deleteProject env c p0 =
     with_checked (parsed ''projectParamsSchema'' (catalogId_parse p0)) (\<lambda>p ct.
       answered (\<lambda>_. EmptyBody) (audited env c ''project.archive'' ''project'' p [(''projectId'', p)] 204
         (with_checked (requireAdmin (fst c)) (\<lambda>_. with_checked (catalog_store_required env ''project'') (\<lambda>_.
            done_or (HttpError 404 ''not_found'' (''active project '' @ p @ '' was not found''))
              (archiveProject (ce_dbNow env) (caller_tenant c) p)))) ct))"

definition postEnvironment :: "catalog_env \<Rightarrow> caller \<Rightarrow> string \<Rightarrow> string \<Rightarrow> string \<Rightarrow> catalog \<Rightarrow> catalog_payload catalog_res" where
  "postEnvironment env c p0 e0 name0 =
     with_checked (parsed ''projectParamsSchema'' (catalogId_parse p0)) (\<lambda>p.
     with_checked (parsed ''environmentCreateSchema'' (catalogId_parse e0)) (\<lambda>e.
     with_checked (parsed ''environmentCreateSchema'' (displayName_parse name0)) (\<lambda>name ct.
       answered EnvironmentBody (audited env c ''environment.create'' ''environment'' e [(''projectId'', p), (''environmentId'', e)] 201
         (with_checked (requireAdmin (fst c)) (\<lambda>_. with_checked (catalog_store_required env ''environment'') (\<lambda>_.
            found_or (HttpError 404 ''project_not_found'' (''active project '' @ p @ '' was not found''))
              (createEnvironment (ce_dbNow env) (scope_in c p e) name)))) ct))))"

definition deleteEnvironment :: "catalog_env \<Rightarrow> caller \<Rightarrow> string \<Rightarrow> string \<Rightarrow> catalog \<Rightarrow> catalog_payload catalog_res" where
  "deleteEnvironment env c p0 e0 =
     with_checked (parsed ''environmentParamsSchema'' (catalogId_parse p0)) (\<lambda>p.
     with_checked (parsed ''environmentParamsSchema'' (catalogId_parse e0)) (\<lambda>e ct.
       answered (\<lambda>_. EmptyBody) (audited env c ''environment.archive'' ''environment'' e [(''projectId'', p), (''environmentId'', e)] 204
         (with_checked (requireAdmin (fst c)) (\<lambda>_. with_checked (catalog_store_required env ''environment'') (\<lambda>_.
            done_or (HttpError 404 ''not_found'' (''active environment '' @ p @ ''/'' @ e @ '' was not found''))
              (archiveEnvironment (ce_dbNow env) (scope_in c p e))))) ct)))"

definition postService :: "catalog_env \<Rightarrow> caller \<Rightarrow> string \<Rightarrow> string \<Rightarrow> string \<Rightarrow> catalog \<Rightarrow> catalog_payload catalog_res" where
  "postService env c p0 s0 name0 =
     with_checked (parsed ''projectParamsSchema'' (catalogId_parse p0)) (\<lambda>p.
     with_checked (parsed ''registeredServiceCreateSchema'' (serviceId_parse s0)) (\<lambda>s.
     with_checked (parsed ''registeredServiceCreateSchema'' (displayName_parse name0)) (\<lambda>name ct.
       answered ServiceBody (audited env c ''service.create'' ''service'' s [(''projectId'', p), (''serviceId'', s)] 201
         (with_checked (requireAdmin (fst c)) (\<lambda>_. with_checked (catalog_store_required env ''service'') (\<lambda>_.
            found_or (HttpError 404 ''project_not_found'' (''active project '' @ p @ '' was not found''))
              (createRegisteredService (ce_dbNow env) (caller_tenant c) p s name)))) ct))))"

definition deleteService :: "catalog_env \<Rightarrow> caller \<Rightarrow> string \<Rightarrow> string \<Rightarrow> catalog \<Rightarrow> catalog_payload catalog_res" where
  "deleteService env c p0 s0 =
     with_checked (parsed ''registeredServiceParamsSchema'' (catalogId_parse p0)) (\<lambda>p.
     with_checked (parsed ''registeredServiceParamsSchema'' (serviceId_parse s0)) (\<lambda>s ct.
       answered (\<lambda>_. EmptyBody) (audited env c ''service.archive'' ''service'' s [(''projectId'', p), (''serviceId'', s)] 204
         (with_checked (requireAdmin (fst c)) (\<lambda>_. with_checked (catalog_store_required env ''service'') (\<lambda>_.
            done_or (HttpError 404 ''not_found'' (''active service '' @ p @ ''/'' @ s @ '' was not found''))
              (archiveRegisteredService (ce_dbNow env) (caller_tenant c) p s)))) ct)))"

subsection \<open>Credentials\<close>

text \<open>What the creation of a service credential checks and registers before it issues one.\<close>

definition credential_environment :: "resource_scope \<Rightarrow> catalog \<Rightarrow> (broker_error, unit) res" where
  "credential_environment s ct =
     (if active_environment s ct then Ok ()
      else Err (HttpError 404 ''environment_not_found'' (''active environment '' @ projectId s @ ''/'' @ environmentId s @ '' was not found'')))"

definition credential_service :: "catalog_env \<Rightarrow> resource_scope \<Rightarrow> string \<Rightarrow> catalog \<Rightarrow> unit catalog_res" where
  "credential_service env s sid ct =
     (case getRegisteredService (tenantId s) (projectId s) sid ct of
        Some row \<Rightarrow>
          if rr_archivedAt row \<noteq> None
          then (ct, Err (HttpError 409 ''service_archived'' (''service '' @ projectId s @ ''/'' @ sid @ '' is archived'')))
          else (ct, Ok ())
      | None \<Rightarrow>
          (case createRegisteredService (ce_dbNow env) (tenantId s) (projectId s) sid sid ct of
             (ct1, Inl e) \<Rightarrow> (ct1, Err e)
           | (ct1, Inr None) \<Rightarrow> (ct1, Err (HttpError 404 ''project_not_found'' (''active project '' @ projectId s @ '' was not found'')))
           | (ct1, Inr (Some _)) \<Rightarrow> (ct1, Ok ())))"

definition issue_service_credential ::
  "catalog_env \<Rightarrow> resource_scope \<Rightarrow> string \<Rightarrow> string \<Rightarrow> catalog \<Rightarrow> (service_credential_row \<times> string) catalog_res" where
  "issue_service_credential env s sid label ct =
     (let (apiKey, material) = createServiceCredentialMaterial (ce_sha256 env) (ce_secret env) (ce_idHex env) (ce_now env) sid label (Some s) in
      (case createServiceCredential material ct of
         (ct1, Inl e) \<Rightarrow> (ct1, Err e)
       | (ct1, Inr row) \<Rightarrow> (ct1, Ok (row, apiKey))))"

definition postServiceCredential ::
  "catalog_env \<Rightarrow> caller \<Rightarrow> string option \<Rightarrow> string option \<Rightarrow> string \<Rightarrow> string \<Rightarrow> catalog \<Rightarrow> catalog_payload catalog_res" where
  "postServiceCredential env c p0 e0 sid0 label0 =
     with_checked (parsed ''serviceCredentialCreateSchema'' (opt_parse catalogId_parse p0)) (\<lambda>p.
     with_checked (parsed ''serviceCredentialCreateSchema'' (opt_parse catalogId_parse e0)) (\<lambda>e.
     with_checked (parsed ''serviceCredentialCreateSchema'' (serviceId_parse sid0)) (\<lambda>sid.
     with_checked (parsed ''serviceCredentialCreateSchema'' (trimmed 1 200 label0)) (\<lambda>label.
     with_checked (requireAdmin (fst c)) (\<lambda>_ ct.
       let s = selectedResourceScope (snd c) p e in
       answered (\<lambda>(row, key). ServiceCredentialBody row key) (runAuditedMutation (catalog_recorder env c)
         \<lparr>ax_action = ''service_credential.create'', ax_resourceType = ''service_credential'', ax_resourceId = None,
          ax_metadata = [(''projectId'', projectId s), (''environmentId'', environmentId s), (''serviceId'', sid)],
          ax_successStatus = 201, ax_scope = Some s\<rparr>
         (with_checked (credential_store_required env ''service'') (\<lambda>_ ct1.
            with_checked (credential_environment s ct1) (\<lambda>_ ct1.
              case credential_service env s sid ct1 of
                (ct2, Inl err) \<Rightarrow> (ct2, Err err)
              | (ct2, Inr _) \<Rightarrow> with_id (\<lambda>(row, _). Some (sc_credentialId (cr_credential row))) (issue_service_credential env s sid label ct2)) ct1))
         ct))))))"

definition deleteServiceCredential ::
  "catalog_env \<Rightarrow> caller \<Rightarrow> string \<Rightarrow> string option \<Rightarrow> string option \<Rightarrow> string option \<Rightarrow> catalog \<Rightarrow> catalog_payload catalog_res" where
  "deleteServiceCredential env c i p0 e0 sid0 =
     with_checked (parsed ''serviceCredentialQuerySchema'' (opt_parse catalogId_parse p0)) (\<lambda>p.
     with_checked (parsed ''serviceCredentialQuerySchema'' (opt_parse catalogId_parse e0)) (\<lambda>e.
     with_checked (parsed ''serviceCredentialQuerySchema'' (opt_parse serviceId_parse sid0)) (\<lambda>_.
     with_checked (if credentialId_ok ''svc_'' i then Ok () else Err (SchemaError ''serviceCredentialParamsSchema'')) (\<lambda>_.
     with_checked (requireAdmin (fst c)) (\<lambda>_ ct.
       let s = selectedResourceScope (snd c) p e in
       answered (\<lambda>_. EmptyBody) (runAuditedMutation (catalog_recorder env c)
         \<lparr>ax_action = ''service_credential.revoke'', ax_resourceType = ''service_credential'', ax_resourceId = Some i,
          ax_metadata = [(''projectId'', projectId s), (''environmentId'', environmentId s)], ax_successStatus = 204, ax_scope = Some s\<rparr>
         (with_checked (credential_store_required env ''service'') (\<lambda>_ ct1. with_id (\<lambda>_. Some i)
            (done_or (HttpError 404 ''not_found'' (''service credential '' @ i @ '' was not found or is already revoked''))
              (revokeServiceCredential (ce_dbNow env) i s) ct1)))
         ct))))))"

text \<open>A native credential is issued in the scope of the principal, not in the selected one.\<close>

definition postNativeCredential :: "catalog_env \<Rightarrow> caller \<Rightarrow> string \<Rightarrow> string list \<Rightarrow> string \<Rightarrow> catalog \<Rightarrow> catalog_payload catalog_res" where
  "postNativeCredential env c aid0 allowed0 label0 =
     with_checked (parsed ''nativeCredentialCreateSchema'' (agentId_parse aid0)) (\<lambda>aid.
     with_checked (parsed ''nativeCredentialCreateSchema'' (if allowed0 = [] then None else bounded_list 1000 serviceId_parse allowed0)) (\<lambda>allowed.
     with_checked (parsed ''nativeCredentialCreateSchema'' (trimmed 1 200 label0)) (\<lambda>label ct.
       answered (\<lambda>(row, key). NativeCredentialBody row key) (runAuditedMutation (catalog_recorder env c)
         \<lparr>ax_action = ''native_credential.create'', ax_resourceType = ''native_credential'', ax_resourceId = None,
          ax_metadata = [(''agentId'', aid)], ax_successStatus = 201, ax_scope = None\<rparr>
         (with_checked (requireAdmin (fst c)) (\<lambda>_. with_checked (credential_store_required env ''native'') (\<lambda>_ ct1.
            let (apiKey, material) = createNativeCredentialMaterial (ce_sha256 env) (ce_secret env) (ce_idHex env) (ce_now env)
                   aid allowed label (Some (principal_scope (fst c))) in
            (case createNativeCredential material ct1 of
               (ct2, Inl err) \<Rightarrow> (ct2, Err err)
             | (ct2, Inr row) \<Rightarrow> (ct2, Ok ((row, apiKey), Some (nc_credentialId (nr_credential row))))))))
         ct))))"

definition deleteNativeCredential :: "catalog_env \<Rightarrow> caller \<Rightarrow> string \<Rightarrow> catalog \<Rightarrow> catalog_payload catalog_res" where
  "deleteNativeCredential env c i =
     with_checked (if credentialId_ok ''nat_'' i then Ok () else Err (SchemaError ''nativeCredentialParamsSchema'')) (\<lambda>_ ct.
       answered (\<lambda>_. EmptyBody) (audited env c ''native_credential.revoke'' ''native_credential'' i [] 204
         (with_checked (requireAdmin (fst c)) (\<lambda>_. with_checked (credential_store_required env ''native'') (\<lambda>_.
            done_or (HttpError 404 ''not_found'' ''native credential not found'')
              (revokeNativeCredential (ce_dbNow env) i (principal_scope (fst c)))))) ct))"

subsection \<open>Dispatch\<close>

definition list_route :: "catalog_env \<Rightarrow> caller \<Rightarrow> string \<Rightarrow> string \<Rightarrow> (broker_error, 'b) res \<Rightarrow> ('b \<Rightarrow> catalog \<Rightarrow> catalog_payload) \<Rightarrow>
    catalog \<Rightarrow> catalog_payload catalog_res" where
  "list_route env c code what query view =
     with_checked (requireHumanRead (fst c)) (\<lambda>_. with_checked query (\<lambda>q. with_checked (from_store env code what) (\<lambda>_ ct. (ct, Ok (view q ct)))))"

fun handle_catalog :: "catalog_env \<Rightarrow> caller \<Rightarrow> catalog_route \<Rightarrow> catalog \<Rightarrow> catalog_payload catalog_res" where
  "handle_catalog env c (CreateProject p name) = postProject env c p name"
| "handle_catalog env c (ListProjects archived) =
     list_route env c ''catalog_store_unavailable'' ''project management requires'' (Ok ())
       (\<lambda>_ ct. ProjectsBody (listProjects (ce_le env) (caller_tenant c) archived ct))"
| "handle_catalog env c (ArchiveProject p) = deleteProject env c p"
| "handle_catalog env c (CreateEnvironment p e name) = postEnvironment env c p e name"
| "handle_catalog env c (ListEnvironments p archived) =
     list_route env c ''catalog_store_unavailable'' ''environment management requires'' (parsed ''projectParamsSchema'' (catalogId_parse p))
       (\<lambda>p ct. EnvironmentsBody (listEnvironmentRows (ce_le env) (caller_tenant c) p archived ct))"
| "handle_catalog env c (ArchiveEnvironment p e) = deleteEnvironment env c p e"
| "handle_catalog env c (CreateService p s name) = postService env c p s name"
| "handle_catalog env c (ListServices p archived) =
     list_route env c ''catalog_store_unavailable'' ''service management requires'' (parsed ''projectParamsSchema'' (catalogId_parse p))
       (\<lambda>p ct. ServicesBody (listRegisteredServices (ce_le env) (caller_tenant c) p archived ct))"
| "handle_catalog env c (ArchiveService p s) = deleteService env c p s"
| "handle_catalog env c (CreateServiceCredential p e sid label) = postServiceCredential env c p e sid label"
| "handle_catalog env c (ListServiceCredentials p e sid) =
     list_route env c ''credential_store_unavailable'' ''service credentials require''
       (parsed ''serviceCredentialQuerySchema'' (case (opt_parse catalogId_parse p, opt_parse catalogId_parse e, opt_parse serviceId_parse sid) of
          (Some p, Some e, Some sid) \<Rightarrow> Some (p, e, sid) | _ \<Rightarrow> None))
       (\<lambda>(p, e, sid) ct. ServiceCredentialsBody (filter (\<lambda>r. sid = None \<or> sid = Some (sc_serviceId (cr_credential r)))
          (listServiceCredentials (ce_le env) (selectedResourceScope (snd c) p e) ct)))"
| "handle_catalog env c (RevokeServiceCredential i p e sid) = deleteServiceCredential env c i p e sid"
| "handle_catalog env c (CreateNativeCredential aid allowed label) = postNativeCredential env c aid allowed label"
| "handle_catalog env c ListNativeCredentials =
     list_route env c ''credential_store_unavailable'' ''native credentials require'' (Ok ())
       (\<lambda>_ ct. NativeCredentialsBody (listNativeCredentials (ce_le env) (principal_scope (fst c)) ct))"
| "handle_catalog env c (RevokeNativeCredential i) = deleteNativeCredential env c i"
| "handle_catalog env c (ListAuditEvents limit before) =
     list_route env c ''audit_store_unavailable'' ''audit events require''
       (if 1 \<le> limit \<and> limit \<le> 100 then Ok () else Err (SchemaError ''auditListQuerySchema''))
       (\<lambda>_ ct. AuditEventsBody (listAuditEvents (ce_le env) (snd c) limit before ct))"

end
