(* ===== verification/Catalog_Security.thy ===== *)
theory Catalog_Security
  imports Catalog_Routes
begin

text \<open>
  What the administration of the catalog promises: a credential that authenticates belongs to something that is not
  archived, a revoked credential never authenticates again, the audit log only grows, and a request changes no row of
  another tenant.  The locale \<open>catalog_law\<close> says which relations between catalogs every request keeps; its
  interpretations are the promises.
\<close>

section \<open>Definitions\<close>




text \<open>The credential tables as the authentication hook sees them.\<close>

definition catalog_store :: "int \<Rightarrow> (string \<Rightarrow> string \<Rightarrow> bool) \<Rightarrow> catalog \<Rightarrow> credential_store" where
  "catalog_store now le ct =
     \<lparr>authenticateServiceCredential = Some (\<lambda>h. case snd (authenticate_service now h ct) of Inr (Some r) \<Rightarrow> Some (cr_credential r) | _ \<Rightarrow> None),
      authenticateNativeCredential = Some (\<lambda>h. case snd (authenticate_native now h ct) of Inr (Some r) \<Rightarrow> Some (nr_credential r) | _ \<Rightarrow> None),
      listEnvironments = Some (\<lambda>t p. map (\<lambda>r. environmentId (er_scope r)) (listEnvironmentRows le t p False ct))\<rparr>"

text \<open>A live service credential belongs to an active environment and an active service, an active service to an active
  project, and no two credentials share a secret.\<close>

definition service_live :: "service_credential \<Rightarrow> catalog \<Rightarrow> bool" where
  "service_live c ct \<longleftrightarrow> active_environment (sc_scope c) ct \<and>
     active_service (tenantId (sc_scope c)) (projectId (sc_scope c)) (sc_serviceId c) ct"



definition kept_service :: "service_credential_row \<Rightarrow> service_credential_row \<Rightarrow> bool" where
  "kept_service r r' \<longleftrightarrow> cr_credential r' = cr_credential r \<and> (cr_revokedAt r \<noteq> None \<longrightarrow> cr_revokedAt r' = cr_revokedAt r)"

definition kept_native :: "native_credential_row \<Rightarrow> native_credential_row \<Rightarrow> bool" where
  "kept_native r r' \<longleftrightarrow> nr_credential r' = nr_credential r \<and> (nr_revokedAt r \<noteq> None \<longrightarrow> nr_revokedAt r' = nr_revokedAt r)"


text \<open>The rows of a tenant are the same.\<close>

definition same_rows :: "string \<Rightarrow> catalog \<Rightarrow> catalog \<Rightarrow> bool" where
  "same_rows t ct ct' \<longleftrightarrow>
     filter (\<lambda>r. pr_tenantId r = t) (ct_projects ct) = filter (\<lambda>r. pr_tenantId r = t) (ct_projects ct') \<and>
     filter (\<lambda>r. tenantId (er_scope r) = t) (ct_environments ct) = filter (\<lambda>r. tenantId (er_scope r) = t) (ct_environments ct') \<and>
     filter (\<lambda>r. rr_tenantId r = t) (ct_registeredServices ct) = filter (\<lambda>r. rr_tenantId r = t) (ct_registeredServices ct') \<and>
     filter (\<lambda>r. tenantId (sc_scope (cr_credential r)) = t) (ct_serviceCredentials ct) =
       filter (\<lambda>r. tenantId (sc_scope (cr_credential r)) = t) (ct_serviceCredentials ct') \<and>
     filter (\<lambda>r. tenantId (nc_scope (nr_credential r)) = t) (ct_nativeCredentials ct) =
       filter (\<lambda>r. tenantId (nc_scope (nr_credential r)) = t) (ct_nativeCredentials ct') \<and>
     filter (\<lambda>r. tenantId (ae_scope (snd r)) = t) (ct_auditEvents ct) = filter (\<lambda>r. tenantId (ae_scope (snd r)) = t) (ct_auditEvents ct')"

subsection \<open>A sample catalog\<close>

text \<open>The default environment with a registered service, a live credential for it and a revoked one.\<close>

definition sample_live_credential :: service_credential where
  "sample_live_credential = snd (createServiceCredentialMaterial (\<lambda>x. x) ''s3cret'' ''01'' 5 ''pay'' ''ci'' None)"

definition sample_catalog_env :: catalog_env where
  "sample_catalog_env = \<lparr>ce_postgres = True, ce_now = 5, ce_dbNow = 5, ce_le = (\<le>), ce_auditId = (\<lambda>n. replicate n CHR ''a''),
     ce_sha256 = (\<lambda>x. x), ce_secret = ''s3cret'', ce_idHex = ''01''\<rparr>"

definition sample_admin :: caller where
  "sample_admin = (sharedPrincipal SharedKey, DEFAULT_RESOURCE_SCOPE)"

definition sample_catalog :: catalog where
  "sample_catalog = fst (handle_catalog sample_catalog_env sample_admin (CreateServiceCredential None None ''pay'' ''ci'') (migrated_catalog 5))"


definition sample_catalog_auth :: auth_config where
  "sample_catalog_auth = \<lparr>ac_apiKeys = [''root-key''], ac_authenticateBearer = None, ac_store = Some (catalog_store 9 (\<le>) sample_catalog), ac_sha256 = (\<lambda>x. x)\<rparr>"

text \<open>An operation relates the catalog before to the catalog after.\<close>

definition keeps_law :: "(catalog \<Rightarrow> catalog \<Rightarrow> bool) \<Rightarrow> (catalog \<Rightarrow> 'a catalog_res) \<Rightarrow> bool" where
  "keeps_law Q f \<longleftrightarrow> (\<forall>ct. Q ct (fst (f ct)))"

section \<open>Lemmas\<close>

subsection \<open>Relations every request keeps\<close>


lemma upsert_new: "P new \<Longrightarrow> (\<And>r. same r \<Longrightarrow> P (f r)) \<Longrightarrow> list_ex P (upsert same f new rows)"
  by (auto simp: upsert_def list_ex_iff)

lemma credential_service_live:
  assumes "credential_service env s sid ct = (ct2, Inr u)" "active_environment s ct"
  shows "active_environment s ct2 \<and> active_service (tenantId s) (projectId s) sid ct2"
proof (cases "getRegisteredService (tenantId s) (projectId s) sid ct")
  case (Some row)
  then have "is_service (tenantId s) (projectId s) sid row" "row \<in> set (ct_registeredServices ct)"
    by (auto simp: getRegisteredService_def find_Some_iff)
  with Some assms show ?thesis
    by (auto simp: credential_service_def active_service_def list_ex_iff split: if_splits)
next
  case None
  then obtain row where "createRegisteredService (ce_dbNow env) (tenantId s) (projectId s) sid sid ct = (ct2, Inr (Some row))"
    using assms(1) by (auto simp: credential_service_def split: prod.splits sum.splits option.splits)
  then have "ct2 = ct\<lparr>ct_registeredServices := upsert (is_service (tenantId s) (projectId s) sid) (\<lambda>r. r\<lparr>rr_displayName := sid, rr_archivedAt := None\<rparr>)
     \<lparr>rr_tenantId = tenantId s, rr_projectId = projectId s, rr_serviceId = sid, rr_displayName = sid, rr_createdAt = ce_dbNow env, rr_archivedAt = None\<rparr>
     (ct_registeredServices ct)\<rparr>" by (auto simp: createRegisteredService_def Let_def split: if_splits)
  then show ?thesis using assms(2) by (simp add: active_environment_def active_service_def upsert_new)
qed

locale catalog_law =
  fixes Q :: "catalog \<Rightarrow> catalog \<Rightarrow> bool" and tenant :: string
  assumes stays: "Q ct ct"
    and follows: "Q a b \<Longrightarrow> Q b d \<Longrightarrow> Q a d"
    and audit_law: "tenantId (ae_scope e) = tenant \<Longrightarrow> Q ct (fst (insertAuditEvent i e ct))"
    and create_project_law: "Q ct (fst (createProject now tenant p name ct))"
    and archive_project_law: "Q ct (fst (archiveProject now tenant p ct))"
    and create_environment_law: "tenantId s = tenant \<Longrightarrow> Q ct (fst (createEnvironment now s name ct))"
    and archive_environment_law: "tenantId s = tenant \<Longrightarrow> Q ct (fst (archiveEnvironment now s ct))"
    and create_service_law: "Q ct (fst (createRegisteredService now tenant p sid name ct))"
    and archive_service_law: "Q ct (fst (archiveRegisteredService now tenant p sid ct))"
    and issue_law: "tenantId (sc_scope m) = tenant \<Longrightarrow> service_live m ct \<Longrightarrow> Q ct (fst (createServiceCredential m ct))"
    and revoke_law: "tenantId s = tenant \<Longrightarrow> Q ct (fst (revokeServiceCredential now cid s ct))"
    and issue_native_law: "tenantId (nc_scope n) = tenant \<Longrightarrow> Q ct (fst (createNativeCredential n ct))"
    and revoke_native_law: "tenantId s = tenant \<Longrightarrow> Q ct (fst (revokeNativeCredential now cid s ct))"
begin

lemma law_checked: "(\<And>b. g = Inr b \<Longrightarrow> keeps_law Q (k b)) \<Longrightarrow> keeps_law Q (with_checked g k)"
  by (cases g) (auto simp: keeps_law_def with_checked_def stays)

lemma law_answered: "keeps_law Q f \<Longrightarrow> keeps_law Q (\<lambda>ct. answered g (f ct))"
  by (simp add: keeps_law_def)

lemma law_with_id: "keeps_law Q f \<Longrightarrow> keeps_law Q (\<lambda>ct. with_id g (f ct))"
  by (simp add: keeps_law_def)

lemma law_found: "keeps_law Q f \<Longrightarrow> keeps_law Q (found_or e f)"
  by (auto simp: keeps_law_def found_or_def split: prod.split sum.split option.split) (metis fst_conv)+

lemma law_done: "keeps_law Q f \<Longrightarrow> keeps_law Q (done_or e f)"
  by (auto simp: keeps_law_def done_or_def split: prod.split sum.split) (metis fst_conv)+

lemma law_recorder:
  "tenantId (case ax_scope ctx of None \<Rightarrow> snd c | Some s \<Rightarrow> s) = tenant \<Longrightarrow> Q ct (fst (catalog_recorder env c ctx out n code ct))"
  by (auto simp: catalog_recorder_def audit_event_of_def stays intro: audit_law)

lemma law_audited_mutation:
  assumes "tenantId (case ax_scope ctx of None \<Rightarrow> snd c | Some s \<Rightarrow> s) = tenant" "keeps_law Q operation"
  shows "keeps_law Q (runAuditedMutation (catalog_recorder env c) ctx operation)"
  unfolding keeps_law_def
proof
  fix ct
  have rec: "Q a b" if "catalog_recorder env c (ctx\<lparr>ax_resourceId := i\<rparr>) out n code a = (b, r)" for i out n code a b r
    using law_recorder [of c "ctx\<lparr>ax_resourceId := i\<rparr>" a env out n code] assms(1) that by simp
  have rec0: "Q a b" if "catalog_recorder env c ctx out n code a = (b, r)" for out n code a b r
    using law_recorder [OF assms(1), of a env out n code] that by simp
  have op: "Q a b" if "operation a = (b, r)" for a b r using assms(2) that unfolding keeps_law_def by (metis fst_conv)
  show "Q ct (fst (runAuditedMutation (catalog_recorder env c) ctx operation ct))"
    unfolding runAuditedMutation_def audit_failure_def Let_def
    by (auto split: prod.split sum.split intro: follows dest!: rec rec0 op)
qed

lemma law_issue:
  assumes "tenantId s = tenant"
  shows "keeps_law Q (\<lambda>ct. with_checked (credential_environment s ct) (\<lambda>_ ct1.
    case credential_service env s sid ct1 of
      (ct2, Inl err) \<Rightarrow> (ct2, Err err)
    | (ct2, Inr _) \<Rightarrow> with_id g (issue_service_credential env s sid label ct2)) ct)"
  unfolding keeps_law_def
proof
  fix ct
  show "Q ct (fst (with_checked (credential_environment s ct) (\<lambda>_ ct1.
    case credential_service env s sid ct1 of
      (ct2, Inl err) \<Rightarrow> (ct2, Err err)
    | (ct2, Inr _) \<Rightarrow> with_id g (issue_service_credential env s sid label ct2)) ct))"
  proof (cases "active_environment s ct")
    case True
    obtain ct2 r where cs: "credential_service env s sid ct = (ct2, r)" by fastforce
    have q: "Q ct ct2" using cs assms create_service_law [of ct "ce_dbNow env" "projectId s" sid sid]
      by (auto simp: credential_service_def stays split: option.splits prod.splits sum.splits if_splits)
    have "Q ct2 (fst (issue_service_credential env s sid label ct2))" if "r = Inr u" for u
    proof -
      have "service_live (snd (createServiceCredentialMaterial (ce_sha256 env) (ce_secret env) (ce_idHex env) (ce_now env) sid label (Some s))) ct2"
        using credential_service_live [OF cs [unfolded that] True] by (simp add: service_live_def createServiceCredentialMaterial_def Let_def)
      from issue_law [OF _ this] assms show ?thesis
        by (auto simp: issue_service_credential_def createServiceCredentialMaterial_def Let_def split: prod.splits sum.splits)
    qed
    then show ?thesis using q True cs
      by (auto simp: with_checked_def credential_environment_def split: sum.split intro: follows)
  qed (simp add: with_checked_def credential_environment_def stays)
qed

lemmas law_intros = law_checked law_answered law_with_id law_found law_done law_audited_mutation

lemma law_audited: "tenantId (snd c) = tenant \<Longrightarrow> keeps_law Q f \<Longrightarrow> keeps_law Q (audited env c action type rid meta status f)"
  unfolding audited_def by (intro law_intros) simp_all

lemma handle_law:
  assumes "tenantId (snd c) = tenant" "caller_tenant c = tenant"
  shows "keeps_law Q (handle_catalog env c r)"
proof -
  have prims: "keeps_law Q (createProject now (caller_tenant c) p name)" "keeps_law Q (archiveProject now (caller_tenant c) p)"
    "keeps_law Q (createEnvironment now (scope_in c p e) name)" "keeps_law Q (archiveEnvironment now (scope_in c p e))"
    "keeps_law Q (createRegisteredService now (caller_tenant c) p sid name)" "keeps_law Q (archiveRegisteredService now (caller_tenant c) p sid)"
    "keeps_law Q (revokeServiceCredential now cid (selectedResourceScope (snd c) po eo))"
    "keeps_law Q (revokeNativeCredential now cid (principal_scope (fst c)))"
    for now p name e sid cid po eo
    using assms by (simp_all add: keeps_law_def create_project_law archive_project_law create_environment_law archive_environment_law
        create_service_law archive_service_law revoke_law revoke_native_law)
  have native: "keeps_law Q (\<lambda>ct1. case createNativeCredentialMaterial h sec hex now aid allowed label (Some (principal_scope (fst c))) of (apiKey, material) \<Rightarrow>
            (case createNativeCredential material ct1 of
               (ct2, Inl err) \<Rightarrow> (ct2, Err err)
             | (ct2, Inr row) \<Rightarrow> (ct2, Ok ((row, apiKey), Some (nc_credentialId (nr_credential row))))))" for h sec hex now aid allowed label
    using assms(2) issue_native_law
    by (auto simp: keeps_law_def createNativeCredentialMaterial_def Let_def split: prod.split sum.split) (metis fst_conv native_credential.select_convs(2))+
  have lists: "keeps_law Q (list_route env c code what query view)" for code what and query :: "(broker_error, 'q) res" and view
    unfolding list_route_def by (intro law_checked) (simp add: keeps_law_def stays)
  note defs = postProject_def deleteProject_def postEnvironment_def deleteEnvironment_def postService_def deleteService_def
    postServiceCredential_def deleteServiceCredential_def postNativeCredential_def deleteNativeCredential_def
  show ?thesis
    by (cases r; simp only: handle_catalog.simps defs Let_def; (rule lists)?;
        (intro law_intros law_audited law_issue prims native)?; use assms in simp)
qed

end


subsection \<open>Live credentials belong to active resources\<close>




lemma upsert_set: "r \<in> set (upsert same f new rows) \<Longrightarrow> r = new \<or> (\<exists>q \<in> set rows. r = f q \<and> same q \<or> r = q \<and> \<not> same q)"
  by (auto simp: upsert_def list_ex_iff split: if_splits)







lemma coalesce_Some [simp]: "\<exists>t. coalesce now a = Some t" "coalesce now a \<noteq> None"
  by (simp_all add: coalesce_def split: option.split)


lemma live_update: "r \<in> set (update_where P f rows) \<Longrightarrow> x r = None \<Longrightarrow> (\<And>q. P q \<Longrightarrow> x (f q) \<noteq> None) \<Longrightarrow> r \<in> set rows \<and> \<not> P r"
  unfolding update_where_def by (auto simp del: not_None_eq split: if_splits)














subsection \<open>Revocation and the log\<close>





lemma kept_refl [simp]: "kept_service r r" "kept_native n n"
  by (simp_all add: kept_service_def kept_native_def)












subsection \<open>Other tenants\<close>

lemma filter_update_where:
  "(\<And>r. P r \<Longrightarrow> \<not> T r \<and> \<not> T (f r)) \<Longrightarrow> filter T (update_where P f rows) = filter T rows"
  by (induction rows) (auto simp: update_where_def)

lemma filter_upsert:
  "(\<And>r. same r \<Longrightarrow> \<not> T r \<and> \<not> T (f r)) \<Longrightarrow> \<not> T new \<Longrightarrow> filter T (upsert same f new rows) = filter T rows"
  using filter_update_where [of same T f rows] by (simp add: upsert_def update_where_def)

lemma same_rows_refl: "same_rows t ct ct"
  by (simp add: same_rows_def)

lemma same_rows_trans: "same_rows t a b \<Longrightarrow> same_rows t b c \<Longrightarrow> same_rows t a c"
  by (simp add: same_rows_def)

lemma same_rows_revoke:
  "(\<And>c. P c \<Longrightarrow> tenantId (sc_scope c) \<noteq> t) \<Longrightarrow> same_rows t ct x \<Longrightarrow> same_rows t ct (revoke_service_credentials now P x)"
  "(\<And>c. N c \<Longrightarrow> tenantId (nc_scope c) \<noteq> t) \<Longrightarrow> same_rows t ct x \<Longrightarrow> same_rows t ct (revoke_native_credentials now N x)"
proof -
  assume P: "\<And>c. P c \<Longrightarrow> tenantId (sc_scope c) \<noteq> t" and "same_rows t ct x"
  moreover have "same_rows t x (revoke_service_credentials now P x)"
    by (simp add: same_rows_def revoke_service_credentials_def) (rule filter_update_where [symmetric], simp add: P)
  ultimately show "same_rows t ct (revoke_service_credentials now P x)" using same_rows_trans by blast
next
  assume N: "\<And>c. N c \<Longrightarrow> tenantId (nc_scope c) \<noteq> t" and "same_rows t ct x"
  moreover have "same_rows t x (revoke_native_credentials now N x)"
    by (simp add: same_rows_def revoke_native_credentials_def) (rule filter_update_where [symmetric], simp add: N)
  ultimately show "same_rows t ct (revoke_native_credentials now N x)" using same_rows_trans by blast
qed

lemma same_rows_statements:
  assumes "tenant \<noteq> t"
  shows "same_rows t ct (fst (createProject now tenant p name ct))"
    "same_rows t ct (fst (createRegisteredService now tenant p sid name ct))"
  using assms by (auto simp: same_rows_def createProject_def createRegisteredService_def Let_def intro!: filter_upsert [symmetric])

lemma same_rows_scoped:
  assumes "tenantId s \<noteq> t"
  shows "same_rows t ct (fst (createEnvironment now s name ct))"
    "sc_scope m = s \<Longrightarrow> same_rows t ct (fst (createServiceCredential m ct))"
    "nc_scope n = s \<Longrightarrow> same_rows t ct (fst (createNativeCredential n ct))"
    "ae_scope e = s \<Longrightarrow> same_rows t ct (fst (insertAuditEvent i e ct))"
  using assms
  by (auto simp: same_rows_def createEnvironment_def createServiceCredential_def createNativeCredential_def insertAuditEvent_def
      Let_def intro!: filter_upsert [symmetric])

lemma same_rows_archives:
  assumes "tenant \<noteq> t"
  shows "same_rows t ct (fst (archiveProject now tenant p ct))"
    "tenantId s = tenant \<Longrightarrow> same_rows t ct (fst (archiveEnvironment now s ct))"
    "same_rows t ct (fst (archiveRegisteredService now tenant p sid ct))"
  using assms unfolding archiveProject_def archiveEnvironment_def archiveRegisteredService_def withTransaction_def
  by (auto intro!: same_rows_revoke simp: same_rows_refl) (auto simp: same_rows_def intro!: filter_update_where [symmetric])

interpretation apart: catalog_law "\<lambda>ct ct'. tenant \<noteq> t \<longrightarrow> same_rows t ct ct'" tenant for tenant t
  by unfold_locales
    (auto simp: same_rows_refl same_rows_statements same_rows_scoped same_rows_archives revokeServiceCredential_def revokeNativeCredential_def
      Let_def intro: same_rows_trans intro!: same_rows_revoke)




subsection \<open>Where the routes and the tables disagree\<close>

text \<open>
  An environment that does not exist: the route means to answer 404, but the attempt cannot be recorded, because the
  audit table refers to the environments, so the caller gets an internal error and nothing is recorded.
\<close>

lemma missing_environment_internal_error:
  assumes "ce_postgres env" "\<not> is_runtime (fst c)" "catalogId_parse p0 = Some p" "catalogId_parse e0 = Some e"
    "serviceId_parse sid0 = Some sid" "trimmed 1 200 label0 = Some label"
    "\<not> has_environment (selectedResourceScope (snd c) (Some p) (Some e)) ct"
  shows "postServiceCredential env c (Some p0) (Some e0) sid0 label0 ct = (ct, Err key_violation)"
  using assms
  by (simp add: postServiceCredential_def with_checked_def opt_parse_def requireAdmin_def requireHumanRead_def runAuditedMutation_def
      catalog_recorder_def insertAuditEvent_def audit_event_of_def Let_def)

text \<open>
  The checks of the route and the insertion are separate statements: when the environment is archived in between, the
  credential is issued all the same, nothing revokes it, and the lookup of service credentials, unlike that of native
  ones, does not ask whether the environment is active.
\<close>

lemma credential_outlives_archive:
  assumes "credential_environment s ct = Ok ()" "credential_service env s sid ct = (ct, Ok ())"
    and "archiveEnvironment now s ct = (ct1, Ok True)" "issue_service_credential env s sid label ct1 = (ct2, Ok (row, apiKey))"
  shows "\<not> active_environment s ct2 \<and> snd (authenticate_service now' (ce_sha256 env apiKey) ct2) = Ok (Some row)"
proof -
  have ct1: "ct_environments ct1 = update_where (\<lambda>r. er_scope r = s \<and> er_archivedAt r = None) (\<lambda>r. r\<lparr>er_archivedAt := Some now\<rparr>) (ct_environments ct)"
    using assms(3) by (auto simp: archiveEnvironment_def withTransaction_def revoke_service_credentials_def revoke_native_credentials_def split: if_splits)
  let ?m = "snd (createServiceCredentialMaterial (ce_sha256 env) (ce_secret env) (ce_idHex env) (ce_now env) sid label (Some s))"
  have m: "createServiceCredential ?m ct1 = (ct2, Ok row)" "apiKey = SERVICE_API_KEY_PREFIX @ ce_secret env"
    "sc_secretHash ?m = ce_sha256 env apiKey"
    using assms(4) by (auto simp: issue_service_credential_def createServiceCredentialMaterial_def Let_def split: prod.splits sum.splits)
  then have fresh: "\<forall>r \<in> set (ct_serviceCredentials ct1). sc_secretHash (cr_credential r) \<noteq> ce_sha256 env apiKey"
    and ct2: "ct2 = ct1\<lparr>ct_serviceCredentials := ct_serviceCredentials ct1 @ [row]\<rparr>" "row = \<lparr>cr_credential = ?m, cr_lastUsedAt = None, cr_revokedAt = None\<rparr>"
    by (auto simp: createServiceCredential_def Let_def list_ex_iff split: if_splits)
  have "find (\<lambda>r. sc_secretHash (cr_credential r) = ce_sha256 env apiKey \<and> cr_revokedAt r = None) (ct_serviceCredentials ct2) = Some row"
  proof -
    have "find P (xs @ [x]) = Some x" if "\<forall>y \<in> set xs. \<not> P y" "P x" for P xs and x :: service_credential_row
      using that by (induction xs) auto
    moreover have "sc_secretHash (cr_credential row) = ce_sha256 env apiKey \<and> cr_revokedAt row = None" using ct2(2) m(3) by simp
    moreover have "ct_serviceCredentials ct2 = ct_serviceCredentials ct1 @ [row]" using ct2(1) by simp
    ultimately show ?thesis using fresh by simp
  qed
  moreover have "ct_environments ct2 = ct_environments ct1" using ct2(1) by simp
  then have "\<not> active_environment s ct2"
    by (auto simp: active_environment_def ct1 list_ex_iff dest!: live_update [where x = er_archivedAt])
  ultimately show ?thesis by (simp add: authenticate_service_def)
qed

text \<open>Signing in again after a restart of the broker gives the project its identifier as its name.\<close>

lemma provisioning_resets_names:
  assumes "s \<notin> set (ct_provisioned ct)" "r \<in> set (ct_projects (fst (ensureResourceScope now s label ct)))" "is_project (tenantId s) (projectId s) r"
  shows "pr_displayName r = projectId s"
  using assms by (auto simp: ensureResourceScope_def provision_def Let_def dest!: upsert_set)

subsection \<open>The sample catalog\<close>


lemma sample_catalog_request:
  "pre_handler sample_catalog_auth sample_rq = Ok (ServicePrincipal DEFAULT_RESOURCE_SCOPE ''svc_01'' ''pay'', DEFAULT_RESOURCE_SCOPE)"
  by code_simp


section \<open>Properties\<close>





text \<open>C17: Administration stays in its tenant: a request that passed the authentication hook changes no project,
  environment, service, credential or audit event of another tenant.\<close>

theorem administration_confined:
  assumes "pre_handler cfg rq = Ok c" "tenantId (principal_scope (fst c)) \<noteq> t"
  shows "same_rows t ct (fst (handle_catalog env c r ct))"
proof -
  obtain p s where c: "c = (p, s)" by (cases c)
  then have "scope_request cfg rq p = Ok s" using assms(1) by (auto simp: pre_handler_def bind_res_Inr_iff)
  then have "tenantId s = tenantId (principal_scope p)" using scope_request_cases by blast
  then show ?thesis using apart.handle_law [of c "caller_tenant c" t env r] assms(2) by (simp add: keeps_law_def c)
qed

theorem administration_confined_witness:
  "same_rows ''acme'' sample_catalog (fst (handle_catalog sample_catalog_env
     (ServicePrincipal DEFAULT_RESOURCE_SCOPE ''svc_01'' ''pay'', DEFAULT_RESOURCE_SCOPE) (ArchiveProject ''default'') sample_catalog))"
  by (rule administration_confined [OF sample_catalog_request]) (simp add: DEFAULT_RESOURCE_SCOPE_def)

end
