(* ===== verification/Broker_Server.thy ===== *)
theory Broker_Server
  imports Broker_Routes
begin

text \<open>
  The server as a whole: the transition system of the requests and the timers, and the table of who may call what.
  Every request is a step of the broker of \<^verbatim>\<open>Broker_System\<close>, or two, or none, so what holds of all reachable
  brokers holds behind the server; a request stays within the tenant of its principal; a caller without the right
  changes nothing; a change of probes is in the audit log before it happens.
\<close>

section \<open>Definitions\<close>

subsection \<open>The server as a transition system\<close>

text \<open>
  The server as a transition system, over a store that takes what it is given: requests with any headers, the
  continuation of requests that waited, the end of a wait by timeout or by a closed connection, and the timers.
\<close>

definition keeps :: "(broker \<Rightarrow> broker \<times> broker_error option) \<Rightarrow> bool" where
  "keeps persist \<longleftrightarrow> (\<forall>st. persist st = (st, None))"

fun fresh_wait :: "route \<Rightarrow> broker \<Rightarrow> bool" where
  "fresh_wait (GetProbeData _ _ l) st \<longleftrightarrow> (\<forall>q. l \<notin> set (waiting st q))"
| "fresh_wait _ _ \<longleftrightarrow> True"

inductive server_step :: "env \<Rightarrow> auth_config \<Rightarrow> web \<Rightarrow> web \<Rightarrow> bool" for env cfg where
  request: "we_env we = env \<Longrightarrow> keeps (we_persist we r) \<Longrightarrow> fresh_wait r (wb_state w) \<Longrightarrow>
    server_step env cfg w (fst (serve we cfg rq r w))"
| resume: "we_env we = env \<Longrightarrow> pre_handler cfg rq = Ok c \<Longrightarrow> server_step env cfg w (fst (resumeProbeData we c pid w))"
| wait_over: "server_step env cfg w (w\<lparr>wb_state := finish pid l reason (wb_state w)\<rparr>)"
| ttl_timer: "keeps persist \<Longrightarrow> server_step env cfg w (ttlTick now now' persist w)"
| close: "keeps persist \<Longrightarrow> server_step env cfg w (closeBroker persist w)"

subsection \<open>Who may do what\<close>

text \<open>The rights of a principal, as the product describes them: people manage probes, a service agent and a host agent
  act for themselves, the shared key may do everything.\<close>

fun acts_for_service :: "broker_principal \<Rightarrow> string \<Rightarrow> bool" where
  "acts_for_service (SharedPrincipal _ _) _ \<longleftrightarrow> True"
| "acts_for_service (ServicePrincipal _ _ own) sid \<longleftrightarrow> own = js_trim sid"
| "acts_for_service _ _ \<longleftrightarrow> False"

fun acts_for_agent :: "broker_principal \<Rightarrow> string \<Rightarrow> bool" where
  "acts_for_agent (SharedPrincipal _ _) _ \<longleftrightarrow> True"
| "acts_for_agent (NativePrincipal _ _ own _) aid \<longleftrightarrow> own = js_trim aid"
| "acts_for_agent _ _ \<longleftrightarrow> False"

fun reports_on :: "broker_principal \<Rightarrow> string \<Rightarrow> bool" where
  "reports_on (NativePrincipal _ _ _ allowed) sid \<longleftrightarrow> ''*'' \<in> set allowed \<or> js_trim sid \<in> set allowed"
| "reports_on p sid \<longleftrightarrow> True"

fun permitted :: "broker_principal \<Rightarrow> route \<Rightarrow> bool" where
  "permitted p (PostProbe _) \<longleftrightarrow> \<not> is_runtime p"
| "permitted p (DeleteProbe _) \<longleftrightarrow> \<not> is_runtime p"
| "permitted p (GetProbes _) \<longleftrightarrow> \<not> is_runtime p"
| "permitted p GetServices \<longleftrightarrow> \<not> is_runtime p"
| "permitted p (GetProbeData _ _ _) \<longleftrightarrow> \<not> is_runtime p"
| "permitted p (PostNativeAgent i) \<longleftrightarrow> acts_for_agent p (rg_agentId i)"
| "permitted p (PutInstances aid _) \<longleftrightarrow> acts_for_agent p aid"
| "permitted p (GetAssignments aid _) \<longleftrightarrow> acts_for_agent p aid"
| "permitted p (PostNativeIngest i) \<longleftrightarrow> acts_for_agent p (ng_agentId i) \<and> reports_on p (ng_serviceId i)"
| "permitted p GetPing \<longleftrightarrow> True"
| "permitted p (GetServiceProbes sid _ _) \<longleftrightarrow> acts_for_service p sid"
| "permitted p (PostMapStatus sid _ _) \<longleftrightarrow> acts_for_service p sid"
| "permitted p (PostMapUpload i) \<longleftrightarrow> acts_for_service p (ui_serviceId i)"
| "permitted p (PostMapComplete sid _ _) \<longleftrightarrow> acts_for_service p sid"
| "permitted p (PostIngest i) \<longleftrightarrow> acts_for_service p (ig_serviceId i)"

text \<open>An audit log that takes every event.\<close>

definition logs :: "web_env \<Rightarrow> bool" where
  "logs env \<longleftrightarrow> (case we_audit env of None \<Rightarrow> True | Some put \<Rightarrow> \<forall>e. put e = None)"





subsection \<open>A sample server\<close>

definition sample_web_env :: web_env where
  "sample_web_env = \<lparr>we_env = sample_env, we_gen = (\<lambda>_. sample_id), we_now = 2000, we_now' = 2000,
     we_persist = (\<lambda>_ st. (st, None)), we_audit = Some (\<lambda>_. None)\<rparr>"

definition sample_web :: web where
  "sample_web = \<lparr>wb_state = sample_broker, wb_audit = []\<rparr>"


subsection \<open>Vocabulary of the lemmas\<close>

text \<open>The operations whose arguments came through the schemas.\<close>

fun wire_op :: "scoped_op \<Rightarrow> bool" where
  "wire_op (OpCreate gen i) \<longleftrightarrow> (\<exists>raw. createProbeInput_parse raw = Some i)"
| "wire_op (OpMapStatus sid sha u) \<longleftrightarrow> (\<exists>raw. sourceCommit_parse raw = Some sha)"
| "wire_op (OpMapUpload i) \<longleftrightarrow> (\<exists>raw. sourceCommit_parse raw = Some (ui_commitSha i))"
| "wire_op (OpMapComplete sid sha u) \<longleftrightarrow> (\<exists>raw. sourceCommit_parse raw = Some sha)"
| "wire_op _ \<longleftrightarrow> True"

text \<open>What a request of one scope may do to the broker: nothing, one operation of the scope, or to wait for one of its
  probes.\<close>

definition scoped_change :: "env \<Rightarrow> int \<Rightarrow> resource_scope \<Rightarrow> route \<Rightarrow> broker \<Rightarrow> broker \<Rightarrow> bool" where
  "scoped_change env now s r st st' \<longleftrightarrow>
     st' = st \<or> (\<exists>op. wire_op op \<and> st' = run_op env now s op st) \<or>
     (\<exists>pid q l. r = GetProbeData pid q l \<and> visible_probe (sweep now st) pid s \<noteq> None \<and>
        st' = waitForEvents pid (wait_ms q) False l (sweep now st))"

section \<open>Lemmas\<close>

subsection \<open>What a handler does to the state\<close>

definition changes_by :: "(broker \<Rightarrow> broker \<Rightarrow> bool) \<Rightarrow> (web \<Rightarrow> 'a web_res) \<Rightarrow> bool" where
  "changes_by Q f \<longleftrightarrow> (\<forall>w. wb_state (fst (f w)) = wb_state w \<or> Q (wb_state w) (wb_state (fst (f w))))"

lemma append_state [simp]: "wb_state (fst (appendAuditEvent env c ctx out n code w)) = wb_state w"
  by (auto simp: appendAuditEvent_def Let_def split: option.split)

lemma append_stateD: "appendAuditEvent env c ctx out n code w = (w1, r) \<Longrightarrow> wb_state w1 = wb_state w"
  using append_state [of env c ctx out n code w] by simp

lemma failure_state [simp]: "wb_state (fst (audit_failure (appendAuditEvent env c) ctx e w)) = wb_state w"
  unfolding audit_failure_def by (auto split: prod.split sum.split dest: append_stateD)

lemma guarded_Inr [simp]: "guarded (Inr b) k = k b"
  by (simp add: fun_eq_iff guarded_def)

lemma guarded_Inl [simp]: "guarded (Inl e) k w = (w, Err e)"
  by (simp add: guarded_def)

lemma changes_guarded: "(\<And>b. g = Inr b \<Longrightarrow> changes_by Q (k b)) \<Longrightarrow> changes_by Q (guarded g k)"
  by (cases g) (auto simp: changes_by_def guarded_def)

lemma changes_audited:
  assumes "changes_by Q op"
  shows "changes_by Q (runAuditedMutation (appendAuditEvent env c) ctx op)"
  unfolding changes_by_def
proof
  fix w
  obtain w1 r1 where a: "appendAuditEvent env c ctx Attempt None None w = (w1, r1)" by fastforce
  have s1: "wb_state w1 = wb_state w" using append_state [of env c ctx Attempt None None w] by (simp add: a)
  obtain w2 r2 where o: "op w1 = (w2, r2)" by fastforce
  have s2: "wb_state w2 = wb_state w \<or> Q (wb_state w) (wb_state w2)"
    using assms [unfolded changes_by_def, rule_format, of w1] by (simp add: o s1)
  have s3: "wb_state (fst (runAuditedMutation (appendAuditEvent env c) ctx op w)) = (if isl r1 then wb_state w else wb_state w2)"
    unfolding runAuditedMutation_def by (auto simp: a o s1 Let_def split: sum.split prod.split dest: append_stateD)
  show "wb_state (fst (runAuditedMutation (appendAuditEvent env c) ctx op w)) = wb_state w \<or> Q (wb_state w) (wb_state (fst (runAuditedMutation (appendAuditEvent env c) ctx op w)))"
    using s2 by (simp add: s3)
qed

lemma changes_rejection:
  assumes "changes_by Q op"
  shows "changes_by Q (auditNativeRejection env c action rid op)"
  unfolding changes_by_def
proof
  fix w
  obtain w1 r1 where o: "op w = (w1, r1)" by fastforce
  have s1: "wb_state w1 = wb_state w \<or> Q (wb_state w) (wb_state w1)"
    using assms [unfolded changes_by_def, rule_format, of w] by (simp add: o)
  have s2: "wb_state (fst (auditNativeRejection env c action rid op w)) = wb_state w1"
    unfolding auditNativeRejection_def by (auto simp: o split: sum.split prod.split dest: append_stateD)
  show "wb_state (fst (auditNativeRejection env c action rid op w)) = wb_state w \<or>
      Q (wb_state w) (wb_state (fst (auditNativeRejection env c action rid op w)))"
    using s1 by (simp add: s2)
qed

lemma changes_on_state: "(\<And>st. fst (f st) = st \<or> Q st (fst (f st))) \<Longrightarrow> changes_by Q (on_state f)"
  by (auto simp: changes_by_def on_state_def split: prod.split) (metis fst_conv)

lemma durable_state:
  "(\<And>a st1. mutate st = (st1, Ok a) \<Longrightarrow> persist a st1 = (st1, None)) \<Longrightarrow>
   fst (mutateDurably now now' mutate persist st) \<in> {st, fst (mutate st)}"
  by (auto simp: mutateDurably_def split: sum.split prod.split)

lemma changes_durably:
  assumes "keeps (we_persist env r)" "\<And>st. fst (f st) = st \<or> Q st (fst (f st))"
  shows "changes_by Q (durably env r f)"
  unfolding durably_def
proof (rule changes_on_state)
  fix st
  have "fst (mutateDurably (we_now env) (we_now' env) f (\<lambda>_. we_persist env r) st) \<in> {st, fst (f st)}"
    using assms(1) by (intro durable_state) (simp add: keeps_def)
  with assms(2) [of st] show "fst (mutateDurably (we_now env) (we_now' env) f (\<lambda>_. we_persist env r) st) = st \<or>
      Q st (fst (mutateDurably (we_now env) (we_now' env) f (\<lambda>_. we_persist env r) st))" by auto
qed

lemma changes_then: "changes_by Q f \<Longrightarrow> (\<And>w. fst (g (f w)) = fst (f w)) \<Longrightarrow> changes_by Q (\<lambda>w. g (f w))"
  by (simp add: changes_by_def)

lemma changes_const: "changes_by Q (\<lambda>w. (w, r))"
  by (simp add: changes_by_def)


definition request_change :: "web_env \<Rightarrow> caller \<Rightarrow> route \<Rightarrow> broker \<Rightarrow> broker \<Rightarrow> bool" where
  "request_change env c r st st' \<longleftrightarrow> (\<exists>own \<in> {snd c, principal_scope (fst c)}. scoped_change (we_env env) (we_now env) own r st st')"

lemma op_change:
  "wire_op op \<Longrightarrow> own = snd c \<or> own = principal_scope (fst c) \<Longrightarrow> request_change env c r st (run_op (we_env env) (we_now env) own op st)"
  by (auto simp: scoped_change_def request_change_def)

lemma changes_op:
  assumes "keeps (we_persist env r)" "wire_op op" "own = snd c \<or> own = principal_scope (fst c)"
    "\<And>st. fst (f st) = run_op (we_env env) (we_now env) own op st"
  shows "changes_by (request_change env c r) (durably env r f)"
  using op_change [OF assms(2,3)] by (intro changes_durably assms(1)) (simp add: assms(4))

lemma changes_view:
  assumes "wire_op op" "own = snd c \<or> own = principal_scope (fst c)" "\<And>st. fst (f st) = run_op (we_env env) (we_now env) own op st"
  shows "changes_by (request_change env c r) (on_state f)"
  using op_change [OF assms(1,2)] by (intro changes_on_state) (simp add: assms(3))

lemma changes_reply: "changes_by Q f \<Longrightarrow> changes_by Q (\<lambda>w. reply n g (f w))"
  by (simp add: changes_by_def)

lemma parsed_Inr [simp]: "parsed name v = Inr b \<longleftrightarrow> v = Some b"
  by (cases v) simp_all

lemma native_scope: "requireNativeAccess p aid = Inr (own, allowed) \<Longrightarrow> own = principal_scope p"
  by (cases "(p, aid)" rule: requireNativeAccess.cases) (auto split: if_splits)

lemma changes_tail: "changes_by Q f \<Longrightarrow> changes_by Q (\<lambda>w. case f w of (w2, Inl e) \<Rightarrow> (w2, Err e) | (w2, Inr p) \<Rightarrow> (w2, Ok (g p)))"
  by (auto simp: changes_by_def split: sum.split prod.split) (metis fst_conv)+

lemmas changes_intros = changes_guarded changes_reply changes_audited changes_rejection changes_tail

lemma changes_post:
  assumes "keeps (we_persist env (PostProbe raw))"
  shows "changes_by (request_change env c (PostProbe raw)) (postProbe env c raw)"
  unfolding postProbe_def
proof (intro changes_intros)
  fix input u assume "parsed ''CreateProbeSchema'' (createProbeInput_parse raw) = Inr input"
  then show "changes_by (request_change env c (PostProbe raw))
      (durably env (PostProbe raw) (createProbe (we_env env) (we_gen env) (we_now env) input (snd c)))"
    by (intro changes_op [where op = "OpCreate (we_gen env) input" and own = "snd c"] assms) auto
qed

lemma changes_delete:
  assumes "keeps (we_persist env (DeleteProbe pid))"
  shows "changes_by (request_change env c (DeleteProbe pid)) (deleteProbeRoute env c pid)"
  unfolding deleteProbeRoute_def
  by (intro changes_intros changes_op [where op = "OpDelete pid" and own = "snd c"] assms) auto


lemma changes_register:
  assumes "keeps (we_persist env (PostNativeAgent raw))"
  shows "changes_by (request_change env c (PostNativeAgent raw)) (postNativeAgent env c raw)"
  unfolding postNativeAgent_def nativeRoute_def
proof (intro changes_intros)
  fix input :: registration and b assume "requireNativeAccess (fst c) (rg_agentId input) = Inr b"
  then show "changes_by (request_change env c (PostNativeAgent raw)) (case b of (scope, allowed) \<Rightarrow> \<lambda>w1.
            case durably env (PostNativeAgent raw) (registerNativeAgent (we_now env) input scope) w1 of
              (w2, Inl e) \<Rightarrow> (w2, Err e)
            | (w2, Inr a) \<Rightarrow> (w2, Ok (a, allowed)))"
    by (cases b) (auto intro!: changes_tail changes_op [where op = "OpRegister input" and own = "fst b"] assms dest: native_scope)
qed

lemma changes_instances:
  assumes "keeps (we_persist env (PutInstances aid raw))"
  shows "changes_by (request_change env c (PutInstances aid raw)) (putInstances env c aid raw)"
  unfolding putInstances_def nativeRoute_def
proof (intro changes_intros)
  fix agentId instances b assume "requireNativeAccess (fst c) agentId = Inr b"
  then show "changes_by (request_change env c (PutInstances aid raw)) (case b of (scope, allowed) \<Rightarrow>
      durably env (PutInstances aid raw) (replaceNativeInstances (we_now env) agentId instances scope allowed))"
    by (cases b) (auto intro!: changes_op [where op = "OpReplace agentId instances (snd b)" and own = "fst b"] assms dest: native_scope)
qed

lemma changes_assignments: "changes_by (request_change env c (GetAssignments aid since)) (getAssignments env c aid since)"
  unfolding getAssignments_def nativeRoute_def
proof (intro changes_intros)
  fix agentId b assume "requireNativeAccess (fst c) agentId = Inr b"
  then show "changes_by (request_change env c (GetAssignments aid since)) (case b of (scope, allowed) \<Rightarrow>
      on_state (nativeAssignments (we_env env) (we_now env) agentId since scope allowed))"
    by (cases b) (auto intro!: changes_view [where op = "OpAssignments agentId since (snd b)" and own = "fst b"] dest: native_scope)
qed

lemma changes_native_ingest:
  assumes "keeps (we_persist env (PostNativeIngest raw))"
  shows "changes_by (request_change env c (PostNativeIngest raw)) (postNativeIngest env c raw)"
  unfolding postNativeIngest_def nativeRoute_def
proof (intro changes_intros)
  fix input :: native_ingest and b assume "requireNativeAccess (fst c) (ng_agentId input) = Inr b"
  then have "changes_by (request_change env c (PostNativeIngest raw)) (durably env (PostNativeIngest raw) (ingestNative (we_now env) input (fst b)))"
    by (cases b) (auto intro!: changes_op [where op = "OpIngestNative input" and own = "fst b"] assms dest: native_scope)
  then show "changes_by (request_change env c (PostNativeIngest raw)) (case b of (scope, allowed) \<Rightarrow> \<lambda>w1.
         if ''*'' \<notin> set allowed \<and> ng_serviceId input \<notin> set allowed
         then (w1, Err (HttpError 403 ''forbidden'' ''native service is not allowed''))
         else durably env (PostNativeIngest raw) (ingestNative (we_now env) input scope) w1)"
    by (cases b) (auto simp: changes_by_def)
qed

lemma changes_poll: "changes_by (request_change env c (GetServiceProbes sid since sha)) (getServiceProbes env c sid since sha)"
  unfolding getServiceProbes_def
proof (intro changes_intros)
  fix sid1 commit
  show "changes_by (request_change env c (GetServiceProbes sid since sha)) (on_state (pollProbes (we_env env) (we_now env) sid1 since commit (snd c)))"
    by (rule changes_view [where op = "OpPoll sid1 since commit" and own = "snd c"]) auto
qed

lemma mapIdentity_commit: "mapIdentity_parse sid sha u = Some (a, b, d) \<Longrightarrow> sourceCommit_parse sha = Some b"
  by (auto simp: mapIdentity_parse_def split: option.splits)

lemma changes_status:
  assumes "keeps (we_persist env (PostMapStatus sid sha u))"
  shows "changes_by (request_change env c (PostMapStatus sid sha u)) (postMapStatus env c sid sha u)"
proof -
  have "changes_by (request_change env c (PostMapStatus sid sha u)) (\<lambda>w.
      let maps = (\<lambda>st. case getSourceMapSet a b (snd c) st of None \<Rightarrow> None | Some s \<Rightarrow> Some (length (ss_maps s)));
          (st1, role) = sourceMapStatus (we_now env) a b d (snd c) (wb_state w) in
         if (case maps (wb_state w) of None \<Rightarrow> False | Some n \<Rightarrow> 0 < n) \<and> role = Uploader \<and> maps st1 = Some 0
         then (case we_persist env (PostMapStatus sid sha u) st1 of
                 (st2, None) \<Rightarrow> (w\<lparr>wb_state := st2\<rparr>, Ok (200, Role role))
               | (st2, Some e) \<Rightarrow> (w\<lparr>wb_state := st2\<rparr>, Err e))
         else (w\<lparr>wb_state := st1\<rparr>, Ok (200, Role role)))"
    if "sourceCommit_parse sha = Some b" for a b d
    using op_change [of "OpMapStatus a b d" "snd c" c env "PostMapStatus sid sha u"] that assms
    by (auto simp: changes_by_def Let_def case_prod_beta keeps_def)
  then show ?thesis unfolding postMapStatus_def
    by (intro changes_guarded) (auto dest!: mapIdentity_commit intro: changes_guarded)
qed

lemma changes_upload:
  assumes "keeps (we_persist env (PostMapUpload raw))"
  shows "changes_by (request_change env c (PostMapUpload raw)) (postMapUpload env c raw)"
  unfolding postMapUpload_def
proof (intro changes_intros)
  fix input assume "parsed ''sourceMapUploadSchema'' (sourceMapUpload_parse raw) = Inr input"
  then have "sourceCommit_parse (ui_commitSha raw) = Some (ui_commitSha input)"
    by (auto simp: sourceMapUpload_parse_def split: option.splits) (rule mapIdentity_commit)
  then show "changes_by (request_change env c (PostMapUpload raw)) (durably env (PostMapUpload raw) (uploadSourceMap (we_env env) (we_now env) input (snd c)))"
    by (intro changes_op [where op = "OpMapUpload input" and own = "snd c"] assms) auto
qed

lemma changes_complete:
  assumes "keeps (we_persist env (PostMapComplete sid sha u))"
  shows "changes_by (request_change env c (PostMapComplete sid sha u)) (postMapComplete env c sid sha u)"
  unfolding postMapComplete_def case_prod_beta
proof (intro changes_intros)
  fix i assume "parsed ''sourceMapStatusSchema'' (mapIdentity_parse sid sha u) = Inr i"
  then have "sourceCommit_parse sha = Some (fst (snd i))" by (cases i) (auto dest: mapIdentity_commit)
  then show "changes_by (request_change env c (PostMapComplete sid sha u)) (durably env (PostMapComplete sid sha u)
       (completeSourceMaps (we_env env) (we_now env) (fst i) (fst (snd i)) (snd (snd i)) (snd c)))"
    by (intro changes_op [where op = "OpMapComplete (fst i) (fst (snd i)) (snd (snd i))" and own = "snd c"] assms) auto
qed

lemma changes_ingest:
  assumes "keeps (we_persist env (PostIngest raw))"
  shows "changes_by (request_change env c (PostIngest raw)) (postIngest env c raw)"
  unfolding postIngest_def
proof (intro changes_intros)
  fix input
  show "changes_by (request_change env c (PostIngest raw)) (durably env (PostIngest raw) (ingest (we_now env) input (snd c)))"
    by (intro changes_op [where op = "OpIngest input" and own = "snd c"] assms) auto
qed


lemma changes_data:
  assumes "probes_ok (wb_state w)"
  shows "wb_state (fst (getProbeData env c pid q l w)) = wb_state w \<or>
    request_change env c (GetProbeData pid q l) (wb_state w) (wb_state (fst (getProbeData env c pid q l w)))"
proof -
  let ?st = "sweep (we_now env) (wb_state w)"
  have s: "request_change env c (GetProbeData pid q l) (wb_state w) ?st"
    using op_change [of "OpGetProbe pid" "snd c" c env _ "wb_state w"] by (simp add: getProbe_def Let_def)
  have v: "request_change env c (GetProbeData pid q l) (wb_state w) (waitForEvents pid (wait_ms q) False l ?st)"
    if "visible_probe ?st pid (snd c) = Some p" for p
    using that by (auto simp: request_change_def scoped_change_def)
  have i: "expireDueProbes (we_now env) ?st = (?st, 0)" using assms by (rule sweep_idem) simp
  show ?thesis
    using s v i
    by (auto simp: getProbeData_def guarded_def sendProbeData_def probeDataReply_def getProbe_def getStatus_def getEvents_def Let_def
        split: sum.split option.split)
qed

lemma handle_change:
  assumes "keeps (we_persist env r)" "probes_ok (wb_state w)"
  shows "request_change env c r (wb_state w) (wb_state (fst (handle env c r w)))"
proof -
  have stay: "request_change env c r st st" for st by (auto simp: request_change_def scoped_change_def)
  have l: "changes_by (request_change env c (GetProbes sid)) (\<lambda>w. reply 200 ProbeList (on_state (total_op (listProbes (we_now env) s (snd c))) w))" for sid s
    by (intro changes_reply changes_view [where op = "OpList s" and own = "snd c"]) auto
  have n: "changes_by (request_change env c GetServices) (\<lambda>w. reply 200 ServiceList (on_state (total_op (listServices (we_env env) (we_now env) (snd c))) w))"
    by (intro changes_reply changes_view [where op = OpListServices and own = "snd c"]) auto
  note by_route = changes_post changes_delete changes_register changes_instances changes_assignments changes_native_ingest
    changes_poll changes_status changes_upload changes_complete changes_ingest
  have "changes_by (request_change env c r) (handle env c r)" if "\<And>pid q k. r \<noteq> GetProbeData pid q k"
    using assms(1) that l n
    by (cases r) (auto intro!: by_route changes_guarded simp: changes_const)
  then have other: ?thesis if "\<And>pid q k. r \<noteq> GetProbeData pid q k"
    using that stay [of "wb_state w"] by (auto simp: changes_by_def) metis
  have ?thesis if "r = GetProbeData pid q k" for pid q k
    using changes_data [OF assms(2), of env c pid q k] stay [of "wb_state w"] by (auto simp: that)
  with other show ?thesis by blast
qed

subsection \<open>A request is a step of the broker\<close>

lemma op_step: "wire_op op \<Longrightarrow> broker_step env st (run_op env now s op st)"
  by (cases op) (auto simp: listProbes_def getProbe_def getEvents_def getStatus_def Let_def intro: broker_step.intros)

lemma change_steps:
  assumes "scoped_change env now s r st st'" "fresh_wait r st" "probes_ok st"
  shows "(broker_step env)\<^sup>*\<^sup>* st st'"
  using assms(1) unfolding scoped_change_def
proof (elim disjE exE conjE)
  fix pid q l assume r: "r = GetProbeData pid q l" and st': "st' = waitForEvents pid (wait_ms q) False l (sweep now st)"
  have "broker_step env st (sweep now st)" by (rule step_sweep)
  moreover have "broker_step env (sweep now st) st'" unfolding st'
    using assms(2) r by (intro step_wait) (simp add: sweep_waiting [OF assms(3)])
  ultimately show ?thesis by simp
qed (auto dest: op_step)

lemma server_refines: "server_step env cfg w w' \<Longrightarrow> probes_ok (wb_state w) \<Longrightarrow> (broker_step env)\<^sup>*\<^sup>* (wb_state w) (wb_state w')"
proof (induction rule: server_step.induct)
  case (request we r w rq)
  have "(broker_step env)\<^sup>*\<^sup>* (wb_state w) (wb_state (fst (handle we c r w)))" for c
    using handle_change [OF request.hyps(2) request.prems, of c] change_steps [OF _ request.hyps(3) request.prems] request.hyps(1)
    unfolding request_change_def by blast
  then show ?case by (auto simp: serve_def to_answer_def split: sum.split)
next
  case (resume we rq c w pid)
  have "expireDueProbes (we_now we) (sweep (we_now we) (wb_state w)) = (sweep (we_now we) (wb_state w), 0)"
    using resume.prems by (rule sweep_idem) simp
  then have "wb_state (fst (resumeProbeData we c pid w)) = sweep (we_now we) (wb_state w)"
    by (auto simp: resumeProbeData_def sendProbeData_def probeDataReply_def getProbe_def getStatus_def getEvents_def Let_def
        split: option.split)
  then show ?case using step_sweep [of env "wb_state w" "we_now we"] by auto
next
  case (ttl_timer persist w now now')
  have "fst (mutateDurably now now' (total_op (expireDueProbes now)) (\<lambda>expired st. if 0 < expired then persist st else (st, None)) (wb_state w))
      \<in> {wb_state w, fst (total_op (expireDueProbes now) (wb_state w))}"
    using ttl_timer by (intro durable_state) (auto simp: keeps_def)
  then show ?case using step_sweep [of env "wb_state w" now]
    by (auto simp: ttlTick_def on_state_def split: prod.split)
next
  case (close persist w)
  then show ?case using step_dispose [of env "wb_state w"] by (auto simp: closeBroker_def keeps_def)
qed (auto intro: step_finish)


text \<open>
  A forward simulation whose concrete step is any number of abstract ones: runs map to runs, and what holds of every
  abstract run holds behind the concrete one.
\<close>

locale simulation =
  fixes cstep :: "'c \<Rightarrow> 'c \<Rightarrow> bool" and astep :: "'a \<Rightarrow> 'a \<Rightarrow> bool" and abs :: "'c \<Rightarrow> 'a" and ok :: "'a \<Rightarrow> bool"
  assumes simulates: "ok (abs c) \<Longrightarrow> cstep c c' \<Longrightarrow> astep\<^sup>*\<^sup>* (abs c) (abs c')"
    and ok_astep: "ok a \<Longrightarrow> astep a a' \<Longrightarrow> ok a'"
begin

lemma ok_asteps: "astep\<^sup>*\<^sup>* a a' \<Longrightarrow> ok a \<Longrightarrow> ok a'"
  by (induction rule: rtranclp_induct) (auto intro: ok_astep)

lemma run_simulated: "cstep\<^sup>*\<^sup>* c c' \<Longrightarrow> ok (abs c) \<Longrightarrow> astep\<^sup>*\<^sup>* (abs c) (abs c') \<and> ok (abs c')"
proof (induction rule: rtranclp_induct)
  case (step d e)
  then have "astep\<^sup>*\<^sup>* (abs d) (abs e)" by (intro simulates) auto
  with step show ?case using ok_asteps by (auto intro: rtranclp_trans)
qed simp

end

interpretation srv: simulation "server_step env cfg" "broker_step env" wb_state broker_inv for env cfg
proof
  show "(broker_step env)\<^sup>*\<^sup>* (wb_state w) (wb_state w')" if "broker_inv (wb_state w)" "server_step env cfg w w'" for w w'
    using server_refines [OF that(2) broker_invD(1) [OF that(1)]] .
  show "broker_inv st'" if "broker_inv st" "broker_step env st st'" for st st' using that inv_step by blast
qed

lemma reachable_run: "(broker_step env)\<^sup>*\<^sup>* st st' \<Longrightarrow> reachable env st \<Longrightarrow> reachable env st'"
  by (induction rule: rtranclp_induct) (auto intro: reachable_step)

subsection \<open>A request stays in its tenant\<close>





subsection \<open>The audit log\<close>


lemma append_ok: "logs env \<Longrightarrow> snd (appendAuditEvent env c ctx out n code w) = Ok ()"
  by (auto simp: appendAuditEvent_def logs_def Let_def split: option.splits)

lemma append_okE:
  assumes "logs env"
  obtains w1 where "appendAuditEvent env c ctx out n code w = (w1, Ok ())" "wb_state w1 = wb_state w"
  using append_ok [OF assms, of c ctx out n code w] append_state [of env c ctx out n code w]
  by (metis prod.collapse)






subsection \<open>Callers without the right\<close>

definition refuses :: "(web \<Rightarrow> 'a web_res) \<Rightarrow> bool" where
  "refuses f \<longleftrightarrow> (\<forall>w. wb_state (fst (f w)) = wb_state w \<and> (\<exists>e. snd (f w) = Inl e \<and> status_of e \<in> {400, 403}))"

lemma refuses_guarded:
  assumes "\<And>e. g = Inl e \<Longrightarrow> status_of e = 400 \<or> status_of e = 403" "\<And>b. g = Inr b \<Longrightarrow> refuses (k b)"
  shows "refuses (guarded g k)"
  using assms by (cases g) (auto simp: refuses_def)

lemma refuses_parsed: "(\<And>b. v = Some b \<Longrightarrow> refuses (k b)) \<Longrightarrow> refuses (guarded (parsed name v) k)"
  by (rule refuses_guarded) (auto split: option.splits)

lemma refuses_checked: "refuses (k ()) \<Longrightarrow> refuses (guarded (if P then Ok () else Err (SchemaError name)) k)"
  by (rule refuses_guarded) (auto split: if_splits)

lemma refuses_schema: "refuses (guarded (Err (SchemaError name)) k)"
  by (simp add: refuses_def)

lemma refuses_reply: "refuses f \<Longrightarrow> refuses (\<lambda>w. reply n g (f w))"
  unfolding refuses_def by (metis fst_conv snd_conv sum.case(1))

lemma refuses_audited:
  assumes "refuses op" "logs env"
  shows "refuses (runAuditedMutation (appendAuditEvent env c) ctx op)"
  unfolding refuses_def
proof
  fix w
  obtain w1 where a: "appendAuditEvent env c ctx Attempt None None w = (w1, Ok ())" "wb_state w1 = wb_state w"
    using append_okE [OF assms(2)] by metis
  obtain w2 e where o: "op w1 = (w2, Inl e)" "wb_state w2 = wb_state w1" "status_of e \<in> {400, 403}"
    using assms(1) [unfolded refuses_def, rule_format, of w1] by (metis prod.collapse fst_conv)
  obtain w3 where "appendAuditEvent env c ctx (if status_of e = 401 \<or> status_of e = 403 then Denied else Failed)
      (Some (status_of e)) (Some (code_of e)) w2 = (w3, Ok ())" "wb_state w3 = wb_state w2"
    using append_okE [OF assms(2)] by metis
  with a o show "wb_state (fst (runAuditedMutation (appendAuditEvent env c) ctx op w)) = wb_state w \<and>
      (\<exists>e. snd (runAuditedMutation (appendAuditEvent env c) ctx op w) = Inl e \<and> status_of e \<in> {400, 403})"
    by (simp add: runAuditedMutation_def audit_failure_def)
qed

lemma refuses_rejection:
  assumes "refuses op" "logs env"
  shows "refuses (auditNativeRejection env c action rid op)"
  unfolding refuses_def
proof
  fix w
  obtain w2 e where o: "op w = (w2, Inl e)" "wb_state w2 = wb_state w" "status_of e \<in> {400, 403}"
    using assms(1) [unfolded refuses_def, rule_format, of w] by (metis prod.collapse)
  obtain w3 where "appendAuditEvent env c
       \<lparr>ax_action = action, ax_resourceType = ''native_runtime'', ax_resourceId = Some rid, ax_metadata = [], ax_successStatus = 200, ax_scope = None\<rparr>
       (if status_of e = 403 then Denied else Failed) (Some (status_of e)) (Some (code_of e)) w2 = (w3, Ok ())" "wb_state w3 = wb_state w2"
    using append_okE [OF assms(2)] by metis
  with o show "wb_state (fst (auditNativeRejection env c action rid op w)) = wb_state w \<and>
      (\<exists>e. snd (auditNativeRejection env c action rid op w) = Inl e \<and> status_of e \<in> {400, 403})"
    by (auto simp: auditNativeRejection_def)
qed

lemma refuses_human: "is_runtime p \<Longrightarrow> refuses (guarded (requireHumanRead p) k)" "is_runtime p \<Longrightarrow> refuses (guarded (requireProbeManager p) k)"
  by (auto simp: requireHumanRead_def requireProbeManager_def refuses_def)

lemma refuses_service: "\<not> acts_for_service p raw \<Longrightarrow> sid = js_trim raw \<Longrightarrow> refuses (guarded (requireServiceAccess p sid) k)"
  by (cases p) (auto simp: refuses_def)

lemma refuses_native: "\<not> acts_for_agent p raw \<Longrightarrow> aid = js_trim raw \<Longrightarrow> refuses (guarded (requireNativeAccess p aid) k)"
  by (cases p) (auto simp: refuses_def)

lemma parse_ids:
  "serviceId_parse raw = Some sid \<Longrightarrow> sid = js_trim raw"
  "agentId_parse raw = Some aid \<Longrightarrow> aid = js_trim raw"
  "registration_parse i = Some i' \<Longrightarrow> rg_agentId i' = js_trim (rg_agentId i)"
  "nativeIngest_parse n = Some n' \<Longrightarrow> ng_agentId n' = js_trim (ng_agentId n)"
  "nativeIngest_parse n = Some n' \<Longrightarrow> ng_serviceId n' = js_trim (ng_serviceId n)"
  "mapIdentity_parse a b c = Some (a', b', c') \<Longrightarrow> a' = js_trim a"
  "sourceMapUpload_parse u = Some u' \<Longrightarrow> ui_serviceId u' = js_trim (ui_serviceId u)"
  "ingest_parse g = Some g' \<Longrightarrow> ig_serviceId g' = js_trim (ig_serviceId g)"
  by (auto simp: serviceId_parse_def agentId_parse_def registration_parse_def nativeIngest_parse_def mapIdentity_parse_def
      sourceMapUpload_parse_def ingest_parse_def trimmed_Some split: option.splits if_splits)

lemma refuses_reports:
  assumes "\<not> reports_on p raw" "sid = js_trim raw"
  shows "refuses (guarded (requireNativeAccess p aid) (\<lambda>(scope, allowed) w1.
         if ''*'' \<notin> set allowed \<and> sid \<notin> set allowed then (w1, Err (HttpError 403 ''forbidden'' msg)) else k scope allowed w1))"
  using assms by (cases p) (auto simp: refuses_def)

lemma handle_refuses:
  assumes "\<not> permitted (fst c) r" "logs env"
  shows "refuses (handle env c r)"
  using assms(1)
proof (cases r)
  case (PostNativeIngest raw)
  have "refuses (guarded (requireNativeAccess (fst c) (ng_agentId input)) (\<lambda>(scope, allowed) w1.
         if ''*'' \<notin> set allowed \<and> ng_serviceId input \<notin> set allowed
         then (w1, Err (HttpError 403 ''forbidden'' ''native service is not allowed''))
         else durably env (PostNativeIngest raw) (ingestNative (we_now env) input scope) w1))"
    if "nativeIngest_parse raw = Some input" for input
    using assms(1) that PostNativeIngest parse_ids(4,5) [OF that] refuses_native refuses_reports by auto
  then show ?thesis unfolding PostNativeIngest handle.simps postNativeIngest_def nativeRoute_def
    by (intro refuses_parsed refuses_reply refuses_rejection assms(2))
qed (use assms(2) in \<open>auto simp: postProbe_def deleteProbeRoute_def postNativeAgent_def putInstances_def getAssignments_def nativeRoute_def
      getServiceProbes_def postMapStatus_def postMapUpload_def postMapComplete_def postIngest_def getProbeData_def
    intro!: refuses_parsed refuses_checked refuses_schema refuses_reply refuses_audited refuses_rejection refuses_human
    intro: refuses_service refuses_native dest: parse_ids\<close>)

text \<open>
  When the log fails only for the event that records the success, the change has been made and stored, but the log
  ends with an error and the caller is told of an error.
\<close>

lemma late_log_failure:
  assumes "we_audit env = Some put" "\<And>e. put e = (if ae_outcome e = Success then Some err else None)"
    and "op (w\<lparr>wb_audit := wb_audit w @ [audit_event_of (we_now env) c ctx Attempt None None]\<rparr>) = (w2, Ok x)"
  shows "\<exists>b. runAuditedMutation (appendAuditEvent env c) ctx op w = (w2\<lparr>wb_audit := wb_audit w2 @ [b]\<rparr>, Err err) \<and> ae_outcome b \<in> {Denied, Failed}"
  using assms by (cases x) (auto simp: runAuditedMutation_def audit_failure_def appendAuditEvent_def audit_event_of_def Let_def)

lemma sample_web_facts:
  "keeps (we_persist sample_web_env r)" "logs sample_web_env" "reachable (we_env sample_web_env) (wb_state sample_web)"
  using sample_reachable by (simp_all add: sample_web_env_def sample_web_def keeps_def logs_def)

section \<open>Properties\<close>

text \<open>C11: The server implements the broker: whatever requests arrive, with whatever credentials, interleaved with waiting
  requests, their ends and the timers, a run of the server over a store that keeps what it is given is a run of the
  broker's transition system, so the invariant of the broker holds behind the server all along.\<close>

theorem server_refines_broker:
  assumes "(server_step env cfg)\<^sup>*\<^sup>* w w'" "reachable env (wb_state w)"
  shows "(broker_step env)\<^sup>*\<^sup>* (wb_state w) (wb_state w') \<and> reachable env (wb_state w') \<and> broker_inv (wb_state w')"
  using srv.run_simulated [OF assms(1) inv_reachable [OF assms(2)]] reachable_run [OF _ assms(2)] by blast

theorem server_refines_broker_witness:
  "broker_inv (wb_state (fst (serve sample_web_env sample_auth sample_rq (GetServiceProbes ''pay'' 0 None) sample_web)))"
proof -
  have "server_step sample_env sample_auth sample_web (fst (serve sample_web_env sample_auth sample_rq (GetServiceProbes ''pay'' 0 None) sample_web))"
    by (rule request) (simp_all add: sample_web_facts, simp add: sample_web_env_def)
  then show ?thesis using server_refines_broker [of sample_env sample_auth sample_web] sample_reachable by (simp add: sample_web_def r_into_rtranclp)
qed







text \<open>C13: Rights: a caller that may not do what it asks for, by the table of rights, changes nothing in the broker and
  is answered with 403, or 400 when the request is malformed anyway.\<close>

theorem forbidden_requests_change_nothing:
  assumes "pre_handler cfg rq = Ok (p, s)" "\<not> permitted p r" "logs we"
  shows "wb_state (fst (serve we cfg rq r w)) = wb_state w \<and>
    (\<exists>n code. snd (serve we cfg rq r w) = Refusal n code \<and> (n = 403 \<or> n = 400))"
proof -
  have "refuses (handle we (p, s) r)" using assms(2,3) by (intro handle_refuses) auto
  then show ?thesis by (auto simp: refuses_def serve_def assms(1) to_answer_def dest!: spec [of _ w])
qed

theorem forbidden_requests_change_nothing_witness:
  "wb_state (fst (serve sample_web_env sample_auth sample_rq (DeleteProbe sample_id) sample_web)) = sample_broker"
  using forbidden_requests_change_nothing [OF sample_request_ok, of "DeleteProbe sample_id" sample_web_env sample_web] sample_web_facts(2)
  by (simp add: sample_web_def)

end
