(* ===== verification/Broker_Contracts.thy ===== *)
theory Broker_Contracts
  imports Broker_Sample
begin

text \<open>
  What each operation of the probe life cycle promises its caller, on success and on failure: creation,
  capability gating, ingestion and deletion.  The statements are about single calls in a reachable state
  and rest on the invariant; the concrete inputs at the top are those the properties are applied to.
\<close>

section \<open>Definitions\<close>

definition expr_env :: env where
  "expr_env = sample_env\<lparr>jsep := (\<lambda>_. Ok (JLiteral (JScalar (SBool True))))\<rparr>"

definition expr_input :: create_input where
  "expr_input = sample_input\<lparr>ci_conditionExpression := Some ''ok''\<rparr>"

definition capable_broker :: broker where
  "capable_broker = (empty_broker 2)\<lparr>
     agentCapabilityReports := [(serviceKey DEFAULT_RESOURCE_SCOPE ''pay'',
       [(''a1'', \<lparr>cr_lastSeen = 900, cr_capabilities = [''expression-ast-v1'']\<rparr>)])],
     services := [(serviceKey DEFAULT_RESOURCE_SCOPE ''pay'',
       \<lparr>sr_scope = DEFAULT_RESOURCE_SCOPE, sr_serviceId = ''pay'', sr_lastSeen = 900, sr_sdk = None, sr_commitSha = None,
        sr_commitSource = None, sr_capabilities = None, sr_agentStatus = None, sr_backend = None, sr_language = None,
        sr_instanceCount = None, sr_buildIds = None, sr_nativeLimitations = None\<rparr>)]\<rparr>"

definition sample_ingest :: ingest_input where
  "sample_ingest = \<lparr>ig_serviceId = ''pay'', ig_sdk = Node, ig_agentId = Some ''a1'', ig_commitSha = ''abcdef0'', ig_commitSource = None,
     ig_capabilities = None, ig_agentStatus = \<lparr>as_state = Green, as_detail = None, as_reasonCode = None, as_limits = None\<rparr>,
     ig_events = [\<lparr>ev_probeId = sample_id, ev_probeVersion = None, ev_ts = 1900, ev_body = CounterEvent 4\<rparr>]\<rparr>"

section \<open>Lemmas\<close>

lemma live_probes_append:
  "probes st' = probes st @ [(k, v)] \<Longrightarrow> live_probes st' s sid =
   live_probes st s sid @ (if sp_scope v = s \<and> pd_serviceId (sp_probe v) = sid \<and> \<not> sp_expired v then [sp_probe v] else [])"
  by (simp add: live_probes_def)

lemma probeBody_parse_expressions: "probeBody_parse b = Some b' \<Longrightarrow> body_has_expressions b' = body_has_expressions b"
  by (cases b) (auto simp: opt_parse_Some split: option.splits if_splits)

lemma created_expressions:
  assumes "probeDefinition_parse (assemble_probe input cp pid v) = Some p"
  shows "(pd_conditionExpression p \<noteq> None \<or> body_has_expressions (pd_body p)) \<longleftrightarrow> requiresExpressionCapability cp"
proof -
  obtain ce body where "opt_parse compiledExpression_parse (cp_conditionExpression cp) = Some ce" "probeBody_parse (cp_body cp) = Some body"
    "pd_conditionExpression p = ce" "pd_body p = body"
    using assms by (auto simp: probeDefinition_parse_def assemble_probe_def split: option.splits if_splits)
  then show ?thesis using probeBody_parse_expressions [of "cp_body cp" body]
    by (auto simp: requiresExpressionCapability_def opt_parse_Some)
qed

subsection \<open>Capability reports\<close>

lemma activeCapabilityIntersection_mem:
  "c \<in> set (snd (activeCapabilityIntersection now reports)) \<longleftrightarrow>
   (\<exists>r \<in> set (jvalues reports). \<not> cr_lastSeen r < now - ACTIVE_AGENT_WINDOW_MS) \<and>
   (\<forall>r \<in> set (jvalues reports). \<not> cr_lastSeen r < now - ACTIVE_AGENT_WINDOW_MS \<longrightarrow> c \<in> set (cr_capabilities r))"
proof -
  let ?act = "filter (\<lambda>(_, r). \<not> cr_lastSeen r < now - ACTIVE_AGENT_WINDOW_MS) reports"
  have s: "r \<in> set (jvalues ?act) \<longleftrightarrow> r \<in> set (jvalues reports) \<and> \<not> cr_lastSeen r < now - ACTIVE_AGENT_WINDOW_MS" for r
    by force
  show ?thesis
  proof (cases "jvalues ?act")
    case Nil
    then have "\<not> (\<exists>r \<in> set (jvalues reports). \<not> cr_lastSeen r < now - ACTIVE_AGENT_WINDOW_MS)" using s by (metis empty_iff list.set(1))
    with Nil show ?thesis by (simp add: activeCapabilityIntersection_def Let_def)
  next
    case (Cons r rs)
    have "c \<in> set (snd (activeCapabilityIntersection now reports)) \<longleftrightarrow> c \<in> set (cr_capabilities r) \<and> (\<forall>x \<in> set (jvalues ?act). c \<in> set (cr_capabilities x))"
      by (auto simp: activeCapabilityIntersection_def Let_def Cons list_all_iff)
    moreover have "r \<in> set (jvalues ?act)" by (simp add: Cons)
    ultimately show ?thesis using s by blast
  qed
qed

lemma refreshed_capability:
  assumes "has_capability (jget (services (refreshServiceCapabilities now scope sid st)) (serviceKey scope sid)) c"
  obtains reports where "jget (agentCapabilityReports st) (serviceKey scope sid) = Some reports"
    "\<exists>r \<in> set (jvalues reports). now - ACTIVE_AGENT_WINDOW_MS \<le> cr_lastSeen r"
    "\<forall>r \<in> set (jvalues reports). now - ACTIVE_AGENT_WINDOW_MS \<le> cr_lastSeen r \<longrightarrow> c \<in> set (cr_capabilities r)"
proof -
  obtain reports where r: "jget (agentCapabilityReports st) (serviceKey scope sid) = Some reports"
    "c \<in> set (snd (activeCapabilityIntersection now reports))"
    using assms by (auto simp: has_capability_def refreshServiceCapabilities_def Let_def case_prod_beta split: option.splits)
  from r(2) [unfolded activeCapabilityIntersection_mem] show ?thesis by (intro that [OF r(1)]) (auto simp: not_less)
qed

subsection \<open>Ingestion\<close>

lemma ring_ingest_event: "ring (ingest_event e st) p = (if p = ev_probeId e then ring_push (ringCapacity st) (ring st p) e else ring st p)"
proof -
  have "events (ingest_event e st) = events (appendEvent e st)"
    by (simp add: ingest_event_def Let_def split: event_body.split)
  from ring_frame [OF this] show ?thesis by simp
qed

lemma ring_fold_events:
  assumes "\<And>e s. ring (f e s) p = (if p = ev_probeId e then ring_push (ringCapacity s) (ring s p) e else ring s p)"
    "\<And>e s. ringCapacity (f e s) = ringCapacity s" "length (ring st p) \<le> ringCapacity st"
  shows "ring (fold f es st) p = newest (ringCapacity st) (ring st p @ filter (\<lambda>e. ev_probeId e = p) es)"
  using assms(3)
proof (induction es arbitrary: st)
  case Nil
  then show ?case by (simp add: newest_def)
next
  case (Cons e es)
  have "newest (ringCapacity st) (ring st p) = ring st p" using Cons.prems by (simp add: newest_def)
  then have p: "ring_push (ringCapacity st) (ring st p) e = newest (ringCapacity st) (ring st p @ [e])"
    using ring_push_newest [of "ringCapacity st" "ring st p" e] by simp
  have n: "newest c (newest c xs @ ys) = newest c (xs @ ys)" for c and xs ys :: "probe_event list"
    by (cases "length xs \<le> c") (auto simp: newest_def not_le add.commute)
  have "length (ring (f e st) p) \<le> ringCapacity (f e st)"
    using Cons.prems by (auto simp: assms(1,2) ring_push_def Let_def)
  from Cons.IH [OF this] show ?case by (auto simp: assms(1,2) p n)
qed

lemma expr_create:
  "\<exists>st' p. createProbe expr_env (\<lambda>_. sample_id) 1000 expr_input DEFAULT_RESOURCE_SCOPE capable_broker = (st', Ok p) \<and>
     pd_conditionExpression p \<noteq> None"
proof -
  let ?ce = "\<lparr>ce_source = ''ok'', ce_ast = Literal (SBool True)\<rparr>"
  let ?cp = "\<lparr>cp_conditionExpression = Some ?ce, cp_body = CounterProbe\<rparr>"
  let ?p = "sample_probe\<lparr>pd_conditionExpression := Some ?ce\<rparr>"
  have trim: "js_trim ''ok'' = ''ok''" by (simp add: js_trim_def js_space_def)
  have c: "compileProbeInput expr_env expr_input = Ok ?cp"
    by (simp add: compileProbeInput_def expr_input_def sample_input_def compile_opt_def compileExpression_def trim
        MAX_SOURCE_LENGTH_def expr_env_def convert.simps MAX_AST_NODES_def MAX_AST_DEPTH_def compile_or_400_def)
  have sid: "ci_serviceId expr_input = ''pay''" by (simp add: expr_input_def sample_input_def)
  let ?st1 = "refreshServiceCapabilities 1000 DEFAULT_RESOURCE_SCOPE ''pay'' capable_broker"
  have h: "has_capability (jget (services ?st1) (serviceKey DEFAULT_RESOURCE_SCOPE ''pay'')) ''expression-ast-v1''"
    "\<And>s. jget (services ?st1) (serviceKey DEFAULT_RESOURCE_SCOPE ''pay'') = Some s \<Longrightarrow> sr_backend s = None"
    by (auto simp: refreshServiceCapabilities_def capable_broker_def has_capability_def activeCapabilityIntersection_def ACTIVE_AGENT_WINDOW_MS_def Let_def)
  have ce: "create_error expr_input ?cp (jget (services ?st1) (serviceKey DEFAULT_RESOURCE_SCOPE ''pay'')) = None"
    using h by (auto simp: create_error_def capability_error_def expr_input_def sample_input_def split: option.splits)
  have p: "pick_id (\<lambda>_. sample_id) ?st1 0 = Ok sample_id"
    by (subst pick_id.simps) (simp add: capable_broker_def empty_broker_def)
  have v: "service_version ?st1 DEFAULT_RESOURCE_SCOPE ''pay'' = 0"
    by (simp add: service_version_def) (simp add: capable_broker_def empty_broker_def)
  have a: "assemble_probe expr_input ?cp sample_id 1 = ?p"
    by (simp add: assemble_probe_def expr_input_def sample_input_def sample_probe_def)
  have q: "probeDefinition_parse ?p = Some ?p"
    by (simp add: probeDefinition_parse_def sample_probe_def serviceId_parse_def sourceFile_parse_def sample_id_ok compiledExpression_parse_def
      trimmed_def len_between_def opt_parse_def trim_sample positive_int_def safe_int_def max_safe_def Let_def)
  have i: "snd (incrementServiceVersion ''pay'' DEFAULT_RESOURCE_SCOPE ?st1) = 1" using v by (simp add: incrementServiceVersion_def Let_def)
  obtain st2 where st2: "incrementServiceVersion ''pay'' DEFAULT_RESOURCE_SCOPE ?st1 = (st2, 1)" using i by (metis prod.collapse)
  show ?thesis by (simp add: createProbe_def c sid ce p sample_id_ok st2 a q Let_def)
qed

section \<open>Properties\<close>

text \<open>C6: A successful creation adds exactly the returned probe: under a fresh identifier, as the
  last of the live probes of its service, with the next version of the service and an empty ring; no
  other probe, ring, status or service version changes.\<close>

theorem create_probe_adds:
  assumes "createProbeInput_parse raw = Some input"
    and "createProbe env gen now input scope st = (st', Ok p)"
  shows "jget (probes st) (pd_id p) = None \<and> probeId_ok (pd_id p) \<and>
    probes st' = probes st @ [(pd_id p, \<lparr>sp_scope = scope, sp_probe = p,
       sp_expiresAt = expires_at now (ci_ttlSeconds input), sp_expired = False\<rparr>)] \<and>
    (\<forall>s sid. live_probes st' s sid = live_probes st s sid @ (if s = scope \<and> sid = ci_serviceId input then [p] else [])) \<and>
    (\<forall>s sid. service_version st' s sid = service_version st s sid + (if s = scope \<and> sid = ci_serviceId input then 1 else 0)) \<and>
    pd_version p = service_version st' scope (ci_serviceId input) \<and>
    (\<forall>q. ring st' q = (if q = pd_id p then [] else ring st q)) \<and> statuses st' = statuses st"
proof -
  have trim: "js_trim (ci_serviceId input) = ci_serviceId input" by (rule createProbeInput_service [OF assms(1)])
  from assms(2) obtain cp st1 where c:
    "st1 = refreshServiceCapabilities now scope (ci_serviceId input) st" "\<not> jhas (probes st) (pd_id p)" "probeId_ok (pd_id p)"
    "probeDefinition_parse (assemble_probe input cp (pd_id p) (service_version st scope (ci_serviceId input) + 1)) = Some p"
    "st' = (fst (incrementServiceVersion (ci_serviceId input) scope st1))
       \<lparr>probes := jset (pd_id p) \<lparr>sp_scope = scope, sp_probe = p,
          sp_expiresAt = expires_at now (pd_ttlSeconds p), sp_expired = False\<rparr> (probes st),
        events := jset (pd_id p) [] (events st)\<rparr>"
    by (cases rule: createProbe_OkE)
  note q = probeDefinition_parse_Some [OF c(4)]
  have sid: "pd_serviceId p = ci_serviceId input" using q(3) trim by (simp add: assemble_probe_def)
  have ttl: "pd_ttlSeconds p = ci_ttlSeconds input" using q(6) by (simp add: assemble_probe_def)
  have pr: "probes st' = probes st @ [(pd_id p, \<lparr>sp_scope = scope, sp_probe = p,
       sp_expiresAt = expires_at now (ci_ttlSeconds input), sp_expired = False\<rparr>)]"
    using c(2) by (simp add: c(5) jset_new ttl)
  have v1: "service_version st1 s i = service_version st s i" for s i by (rule service_version_frame) (simp add: c(1))
  have "service_version st' s i = service_version (fst (incrementServiceVersion (ci_serviceId input) scope st1)) s i" for s i
    by (rule service_version_frame) (simp add: c(5))
  then have v: "service_version st' s i = service_version st s i + (if s = scope \<and> i = ci_serviceId input then 1 else 0)" for s i
    by (simp add: v1)
  have "ring st' q = (if q = pd_id p then [] else ring st q)" for q by (simp add: ring_def c(1,5))
  moreover have "pd_version p = service_version st' scope (ci_serviceId input)" using q(2) by (simp add: v assemble_probe_def)
  moreover have "statuses st' = statuses st" by (simp add: c(1,5))
  moreover have "live_probes st' s i = live_probes st s i @ (if s = scope \<and> i = ci_serviceId input then [p] else [])" for s i
    using live_probes_append [OF pr, of s i] sid by simp
  ultimately show ?thesis using c(2,3) by (simp add: pr v jhas_def)
qed

theorem create_probe_adds_witness:
  "live_probes sample_broker DEFAULT_RESOURCE_SCOPE ''pay'' = live_probes (empty_broker 2) DEFAULT_RESOURCE_SCOPE ''pay'' @ [sample_probe]"
proof -
  have "ci_serviceId sample_input = ''pay''" by (simp add: sample_input_def)
  with create_probe_adds [OF sample_parse sample_create] show ?thesis by simp
qed

text \<open>A refused creation changes no probe, ring, status, listener or source map.  Versions do not move
  unless the compiled request fails the definition schema, and then only that of the requested service.\<close>

theorem create_probe_refused:
  assumes "createProbe env gen now input scope st = (st', Err e)"
  shows "probes st' = probes st \<and> events st' = events st \<and> statuses st' = statuses st \<and> listeners st' = listeners st \<and>
    sourceMapSets st' = sourceMapSets st \<and>
    (serviceVersions st' = serviceVersions st \<or>
     (\<exists>cp pid. compileProbeInput env input = Ok cp \<and>
        probeDefinition_parse (assemble_probe input cp pid (service_version st scope (ci_serviceId input) + 1)) = None \<and>
        (\<forall>s sid. service_version st' s sid = service_version st s sid + (if s = scope \<and> sid = ci_serviceId input then 1 else 0))))"
proof -
  have "service_version (refreshServiceCapabilities now scope (ci_serviceId input) st) s sid = service_version st s sid" for s sid
    by (rule service_version_frame) simp
  with assms show ?thesis by (cases rule: createProbe_ErrE) auto
qed

theorem create_probe_refused_witness:
  "\<exists>st' e. createProbe sample_env (\<lambda>_. sample_id) 1500 sample_input DEFAULT_RESOURCE_SCOPE sample_broker = (st', Err e) \<and> probes st' = probes sample_broker"
proof -
  have sid: "ci_serviceId sample_input = ''pay''" by (simp add: sample_input_def)
  have c: "compileProbeInput sample_env sample_input = Ok \<lparr>cp_conditionExpression = None, cp_body = CounterProbe\<rparr>"
    by (simp add: compileProbeInput_def sample_input_def compile_opt_def)
  have r: "refreshServiceCapabilities 1500 DEFAULT_RESOURCE_SCOPE ''pay'' sample_broker = sample_broker"
    by (simp add: refreshServiceCapabilities_def sample_broker_def empty_broker_def)
  have n: "jget (services sample_broker) k = None" for k by (simp add: sample_broker_def empty_broker_def)
  have ce: "create_error sample_input \<lparr>cp_conditionExpression = None, cp_body = CounterProbe\<rparr> None = None"
    by (simp add: create_error_def capability_error_def sample_input_def requiresExpressionCapability_def)
  have j: "jhas (probes sample_broker) sample_id" by (simp add: sample_broker_def jhas_def)
  have "pick_id (\<lambda>_. sample_id) sample_broker a = Err (PlainError ''probe id generator repeatedly produced collisions'')" if "a \<le> 10" for a
    using that by (induction "10 - a" arbitrary: a) (subst pick_id.simps, simp add: j)+
  then have "createProbe sample_env (\<lambda>_. sample_id) 1500 sample_input DEFAULT_RESOURCE_SCOPE sample_broker =
      (sample_broker, Err (PlainError ''probe id generator repeatedly produced collisions''))"
    by (simp add: createProbe_def c sid r n ce Let_def)
  from this create_probe_refused [OF this] show ?thesis by blast
qed

text \<open>C7: A probe that carries expressions is accepted for a managed service only while at least one agent of
  the service has reported in the activity window and every agent that has reports the expression
  capability.\<close>

theorem expression_probes_need_capable_agents:
  assumes "createProbe env gen now input scope st = (st', Ok p)"
    and "pd_conditionExpression p \<noteq> None \<or> body_has_expressions (pd_body p)"
  shows "\<exists>reports. jget (agentCapabilityReports st) (serviceKey scope (ci_serviceId input)) = Some reports \<and>
    (\<exists>r \<in> set (jvalues reports). now - ACTIVE_AGENT_WINDOW_MS \<le> cr_lastSeen r) \<and>
    (\<forall>r \<in> set (jvalues reports). now - ACTIVE_AGENT_WINDOW_MS \<le> cr_lastSeen r \<longrightarrow> ''expression-ast-v1'' \<in> set (cr_capabilities r))"
proof -
  from assms(1) obtain cp st1 where c: "st1 = refreshServiceCapabilities now scope (ci_serviceId input) st"
    "create_error input cp (jget (services st1) (serviceKey scope (ci_serviceId input))) = None"
    "probeDefinition_parse (assemble_probe input cp (pd_id p) (service_version st scope (ci_serviceId input) + 1)) = Some p"
    by (cases rule: createProbe_OkE)
  have "requiresExpressionCapability cp" using assms(2) created_expressions [OF c(3)] by blast
  then have "has_capability (jget (services st1) (serviceKey scope (ci_serviceId input))) ''expression-ast-v1''"
    using c(2) by (auto simp: create_error_def capability_error_def split: option.splits if_splits)
  from refreshed_capability [OF this [unfolded c(1)]] show ?thesis by metis
qed

theorem expression_probes_need_capable_agents_witness:
  "\<exists>reports. jget (agentCapabilityReports capable_broker) (serviceKey DEFAULT_RESOURCE_SCOPE ''pay'') = Some reports \<and>
     (\<forall>r \<in> set (jvalues reports). 1000 - ACTIVE_AGENT_WINDOW_MS \<le> cr_lastSeen r \<longrightarrow> ''expression-ast-v1'' \<in> set (cr_capabilities r))"
proof -
  obtain st' p where "createProbe expr_env (\<lambda>_. sample_id) 1000 expr_input DEFAULT_RESOURCE_SCOPE capable_broker = (st', Ok p)"
    "pd_conditionExpression p \<noteq> None" using expr_create by blast
  moreover have "ci_serviceId expr_input = ''pay''" by (simp add: expr_input_def sample_input_def)
  ultimately show ?thesis using expression_probes_need_capable_agents by (metis (no_types, lifting))
qed

text \<open>C8: A batch is taken whole or not at all.  When one event is refused, only the expiry sweep has happened.
  When it is taken, every event belonged to a probe of the calling scope and service and matched its
  type, each ring holds the newest events of its old content followed by the batch, and the rings of
  other probes are unchanged.\<close>

theorem ingest_all_or_nothing:
  assumes "reachable env st"
  shows "(\<forall>e st'. ingest now input scope st = (st', Err e) \<longrightarrow> st' = sweep now st) \<and>
    (\<forall>n st'. ingest now input scope st = (st', Ok n) \<longrightarrow>
       n = length (ig_events input) \<and>
       (\<forall>e \<in> set (ig_events input). \<exists>s. jget (probes (sweep now st)) (ev_probeId e) = Some s \<and> sp_scope s = scope \<and>
          pd_serviceId (sp_probe s) = ig_serviceId input \<and>
          (event_type (ev_body e) = None \<or> event_type (ev_body e) = Some (pd_type (sp_probe s)))) \<and>
       probes st' = probes (sweep now st) \<and>
       (\<forall>p. ring st' p = newest (ringCapacity st) (ring (sweep now st) p @ filter (\<lambda>e. ev_probeId e = p) (ig_events input))))"
proof (cases "first_error (ingest_event_error scope (ig_serviceId input) (sweep now st)) (ig_events input)")
  case (Some e)
  then show ?thesis by (simp add: ingest_def Let_def)
next
  case None
  have own: "\<exists>s. jget (probes (sweep now st)) (ev_probeId e) = Some s \<and> sp_scope s = scope \<and>
      pd_serviceId (sp_probe s) = ig_serviceId input \<and>
      (event_type (ev_body e) = None \<or> event_type (ev_body e) = Some (pd_type (sp_probe s)))" if "e \<in> set (ig_events input)" for e
  proof -
    have "ingest_event_error scope (ig_serviceId input) (sweep now st) e = None" using None that by (simp add: first_error_None)
    then show ?thesis by (rule ingest_event_error_None) blast
  qed
  define st1 where "st1 = touchService now (ig_serviceId input) (Some (ig_sdk input)) (Some (ig_agentStatus input))
    (Some (ig_commitSha input)) (ig_commitSource input) scope
    (Some (snd (reportAgentCapabilities now scope (ig_serviceId input)
      (case ig_agentId input of Some a \<Rightarrow> a | None \<Rightarrow> ''legacy:'' @ sdk_name (ig_sdk input) @ '':'' @ ig_commitSha input)
      (case ig_capabilities input of None \<Rightarrow> [] | Some c \<Rightarrow> c) (sweep now st))))
    (fst (reportAgentCapabilities now scope (ig_serviceId input)
      (case ig_agentId input of Some a \<Rightarrow> a | None \<Rightarrow> ''legacy:'' @ sdk_name (ig_sdk input) @ '':'' @ ig_commitSha input)
      (case ig_capabilities input of None \<Rightarrow> [] | Some c \<Rightarrow> c) (sweep now st)))"
  have i: "ingest now input scope st = (fold ingest_event (ig_events input) st1, Ok (length (ig_events input)))"
    by (simp add: ingest_def Let_def None case_prod_beta st1_def)
  have r: "ring st1 p = ring (sweep now st) p" for p by (rule ring_frame) (simp add: st1_def)
  have cap: "ringCapacity st1 = ringCapacity st" and pr: "probes st1 = probes (sweep now st)" by (simp_all add: st1_def)
  have "length (ring (sweep now st) p) \<le> ringCapacity (sweep now st)" for p
    using broker_invD(2) [OF inv_sweep [OF inv_reachable [OF assms]], of now] by (simp add: rings_ok_def)
  then have "ring (fold ingest_event (ig_events input) st1) p = newest (ringCapacity st)
      (ring (sweep now st) p @ filter (\<lambda>e. ev_probeId e = p) (ig_events input))" for p
    using ring_fold_events [of ingest_event p st1 "ig_events input"] by (simp add: ring_ingest_event r cap)
  moreover have "probes (fold ingest_event (ig_events input) st1) = probes (sweep now st)"
    using fold_frame [of probes ingest_event] by (simp add: pr)
  ultimately show ?thesis using own by (simp add: i)
qed

theorem ingest_all_or_nothing_witness:
  "ring (fst (ingest 2000 sample_ingest DEFAULT_RESOURCE_SCOPE sample_broker)) sample_id = ig_events sample_ingest"
proof -
  have "first_error (ingest_event_error DEFAULT_RESOURCE_SCOPE (ig_serviceId sample_ingest) sample_broker) (ig_events sample_ingest) = None"
    by (simp add: sample_ingest_def ingest_event_error_def sample_broker_def sample_stored_def sample_probe_def)
  then obtain st' where i: "ingest 2000 sample_ingest DEFAULT_RESOURCE_SCOPE sample_broker = (st', Ok (length (ig_events sample_ingest)))"
    by (simp add: ingest_def sample_no_due case_prod_beta Let_def)
  have c: "ringCapacity sample_broker = 2" by (simp add: sample_broker_def empty_broker_def)
  from ingest_all_or_nothing [OF sample_reachable, of 2000 sample_ingest DEFAULT_RESOURCE_SCOPE] i
  have "ring st' sample_id = newest 2 (ring sample_broker sample_id @ filter (\<lambda>e. ev_probeId e = sample_id) (ig_events sample_ingest))"
    by (simp add: sample_no_due c)
  then show ?thesis by (simp add: i sample_ring) (simp add: sample_ingest_def newest_def)
qed

text \<open>A deletion removes the probe, its ring and its status, wakes whoever waits for it, remembers the
  removal for the grace period and, unless the probe had expired, moves the version of its service on.
  A probe of another scope is reported as absent and nothing changes.\<close>

theorem delete_probe_exact:
  assumes "reachable env st"
  shows "(snd (deleteProbe now pid scope st) \<longleftrightarrow> visible_probe st pid scope \<noteq> None) \<and>
    (\<not> snd (deleteProbe now pid scope st) \<longrightarrow> fst (deleteProbe now pid scope st) = st) \<and>
    (\<forall>stored. jget (probes st) pid = Some stored \<and> sp_scope stored = scope \<longrightarrow>
       probes (fst (deleteProbe now pid scope st)) = jdel pid (probes st) \<and>
       statuses (fst (deleteProbe now pid scope st)) = jdel pid (statuses st) \<and>
       events (fst (deleteProbe now pid scope st)) = jdel pid (events st) \<and>
       (\<forall>s sid. service_version (fst (deleteProbe now pid scope st)) s sid = service_version st s sid +
          (if s = scope \<and> sid = pd_serviceId (sp_probe stored) \<and> \<not> sp_expired stored then 1 else 0)) \<and>
       waiting (fst (deleteProbe now pid scope st)) pid = [] \<and>
       resolved (fst (deleteProbe now pid scope st)) = resolved st @ map (\<lambda>l. (l, Activity)) (waiting st pid) \<and>
       jget (recentlyRemovedProbes (fst (deleteProbe now pid scope st))) pid = Some now)"
proof (cases "jget (probes st) pid")
  case None
  then show ?thesis by (simp add: deleteProbe_def visible_probe_def)
next
  case (Some stored)
  show ?thesis
  proof (cases "sp_scope stored = scope")
    case False
    with Some show ?thesis by (simp add: deleteProbe_def visible_probe_def)
  next
    case True
    define st1 where "st1 = (if sp_expired stored then st
       else fst (incrementServiceVersion (pd_serviceId (sp_probe stored)) (sp_scope stored) st))"
    define st2 where "st2 = st1\<lparr>probes := jdel pid (probes st1), events := jdel pid (events st1),
                      statuses := jdel pid (statuses st1), recentlyRemovedProbes := jset pid now (recentlyRemovedProbes st1)\<rparr>"
    have d: "deleteProbe now pid scope st = (signalActivity pid st2, True)"
      using Some True by (simp add: deleteProbe_def Let_def st1_def st2_def)
    have f: "probes st1 = probes st" "events st1 = events st" "statuses st1 = statuses st" "listeners st1 = listeners st" "resolved st1 = resolved st"
      by (simp_all add: st1_def)
    have w: "waiting st2 pid = waiting st pid" by (rule waiting_frame) (simp add: st2_def f)
    have "distinct (waiting st pid)" using broker_invD(4) [OF inv_reachable [OF assms]] by (simp add: listeners_ok_def)
    then have r: "resolved (signalActivity pid st2) = resolved st @ map (\<lambda>l. (l, Activity)) (waiting st pid)"
      using resolved_signalActivity [of st2 pid] w by (simp add: st2_def f)
    have "service_version (signalActivity pid st2) s sid = service_version st1 s sid" for s sid
      by (rule service_version_frame) (simp add: st2_def)
    then have v: "service_version (signalActivity pid st2) s sid = service_version st s sid +
        (if s = scope \<and> sid = pd_serviceId (sp_probe stored) \<and> \<not> sp_expired stored then 1 else 0)" for s sid
      using True by (simp add: st1_def)
    show ?thesis unfolding d fst_conv snd_conv using Some True by (simp add: visible_probe_def r v) (simp add: st2_def f)
  qed
qed

theorem delete_probe_exact_witness:
  "probes (fst (deleteProbe 3000 sample_id DEFAULT_RESOURCE_SCOPE sample_broker)) = [] \<and>
   service_version (fst (deleteProbe 3000 sample_id DEFAULT_RESOURCE_SCOPE sample_broker)) DEFAULT_RESOURCE_SCOPE ''pay'' = 2"
proof -
  have "jget (probes sample_broker) sample_id = Some sample_stored" "sp_scope sample_stored = DEFAULT_RESOURCE_SCOPE"
    "pd_serviceId (sp_probe sample_stored) = ''pay''" "\<not> sp_expired sample_stored" "jdel sample_id (probes sample_broker) = []"
    by (simp_all add: sample_broker_def sample_stored_def sample_probe_def)
  with delete_probe_exact [OF sample_reachable, of 3000 sample_id DEFAULT_RESOURCE_SCOPE] sample_version show ?thesis by simp
qed

end
