(* ===== verification/Source_Map_Contracts.thy ===== *)
theory Source_Map_Contracts
  imports Broker_Sample
begin

text \<open>
  What the source-map operations of the broker promise over time: an upload belongs to one agent, a completed
  set does not change while it is kept, only the most recent sets of a service are kept, and the text of the
  original sources is never stored.
\<close>

section \<open>Definitions\<close>

text \<open>No stored map carries the member \<^verbatim>\<open>sourcesContent\<close>, at any depth.\<close>

definition sources_stripped :: "broker \<Rightarrow> bool" where
  "sources_stripped st \<longleftrightarrow> (\<forall>k v. jget (sourceMapSets st) k = Some v \<longrightarrow>
     (\<forall>m \<in> set (jvalues (ss_maps v)). ''sourcesContent'' \<notin> json_keys (sm_map m)))"

subsection \<open>A concrete upload\<close>

definition map_env :: env where
  "map_env = sample_env\<lparr>traceMap := (\<lambda>_ _. Some \<lparr>tr_file = None, tr_mappings = []\<rparr>)\<rparr>"

definition sample_sha :: string where "sample_sha = ''abcdef0''"

definition sample_upload :: upload_input where
  "sample_upload = \<lparr>ui_serviceId = ''pay'', ui_commitSha = sample_sha, ui_uploaderId = ''a'', ui_mapPath = ''a.js.map'',
     ui_map = JObj [(''sourcesContent'', JArr []), (''names'', JArr [])]\<rparr>"

definition map_claimed :: broker where
  "map_claimed = fst (sourceMapStatus 1000 ''pay'' sample_sha ''a'' DEFAULT_RESOURCE_SCOPE (empty_broker 2))"

definition map_uploaded :: broker where
  "map_uploaded = fst (uploadSourceMap map_env 1100 sample_upload DEFAULT_RESOURCE_SCOPE map_claimed)"

definition map_completed :: broker where
  "map_completed = fst (completeSourceMaps map_env 1200 ''pay'' sample_sha ''a'' DEFAULT_RESOURCE_SCOPE map_uploaded)"

definition sample_set :: source_map_set where
  "sample_set = \<lparr>ss_scope = DEFAULT_RESOURCE_SCOPE, ss_serviceId = ''pay'', ss_commitSha = sample_sha, ss_complete = False, ss_updatedAt = 1100,
     ss_maps = [(''a.js.map'', \<lparr>sm_mapPath = ''a.js.map'', sm_map = JObj [(''names'', JArr [])], sm_uploadedAt = 1100\<rparr>)]\<rparr>"

section \<open>Lemmas\<close>

text \<open>Only the three upload operations touch the stored sets.\<close>

lemma step_sets:
  assumes "broker_step env st st'"
  obtains (same) "sourceMapSets st' = sourceMapSets st"
  | (status) now sid sha u scope where "st' = fst (sourceMapStatus now sid sha u scope st)" "nul \<notin> set sha"
  | (upload) now i scope where "st' = fst (uploadSourceMap env now i scope st)" "nul \<notin> set (ui_commitSha i)"
  | (complete) now sid sha u scope where "st' = fst (completeSourceMaps env now sid sha u scope st)" "nul \<notin> set sha"
  using assms
proof (cases rule: broker_step.cases)
  case (step_create raw input gen now scope)
  obtain r where e: "createProbe env gen now input scope st = (st', r)" using step_create(1) by (metis prod.collapse)
  have "sourceMapSets st' = sourceMapSets st"
  proof (cases r)
    case (Inl err)
    from e [unfolded this] show ?thesis by (cases rule: createProbe_ErrE) simp_all
  next
    case (Inr p)
    from e [unfolded this] show ?thesis by (cases rule: createProbe_OkE) simp
  qed
  then show ?thesis by (rule same)
next
  case (step_delete now pid scope)
  then show ?thesis by (intro same) (simp add: deleteProbe_def Let_def split: option.split)
next
  case (step_poll now sid since commit scope)
  then show ?thesis by (intro same) (simp add: pollProbes_def Let_def)
next
  case (step_ingest now input scope)
  then show ?thesis by (intro same) (simp add: ingest_def Let_def fold_frame case_prod_beta split: option.split)
next
  case (step_assignments now aid since scope allowed)
  then show ?thesis using fst_nativeAssignments [of env now aid since scope allowed st] by (intro same) auto
next
  case (step_wait l pid timeoutMs aborted)
  then show ?thesis by (intro same) (simp add: waitForEvents_def)
qed (auto intro: that simp: native_ops_frame replace_frame register_frame dispose_frame dest: sourceCommit_no_nul)

lemma status_sets:
  assumes "jget (sourceMapSets (fst (sourceMapStatus now sid c u s st))) k = Some v"
  shows "jget (sourceMapSets st) k = Some v \<or> k = sourceMapKey s sid c \<and> ss_maps v = [] \<and> \<not> ss_complete v"
  using assms by (auto simp: sourceMapStatus_def Let_def split: if_splits option.splits)

lemma upload_sets:
  assumes "jget (sourceMapSets (fst (uploadSourceMap env now i s st))) k = Some v"
  shows "jget (sourceMapSets st) k = Some v \<or>
    (\<exists>m. k = sourceMapKey s (ui_serviceId i) (ui_commitSha i) \<and> stripSourcesContent (ui_map i) = Ok m \<and> jhas (sourceMapLeases st) k \<and>
       ss_maps v = jset (ui_mapPath i) \<lparr>sm_mapPath = ui_mapPath i, sm_map = m, sm_uploadedAt = now\<rparr>
         (case jget (sourceMapSets st) k of None \<Rightarrow> [] | Some w \<Rightarrow> ss_maps w))"
proof (cases now "ui_serviceId i" "ui_commitSha i" "ui_uploaderId i" s st rule: assert_cases)
  case (refused e)
  then show ?thesis using assms by (simp add: uploadSourceMap_def)
next
  case (held l)
  then show ?thesis using assms
    by (auto simp: uploadSourceMap_def Let_def jhas_def bind_res_Inr_iff set_or_new_def split: sum.splits if_splits option.splits)
qed

lemma complete_sets:
  assumes "jget (sourceMapSets (fst (completeSourceMaps env now sid c u s st))) k = Some v"
  shows "jget (sourceMapSets st) k = Some v \<or>
    k = sourceMapKey s sid c \<and> jhas (sourceMapLeases st) k \<and>
    ss_maps v = (case jget (sourceMapSets st) k of None \<Rightarrow> [] | Some w \<Rightarrow> ss_maps w)"
proof (cases now sid c u s st rule: assert_cases)
  case (refused e)
  then show ?thesis using assms by (simp add: completeSourceMaps_def)
next
  case (held l)
  then show ?thesis using assms
    by (auto simp: completeSourceMaps_held [OF held(2-4)] jget_fold_jdel jhas_def set_or_new_def split: if_splits option.splits)
qed

lemma jset_values: "x \<in> set (jvalues (jset k v m)) \<Longrightarrow> x = v \<or> x \<in> set (jvalues m)"
  by (induction m) (auto split: if_splits)

lemma stripped_step:
  assumes "broker_step env st st'" "sources_stripped st"
  shows "sources_stripped st'"
  unfolding sources_stripped_def
proof (intro allI impI ballI)
  fix k v m assume v: "jget (sourceMapSets st') k = Some v" and m: "m \<in> set (jvalues (ss_maps v))"
  have old: "''sourcesContent'' \<notin> json_keys (sm_map m)" if "jget (sourceMapSets st) q = Some w" "m \<in> set (jvalues (ss_maps w))" for q w
    using assms(2) that by (auto simp: sources_stripped_def)
  from assms(1) show "''sourcesContent'' \<notin> json_keys (sm_map m)"
  proof (cases rule: step_sets)
    case same
    then show ?thesis using v m old by auto
  next
    case (status now sid sha u scope)
    then show ?thesis using status_sets [of now sid sha u scope st k v] v m old by auto
  next
    case (upload now i scope)
    with upload_sets [of env now i scope st k v] v consider "jget (sourceMapSets st) k = Some v"
      | clean where "stripSourcesContent (ui_map i) = Ok clean"
         "ss_maps v = jset (ui_mapPath i) \<lparr>sm_mapPath = ui_mapPath i, sm_map = clean, sm_uploadedAt = now\<rparr>
            (case jget (sourceMapSets st) k of None \<Rightarrow> [] | Some w \<Rightarrow> ss_maps w)" by auto
    then show ?thesis
    proof cases
      case 1
      then show ?thesis using m old by blast
    next
      case (2 clean)
      have "m = \<lparr>sm_mapPath = ui_mapPath i, sm_map = clean, sm_uploadedAt = now\<rparr> \<or>
          m \<in> set (jvalues (case jget (sourceMapSets st) k of None \<Rightarrow> [] | Some w \<Rightarrow> ss_maps w))"
        using m unfolding 2(2) by (rule jset_values)
      then show ?thesis
      proof
        assume "m = \<lparr>sm_mapPath = ui_mapPath i, sm_map = clean, sm_uploadedAt = now\<rparr>"
        then show ?thesis using stripSourcesContent_Ok [OF 2(1)] by (metis stored_source_map.select_convs(2))
      next
        assume "m \<in> set (jvalues (case jget (sourceMapSets st) k of None \<Rightarrow> [] | Some w \<Rightarrow> ss_maps w))"
        then show ?thesis using old by (cases "jget (sourceMapSets st) k") auto
      qed
    qed
  next
    case (complete now sid sha u scope)
    with complete_sets [of env now sid sha u scope st k v] v consider "jget (sourceMapSets st) k = Some v"
      | "ss_maps v = (case jget (sourceMapSets st) k of None \<Rightarrow> [] | Some w \<Rightarrow> ss_maps w)" by blast
    then show ?thesis
    proof cases
      case 2
      then show ?thesis using m old [of k] by (cases "jget (sourceMapSets st) k") simp_all
    qed (use m old in blast)
  qed
qed

lemma stripped_reachable: "reachable env st \<Longrightarrow> sources_stripped st"
proof (induction rule: reachable.induct)
  case (reachable_init cap st)
  then show ?case by (auto simp: new_broker_def empty_broker_def sources_stripped_def split: option.splits if_splits)
qed (rule stripped_step)

subsection \<open>Retention\<close>

lemma retention_comparator:
  assumes "collates env"
  shows "consistent_comparator (retention_le env)"
proof
  fix x y z :: "string \<times> source_map_set"
  show "retention_le env x y \<or> retention_le env y x"
    using collatesD(1) [OF assms, of "fst x" "fst y"] by (auto simp: retention_le_def)
  show "retention_le env x y \<Longrightarrow> retention_le env y z \<Longrightarrow> retention_le env x z"
    using collatesD(2) [OF assms, of "fst z" "fst y" "fst x"] by (auto simp: retention_le_def)
qed

lemma fold_jdel_filter: "fold jdel ks m = filter (\<lambda>p. fst p \<notin> set ks) m"
proof (induction ks arbitrary: m)
  case (Cons k ks)
  then show ?case by (simp add: jdel_filter)
qed simp

lemma take_of_distinct:
  assumes "distinct (map f xs)"
  shows "filter (\<lambda>x. f x \<notin> set (map f (drop n xs))) xs = take n xs"
proof -
  have d: "distinct (map f (take n xs) @ map f (drop n xs))" using assms by (metis append_take_drop_id map_append)
  then have "filter (\<lambda>x. f x \<notin> set (map f (drop n xs))) (take n xs) = take n xs"
    by (intro filter_True) auto
  moreover have "filter (\<lambda>x. f x \<notin> set (map f (drop n xs))) (drop n xs) = []" by (intro filter_False) auto
  ultimately show ?thesis by (metis append_Nil2 append_take_drop_id filter_append)
qed

lemma retained_after:
  fixes env s sid
  assumes "jwf (sourceMapSets st)"
  defines "R \<equiv> retained_sets env s sid st"
  shows "mset (filter (\<lambda>(_, c). ss_scope c = s \<and> ss_serviceId c = sid) (fold jdel (dropped_sets env s sid st) (sourceMapSets st))) =
    mset (take SOURCE_MAP_COMMITS_PER_SERVICE R)"
proof -
  let ?own = "filter (\<lambda>(_, c). ss_scope c = s \<and> ss_serviceId c = sid) (sourceMapSets st)"
  have R: "mset R = mset ?own" by (simp add: R_def retained_sets_def)
  have "distinct (map fst ?own)" using assms(1) by (simp add: distinct_map_filter)
  moreover have "mset (map fst R) = mset (map fst ?own)" by (simp only: mset_map R)
  ultimately have d: "distinct (map fst R)" using mset_eq_imp_distinct_iff [of "map fst R" "map fst ?own"] by blast
  have "filter (\<lambda>(_, c). ss_scope c = s \<and> ss_serviceId c = sid) (fold jdel (dropped_sets env s sid st) (sourceMapSets st)) =
      filter (\<lambda>p. fst p \<notin> set (dropped_sets env s sid st)) ?own"
    unfolding fold_jdel_filter filter_filter by (rule filter_cong) auto
  then have "mset (filter (\<lambda>(_, c). ss_scope c = s \<and> ss_serviceId c = sid) (fold jdel (dropped_sets env s sid st) (sourceMapSets st))) =
      filter_mset (\<lambda>p. fst p \<notin> set (dropped_sets env s sid st)) (mset ?own)"
    by (simp only: mset_filter)
  also have "\<dots> = mset (filter (\<lambda>p. fst p \<notin> set (map fst (drop SOURCE_MAP_COMMITS_PER_SERVICE R))) R)"
    unfolding mset_filter [of _ R] R dropped_sets_def R_def [symmetric] ..
  also have "\<dots> = mset (take SOURCE_MAP_COMMITS_PER_SERVICE R)" by (simp only: take_of_distinct [OF d])
  finally show ?thesis .
qed

subsection \<open>The concrete upload\<close>

lemma sample_sha_parse: "sourceCommit_parse ''abcdef0'' = Some sample_sha"
  by code_simp

lemma map_uploaded_eq:
  "sourceMapSets map_uploaded = [(sourceMapKey DEFAULT_RESOURCE_SCOPE ''pay'' sample_sha, sample_set)]"
  "sourceMapLeases map_uploaded = [(sourceMapKey DEFAULT_RESOURCE_SCOPE ''pay'' sample_sha, \<lparr>le_uploaderId = ''a'', le_expiresAt = 121100\<rparr>)]"
  by (simp_all add: map_uploaded_def map_claimed_def sourceMapStatus_def empty_broker_def uploadSourceMap_def sample_upload_def
      assertSourceMapUploader_def stripSourcesContent_def validateSourceMap_def map_env_def set_or_new_def sample_set_def LEASE_MS_def Let_def)

lemma map_reachable: "reachable map_env map_uploaded"
proof -
  have "reachable map_env (empty_broker 2)" by (rule reachable_init [of "Some 2"]) (simp add: new_broker_def)
  then have "reachable map_env map_claimed"
    unfolding map_claimed_def by (rule reachable_step) (rule step_map_status [OF sample_sha_parse])
  then show ?thesis
    unfolding map_uploaded_def by (rule reachable_step) (rule step_map_upload [where raw_sha = "''abcdef0''"], simp add: sample_upload_def sample_sha_parse)
qed

lemma map_completed_step: "broker_step map_env map_uploaded map_completed"
  unfolding map_completed_def by (rule step_map_complete [OF sample_sha_parse])

lemma map_completed_Ok:
  "completeSourceMaps map_env 1200 ''pay'' sample_sha ''a'' DEFAULT_RESOURCE_SCOPE map_uploaded = (map_completed, Ok ())"
proof -
  have "jget (sourceMapLeases map_uploaded) (sourceMapKey DEFAULT_RESOURCE_SCOPE ''pay'' sample_sha) = Some \<lparr>le_uploaderId = ''a'', le_expiresAt = 121100\<rparr>"
    by (simp add: map_uploaded_eq)
  from completeSourceMaps_held [OF this, of 1200 "''a''" map_env] show ?thesis by (simp add: map_completed_def)
qed

lemma map_completed_eq:
  "sourceMapSets map_completed = [(sourceMapKey DEFAULT_RESOURCE_SCOPE ''pay'' sample_sha, sample_set\<lparr>ss_complete := True, ss_updatedAt := 1200\<rparr>)]"
  by (simp add: map_completed_def completeSourceMaps_def assertSourceMapUploader_def map_uploaded_eq set_or_new_def retained_sets_def
      SOURCE_MAP_COMMITS_PER_SERVICE_def LEASE_MS_def Let_def)

section \<open>Properties\<close>



text \<open>A completed set of source maps is immutable: one step of the broker leaves it as it is or drops it.\<close>

theorem complete_set_frozen:
  assumes "reachable env st" "broker_step env st st'" "jget (sourceMapSets st) k = Some v" "ss_complete v"
  shows "jget (sourceMapSets st') k = Some v \<or> jget (sourceMapSets st') k = None"
proof -
  note mo = broker_invD(7) [OF inv_reachable [OF assms(1)]]
  have nl: "\<not> jhas (sourceMapLeases st) k" using maps_okD(4) [OF mo assms(3,4)] .
  from assms(2) show ?thesis
  proof (cases rule: step_sets)
    case same
    then show ?thesis using assms(3) by simp
  next
    case (status now sid sha u scope)
    show ?thesis
    proof (cases "k = sourceMapKey scope sid sha")
      case True
      then show ?thesis using assms(3,4) by (simp add: status sourceMapStatus_def Let_def)
    next
      case False
      then have "jget (sourceMapSets st') k = jget (sourceMapSets st) k"
        by (simp add: status(1) sourceMapStatus_def Let_def split: option.split)
      then show ?thesis using assms(3) by simp
    qed
  next
    case (upload now i scope)
    then show ?thesis using upload_sets [of env now i scope st k] nl assms(3) by (cases "jget (sourceMapSets st') k") auto
  next
    case (complete now sid sha u scope)
    then show ?thesis using complete_sets [of env now sid sha u scope st k] nl assms(3) by (cases "jget (sourceMapSets st') k") auto
  qed
qed

theorem complete_set_frozen_witness:
  "jget (sourceMapSets (fst (sourceMapStatus 5000 ''pay'' sample_sha ''b'' DEFAULT_RESOURCE_SCOPE map_completed)))
      (sourceMapKey DEFAULT_RESOURCE_SCOPE ''pay'' sample_sha) \<in> {Some (sample_set\<lparr>ss_complete := True, ss_updatedAt := 1200\<rparr>), None}"
proof -
  have r: "reachable map_env map_completed" by (rule reachable_step [OF map_reachable map_completed_step])
  from complete_set_frozen [OF r step_map_status [OF sample_sha_parse, of map_env map_completed 5000 "''pay''" "''b''" DEFAULT_RESOURCE_SCOPE]]
  show ?thesis by (simp add: map_completed_eq)
qed

text \<open>The source text of the monitored program never reaches the broker's store: in every reachable state no stored
  map has a \<^verbatim>\<open>sourcesContent\<close> member at any depth.\<close>

theorem sources_never_stored:
  assumes "reachable env st" "jget (sourceMapSets st) k = Some v" "m \<in> set (jvalues (ss_maps v))"
  shows "''sourcesContent'' \<notin> json_keys (sm_map m)"
  using stripped_reachable [OF assms(1)] assms(2,3) by (auto simp: sources_stripped_def)

theorem sources_never_stored_witness: "''sourcesContent'' \<notin> json_keys (JObj [(''names'', JArr [])])"
proof -
  have "jget (sourceMapSets map_uploaded) (sourceMapKey DEFAULT_RESOURCE_SCOPE ''pay'' sample_sha) = Some sample_set"
    by (simp add: map_uploaded_eq)
  from sources_never_stored [OF map_reachable this] show ?thesis by (simp add: sample_set_def)
qed

text \<open>Completing a set keeps at most five sets of the service, and none that was dropped is newer than one that was
  kept.\<close>

theorem retention_keeps_newest:
  assumes "reachable env st" "nul \<notin> set sha" "collates env"
    and "completeSourceMaps env now sid sha u scope st = (st', Ok ())"
  shows "length (sets_of st' scope sid) \<le> SOURCE_MAP_COMMITS_PER_SERVICE \<and>
    (\<forall>p \<in> set (sets_of st' scope sid). \<forall>q \<in> set (sets_of st scope sid).
       fst q \<notin> set (jkeys (sourceMapSets st')) \<longrightarrow> fst q \<noteq> sourceMapKey scope sid sha \<longrightarrow>
       ss_updatedAt (snd q) \<le> ss_updatedAt (snd p))"
proof (cases now sid sha u scope st rule: assert_cases)
  case (refused e)
  then show ?thesis using assms(4) by (simp add: completeSourceMaps_def)
next
  case (held l)
  let ?k = "sourceMapKey scope sid sha"
  define st1 where "st1 = st\<lparr>sourceMapLeases := jset ?k (l\<lparr>le_expiresAt := now + LEASE_MS\<rparr>) (sourceMapLeases st)\<rparr>"
  define v where "v = (set_or_new now scope sid sha st1)\<lparr>ss_complete := True, ss_updatedAt := now\<rparr>"
  define st3 where "st3 = fst (incrementServiceVersion sid scope (st1\<lparr>sourceMapSets := jset ?k v (sourceMapSets st1),
      sourceMapLeases := jdel ?k (sourceMapLeases st1)\<rparr>))"
  define R where "R = retained_sets env scope sid st3"
  have st': "sourceMapSets st' = fold jdel (dropped_sets env scope sid st3) (sourceMapSets st3)"
    using completeSourceMaps_held [OF held(2-4), of env] assms(4) by (simp add: st3_def v_def st1_def)
  have sets: "sourceMapSets st3 = jset ?k v (sourceMapSets st)" by (simp add: st3_def st1_def)
  note mo = broker_invD(7) [OF inv_reachable [OF assms(1)]]
  have wf: "jwf (sourceMapSets st3)" using maps_okD(1) [OF mo] by (simp add: sets)
  have m: "mset (sets_of st' scope sid) = mset (take SOURCE_MAP_COMMITS_PER_SERVICE R)"
    using retained_after [OF wf, of scope sid env] by (simp add: sets_of_def st' R_def)
  have "length (sets_of st' scope sid) \<le> SOURCE_MAP_COMMITS_PER_SERVICE"
    using arg_cong [OF m, of size] by simp
  moreover have "ss_updatedAt (snd q) \<le> ss_updatedAt (snd p)"
    if p: "p \<in> set (sets_of st' scope sid)" and q: "q \<in> set (sets_of st scope sid)"
      and gone: "fst q \<notin> set (jkeys (sourceMapSets st'))" and other: "fst q \<noteq> ?k" for p q
  proof -
    have "sorted_by (retention_le env) R"
      using consistent_comparator.sorts [OF retention_comparator [OF assms(3)]] by (simp add: R_def retained_sets_def)
    then have srt: "\<forall>a \<in> set (take SOURCE_MAP_COMMITS_PER_SERVICE R). \<forall>b \<in> set (drop SOURCE_MAP_COMMITS_PER_SERVICE R). retention_le env a b"
      unfolding sorted_by_def by (metis append_take_drop_id sorted_wrt_append)
    have "p \<in> set (take SOURCE_MAP_COMMITS_PER_SERVICE R)" using p m by (metis set_mset_mset)
    moreover have "q \<in> set (sourceMapSets st3)" using q other maps_okD(1) [OF mo] by (auto simp: sets set_jset sets_of_def)
    then have "fst q \<in> set (dropped_sets env scope sid st3)" using gone by (force simp: st' fold_jdel_filter)
    then obtain q' where q': "q' \<in> set (drop SOURCE_MAP_COMMITS_PER_SERVICE R)" "fst q' = fst q" by (auto simp: dropped_sets_def R_def)
    then have "q' \<in> set (sourceMapSets st3)" by (auto simp: R_def retained_sets_def dest!: in_set_dropD)
    with \<open>q \<in> set (sourceMapSets st3)\<close> q'(2) wf have "q' = q" by (metis eq_key_imp_eq_value prod.collapse)
    ultimately have "retention_le env p q" using srt q'(1) by blast
    then show ?thesis by (auto simp: retention_le_def)
  qed
  ultimately show ?thesis by blast
qed

theorem retention_keeps_newest_witness: "length (sets_of map_completed DEFAULT_RESOURCE_SCOPE ''pay'') \<le> 5"
proof -
  have "collates map_env" by (auto simp: collates_def map_env_def sample_env_def)
  moreover have "nul \<notin> set sample_sha" using sourceCommit_no_nul [OF sample_sha_parse] .
  ultimately show ?thesis using retention_keeps_newest [OF map_reachable _ _ map_completed_Ok]
    by (simp add: SOURCE_MAP_COMMITS_PER_SERVICE_def)
qed

end
