(* ===== verification/Probe_Id.thy ===== *)
theory Probe_Id
  imports Protocol
begin

text \<open>
  The default generator of probe ids (\<^verbatim>\<open>packages/broker/src/index.ts\<close>, \<^verbatim>\<open>encodeCrockford\<close> and
  \<^verbatim>\<open>createProbeId\<close>).  The ten bytes of \<^verbatim>\<open>randomBytes\<close> are the argument \<open>random\<close>, read as the
  number the source reads them as.  The lemmas show that an id has the format the protocol demands,
  that ids are ordered as strings by the millisecond they were made in and that time and randomness
  can be read back from an id.
\<close>

section \<open>Definitions\<close>

text \<open>The loop of \<^verbatim>\<open>encodeCrockford\<close>; on a \<^verbatim>\<open>bigint\<close>, \<^verbatim>\<open>& 31n\<close> is \<open>mod 32\<close> and \<^verbatim>\<open>>>= 5n\<close> is \<open>div 32\<close>.\<close>

fun crockford_loop :: "int \<Rightarrow> string \<Rightarrow> nat \<Rightarrow> string" where
  "crockford_loop remaining acc 0 = acc"
| "crockford_loop remaining acc (Suc n) =
     crockford_loop (remaining div 32) (CROCKFORD_BASE32 ! nat (remaining mod 32) # acc) n"

definition encodeCrockford :: "int \<Rightarrow> nat \<Rightarrow> string" where
  "encodeCrockford value len = crockford_loop value [] len"

definition createProbeId :: "jsnum \<Rightarrow> int \<Rightarrow> (string, string) res" where
  "createProbeId now random =
     (case now of
        Fin q \<Rightarrow>
          if \<not> is_safe_integer_num now \<or> q < 0 \<or> of_int (2 ^ 48 - 1) < q
          then Err ''now must fit in the ULID 48-bit timestamp field''
          else Ok (''prb_'' @ encodeCrockford \<lfloor>q\<rfloor> 10 @ encodeCrockford random 16)
      | _ \<Rightarrow> Err ''now must fit in the ULID 48-bit timestamp field'')"

section \<open>Lemmas\<close>

lemma crockford_loop_append: "crockford_loop v acc n = crockford_loop v [] n @ acc"
proof (induction n arbitrary: v acc)
  case (Suc n)
  show ?case
    by (simp add: Suc.IH [of "v div 32" "CROCKFORD_BASE32 ! nat (v mod 32) # acc"]
        Suc.IH [of "v div 32" "[CROCKFORD_BASE32 ! nat (v mod 32)]"])
qed simp

lemma encode_0 [simp]: "encodeCrockford v 0 = []"
  by (simp add: encodeCrockford_def)

lemma encode_Suc: "encodeCrockford v (Suc n) = encodeCrockford (v div 32) n @ [CROCKFORD_BASE32 ! nat (v mod 32)]"
  using crockford_loop_append [of "v div 32" "[CROCKFORD_BASE32 ! nat (v mod 32)]" n] by (simp add: encodeCrockford_def)

lemma alphabet_length: "length CROCKFORD_BASE32 = 32"
  by (simp add: CROCKFORD_BASE32_def)

lemma alphabet_sorted: "sorted_wrt (<) CROCKFORD_BASE32"
  by (simp add: CROCKFORD_BASE32_def less_char_def)

lemma alphabet_less: "i < j \<Longrightarrow> j < 32 \<Longrightarrow> CROCKFORD_BASE32 ! i < CROCKFORD_BASE32 ! j"
  using sorted_wrt_nth_less [OF alphabet_sorted] by (simp add: alphabet_length)

lemma digit_index: "nat (v mod 32) < 32"
  by (simp add: nat_less_iff)

lemma encode_length [simp]: "length (encodeCrockford v n) = n"
  by (induction n arbitrary: v) (simp_all add: encode_Suc)

lemma encode_alphabet: "list_all (\<lambda>c. c \<in> set CROCKFORD_BASE32) (encodeCrockford v n)"
  using digit_index by (induction n arbitrary: v) (simp_all add: encode_Suc alphabet_length)

lemma encode_less:
  assumes "0 \<le> v" "v < w" "w < 32 ^ n"
  shows "encodeCrockford v n < encodeCrockford w n"
  using assms
proof (induction n arbitrary: v w)
  case (Suc n)
  show ?case
  proof (cases "v div 32 = w div 32")
    case True
    have "v mod 32 < w mod 32" using True Suc.prems(2) div_mult_mod_eq [of v 32] div_mult_mod_eq [of w 32] by linarith
    then have "CROCKFORD_BASE32 ! nat (v mod 32) < CROCKFORD_BASE32 ! nat (w mod 32)"
      by (intro alphabet_less digit_index) (simp add: nat_less_eq_zless)
    then show ?thesis using True by (simp add: encode_Suc list_less_def lexord_append_leftI)
  next
    case False
    with Suc.prems(2) have "v div 32 < w div 32" using zdiv_mono1 [of v w 32] by simp
    moreover have "0 \<le> v div 32" "w div 32 < 32 ^ n" using Suc.prems by (simp_all add: pos_imp_zdiv_nonneg_iff div_less_iff_less_mult mult.commute)
    ultimately have "encodeCrockford (v div 32) n < encodeCrockford (w div 32) n" by (intro Suc.IH)
    then show ?thesis unfolding encode_Suc list_less_def by (intro lexord_sufI) simp_all
  qed
qed simp

lemma encode_inject:
  assumes "0 \<le> v" "v < 32 ^ n" "0 \<le> w" "w < 32 ^ n" "encodeCrockford v n = encodeCrockford w n"
  shows "v = w"
  using encode_less [of v w n] encode_less [of w v n] assms by (cases v w rule: linorder_cases) auto

lemma createProbeId_int:
  assumes "0 \<le> t" "t < 2 ^ 48"
  shows "createProbeId (js_int t) r = Ok (''prb_'' @ encodeCrockford t 10 @ encodeCrockford r 16)"
proof -
  have "(of_int t :: rat) \<le> of_int (2 ^ 48 - 1)" using assms(2) by (simp only: of_int_le_iff)
  moreover have "\<bar>t\<bar> \<le> max_safe" using assms by (simp add: max_safe_def)
  then have "\<bar>of_int t :: rat\<bar> \<le> of_int max_safe" by (metis of_int_abs of_int_le_iff)
  ultimately show ?thesis using assms(1) by (simp add: createProbeId_def not_less del: of_int_diff)
qed

lemma createProbeId_OkE:
  assumes "createProbeId now r = Ok pid"
  obtains t where "now = js_int t" "0 \<le> t" "t < 2 ^ 48" "pid = ''prb_'' @ encodeCrockford t 10 @ encodeCrockford r 16"
proof (cases now)
  case (Fin q)
  with assms have q: "of_int \<lfloor>q\<rfloor> = q" "0 \<le> q" "q \<le> of_int (2 ^ 48 - 1)" "pid = ''prb_'' @ encodeCrockford \<lfloor>q\<rfloor> 10 @ encodeCrockford r 16"
    by (auto simp: createProbeId_def split: if_splits)
  have "\<lfloor>q\<rfloor> \<le> 2 ^ 48 - 1" using q(3) by (metis floor_mono floor_of_int)
  then show ?thesis using that [of "\<lfloor>q\<rfloor>"] q Fin by simp
qed (use assms in \<open>simp_all add: createProbeId_def\<close>)

section \<open>Properties\<close>

text \<open>A generated id has the format the protocol demands, ids of different milliseconds are ordered as strings by
  their time, and time and randomness can be read back, so equal ids come only from equal draws.\<close>

theorem probe_id_sortable_unique:
  assumes "createProbeId now r = Ok pid" "createProbeId now' r' = Ok pid'" "0 \<le> r" "r < 2 ^ 80" "0 \<le> r'" "r' < 2 ^ 80"
  shows "probeId_ok pid \<and> (js_lt now now' \<longrightarrow> pid < pid') \<and> (pid = pid' \<longleftrightarrow> now = now' \<and> r = r')"
proof -
  obtain t where t: "now = js_int t" "0 \<le> t" "t < 2 ^ 48" "pid = ''prb_'' @ encodeCrockford t 10 @ encodeCrockford r 16"
    using assms(1) by (rule createProbeId_OkE)
  obtain t' where t': "now' = js_int t'" "0 \<le> t'" "t' < 2 ^ 48" "pid' = ''prb_'' @ encodeCrockford t' 10 @ encodeCrockford r' 16"
    using assms(2) by (rule createProbeId_OkE)
  have big: "t < 32 ^ 10" "t' < 32 ^ 10" "r < 32 ^ 16" "r' < 32 ^ 16" using t(3) t'(3) assms by simp_all
  have "probeId_ok pid" using encode_alphabet by (simp add: t(4) probeId_ok_def)
  moreover have "pid < pid'" if "js_lt now now'"
  proof -
    have "encodeCrockford t 10 < encodeCrockford t' 10" using that t t' big by (intro encode_less) auto
    then have "encodeCrockford t 10 @ encodeCrockford r 16 < encodeCrockford t' 10 @ encodeCrockford r' 16"
      unfolding list_less_def by (intro lexord_sufI) simp_all
    then show ?thesis unfolding t(4) t'(4) list_less_def by (rule lexord_append_leftI)
  qed
  moreover have "now = now' \<and> r = r'" if "pid = pid'"
  proof -
    have "encodeCrockford t 10 = encodeCrockford t' 10" "encodeCrockford r 16 = encodeCrockford r' 16"
      using that by (simp_all add: t(4) t'(4))
    then show ?thesis using encode_inject [of t 10 t'] encode_inject [of r 16 r'] t t' big assms by simp
  qed
  moreover have "pid = pid'" if "now = now'" "r = r'" using that t t' by simp
  ultimately show ?thesis by blast
qed

theorem probe_id_sortable_unique_witness:
  "''prb_'' @ encodeCrockford 5 10 @ encodeCrockford 99 16 < ''prb_'' @ encodeCrockford 6 10 @ encodeCrockford 0 16"
proof -
  have "createProbeId (js_int 5) 99 = Ok (''prb_'' @ encodeCrockford 5 10 @ encodeCrockford 99 16)"
    "createProbeId (js_int 6) 0 = Ok (''prb_'' @ encodeCrockford 6 10 @ encodeCrockford 0 16)" by (rule createProbeId_int; simp)+
  from probe_id_sortable_unique [OF this] show ?thesis by simp
qed

end
