(* ===== verification/JS_Value.thy ===== *)
theory JS_Value
  imports Protocol
begin

text \<open>
  The captured program values the Node agent works on.  A value is a primitive or the address
  of an object; objects live in a heap, so that sharing and cycles are represented.  An object
  is a plain object (its own enumerable properties in key order), an array (a length and its own
  index properties, possibly with holes) or the marker of \<^verbatim>\<open>capture-marker.ts\<close>, which the
  capture writes where its budget ended.  A property is a data property or an accessor, whose
  getter the agent must never run.
\<close>

section \<open>Definitions\<close>

type_synonym addr = nat

datatype jsval =
    VUndefined
  | VNull
  | VBool bool
  | VNum jsnum
  | VStr string
  | VFunction
  | VOther
      \<comment> \<open>symbols and big integers\<close>
  | VRef addr

datatype property = PData jsval | PAccessor

datatype jsobj =
    PlainObj "(string \<times> property) list"
  | ArrayObj nat "(string \<times> property) list"
  | TruncatedObj

type_synonym heap = "addr \<Rightarrow> jsobj"

fun own_property :: "jsobj \<Rightarrow> string \<Rightarrow> property option" where
  "own_property (PlainObj ps) k = jget ps k"
| "own_property (ArrayObj n ps) k =
     (if k = ''length'' then Some (PData (VNum (js_int (int n)))) else jget ps k)"
| "own_property TruncatedObj k = None"

definition isCaptureTruncated :: "heap \<Rightarrow> jsval \<Rightarrow> bool" where
  "isCaptureTruncated h v \<longleftrightarrow> (case v of VRef a \<Rightarrow> h a = TruncatedObj | _ \<Rightarrow> False)"

fun scalar_val :: "scalar \<Rightarrow> jsval" where
  "scalar_val (SStr s) = VStr s"
| "scalar_val (SNum n) = VNum n"
| "scalar_val (SBool b) = VBool b"
| "scalar_val SNull = VNull"

text \<open>Two heaps that agree once the properties with a key in \<open>K\<close> are removed.\<close>

definition same_except :: "(string \<Rightarrow> bool) \<Rightarrow> heap \<Rightarrow> heap \<Rightarrow> bool" where
  "same_except K h h' \<longleftrightarrow>
     (\<forall>a. (h a = TruncatedObj) = (h' a = TruncatedObj) \<and>
          (\<forall>k. \<not> K k \<longrightarrow> own_property (h a) k = own_property (h' a) k))"

section \<open>Lemmas\<close>

lemma isCaptureTruncated_simps [simp]:
  "isCaptureTruncated h (VRef a) \<longleftrightarrow> h a = TruncatedObj"
  "\<not> isCaptureTruncated h VUndefined" "\<not> isCaptureTruncated h VNull"
  "\<not> isCaptureTruncated h (VBool b)" "\<not> isCaptureTruncated h (VNum n)"
  "\<not> isCaptureTruncated h (VStr s)" "\<not> isCaptureTruncated h VFunction" "\<not> isCaptureTruncated h VOther"
  by (simp_all add: isCaptureTruncated_def)

lemma same_exceptD:
  assumes "same_except K h h'"
  shows "isCaptureTruncated h v = isCaptureTruncated h' v"
    and "\<not> K k \<Longrightarrow> own_property (h a) k = own_property (h' a) k"
  using assms by (auto simp: same_except_def isCaptureTruncated_def split: jsval.splits)

end
