(* ===== verification/Serializer.thy ===== *)
theory Serializer
  imports JS_Value
begin

text \<open>
  \<^verbatim>\<open>packages/sdk-node/src/serializer.ts\<close>: the conversion of a captured value into the sanitized
  tree that leaves the process.  \<open>serializeValue\<close> carries the depth and the set of ancestor
  objects; it stops at \<open>maxDepth\<close>, which is the termination measure.  The lemmas show the
  bounds of the output and that no redacted key or value gets through.
\<close>

section \<open>Definitions\<close>

definition DEFAULT_REDACT_KEYS :: "string list" where
  "DEFAULT_REDACT_KEYS =
     [''password'', ''secret'', ''token'', ''authorization'', ''cookie'', ''key'', ''signature'',
      ''ssn'', ''creditcard'']"

record serializer_config =
  maxDepth :: nat
  maxArray :: nat
  maxProps :: nat
  maxString :: nat
  maxStackFrames :: nat
  redactKeys :: "string list"
  redactValues :: "string list"

definition DEFAULT_SERIALIZER_CONFIG :: serializer_config where
  "DEFAULT_SERIALIZER_CONFIG = \<lparr>maxDepth = 3, maxArray = 3, maxProps = 50, maxString = 1024,
     maxStackFrames = 8, redactKeys = DEFAULT_REDACT_KEYS, redactValues = []\<rparr>"

record serializer_config_input =
  in_maxDepth :: "jsnum option"
  in_maxArray :: "jsnum option"
  in_maxProps :: "jsnum option"
  in_maxString :: "jsnum option"
  in_maxStackFrames :: "jsnum option"
  in_redactKeys :: "string list option"
  in_redactValues :: "string list option"

text \<open>A \<^verbatim>\<open>RangeError\<close> names the offending option.\<close>

definition normalizedLimit :: "jsnum option \<Rightarrow> nat \<Rightarrow> string \<Rightarrow> (string, nat) res" where
  "normalizedLimit v fallback name =
     (case v of
        None \<Rightarrow> Ok fallback
      | Some n \<Rightarrow>
          (case n of
             Fin q \<Rightarrow> if is_safe_integer_num n \<and> 0 \<le> q then Ok (nat \<lfloor>q\<rfloor>)
                      else Err (name @ '' must be a non-negative safe integer'')
           | _ \<Rightarrow> Err (name @ '' must be a non-negative safe integer'')))"

fun unique_loop :: "string list \<Rightarrow> string list \<Rightarrow> string list" where
  "unique_loop seen [] = []"
| "unique_loop seen (p # ps) =
     (let n = js_lower p in
      if n \<noteq> [] \<and> n \<notin> set seen then n # unique_loop (n # seen) ps else unique_loop seen ps)"

definition uniquePatterns :: "string list \<Rightarrow> string list option \<Rightarrow> string list" where
  "uniquePatterns defaults extras =
     unique_loop [] (defaults @ (case extras of None \<Rightarrow> [] | Some e \<Rightarrow> e))"

definition normalizeSerializerConfig ::
  "serializer_config_input \<Rightarrow> (string, serializer_config) res" where
  "normalizeSerializerConfig i =
     bind_res (normalizedLimit (in_maxDepth i) 3 ''maxDepth'') (\<lambda>d.
     bind_res (normalizedLimit (in_maxArray i) 3 ''maxArray'') (\<lambda>a.
     bind_res (normalizedLimit (in_maxProps i) 50 ''maxProps'') (\<lambda>pr.
     bind_res (normalizedLimit (in_maxString i) 1024 ''maxString'') (\<lambda>s.
     bind_res (normalizedLimit (in_maxStackFrames i) 8 ''maxStackFrames'') (\<lambda>f.
       Ok \<lparr>maxDepth = d, maxArray = a, maxProps = pr, maxString = s, maxStackFrames = f,
         redactKeys = uniquePatterns DEFAULT_REDACT_KEYS (in_redactKeys i),
         redactValues = js_set (case in_redactValues i of None \<Rightarrow> [] | Some v \<Rightarrow> v)\<rparr>)))))"

definition isRedactedKey :: "string \<Rightarrow> serializer_config \<Rightarrow> bool" where
  "isRedactedKey k cfg \<longleftrightarrow> list_ex (\<lambda>pat. js_includes (js_lower k) pat) (redactKeys cfg)"

text \<open>The value the traversal descends into: a getter is represented, never run.\<close>

definition descend :: "property option \<Rightarrow> jsval" where
  "descend d = (case d of None \<Rightarrow> VUndefined | Some (PData v) \<Rightarrow> v | Some PAccessor \<Rightarrow> VStr ''[getter]'')"

text \<open>\<^verbatim>\<open>Object.defineProperty(children, key, ...)\<close>: a repeated key keeps its place.\<close>

abbreviation setSafe :: "(string \<times> serialized_node) list \<Rightarrow> string \<Rightarrow> serialized_node \<Rightarrow>
    (string \<times> serialized_node) list" where
  "setSafe target key v \<equiv> jset key v target"

text \<open>The branches that return before any container is entered.  They include the depth check, so
  the one repeated in \<open>serializeValue\<close> below is never taken: it is there for the termination proof.\<close>

definition serialize_leaf :: "heap \<Rightarrow> serializer_config \<Rightarrow> nat \<Rightarrow> jsval \<Rightarrow> serialized_node option" where
  "serialize_leaf h cfg depth raw =
     (if isCaptureTruncated h raw then Some (NTruncated TrProps)
      else if (case raw of VStr s \<Rightarrow> s \<in> set (redactValues cfg) | _ \<Rightarrow> False) then Some NRedacted
      else if maxDepth cfg < depth then Some (NTruncated TrDepth)
      else (case raw of
          VNull \<Rightarrow> Some NNull
        | VStr s \<Rightarrow> Some (if maxString cfg < length s then NTruncated TrString else NStr s)
        | VNum n \<Rightarrow> Some (if is_finite_num n then NNum n else NTruncated TrUnsupported)
        | VBool b \<Rightarrow> Some (NBool b)
        | VFunction \<Rightarrow> Some NFn
        | VRef a \<Rightarrow> None
        | _ \<Rightarrow> Some (NTruncated TrUnsupported)))"

function serializeValue ::
  "heap \<Rightarrow> serializer_config \<Rightarrow> nat \<Rightarrow> addr list \<Rightarrow> jsval \<Rightarrow> serialized_node" where
  "serializeValue h cfg depth anc raw =
     (case serialize_leaf h cfg depth raw of
        Some n \<Rightarrow> n
      | None \<Rightarrow>
          (case raw of
             VRef a \<Rightarrow>
               (if a \<in> set anc then NTruncated TrCircular
                else if maxDepth cfg < depth then NTruncated TrDepth
                else (case h a of
                    ArrayObj n ps \<Rightarrow>
                      NArr (map (\<lambda>i. serializeValue h cfg (Suc depth) (a # anc)
                                       (descend (own_property (h a) (show_nat i))))
                             [0..<min n (maxArray cfg)])
                           (maxArray cfg < n)
                  | PlainObj ps \<Rightarrow>
                      NObj (fold (\<lambda>k acc. setSafe acc k
                              (if isRedactedKey k cfg then NRedacted
                               else serializeValue h cfg (Suc depth) (a # anc)
                                      (descend (own_property (h a) k))))
                              (take (maxProps cfg) (jkeys ps)) [])
                           (maxProps cfg < length ps)
                  | TruncatedObj \<Rightarrow> NTruncated TrProps))
           | _ \<Rightarrow> NTruncated TrUnsupported))"
  by pat_completeness auto
termination
  by (relation "measure (\<lambda>(h, cfg, depth, anc, raw). Suc (maxDepth cfg) - depth)") auto

declare serializeValue.simps [simp del]

definition serialize ::
  "heap \<Rightarrow> jsval \<Rightarrow> serializer_config_input \<Rightarrow> (string, serialized_node) res" where
  "serialize h raw i =
     bind_res (normalizeSerializerConfig i) (\<lambda>cfg. Ok (serializeValue h cfg 0 [] raw))"

subsection \<open>What a sanitized tree may contain\<close>

fun tree_depth :: "serialized_node \<Rightarrow> nat" where
  "tree_depth (NObj cs _) = (if cs = [] then 0 else Suc (Max (set (map (\<lambda>p. tree_depth (snd p)) cs))))"
| "tree_depth (NArr cs _) = (if cs = [] then 0 else Suc (Max (set (map tree_depth cs))))"
| "tree_depth _ = 0"

fun tree_ok :: "serializer_config \<Rightarrow> serialized_node \<Rightarrow> bool" where
  "tree_ok cfg (NStr s) = (length s \<le> maxString cfg \<and> s \<notin> set (redactValues cfg))"
| "tree_ok cfg (NNum n) = is_finite_num n"
| "tree_ok cfg (NObj cs m) =
     (length cs \<le> maxProps cfg \<and>
      (\<forall>p \<in> set cs. (isRedactedKey (fst p) cfg \<longrightarrow> snd p = NRedacted) \<and> tree_ok cfg (snd p)))"
| "tree_ok cfg (NArr cs m) = (length cs \<le> maxArray cfg \<and> (\<forall>c \<in> set cs. tree_ok cfg c))"
| "tree_ok cfg _ = True"

text \<open>Two objects that differ at most in what they hold under redacted keys.\<close>

fun same_shape :: "serializer_config \<Rightarrow> jsobj \<Rightarrow> jsobj \<Rightarrow> bool" where
  "same_shape cfg (PlainObj ps) (PlainObj qs) \<longleftrightarrow>
     jkeys ps = jkeys qs \<and> (\<forall>k. \<not> isRedactedKey k cfg \<longrightarrow> jget ps k = jget qs k)"
| "same_shape cfg x y \<longleftrightarrow> x = y"

section \<open>Lemmas\<close>

text \<open>The loop over the keys of an object, as a fold into the children.\<close>

lemma fold_setSafe_invariant:
  assumes "\<And>k. k \<in> set ks \<Longrightarrow> Q (k, f k)" "\<forall>p \<in> set acc. Q p" "jwf acc"
  shows "(\<forall>p \<in> set (fold (\<lambda>k acc. setSafe acc k (f k)) ks acc). Q p) \<and>
    jwf (fold (\<lambda>k acc. setSafe acc k (f k)) ks acc) \<and>
    length (fold (\<lambda>k acc. setSafe acc k (f k)) ks acc) \<le> length acc + length ks"
  using assms
proof (induction ks arbitrary: acc)
  case (Cons k ks)
  have len: "length (jset k (f k) acc) \<le> Suc (length acc)"
    by (induction acc) auto
  have q: "\<forall>p \<in> set (jset k (f k) acc). Q p"
    using Cons.prems by (auto simp: set_jset)
  have w: "jwf (jset k (f k) acc)" using Cons.prems(3) by simp
  from Cons.IH [OF Cons.prems(1) q w] len show ?case by force
qed simp

lemma fold_setSafe_cong:
  "(\<And>k. k \<in> set ks \<Longrightarrow> f k = g k) \<Longrightarrow>
   fold (\<lambda>k acc. setSafe acc k (f k)) ks acc = fold (\<lambda>k acc. setSafe acc k (g k)) ks acc"
  by (rule fold_cong) auto

lemma serialize_leaf_ok: "serialize_leaf h cfg d v = Some n \<Longrightarrow> tree_ok cfg n \<and> tree_depth n = 0"
  by (auto simp: serialize_leaf_def split: if_splits jsval.splits)

lemma serialize_leaf_None: "serialize_leaf h cfg d v = None \<Longrightarrow> d \<le> maxDepth cfg \<and> (\<exists>a. v = VRef a)"
  by (auto simp: serialize_leaf_def split: if_splits jsval.splits)

lemma serializeValue_array:
  assumes "serialize_leaf h cfg d (VRef a) = None" "a \<notin> set anc" "h a = ArrayObj n ps"
  shows "serializeValue h cfg d anc (VRef a) =
    NArr (map (\<lambda>i. serializeValue h cfg (Suc d) (a # anc) (descend (own_property (h a) (show_nat i))))
           [0..<min n (maxArray cfg)]) (maxArray cfg < n)"
  using assms serialize_leaf_None [OF assms(1)] by (subst serializeValue.simps) auto

lemma serializeValue_object:
  assumes "serialize_leaf h cfg d (VRef a) = None" "a \<notin> set anc" "h a = PlainObj ps"
  shows "serializeValue h cfg d anc (VRef a) =
    NObj (fold (\<lambda>k acc. setSafe acc k
            (if isRedactedKey k cfg then NRedacted
             else serializeValue h cfg (Suc d) (a # anc) (descend (own_property (h a) k))))
            (take (maxProps cfg) (jkeys ps)) []) (maxProps cfg < length ps)"
  using assms serialize_leaf_None [OF assms(1)] by (subst serializeValue.simps) auto

text \<open>The case analysis every property of the traversal goes through.\<close>

lemma serializeValue_cases:
  obtains (leaf) n where "serialize_leaf h cfg d v = Some n" "serializeValue h cfg d anc v = n"
  | (circular) a where "serialize_leaf h cfg d v = None" "v = VRef a" "a \<in> set anc"
      "serializeValue h cfg d anc v = NTruncated TrCircular"
  | (arr) a n ps where "serialize_leaf h cfg d v = None" "v = VRef a" "a \<notin> set anc" "h a = ArrayObj n ps"
  | (obj) a ps where "serialize_leaf h cfg d v = None" "v = VRef a" "a \<notin> set anc" "h a = PlainObj ps"
proof (cases "serialize_leaf h cfg d v")
  case (Some n)
  then show ?thesis using leaf by (simp add: serializeValue.simps [of h cfg d anc v])
next
  case None
  then obtain a where v: "v = VRef a" using serialize_leaf_None by blast
  have t: "h a \<noteq> TruncatedObj" using None v by (auto simp: serialize_leaf_def)
  show ?thesis
  proof (cases "a \<in> set anc")
    case True
    with None v show ?thesis by (intro circular) (auto simp: serializeValue.simps [of h cfg d anc "VRef a"])
  next
    case False
    with None v t arr obj show ?thesis by (cases "h a") auto
  qed
qed

lemma serializeValue_tree_ok: "tree_ok cfg (serializeValue h cfg d anc v)"
proof (induction "Suc (maxDepth cfg) - d" arbitrary: d anc v rule: less_induct)
  case less
  show ?case
  proof (rule serializeValue_cases [of h cfg d v anc], goal_cases leaf circular arr obj)
    case (leaf n)
    then show ?thesis using serialize_leaf_ok by simp
  next
    case (circular a)
    then show ?thesis by simp
  next
    case (arr a n ps)
    have "Suc (maxDepth cfg) - Suc d < Suc (maxDepth cfg) - d"
      using serialize_leaf_None [OF arr(1)] by (simp add: Suc_diff_le)
    from less [OF this] show ?thesis by (simp add: arr(2) serializeValue_array [OF arr(1) [unfolded arr(2)] arr(3,4)])
  next
    case (obj a ps)
    have lt: "Suc (maxDepth cfg) - Suc d < Suc (maxDepth cfg) - d"
      using serialize_leaf_None [OF obj(1)] by (simp add: Suc_diff_le)
    let ?f = "\<lambda>k. if isRedactedKey k cfg then NRedacted
       else serializeValue h cfg (Suc d) (a # anc) (descend (own_property (h a) k))"
    let ?Q = "\<lambda>p. (isRedactedKey (fst p) cfg \<longrightarrow> snd p = NRedacted) \<and> tree_ok cfg (snd p)"
    have "?Q (k, ?f k)" for k using less [OF lt] by simp
    from fold_setSafe_invariant [where Q = ?Q and f = ?f and acc = "[]" and ks = "take (maxProps cfg) (jkeys ps)", OF this]
    show ?thesis
      by (simp add: obj(2) serializeValue_object [OF obj(1) [unfolded obj(2)] obj(3,4)])
  qed
qed

lemma add_Max_le:
  "finite S \<Longrightarrow> S \<noteq> {} \<Longrightarrow> (\<And>x. x \<in> S \<Longrightarrow> x \<le> m - d) \<Longrightarrow> d \<le> m \<Longrightarrow> d + Max S \<le> (m::nat)"
  using Max.boundedI [of S "m - d"] by (simp add: le_diff_conv2 add.commute)

lemma serializeValue_depth: "d \<le> Suc (maxDepth cfg) \<Longrightarrow> d + tree_depth (serializeValue h cfg d anc v) \<le> Suc (maxDepth cfg)"
proof (induction "Suc (maxDepth cfg) - d" arbitrary: d anc v rule: less_induct)
  case less
  show ?case
  proof (rule serializeValue_cases [of h cfg d v anc], goal_cases leaf circular arr obj)
    case (leaf n)
    then show ?thesis using serialize_leaf_ok less.prems by simp
  next
    case (circular a)
    then show ?thesis using less.prems by simp
  next
    case (arr a n ps)
    have dm: "d \<le> maxDepth cfg" using serialize_leaf_None [OF arr(1)] by simp
    have ih: "tree_depth (serializeValue h cfg (Suc d) (a # anc) w) \<le> maxDepth cfg - d" for w
      using less.hyps [of "Suc d" "a # anc" w] dm by (simp add: Suc_diff_le le_diff_conv2)
    show ?thesis
      using dm ih by (auto simp: arr(2) serializeValue_array [OF arr(1) [unfolded arr(2)] arr(3,4)] intro!: add_Max_le)
  next
    case (obj a ps)
    have dm: "d \<le> maxDepth cfg" using serialize_leaf_None [OF obj(1)] by simp
    let ?f = "\<lambda>k. if isRedactedKey k cfg then NRedacted
       else serializeValue h cfg (Suc d) (a # anc) (descend (own_property (h a) k))"
    have "tree_depth (snd (k, ?f k)) \<le> maxDepth cfg - d" for k
      using less.hyps [of "Suc d" "a # anc"] dm by (simp add: Suc_diff_le le_diff_conv2 add.commute)
    from fold_setSafe_invariant [where Q = "\<lambda>p. tree_depth (snd p) \<le> maxDepth cfg - d" and f = ?f and acc = "[]"
        and ks = "take (maxProps cfg) (jkeys ps)", OF this]
    have b: "\<forall>p \<in> set (fold (\<lambda>k acc. setSafe acc k (?f k)) (take (maxProps cfg) (jkeys ps)) []).
       tree_depth (snd p) \<le> maxDepth cfg - d" by simp
    show ?thesis
      using dm b by (auto simp: obj(2) serializeValue_object [OF obj(1) [unfolded obj(2)] obj(3,4)] intro!: add_Max_le)
  qed
qed

subsection \<open>Redacted properties do not matter\<close>

lemma same_shape_cases:
  assumes "same_shape cfg x y"
  obtains (plain) ps qs where "x = PlainObj ps" "y = PlainObj qs" "jkeys ps = jkeys qs"
      "\<And>k. \<not> isRedactedKey k cfg \<Longrightarrow> jget ps k = jget qs k"
  | (other) "x = y" "\<And>ps. x \<noteq> PlainObj ps"
  using assms by (cases "(cfg, x, y)" rule: same_shape.cases) auto

lemma serialize_leaf_shape:
  assumes "\<And>a. same_shape cfg (h a) (h' a)"
  shows "serialize_leaf h cfg d v = serialize_leaf h' cfg d v"
proof -
  have "h a = TruncatedObj \<longleftrightarrow> h' a = TruncatedObj" for a
    using assms [of a] by (cases "(cfg, h a, h' a)" rule: same_shape.cases) auto
  then have "isCaptureTruncated h v = isCaptureTruncated h' v" by (cases v) auto
  then show ?thesis by (simp add: serialize_leaf_def)
qed

lemma serializeValue_shape:
  assumes "\<And>a. same_shape cfg (h a) (h' a)"
  shows "serializeValue h cfg d anc v = serializeValue h' cfg d anc v"
proof (induction "Suc (maxDepth cfg) - d" arbitrary: d anc v rule: less_induct)
  case less
  note leaf_eq = serialize_leaf_shape [OF assms]
  show ?case
  proof (rule serializeValue_cases [of h cfg d v anc], goal_cases leaf circular arr obj)
    case (leaf n)
    then show ?thesis by (simp add: leaf_eq serializeValue.simps)
  next
    case (circular a)
    then show ?thesis using leaf_eq by (simp add: serializeValue.simps [of h'])
  next
    case (arr a n ps)
    have lt: "Suc (maxDepth cfg) - Suc d < Suc (maxDepth cfg) - d"
      using serialize_leaf_None [OF arr(1)] by (simp add: Suc_diff_le)
    have h': "h' a = ArrayObj n ps" using assms [of a] arr(4) by (cases "h' a") auto
    have l': "serialize_leaf h' cfg d (VRef a) = None" using arr(1,2) leaf_eq by simp
    show ?thesis using less [OF lt] arr(4) h'
      by (simp add: arr(2) serializeValue_array [OF arr(1) [unfolded arr(2)] arr(3,4)] serializeValue_array [OF l' arr(3) h'])
  next
    case (obj a ps)
    have lt: "Suc (maxDepth cfg) - Suc d < Suc (maxDepth cfg) - d"
      using serialize_leaf_None [OF obj(1)] by (simp add: Suc_diff_le)
    have l': "serialize_leaf h' cfg d (VRef a) = None" using obj(1,2) leaf_eq by simp
    obtain qs where h': "h' a = PlainObj qs" "jkeys ps = jkeys qs" "\<And>k. \<not> isRedactedKey k cfg \<Longrightarrow> jget ps k = jget qs k"
      using assms [of a] obj(4) by (cases "h' a") auto
    have len: "length ps = length qs" using arg_cong [OF h'(2), of length] by simp
    show ?thesis unfolding obj(2) serializeValue_object [OF obj(1) [unfolded obj(2)] obj(3,4)] serializeValue_object [OF l' obj(3) h'(1)]
        len h'(2)
      using less [OF lt] h'(1,3) obj(4) by (intro arg_cong2 [where f = NObj] fold_setSafe_cong) auto
  qed
qed

section \<open>Properties\<close>

text \<open>C22: What the serializer emits is bounded in depth, width and string length, holds no redacted string and
  only the redaction marker under a redacted key, and does not depend on what is stored there.\<close>

theorem serializer_safe:
  assumes "normalizeSerializerConfig i = Ok cfg" "\<And>a. same_shape cfg (h a) (h' a)"
  shows "\<exists>n. serialize h v i = Ok n \<and> serialize h' v i = Ok n \<and> tree_ok cfg n \<and> tree_depth n \<le> Suc (maxDepth cfg)"
  using assms(1) serializeValue_tree_ok [of cfg h 0 "[]" v] serializeValue_depth [of 0 cfg h "[]" v]
    serializeValue_shape [OF assms(2), where d = 0 and anc = "[]" and v = v]
  by (auto simp: serialize_def)

theorem serializer_safe_witness:
  "\<exists>n cfg. serialize (\<lambda>_. PlainObj [(''password'', PData (VStr ''a''))]) (VRef 0)
       \<lparr>in_maxDepth = None, in_maxArray = None, in_maxProps = None, in_maxString = None, in_maxStackFrames = None,
        in_redactKeys = None, in_redactValues = None\<rparr> = Ok n \<and> tree_ok cfg n \<and> maxDepth cfg = 3"
proof -
  let ?i = "\<lparr>in_maxDepth = None, in_maxArray = None, in_maxProps = None, in_maxString = None, in_maxStackFrames = None,
        in_redactKeys = None, in_redactValues = None\<rparr>"
  obtain cfg where c: "normalizeSerializerConfig ?i = Ok cfg" "maxDepth cfg = 3" "redactKeys cfg = uniquePatterns DEFAULT_REDACT_KEYS None"
    by (simp add: normalizeSerializerConfig_def normalizedLimit_def)
  have "isRedactedKey ''password'' cfg"
    unfolding isRedactedKey_def c(3) by code_simp
  then have "same_shape cfg (PlainObj [(''password'', PData (VStr ''a''))]) (PlainObj [(''password'', PData (VStr ''b''))])" by auto
  from serializer_safe [OF c(1), of "\<lambda>_. PlainObj [(''password'', PData (VStr ''a''))]" "\<lambda>_. PlainObj [(''password'', PData (VStr ''b''))]" "VRef 0", OF this]
  show ?thesis using c(2) by blast
qed

end
