(* ===== verification/Safe_Expression.thy ===== *)
theory Safe_Expression
  imports JS_Value Expression_Compiler
begin

text \<open>
  \<^verbatim>\<open>packages/sdk-node/src/safe-expression.ts\<close>: the agent's validation of a received expression
  (\<open>validateNode\<close>, on the decoded JSON) and its evaluator over captured values.  A policy is the
  pair of redaction predicates the caller passes; the default policy redacts nothing.
  \<^verbatim>\<open>String(n)\<close> of a number is a parameter, \<open>numText\<close>.  The lemmas show that evaluation never
  returns an unsafe number or a redacted value, does not depend on redacted properties and runs
  no getter, and that rendering a template is the truncated concatenation.
\<close>

section \<open>Definitions\<close>

definition BINARY_OPERATORS :: "string list" where
  "BINARY_OPERATORS =
     [''add'', ''subtract'', ''multiply'', ''divide'', ''modulo'', ''eq'', ''ne'', ''gt'', ''gte'',
      ''lt'', ''lte'', ''and'', ''or'']"

subsection \<open>Validation of received trees\<close>

fun isScalar_json :: "json option \<Rightarrow> bool" where
  "isScalar_json (Some JNull) = True"
| "isScalar_json (Some (JStr _)) = True"
| "isScalar_json (Some (JBool _)) = True"
| "isScalar_json (Some (JNum n)) = is_portable n"
| "isScalar_json _ = False"

fun validPathSegment :: "json \<Rightarrow> bool" where
  "validPathSegment (JStr s) \<longleftrightarrow> 0 < length s \<and> length s \<le> 128 \<and> s \<notin> set FORBIDDEN_SEGMENTS"
| "validPathSegment (JNum n) \<longleftrightarrow> is_safe_integer_num n \<and> js_le (Fin 0) n"
| "validPathSegment _ \<longleftrightarrow> False"

fun validPath :: "json option \<Rightarrow> bool" where
  "validPath (Some (JArr p)) \<longleftrightarrow> 0 < length p \<and> length p \<le> 64 \<and> list_all validPathSegment p"
| "validPath _ \<longleftrightarrow> False"

lemma json_member_size:
  "map_of ps k = Some v \<Longrightarrow> size v < Suc (size_list (size_prod (\<lambda>_. 0) size) ps)"
  by (induction ps) (auto split: if_splits)

text \<open>\<open>validateNode node count depth\<close> returns the verdict and the updated \<^verbatim>\<open>state.count\<close>.\<close>

function validateNode :: "json option \<Rightarrow> nat \<Rightarrow> nat \<Rightarrow> bool \<times> nat" where
  "validateNode node c depth =
     (let c = c + 1 in
      case node of
        Some (JObj ps) \<Rightarrow>
          if 100 < c \<or> 20 < depth then (False, c)
          else if jget ps ''type'' = Some (JStr ''literal'') then
            (isScalar_json (jget ps ''value'') \<and> length ps = 2, c)
          else if jget ps ''type'' = Some (JStr ''reference'') then
            (validPath (jget ps ''path'') \<and> length ps = 2, c)
          else if jget ps ''type'' = Some (JStr ''unary'') then
            (if jget ps ''operator'' = Some (JStr ''not'') \<or> jget ps ''operator'' = Some (JStr ''negate'')
             then (let (ok, c') = validateNode (jget ps ''operand'') c (depth + 1) in
                   (ok \<and> length ps = 3, c'))
             else (False, c))
          else if jget ps ''type'' = Some (JStr ''binary'') then
            (case jget ps ''operator'' of
               Some (JStr op) \<Rightarrow>
                 if op \<in> set BINARY_OPERATORS
                 then (let (ok1, c1) = validateNode (jget ps ''left'') c (depth + 1) in
                       if ok1 then (let (ok2, c2) = validateNode (jget ps ''right'') c1 (depth + 1) in
                                    (ok2 \<and> length ps = 4, c2))
                       else (False, c1))
                 else (False, c)
             | _ \<Rightarrow> (False, c))
          else (False, c)
      | _ \<Rightarrow> (False, c))"
  by pat_completeness auto
termination
proof (relation "measure (\<lambda>(n, c, d). case n of None \<Rightarrow> 0 | Some j \<Rightarrow> Suc (size j))", goal_cases)
  case 1
  then show ?case by simp
qed (auto split: option.split dest!: json_member_size)

declare validateNode.simps [simp del]

definition isCompiledExpression :: "json \<Rightarrow> bool" where
  "isCompiledExpression v =
     (case v of
        JObj ps \<Rightarrow>
          (case jget ps ''source'' of
             Some (JStr s) \<Rightarrow>
               0 < length s \<and> length s \<le> 4096 \<and> fst (validateNode (jget ps ''ast'') 0 0) \<and> length ps = 2
           | _ \<Rightarrow> False)
      | _ \<Rightarrow> False)"

subsection \<open>Evaluation\<close>

record policy =
  isRedactedKeyP :: "string \<Rightarrow> bool"
  isRedactedValueP :: "jsval \<Rightarrow> bool"

definition no_policy :: policy where
  "no_policy = \<lparr>isRedactedKeyP = (\<lambda>_. False), isRedactedValueP = (\<lambda>_. False)\<rparr>"

datatype eval_error =
    Redacted | CaptureTruncated | Missing | UnsafeNumber | ExpectedNumber | ExpectedNumbers
  | ExpectedBoolean | ExpectedScalars | DivisionByZero | NonFiniteResult

type_synonym eval_result = "(eval_error, jsval) res"

fun error_text :: "eval_error \<Rightarrow> string" where
  "error_text Redacted = ''redacted''"
| "error_text CaptureTruncated = ''capture-truncated''"
| "error_text Missing = ''missing''"
| "error_text UnsafeNumber = ''unsafe-number''"
| "error_text ExpectedNumber = ''expected-number''"
| "error_text ExpectedNumbers = ''expected-numbers''"
| "error_text ExpectedBoolean = ''expected-boolean''"
| "error_text ExpectedScalars = ''expected-scalars''"
| "error_text DivisionByZero = ''division-by-zero''"
| "error_text NonFiniteResult = ''non-finite-result''"

fun unsafe_number :: "jsval \<Rightarrow> bool" where
  "unsafe_number (VNum n) = (\<not> is_portable n)"
| "unsafe_number _ = False"

definition safeResult :: "jsval \<Rightarrow> policy \<Rightarrow> eval_result" where
  "safeResult v p =
     (if unsafe_number v then Err UnsafeNumber
      else if isRedactedValueP p v then Err Redacted else Ok v)"

text \<open>\<^verbatim>\<open>String(segment)\<close> as a property key.\<close>

definition segment_key :: "(jsnum \<Rightarrow> string) \<Rightarrow> segment \<Rightarrow> string" where
  "segment_key numText s = (case s of SegStr t \<Rightarrow> t | SegNum n \<Rightarrow> numText n)"

fun resolvePath :: "(jsnum \<Rightarrow> string) \<Rightarrow> heap \<Rightarrow> jsval \<Rightarrow> segment list \<Rightarrow> policy \<Rightarrow> eval_result" where
  "resolvePath numText h v [] p =
     (if isCaptureTruncated h v then Err CaptureTruncated else safeResult v p)"
| "resolvePath numText h v (s # ss) p =
     (let key = segment_key numText s in
      if isRedactedKeyP p key then Err Redacted
      else if isCaptureTruncated h v then Err CaptureTruncated
      else (case v of
          VRef a \<Rightarrow>
            (case own_property (h a) key of
               Some (PData w) \<Rightarrow> resolvePath numText h w ss p
             | _ \<Rightarrow> Err Missing)
        | _ \<Rightarrow> Err Missing))"

fun numberPair :: "jsval \<Rightarrow> jsval \<Rightarrow> (jsnum \<times> jsnum) option" where
  "numberPair (VNum a) (VNum b) = (if is_portable a \<and> is_portable b then Some (a, b) else None)"
| "numberPair _ _ = None"

definition numericError :: "jsval \<Rightarrow> jsval \<Rightarrow> eval_error" where
  "numericError l r =
     (if unsafe_number l \<or> unsafe_number r then UnsafeNumber
      else if r = VUndefined then ExpectedNumber else ExpectedNumbers)"

fun isScalar :: "jsval \<Rightarrow> bool" where
  "isScalar VNull = True"
| "isScalar (VStr _) = True"
| "isScalar (VBool _) = True"
| "isScalar (VNum n) = is_portable n"
| "isScalar _ = False"

fun as_bool :: "jsval \<Rightarrow> bool option" where
  "as_bool (VBool b) = Some b"
| "as_bool _ = None"

definition js_zero :: "jsnum \<Rightarrow> bool" where
  "js_zero b = js_eq b (Fin 0)"

text \<open>The comparisons; both operands are already portable numbers.\<close>

fun compare_numbers :: "binary_op \<Rightarrow> jsnum \<Rightarrow> jsnum \<Rightarrow> bool" where
  "compare_numbers BGt a b = js_lt b a"
| "compare_numbers BGte a b = js_le b a"
| "compare_numbers BLt a b = js_lt a b"
| "compare_numbers _ a b = js_le a b"

definition finish_number :: "jsnum \<Rightarrow> policy \<Rightarrow> eval_result" where
  "finish_number n p = (if is_finite_num n then safeResult (VNum n) p else Err NonFiniteResult)"

definition arithmetic :: "binary_op \<Rightarrow> jsval \<Rightarrow> jsval \<Rightarrow> policy \<Rightarrow> eval_result" where
  "arithmetic op l r p =
     (case numberPair l r of
        None \<Rightarrow> Err (numericError l r)
      | Some (a, b) \<Rightarrow>
          if op = BAdd then finish_number (js_add a b) p
          else if op = BSubtract then finish_number (js_sub a b) p
          else if op = BMultiply then finish_number (js_mult a b) p
          else if op = BDivide then
            (if js_zero b then Err DivisionByZero else finish_number (js_div a b) p)
          else (if js_zero b then Err DivisionByZero else finish_number (js_mod a b) p))"

text \<open>The operators that evaluate both operands, on the two values.\<close>

definition binary_strict :: "binary_op \<Rightarrow> jsval \<Rightarrow> jsval \<Rightarrow> policy \<Rightarrow> eval_result" where
  "binary_strict op l r p =
     (if op = BEq \<or> op = BNe then
        (if \<not> isScalar l \<or> \<not> isScalar r then Err ExpectedScalars
         else Ok (VBool (if op = BEq then l = r else l \<noteq> r)))
      else if op = BGt \<or> op = BGte \<or> op = BLt \<or> op = BLte then
        (case numberPair l r of
           None \<Rightarrow> Err (numericError l r)
         | Some (a, b) \<Rightarrow> Ok (VBool (compare_numbers op a b)))
      else (case (op, l, r) of
          (BAdd, VStr a, VStr b) \<Rightarrow> safeResult (VStr (a @ b)) p
        | _ \<Rightarrow> arithmetic op l r p))"

fun evaluateNode :: "(jsnum \<Rightarrow> string) \<Rightarrow> expression_node \<Rightarrow> heap \<Rightarrow> jsval \<Rightarrow> policy \<Rightarrow> eval_result" where
  "evaluateNode t (Literal v) h rt p = safeResult (scalar_val v) p"
| "evaluateNode t (Reference path) h rt p = resolvePath t h rt path p"
| "evaluateNode t (Unary op e) h rt p =
     bind_res (evaluateNode t e h rt p) (\<lambda>v.
       if op = UNot then (case as_bool v of Some b \<Rightarrow> Ok (VBool (\<not> b)) | None \<Rightarrow> Err ExpectedBoolean)
       else (case v of
               VNum n \<Rightarrow> if is_portable n then safeResult (VNum (js_neg n)) p
                         else Err (numericError v VUndefined)
             | _ \<Rightarrow> Err (numericError v VUndefined)))"
| "evaluateNode t (Binary op l r) h rt p =
     bind_res (evaluateNode t l h rt p) (\<lambda>lv.
       if op = BAnd \<or> op = BOr then
         (case as_bool lv of
            None \<Rightarrow> Err ExpectedBoolean
          | Some b \<Rightarrow>
              if op = BAnd \<and> \<not> b then Ok (VBool False)
              else if op = BOr \<and> b then Ok (VBool True)
              else bind_res (evaluateNode t r h rt p) (\<lambda>rv.
                (case as_bool rv of Some _ \<Rightarrow> Ok rv | None \<Rightarrow> Err ExpectedBoolean)))
       else bind_res (evaluateNode t r h rt p) (\<lambda>rv. binary_strict op lv rv p))"

definition evaluateExpression ::
  "(jsnum \<Rightarrow> string) \<Rightarrow> compiled_expression \<Rightarrow> heap \<Rightarrow> jsval \<Rightarrow> policy \<Rightarrow> eval_result" where
  "evaluateExpression t e h rt p = evaluateNode t (ce_ast e) h rt p"

fun expressionPaths_node :: "expression_node \<Rightarrow> segment list list" where
  "expressionPaths_node (Reference p) = [p]"
| "expressionPaths_node (Unary _ e) = expressionPaths_node e"
| "expressionPaths_node (Binary _ l r) = expressionPaths_node l @ expressionPaths_node r"
| "expressionPaths_node (Literal _) = []"

definition expressionPaths :: "compiled_expression \<Rightarrow> segment list list" where
  "expressionPaths e = expressionPaths_node (ce_ast e)"

subsection \<open>Rendering\<close>

definition renderExpressionValue :: "(jsnum \<Rightarrow> string) \<Rightarrow> heap \<Rightarrow> jsval \<Rightarrow> string" where
  "renderExpressionValue t h v =
     (case v of
        VNull \<Rightarrow> ''null''
      | VStr s \<Rightarrow> s
      | VNum n \<Rightarrow> if is_finite_num n then t n else ''[unavailable]''
      | VBool b \<Rightarrow> if b then ''true'' else ''false''
      | VRef a \<Rightarrow> (case h a of ArrayObj _ _ \<Rightarrow> ''[array]'' | _ \<Rightarrow> ''[object]'')
      | _ \<Rightarrow> ''[unavailable]'')"

definition render_segment ::
  "(jsnum \<Rightarrow> string) \<Rightarrow> heap \<Rightarrow> jsval \<Rightarrow> policy \<Rightarrow> template_segment \<Rightarrow> string" where
  "render_segment t h rt p seg =
     (case seg of
        TText s \<Rightarrow> s
      | TExpr e \<Rightarrow>
          (case evaluateExpression t e h rt p of
             Inr v \<Rightarrow> renderExpressionValue t h v
           | Inl err \<Rightarrow> ''<expression-error:'' @ error_text err @ ''>''))"

fun render_loop :: "(template_segment \<Rightarrow> string) \<Rightarrow> nat \<Rightarrow> string \<Rightarrow> template_segment list \<Rightarrow> string" where
  "render_loop f m acc [] = acc"
| "render_loop f m acc (s # ss) =
     (let acc' = acc @ f s in
      if m \<le> length acc' then take m acc' else render_loop f m acc' ss)"

definition renderExpressionTemplate ::
  "(jsnum \<Rightarrow> string) \<Rightarrow> template_segment list \<Rightarrow> heap \<Rightarrow> jsval \<Rightarrow> nat \<Rightarrow> policy \<Rightarrow> string" where
  "renderExpressionTemplate t segs h rt maxLength p =
     render_loop (render_segment t h rt p) maxLength [] segs"

definition secret_heap :: "string \<Rightarrow> heap" where
  "secret_heap s = (\<lambda>_. PlainObj [(''n'', PData (VNum (Fin 7))), (''password'', PData (VStr s))])"

definition secret_policy :: policy where
  "secret_policy = \<lparr>isRedactedKeyP = (\<lambda>k. k = ''password''), isRedactedValueP = (\<lambda>v. v = VStr ''hunter2'')\<rparr>"

subsection \<open>Vocabulary of the lemmas\<close>

text \<open>
  A policy whose value predicate only concerns strings, as the one of \<^verbatim>\<open>ProbeManager\<close> does.
\<close>

definition string_policy :: "policy \<Rightarrow> bool" where
  "string_policy p \<longleftrightarrow> (\<forall>v. isRedactedValueP p v \<longrightarrow> (\<exists>s. v = VStr s))"

definition safe_value :: "policy \<Rightarrow> jsval \<Rightarrow> bool" where
  "safe_value p v \<longleftrightarrow> \<not> unsafe_number v \<and> \<not> isRedactedValueP p v"

section \<open>Lemmas\<close>

subsection \<open>Every compiled expression validates\<close>

lemma validPathSegment_json: "validPathSegment (segment_json s) = segment_safe s"
  by (cases s) auto

lemma isScalar_json_scalar: "isScalar_json (Some (scalar_json v)) = jsonScalar_ok v"
  by (cases v) auto

lemma unary_name_cases: "unary_name u = ''not'' \<or> unary_name u = ''negate''"
  by (cases u) auto

lemma binary_name_known: "binary_name b \<in> set BINARY_OPERATORS"
  by (cases b) (simp_all add: BINARY_OPERATORS_def)

lemma validateNode_json:
  assumes "node_safe e" "c + node_count e \<le> 100" "depth + node_depth e \<le> 20"
  shows "validateNode (Some (expressionNode_json e)) c depth = (True, c + node_count e)"
  using assms
proof (induction e arbitrary: c depth)
  case (Literal v)
  then show ?case
    by (simp add: validateNode.simps Let_def isScalar_json_scalar)
next
  case (Reference p)
  then show ?case
    by (simp add: validateNode.simps Let_def list_all_iff validPathSegment_json MAX_PATH_SEGMENTS_def)
next
  case (Unary u e)
  then have "validateNode (Some (expressionNode_json e)) (Suc c) (Suc depth) = (True, Suc c + node_count e)"
    by simp
  then show ?case
    using Unary.prems unary_name_cases [of u]
    by (subst validateNode.simps) (simp add: Let_def)
next
  case (Binary b l r)
  have l: "validateNode (Some (expressionNode_json l)) (Suc c) (Suc depth) = (True, Suc c + node_count l)"
    using Binary.prems by (intro Binary.IH(1)) auto
  have r: "validateNode (Some (expressionNode_json r)) (Suc c + node_count l) (Suc depth) =
      (True, Suc c + node_count l + node_count r)"
    using Binary.prems by (intro Binary.IH(2)) auto
  show ?case
    using Binary.prems l r binary_name_known [of b]
    by (subst validateNode.simps) (simp add: Let_def)
qed

lemma isCompiledExpression_json:
  assumes "node_safe (ce_ast e)" "node_count (ce_ast e) \<le> 100" "node_depth (ce_ast e) \<le> 20"
    "0 < length (ce_source e)" "length (ce_source e) \<le> 4096"
  shows "isCompiledExpression (compiledExpression_json e)"
  using assms validateNode_json [of "ce_ast e" 0 0]
  by (simp add: isCompiledExpression_def compiledExpression_json_def)

subsection \<open>Safety of evaluation\<close>

lemma safeResult_Ok [simp]: "safeResult v p = Ok w \<longleftrightarrow> w = v \<and> safe_value p v"
  by (auto simp: safeResult_def safe_value_def)

lemma safe_value_bool: "string_policy p \<Longrightarrow> safe_value p (VBool b)"
  by (auto simp: string_policy_def safe_value_def)

lemma resolvePath_safe: "resolvePath t h v path p = Ok w \<Longrightarrow> safe_value p w"
  by (induction t h v path p rule: resolvePath.induct)
     (auto simp: Let_def split: if_splits jsval.splits option.splits property.splits)

lemma binary_strict_safe:
  assumes "string_policy p" "binary_strict op l r p = Ok w"
  shows "safe_value p w"
proof -
  have fin: "finish_number n p = Ok w \<Longrightarrow> safe_value p w" for n
    by (auto simp: finish_number_def split: if_splits)
  have ar: "arithmetic op l r p = Ok w \<Longrightarrow> safe_value p w"
    by (auto simp: arithmetic_def intro: fin split: option.splits if_splits)
  from assms show ?thesis
    unfolding binary_strict_def
    by (auto simp: safe_value_bool ar split: if_splits option.splits binary_op.splits jsval.splits)
qed

lemma evaluateNode_safe:
  assumes "string_policy p"
  shows "evaluateNode t e h rt p = Ok v \<Longrightarrow> safe_value p v"
proof (induction e arbitrary: v)
  case (Unary op e)
  then show ?case
    by (auto simp: bind_res_Inr_iff safe_value_bool [OF assms] split: if_splits option.splits jsval.splits)
next
  case (Binary op l r)
  then show ?case
    by (auto simp: bind_res_Inr_iff safe_value_bool [OF assms] intro: binary_strict_safe [OF assms]
        split: if_splits option.splits)
qed (auto intro: resolvePath_safe)

text \<open>Evaluation does not read a property whose key the policy redacts.\<close>

lemma resolvePath_noninterference:
  assumes "same_except (isRedactedKeyP p) h h'"
  shows "resolvePath t h v path p = resolvePath t h' v path p"
proof (induction path arbitrary: v)
  case Nil
  then show ?case by (simp add: same_exceptD(1) [OF assms])
next
  case (Cons s ss)
  show ?case
  proof (cases "isRedactedKeyP p (segment_key t s)")
    case False
    then show ?thesis
      using Cons.IH same_exceptD [OF assms]
      by (auto simp: Let_def split: jsval.splits option.splits property.splits)
  qed (simp add: Let_def)
qed

lemma evaluateNode_noninterference:
  assumes "same_except (isRedactedKeyP p) h h'"
  shows "evaluateNode t e h rt p = evaluateNode t e h' rt p"
  by (induction e) (simp_all add: resolvePath_noninterference [OF assms] cong: if_cong option.case_cong)

text \<open>A path that meets an accessor reads as missing; the getter is not run.\<close>

lemma resolvePath_accessor:
  assumes "\<not> isRedactedKeyP p (segment_key t s)" "h a \<noteq> TruncatedObj"
    "own_property (h a) (segment_key t s) = Some PAccessor"
  shows "resolvePath t h (VRef a) (s # ss) p = Err Missing"
  using assms by (simp add: Let_def)

subsection \<open>Rendering truncates the concatenation\<close>

lemma render_loop_take:
  "length acc \<le> m \<Longrightarrow> render_loop f m acc segs = take m (acc @ concat (map f segs))"
proof (induction segs arbitrary: acc)
  case (Cons s ss)
  then show ?case by (auto simp: Let_def)
qed simp

section \<open>Properties\<close>

text \<open>Broker and agent agree on expressions: whatever the broker compiles, the agent's validator accepts as
  sent, so the limits on both sides are compatible.\<close>

theorem compiled_expression_validates:
  assumes "compileExpression jsep src = Ok e"
  shows "isCompiledExpression (compiledExpression_json e)"
  using compileExpression_Ok [OF assms]
  by (intro isCompiledExpression_json) (simp_all add: MAX_AST_NODES_def MAX_AST_DEPTH_def MAX_SOURCE_LENGTH_def)

theorem compiled_expression_validates_witness:
  "isCompiledExpression (compiledExpression_json \<lparr>ce_source = ''n'', ce_ast = Reference [SegStr ''n'']\<rparr>)"
proof -
  have "compileExpression (\<lambda>_. Ok (JIdentifier ''n'')) ''n'' = Ok \<lparr>ce_source = ''n'', ce_ast = Reference [SegStr ''n'']\<rparr>"
    by (simp add: compileExpression_def js_trim_def js_space_def MAX_SOURCE_LENGTH_def convert.simps MAX_AST_NODES_def
        MAX_AST_DEPTH_def FORBIDDEN_SEGMENTS_def Let_def)
  from compiled_expression_validates [OF this] show ?thesis .
qed

text \<open>The schema of the wire format can undo that agreement: it trims path segments, so an expression whose
  segment is a forbidden name surrounded by blanks compiles, passes the schema and is then refused by the
  agent.\<close>

theorem schema_trims_into_forbidden:
  "\<exists>jsep e e'. compileExpression jsep ''a['' = Ok e \<and> compiledExpression_parse e = Some e' \<and>
     \<not> isCompiledExpression (compiledExpression_json e')"
proof -
  let ?jsep = "\<lambda>_. Ok (JMember True False (JIdentifier ''a'') (JLiteral (JScalar (SStr '' constructor ''))))"
  let ?e = "\<lambda>s. \<lparr>ce_source = ''a['', ce_ast = Reference [SegStr ''a'', SegStr s]\<rparr>"
  have c: "compileExpression ?jsep ''a['' = Ok (?e '' constructor '')"
    by (simp add: compileExpression_def js_trim_def js_space_def MAX_SOURCE_LENGTH_def convert.simps MAX_AST_NODES_def
        MAX_AST_DEPTH_def MAX_PATH_SEGMENTS_def FORBIDDEN_SEGMENTS_def Let_def)
  have p: "compiledExpression_parse (?e '' constructor '') = Some (?e ''constructor'')"
    by (simp add: compiledExpression_parse_def len_between_def trimmed_def js_trim_def js_space_def)
  have "\<not> isCompiledExpression (compiledExpression_json (?e ''constructor''))"
    by (simp add: isCompiledExpression_def compiledExpression_json_def validateNode.simps FORBIDDEN_SEGMENTS_def)
  with c p show ?thesis by blast
qed

text \<open>C21: Evaluating an expression never yields a redacted value nor a number JSON would change, and nothing stored
  under a redacted key can influence the result.\<close>

theorem evaluation_confidential:
  assumes "string_policy p" "same_except (isRedactedKeyP p) h h'"
  shows "evaluateExpression t e h rt p = evaluateExpression t e h' rt p \<and>
    (\<forall>v. evaluateExpression t e h rt p = Ok v \<longrightarrow> safe_value p v)"
  using evaluateNode_noninterference [OF assms(2)] evaluateNode_safe [OF assms(1)] by (simp add: evaluateExpression_def)

theorem evaluation_confidential_witness:
  "evaluateExpression (\<lambda>_. ''7'') \<lparr>ce_source = ''n'', ce_ast = Reference [SegStr ''n'']\<rparr> (secret_heap ''a'') (VRef 0) secret_policy =
   evaluateExpression (\<lambda>_. ''7'') \<lparr>ce_source = ''n'', ce_ast = Reference [SegStr ''n'']\<rparr> (secret_heap ''b'') (VRef 0) secret_policy"
proof -
  have "string_policy secret_policy" by (simp add: string_policy_def secret_policy_def)
  moreover have "same_except (isRedactedKeyP secret_policy) (secret_heap ''a'') (secret_heap ''b'')"
    by (simp add: same_except_def secret_heap_def secret_policy_def)
  ultimately show ?thesis using evaluation_confidential by blast
qed

text \<open>Rendering a template stops early without changing the result: it is the concatenation of all rendered
  segments cut to the maximal length.\<close>

theorem render_is_truncated_concat:
  "renderExpressionTemplate t segs h rt m p = take m (concat (map (render_segment t h rt p) segs))"
  using render_loop_take [of "[]" m "render_segment t h rt p" segs] by (simp add: renderExpressionTemplate_def)

end
