(* ===== verification/Safe_Values.thy ===== *)
theory Safe_Values
  imports Safe_Expression
begin

text \<open>
  \<^verbatim>\<open>packages/sdk-node/src/safe-values.ts\<close>: dot paths, simple conditions and plain templates over
  captured values.  Only own data properties are read.  \<open>numText\<close> is \<^verbatim>\<open>String(n)\<close>.
\<close>

section \<open>Definitions\<close>

definition isValidDotPath :: "string \<Rightarrow> bool" where
  "isValidDotPath path \<longleftrightarrow>
     path \<noteq> [] \<and> length path \<le> 1024 \<and>
     (let segments = js_split CHR ''.'' path in
      length segments \<le> 64 \<and> list_all (\<lambda>s. 0 < length s \<and> length s \<le> 128) segments)"

record path_result =
  pr_found :: bool
  pr_truncated :: bool
  pr_value :: jsval

definition not_found :: path_result where
  "not_found = \<lparr>pr_found = False, pr_truncated = False, pr_value = VUndefined\<rparr>"

fun resolve_segments :: "heap \<Rightarrow> jsval \<Rightarrow> string list \<Rightarrow> path_result" where
  "resolve_segments h v [] = \<lparr>pr_found = True, pr_truncated = isCaptureTruncated h v, pr_value = v\<rparr>"
| "resolve_segments h v (s # ss) =
     (if isCaptureTruncated h v then \<lparr>pr_found = False, pr_truncated = True, pr_value = v\<rparr>
      else (case v of
          VRef a \<Rightarrow>
            (case own_property (h a) s of
               Some (PData w) \<Rightarrow> resolve_segments h w ss
             | _ \<Rightarrow> not_found)
        | _ \<Rightarrow> not_found))"

definition resolveDotPath :: "heap \<Rightarrow> jsval \<Rightarrow> string \<Rightarrow> path_result" where
  "resolveDotPath h v path =
     (if isValidDotPath path then resolve_segments h v (js_split CHR ''.'' path) else not_found)"

fun isJsonScalar :: "jsval \<Rightarrow> bool" where
  "isJsonScalar VNull = True"
| "isJsonScalar (VStr _) = True"
| "isJsonScalar (VBool _) = True"
| "isJsonScalar (VNum n) = is_finite_num n"
| "isJsonScalar _ = False"

text \<open>\<^verbatim>\<open>===\<close> between two JSON scalars.\<close>

fun strict_eq :: "jsval \<Rightarrow> jsval \<Rightarrow> bool" where
  "strict_eq (VNum a) (VNum b) = js_eq a b"
| "strict_eq a b = (a = b)"

definition ordered_test :: "(jsnum \<Rightarrow> jsnum \<Rightarrow> bool) \<Rightarrow> jsval \<Rightarrow> jsval \<Rightarrow> bool" where
  "ordered_test f a b = (case (a, b) of (VNum x, VNum y) \<Rightarrow> f x y | _ \<Rightarrow> False)"

fun condition_test :: "cond_op \<Rightarrow> jsval \<Rightarrow> jsval \<Rightarrow> bool" where
  "condition_test CEq a b = strict_eq a b"
| "condition_test CNe a b = (\<not> strict_eq a b)"
| "condition_test CGt a b = ordered_test (\<lambda>x y. js_lt y x) a b"
| "condition_test CGte a b = ordered_test (\<lambda>x y. js_le y x) a b"
| "condition_test CLt a b = ordered_test js_lt a b"
| "condition_test CLte a b = ordered_test js_le a b"

definition matchesCondition :: "heap \<Rightarrow> jsval \<Rightarrow> condition option \<Rightarrow> bool" where
  "matchesCondition h v cond =
     (case cond of
        None \<Rightarrow> True
      | Some c \<Rightarrow>
          (let r = resolveDotPath h v (c_path c); x = scalar_val (c_value c) in
           if \<not> pr_found r \<or> \<not> isJsonScalar (pr_value r) \<or> \<not> isJsonScalar x then False
           else condition_test (c_op c) (pr_value r) x))"

definition renderValue :: "(jsnum \<Rightarrow> string) \<Rightarrow> heap \<Rightarrow> jsval \<Rightarrow> string" where
  "renderValue numText h v =
     (if isCaptureTruncated h v then ''[truncated]''
      else (case v of
          VNull \<Rightarrow> ''null''
        | VStr s \<Rightarrow> s
        | VNum n \<Rightarrow> if is_finite_num n then numText n else ''[unavailable]''
        | VBool b \<Rightarrow> if b then ''true'' else ''false''
        | VRef a \<Rightarrow> (case h a of ArrayObj _ _ \<Rightarrow> ''[array]'' | _ \<Rightarrow> ''[object]'')
        | VFunction \<Rightarrow> ''[function]''
        | _ \<Rightarrow> ''[unavailable]''))"

definition templatePaths :: "string \<Rightarrow> string list" where
  "templatePaths template = map snd (templateMatches template)"

text \<open>\<^verbatim>\<open>template.replace(/\$\{([^{}]+)\}/gu, f)\<close>: \<open>from\<close> is the position of the rest.\<close>

fun replace_matches :: "(string \<Rightarrow> string) \<Rightarrow> nat \<Rightarrow> string \<Rightarrow> (nat \<times> string) list \<Rightarrow> string" where
  "replace_matches f from rest [] = rest"
| "replace_matches f from rest ((i, g) # ms) =
     take (i - from) rest @ f g @
     replace_matches f (i + length g + 3) (drop (i + length g + 3 - from) rest) ms"

definition render_path ::
  "(jsnum \<Rightarrow> string) \<Rightarrow> heap \<Rightarrow> jsval \<Rightarrow> (string \<Rightarrow> jsval \<Rightarrow> bool) \<Rightarrow> string \<Rightarrow> string" where
  "render_path numText h v shouldRedact path =
     (let r = resolveDotPath h v path in
      if (pr_found r \<or> pr_truncated r) \<and> shouldRedact path (pr_value r) then ''[REDACTED]''
      else if pr_truncated r then ''[truncated]''
      else if pr_found r then renderValue numText h (pr_value r) else ''[unavailable]'')"

definition renderTemplate ::
  "(jsnum \<Rightarrow> string) \<Rightarrow> string \<Rightarrow> heap \<Rightarrow> jsval \<Rightarrow> nat \<Rightarrow> (string \<Rightarrow> jsval \<Rightarrow> bool) \<Rightarrow> string" where
  "renderTemplate numText template h v maxLength shouldRedact =
     take maxLength
       (replace_matches (render_path numText h v shouldRedact) 0 template (templateMatches template))"

section \<open>Lemmas\<close>

text \<open>
  On paths both accept, the dot path resolver and the expression resolver read the same value.
\<close>

lemma resolve_segments_agree:
  "resolvePath t h v (map SegStr ss) no_policy =
     (let r = resolve_segments h v ss in
      if pr_truncated r then Err CaptureTruncated
      else if \<not> pr_found r then Err Missing
      else safeResult (pr_value r) no_policy)"
proof (induction ss arbitrary: v)
  case Nil
  then show ?case by simp
next
  case (Cons s ss)
  then show ?case
    by (auto simp: Let_def no_policy_def segment_key_def not_found_def
        split: jsval.splits option.splits property.splits)
qed

lemma resolve_segments_noninterference:
  assumes "same_except K h h'" "\<forall>s \<in> set ss. \<not> K s"
  shows "resolve_segments h v ss = resolve_segments h' v ss"
  using assms(2)
proof (induction ss arbitrary: v)
  case Nil
  then show ?case by (simp add: same_exceptD(1) [OF assms(1)])
next
  case (Cons s ss)
  then show ?case
    using same_exceptD [OF assms(1)] by (auto split: jsval.splits option.splits property.splits)
qed

lemma renderTemplate_length: "length (renderTemplate t tpl h v m sr) \<le> m"
  by (simp add: renderTemplate_def)

section \<open>Properties\<close>

text \<open>C23: The dot paths of the older probes and the references of compiled expressions resolve alike: same value,
  same failure where the capture was cut off or the property is missing.\<close>

theorem dot_path_is_reference:
  assumes "isValidDotPath path"
  shows "resolvePath t h v (map SegStr (js_split CHR ''.'' path)) no_policy =
     (let r = resolveDotPath h v path in
      if pr_truncated r then Err CaptureTruncated
      else if \<not> pr_found r then Err Missing
      else safeResult (pr_value r) no_policy)"
  using resolve_segments_agree [of t h v "js_split CHR ''.'' path"] assms by (simp add: resolveDotPath_def)

theorem dot_path_is_reference_witness:
  "resolvePath (\<lambda>_. ''0'') (secret_heap ''x'') (VRef 0) [SegStr ''n'', SegStr ''m''] no_policy = Err Missing"
proof -
  have v: "isValidDotPath ''n.m''" by (simp add: isValidDotPath_def)
  have "resolveDotPath (secret_heap ''x'') (VRef 0) ''n.m'' = not_found"
    using v by (simp add: resolveDotPath_def secret_heap_def)
  with dot_path_is_reference [OF v, of "\<lambda>_. ''0''" "secret_heap ''x''" "VRef 0"] show ?thesis by (simp add: not_found_def)
qed

end
