(* ===== verification/Agent_Buffers.thy ===== *)
theory Agent_Buffers
  imports Protocol
begin

text \<open>
  \<^verbatim>\<open>packages/sdk-node/src/event-buffer.ts\<close>: the byte-bounded queue of events waiting for
  delivery and the aggregation of counter and metric hits.  The size of an event,
  \<^verbatim>\<open>Buffer.byteLength(JSON.stringify(event))\<close>, is the parameter \<open>bytesOf\<close>.  The lemmas show the
  byte bound, that nothing is reordered or lost without being counted, that a batch put back is
  the buffer it was taken from, and what an aggregate holds.
\<close>

section \<open>Definitions\<close>

subsection \<open>The event buffer\<close>

record 'e event_buffer =
  eb_maxBytes :: int
  eb_events :: "('e \<times> nat) list"
  eb_bytes :: int
  eb_dropped :: nat

definition new_event_buffer :: "jsnum \<Rightarrow> (string, 'e event_buffer) res" where
  "new_event_buffer maxBytes =
     (case maxBytes of
        Fin q \<Rightarrow> if is_safe_integer_num maxBytes \<and> 0 < q
          then Ok \<lparr>eb_maxBytes = \<lfloor>q\<rfloor>, eb_events = [], eb_bytes = 0, eb_dropped = 0\<rparr>
          else Err ''maxBytes must be a positive safe integer''
      | _ \<Rightarrow> Err ''maxBytes must be a positive safe integer'')"

text \<open>The eviction loop: the oldest events go until \<open>n\<close> more bytes fit.\<close>

fun evict_front :: "int \<Rightarrow> nat \<Rightarrow> ('e \<times> nat) list \<Rightarrow> int \<Rightarrow> nat \<Rightarrow> ('e \<times> nat) list \<times> int \<times> nat" where
  "evict_front m n [] bytes dropped = ([], bytes, dropped)"
| "evict_front m n (x # xs) bytes dropped =
     (if m < bytes + int n then evict_front m n xs (bytes - int (snd x)) (dropped + 1)
      else (x # xs, bytes, dropped))"

definition enqueue :: "('e \<Rightarrow> nat) \<Rightarrow> 'e \<Rightarrow> 'e event_buffer \<Rightarrow> 'e event_buffer \<times> bool" where
  "enqueue bytesOf e b =
     (let n = bytesOf e in
      if eb_maxBytes b < int n then (b\<lparr>eb_dropped := eb_dropped b + 1\<rparr>, False)
      else let (evs, bytes, dropped) = evict_front (eb_maxBytes b) n (eb_events b) (eb_bytes b) (eb_dropped b) in
        (b\<lparr>eb_events := evs @ [(e, n)], eb_bytes := bytes + int n, eb_dropped := dropped\<rparr>, True))"

text \<open>The batch loop: \<open>started\<close> is \<^verbatim>\<open>batch.length > 0\<close>, \<open>acc\<close> the bytes of the batch so far.\<close>

fun take_loop :: "int \<Rightarrow> bool \<Rightarrow> int \<Rightarrow> ('e \<times> nat) list \<Rightarrow> ('e \<times> nat) list \<times> ('e \<times> nat) list" where
  "take_loop m started acc [] = ([], [])"
| "take_loop m started acc (x # xs) =
     (if started \<and> m < acc + int (snd x) then ([], x # xs)
      else if m \<le> acc + int (snd x) then ([x], xs)
      else let (batch, rest) = take_loop m True (acc + int (snd x)) xs in (x # batch, rest))"

definition takeBatch :: "int \<Rightarrow> 'e event_buffer \<Rightarrow> 'e event_buffer \<times> 'e list" where
  "takeBatch m b =
     (if eb_events b = [] \<or> m \<le> 0 then (b, [])
      else let (batch, rest) = take_loop m False 0 (eb_events b) in
        (b\<lparr>eb_events := rest, eb_bytes := eb_bytes b - int (sum_list (map snd batch))\<rparr>, map fst batch))"

text \<open>The newest events go until the buffer fits; the list is given newest first.\<close>

fun evict_back :: "int \<Rightarrow> ('e \<times> nat) list \<Rightarrow> int \<Rightarrow> nat \<Rightarrow> ('e \<times> nat) list \<times> int \<times> nat" where
  "evict_back m [] bytes dropped = ([], bytes, dropped)"
| "evict_back m (x # xs) bytes dropped =
     (if m < bytes then evict_back m xs (bytes - int (snd x)) (dropped + 1) else (x # xs, bytes, dropped))"

definition requeueFront :: "('e \<Rightarrow> nat) \<Rightarrow> 'e list \<Rightarrow> 'e event_buffer \<Rightarrow> 'e event_buffer" where
  "requeueFront bytesOf es b =
     (let all = map (\<lambda>e. (e, bytesOf e)) es @ eb_events b;
          (kept, bytes, dropped) = evict_back (eb_maxBytes b) (rev all) (int (sum_list (map snd all))) (eb_dropped b) in
      b\<lparr>eb_events := rev kept, eb_bytes := bytes, eb_dropped := dropped\<rparr>)"

definition recordRejected :: "'e list \<Rightarrow> 'e event_buffer \<Rightarrow> 'e event_buffer" where
  "recordRejected es b = b\<lparr>eb_dropped := eb_dropped b + length es\<rparr>"

subsection \<open>Aggregates\<close>

record metric_aggregate =
  ma_count :: int
  ma_sum :: jsnum
  ma_min :: jsnum
  ma_max :: jsnum
  ma_last :: jsnum

record aggregate_buffer =
  ab_counters :: "(string, int) jsmap"
  ab_metrics :: "(string, metric_aggregate) jsmap"

definition empty_aggregates :: aggregate_buffer where
  "empty_aggregates = \<lparr>ab_counters = [], ab_metrics = []\<rparr>"

definition incrementCounter :: "string \<Rightarrow> aggregate_buffer \<Rightarrow> aggregate_buffer" where
  "incrementCounter probeId b =
     b\<lparr>ab_counters := jset probeId ((case jget (ab_counters b) probeId of None \<Rightarrow> 0 | Some n \<Rightarrow> n) + 1) (ab_counters b)\<rparr>"

definition first_metric :: "jsnum \<Rightarrow> metric_aggregate" where
  "first_metric v = \<lparr>ma_count = 1, ma_sum = v, ma_min = v, ma_max = v, ma_last = v\<rparr>"

definition add_metric :: "metric_aggregate \<Rightarrow> jsnum \<Rightarrow> metric_aggregate" where
  "add_metric a v = \<lparr>ma_count = ma_count a + 1, ma_sum = js_add (ma_sum a) v,
     ma_min = js_min (ma_min a) v, ma_max = js_max (ma_max a) v, ma_last = v\<rparr>"

definition recordMetric :: "string \<Rightarrow> jsnum \<Rightarrow> aggregate_buffer \<Rightarrow> aggregate_buffer" where
  "recordMetric probeId v b =
     (if \<not> is_finite_num v then b
      else b\<lparr>ab_metrics := jset probeId
        (case jget (ab_metrics b) probeId of None \<Rightarrow> first_metric v | Some a \<Rightarrow> add_metric a v) (ab_metrics b)\<rparr>)"

definition agent_event :: "string \<Rightarrow> int \<Rightarrow> event_body \<Rightarrow> probe_event" where
  "agent_event probeId ts body = \<lparr>ev_probeId = probeId, ev_probeVersion = None, ev_ts = ts, ev_body = body\<rparr>"

definition flush :: "int \<Rightarrow> aggregate_buffer \<Rightarrow> aggregate_buffer \<times> probe_event list" where
  "flush now b =
     (empty_aggregates,
      map (\<lambda>(p, d). agent_event p now (CounterEvent d)) (filter (\<lambda>(_, d). 0 < d) (ab_counters b)) @
      map (\<lambda>(p, a). agent_event p now (MetricEvent (ma_count a) (ma_sum a) (ma_min a) (ma_max a) (ma_last a)))
        (ab_metrics b))"

subsection \<open>Vocabulary of the lemmas\<close>

definition buffer_ok :: "('e \<Rightarrow> nat) \<Rightarrow> 'e event_buffer \<Rightarrow> bool" where
  "buffer_ok bytesOf b \<longleftrightarrow> eb_bytes b = int (sum_list (map snd (eb_events b))) \<and> eb_bytes b \<le> eb_maxBytes b \<and>
     0 < eb_maxBytes b \<and> (\<forall>(e, n) \<in> set (eb_events b). n = bytesOf e)"

definition contents :: "'e event_buffer \<Rightarrow> 'e list" where
  "contents b = map fst (eb_events b)"

definition hits :: "aggregate_buffer \<Rightarrow> string \<Rightarrow> int" where
  "hits b p = (case jget (ab_counters b) p of None \<Rightarrow> 0 | Some n \<Rightarrow> n)"

section \<open>Lemmas\<close>

subsection \<open>Eviction\<close>

lemma evict_front_spec:
  assumes "evict_front m n xs bytes dropped = (ys, bytes', dropped')" "bytes = int (sum_list (map snd xs))"
  shows "\<exists>k. ys = drop k xs \<and> k \<le> length xs \<and> dropped' = dropped + k \<and> bytes' = int (sum_list (map snd ys)) \<and>
    (int n \<le> m \<longrightarrow> bytes' + int n \<le> m) \<and> (\<forall>j < k. m < int (sum_list (map snd (drop j xs))) + int n)"
  using assms
proof (induction xs arbitrary: bytes dropped)
  case Nil
  then show ?case by auto
next
  case (Cons x xs)
  show ?case
  proof (cases "m < bytes + int n")
    case True
    from Cons.IH [of "bytes - int (snd x)" "dropped + 1"] Cons.prems True
    obtain k where k: "ys = drop k xs" "k \<le> length xs" "dropped' = dropped + 1 + k" "bytes' = int (sum_list (map snd ys))"
      "int n \<le> m \<longrightarrow> bytes' + int n \<le> m" "\<forall>j < k. m < int (sum_list (map snd (drop j xs))) + int n"
      by auto
    have "m < int (sum_list (map snd (drop j (x # xs)))) + int n" if "j < Suc k" for j
      using that k(6) True Cons.prems(2) by (cases j) auto
    with k show ?thesis by (intro exI [of _ "Suc k"]) auto
  next
    case False
    with Cons.prems show ?thesis by (intro exI [of _ 0]) auto
  qed
qed

lemma evict_back_spec:
  assumes "evict_back m xs bytes dropped = (ys, bytes', dropped')" "bytes = int (sum_list (map snd xs))" "0 \<le> m"
  shows "\<exists>k. ys = drop k xs \<and> k \<le> length xs \<and> dropped' = dropped + k \<and> bytes' = int (sum_list (map snd ys)) \<and>
    bytes' \<le> m \<and> (\<forall>j < k. m < int (sum_list (map snd (drop j xs))))"
  using assms(1,2)
proof (induction xs arbitrary: bytes dropped)
  case Nil
  then show ?case using assms(3) by auto
next
  case (Cons x xs)
  show ?case
  proof (cases "m < bytes")
    case True
    from Cons.IH [of "bytes - int (snd x)" "dropped + 1"] Cons.prems True
    obtain k where k: "ys = drop k xs" "k \<le> length xs" "dropped' = dropped + 1 + k" "bytes' = int (sum_list (map snd ys))"
      "bytes' \<le> m" "\<forall>j < k. m < int (sum_list (map snd (drop j xs)))"
      by auto
    have "m < int (sum_list (map snd (drop j (x # xs))))" if "j < Suc k" for j
      using that k(6) True Cons.prems(2) by (cases j) auto
    with k show ?thesis by (intro exI [of _ "Suc k"]) auto
  next
    case False
    with Cons.prems show ?thesis by (intro exI [of _ 0]) auto
  qed
qed

lemma enqueue_cases:
  assumes "buffer_ok bytesOf b"
  obtains (refused) "eb_maxBytes b < int (bytesOf e)" "enqueue bytesOf e b = (b\<lparr>eb_dropped := eb_dropped b + 1\<rparr>, False)"
  | (stored) k where "int (bytesOf e) \<le> eb_maxBytes b" "k \<le> length (eb_events b)"
      "enqueue bytesOf e b = (b\<lparr>eb_events := drop k (eb_events b) @ [(e, bytesOf e)],
         eb_bytes := int (sum_list (map snd (drop k (eb_events b)))) + int (bytesOf e), eb_dropped := eb_dropped b + k\<rparr>, True)"
      "int (sum_list (map snd (drop k (eb_events b)))) + int (bytesOf e) \<le> eb_maxBytes b"
      "\<And>j. j < k \<Longrightarrow> eb_maxBytes b < int (sum_list (map snd (drop j (eb_events b)))) + int (bytesOf e)"
proof (cases "eb_maxBytes b < int (bytesOf e)")
  case True
  then show ?thesis using refused by (simp add: enqueue_def Let_def)
next
  case False
  obtain ys bytes dropped where e: "evict_front (eb_maxBytes b) (bytesOf e) (eb_events b) (eb_bytes b) (eb_dropped b) = (ys, bytes, dropped)"
    using prod_cases3 by blast
  have "eb_bytes b = int (sum_list (map snd (eb_events b)))" using assms by (simp add: buffer_ok_def)
  from evict_front_spec [OF e this] obtain k where k: "ys = drop k (eb_events b)" "k \<le> length (eb_events b)"
    "dropped = eb_dropped b + k" "bytes = int (sum_list (map snd ys))" "bytes + int (bytesOf e) \<le> eb_maxBytes b"
    "\<forall>j < k. eb_maxBytes b < int (sum_list (map snd (drop j (eb_events b)))) + int (bytesOf e)"
    using False by auto
  show ?thesis
    by (rule stored [of k]) (use False e k in \<open>auto simp: enqueue_def Let_def\<close>)
qed

lemma enqueue_ok: "buffer_ok bytesOf b \<Longrightarrow> buffer_ok bytesOf (fst (enqueue bytesOf e b))"
proof -
  assume ok: "buffer_ok bytesOf b"
  from ok show "buffer_ok bytesOf (fst (enqueue bytesOf e b))"
  proof (cases rule: enqueue_cases [of bytesOf b e])
    case refused
    with ok show ?thesis by (simp add: buffer_ok_def)
  next
    case (stored k)
    with ok show ?thesis by (auto simp: buffer_ok_def dest: in_set_dropD)
  qed
qed

text \<open>Every event is in the buffer or has been counted as dropped.\<close>

lemma enqueue_accounting:
  assumes "buffer_ok bytesOf b"
  shows "length (eb_events (fst (enqueue bytesOf e b))) + eb_dropped (fst (enqueue bytesOf e b)) =
    length (eb_events b) + eb_dropped b + 1"
  using assms by (cases rule: enqueue_cases [of bytesOf b e]) auto

interpretation event_queue: lossy_queue "\<lambda>b. buffer_ok bytesOf b \<and> eb_maxBytes b = m"
    "\<lambda>e b. fst (enqueue bytesOf e b)" contents "\<lambda>e. int (bytesOf e) \<le> m" for bytesOf m
proof (unfold_locales, goal_cases)
  case (1 b e)
  then show ?case using enqueue_ok [of bytesOf b e] by (auto simp: enqueue_def Let_def case_prod_beta)
next
  case (2 b e)
  then have "buffer_ok bytesOf b" "eb_maxBytes b = m" by simp_all
  from this(1) show ?case
  proof (cases rule: enqueue_cases [of bytesOf b e])
    case refused
    then show ?thesis using \<open>eb_maxBytes b = m\<close> by (simp add: contents_def)
  next
    case (stored k)
    then show ?thesis using \<open>eb_maxBytes b = m\<close> by (auto simp: contents_def suffix_drop simp flip: drop_map)
  qed
qed

subsection \<open>Batches\<close>

lemma take_loop_append: "take_loop m s acc xs = (batch, rest) \<Longrightarrow> batch @ rest = xs"
  by (induction m s acc xs arbitrary: batch rule: take_loop.induct) (auto split: if_splits prod.splits)

lemma take_loop_nonempty: "xs \<noteq> [] \<Longrightarrow> take_loop m False acc xs = (batch, rest) \<Longrightarrow> batch \<noteq> []"
  by (cases xs) (auto split: if_splits prod.splits)

lemma take_loop_bound:
  assumes "take_loop m s acc xs = (batch, rest)" "s \<longrightarrow> acc \<le> m" "s \<or> acc = 0"
  shows "acc + int (sum_list (map snd batch)) \<le> m \<or> (\<not> s \<and> length batch \<le> 1)"
  using assms
proof (induction m s acc xs arbitrary: batch rest rule: take_loop.induct)
  case (2 m s acc x xs)
  show ?case
  proof (cases "m \<le> acc + int (snd x)")
    case True
    with 2 show ?thesis by (auto split: if_splits)
  next
    case False
    then obtain b r where "take_loop m True (acc + int (snd x)) xs = (b, r)" "batch = x # b"
      using 2 by (auto split: if_splits prod.splits)
    with 2 False show ?thesis by (fastforce split: if_splits)
  qed
qed auto

lemma takeBatch_split:
  assumes "takeBatch m b = (b', es)" "buffer_ok bytesOf b"
  shows "es @ contents b' = contents b" "buffer_ok bytesOf b'" "eb_dropped b' = eb_dropped b"
    "eb_maxBytes b' = eb_maxBytes b" "map (\<lambda>e. (e, bytesOf e)) es @ eb_events b' = eb_events b"
proof -
  obtain batch rest where t: "take_loop m False 0 (eb_events b) = (batch, rest)" by fastforce
  note app = take_loop_append [OF t]
  have sizes: "\<forall>(e, n) \<in> set (eb_events b). n = bytesOf e" using assms(2) by (simp add: buffer_ok_def)
  have "n = bytesOf e" if "(e, n) \<in> set batch" for e n using sizes that by (auto simp flip: app)
  then have same: "map (\<lambda>e. (e, bytesOf e)) (map fst batch) = batch" by (auto intro!: map_idI)
  have "es @ contents b' = contents b \<and> map (\<lambda>e. (e, bytesOf e)) es @ eb_events b' = eb_events b \<and>
    eb_dropped b' = eb_dropped b \<and> eb_maxBytes b' = eb_maxBytes b \<and> buffer_ok bytesOf b'"
  proof (cases "eb_events b = [] \<or> m \<le> 0")
    case True
    with assms show ?thesis by (auto simp: takeBatch_def)
  next
    case False
    then have e: "b' = b\<lparr>eb_events := rest, eb_bytes := eb_bytes b - int (sum_list (map snd batch))\<rparr>" "es = map fst batch"
      using assms(1) t by (simp_all add: takeBatch_def)
    have "buffer_ok bytesOf b'" using assms(2) sizes by (auto simp: e buffer_ok_def simp flip: app)
    moreover have "es @ contents b' = contents b" by (simp add: e contents_def flip: app)
    moreover have "map (\<lambda>e. (e, bytesOf e)) es @ eb_events b' = eb_events b" unfolding e same by (simp add: app)
    ultimately show ?thesis by (simp add: e)
  qed
  then show "es @ contents b' = contents b" "buffer_ok bytesOf b'" "eb_dropped b' = eb_dropped b"
    "eb_maxBytes b' = eb_maxBytes b" "map (\<lambda>e. (e, bytesOf e)) es @ eb_events b' = eb_events b" by simp_all
qed

lemma sum_snd_rev: "sum_list (map snd (rev xs)) = (sum_list (map snd xs) :: nat)"
  by (induction xs) simp_all

lemma requeueFront_cases:
  assumes "buffer_ok bytesOf b"
  obtains k where "k \<le> length (es @ contents b)"
    "contents (requeueFront bytesOf es b) = take k (es @ contents b)"
    "eb_dropped (requeueFront bytesOf es b) = eb_dropped b + (length (es @ contents b) - k)"
    "buffer_ok bytesOf (requeueFront bytesOf es b)"
    "eb_events (requeueFront bytesOf es b) = take k (map (\<lambda>e. (e, bytesOf e)) es @ eb_events b)"
    "int (sum_list (map snd (map (\<lambda>e. (e, bytesOf e)) es @ eb_events b))) \<le> eb_maxBytes b \<Longrightarrow> k = length (es @ contents b)"
proof -
  let ?all = "map (\<lambda>e. (e, bytesOf e)) es @ eb_events b"
  obtain kept bytes dropped where e: "evict_back (eb_maxBytes b) (rev ?all) (int (sum_list (map snd ?all))) (eb_dropped b) = (kept, bytes, dropped)"
    using prod_cases3 by blast
  have "int (sum_list (map snd ?all)) = int (sum_list (map snd (rev ?all)))" by (simp only: sum_snd_rev)
  from evict_back_spec [OF e this] assms obtain j where j: "kept = drop j (rev ?all)" "j \<le> length (rev ?all)"
    "dropped = eb_dropped b + j" "bytes = int (sum_list (map snd kept))" "bytes \<le> eb_maxBytes b"
    "\<forall>i < j. eb_maxBytes b < int (sum_list (map snd (drop i (rev ?all))))"
    by (auto simp: buffer_ok_def)
  have r: "rev kept = take (length ?all - j) ?all" using j(1) by (simp only: rev_drop rev_rev_ident length_rev)
  have q: "requeueFront bytesOf es b = b\<lparr>eb_events := rev kept, eb_bytes := bytes, eb_dropped := dropped\<rparr>"
    using e by (simp add: requeueFront_def Let_def)
  have s: "sum_list (map snd (rev kept)) = sum_list (map snd kept)" by (rule sum_snd_rev)
  show ?thesis
  proof (rule that [of "length ?all - j"])
    show "buffer_ok bytesOf (requeueFront bytesOf es b)"
      using assms j s by (auto simp: q buffer_ok_def dest!: in_set_dropD)
    show "int (sum_list (map snd ?all)) \<le> eb_maxBytes b \<Longrightarrow> length ?all - j = length (es @ contents b)"
      using j(6) [rule_format, of 0] by (cases j) (auto simp: contents_def sum_snd_rev simp del: rev_append)
  qed (use j r in \<open>auto simp: q contents_def take_map o_def\<close>)
qed

text \<open>A batch that could not be delivered goes back and the buffer is as before.\<close>

lemma take_requeue:
  assumes "takeBatch m b = (b', es)" "buffer_ok bytesOf b"
  shows "requeueFront bytesOf es b' = b"
proof -
  note t = takeBatch_split [OF assms]
  have "int (sum_list (map snd (map (\<lambda>e. (e, bytesOf e)) es @ eb_events b'))) \<le> eb_maxBytes b'"
    unfolding t(4,5) using assms(2) by (simp add: buffer_ok_def)
  moreover have len: "length (contents b) = length (eb_events b)" by (simp add: contents_def)
  ultimately obtain "eb_events (requeueFront bytesOf es b') = eb_events b" "eb_dropped (requeueFront bytesOf es b') = eb_dropped b"
    "buffer_ok bytesOf (requeueFront bytesOf es b')"
    by (rule_tac requeueFront_cases [OF t(2), of es]) (auto simp: t(1,3,5) len)
  moreover have "eb_maxBytes (requeueFront bytesOf es b') = eb_maxBytes b" by (simp add: requeueFront_def Let_def case_prod_beta t(4))
  ultimately show ?thesis using assms(2) by (intro event_buffer.equality) (auto simp: buffer_ok_def)
qed


subsection \<open>Aggregates\<close>

lemma incrementCounter_get:
  "jget (ab_counters (incrementCounter p b)) q =
   (if q = p then Some ((case jget (ab_counters b) p of None \<Rightarrow> 0 | Some n \<Rightarrow> n) + 1) else jget (ab_counters b) q)"
  by (simp add: incrementCounter_def)

lemma hits_run: "hits (fold incrementCounter ps b) p = hits b p + int (length (filter (\<lambda>q. q = p) ps))"
  by (induction ps arbitrary: b) (auto simp: hits_def incrementCounter_get)

lemma recordMetric_get:
  "is_finite_num v \<Longrightarrow> jget (ab_metrics (recordMetric p v b)) q =
   (if q = p then Some (case jget (ab_metrics b) p of None \<Rightarrow> first_metric v | Some a \<Rightarrow> add_metric a v)
    else jget (ab_metrics b) q)"
  by (simp add: recordMetric_def)

text \<open>The aggregate of a list of values, the first one given apart.\<close>

lemma recordMetric_run:
  assumes "\<forall>v \<in> set (v # vs). is_finite_num v" "jget (ab_metrics b) p = None"
  shows "jget (ab_metrics (fold (recordMetric p) (v # vs) b)) p = Some (foldl add_metric (first_metric v) vs)"
proof -
  have "jget (ab_metrics (fold (recordMetric p) vs b)) p = Some (foldl add_metric a vs)"
    if "\<forall>v \<in> set vs. is_finite_num v" "jget (ab_metrics b) p = Some a" for a vs b
    using that by (induction vs arbitrary: a b) (simp_all add: recordMetric_get)
  with assms show ?thesis by (simp add: recordMetric_get)
qed

lemma partial_sum_bound:
  assumes "\<forall>n \<in> set ns. \<bar>n\<bar> * int k \<le> 2 ^ 53" "length ns \<le> k"
  shows "\<bar>sum_list ns\<bar> \<le> 2 ^ 53"
proof (cases "ns = []")
  case False
  define M where "M = Max ((\<lambda>n. \<bar>n\<bar>) ` set ns)"
  have M: "\<bar>n\<bar> \<le> M" if "n \<in> set ns" for n using that by (simp add: M_def)
  have "M \<in> (\<lambda>n. \<bar>n\<bar>) ` set ns" unfolding M_def using False by (intro Max_in) auto
  then have Mk: "M * int k \<le> 2 ^ 53" "0 \<le> M" using assms(1) by auto
  have "\<bar>sum_list xs\<bar> \<le> M * int (length xs)" if "set xs \<subseteq> set ns" for xs
    using that
  proof (induction xs)
    case (Cons x xs)
    then show ?case using M [of x] by (simp add: algebra_simps)
  qed simp
  from this [of ns] have "\<bar>sum_list ns\<bar> \<le> M * int (length ns)" by simp
  also have "\<dots> \<le> M * int k" using assms(2) Mk(2) by (intro mult_left_mono) auto
  finally show ?thesis using Mk(1) by simp
qed simp

lemma aggregate_int:
  assumes "\<forall>x \<in> set (n # ns). \<bar>x\<bar> * int (Suc (length ns)) \<le> 2 ^ 53"
  shows "foldl add_metric (first_metric (js_int n)) (map js_int ns) =
    \<lparr>ma_count = int (Suc (length ns)), ma_sum = js_int (sum_list (n # ns)), ma_min = js_int (Min (set (n # ns))),
     ma_max = js_int (Max (set (n # ns))), ma_last = js_int (last (n # ns))\<rparr>"
proof -
  have "foldl add_metric (first_metric (js_int n)) (map js_int xs) =
    \<lparr>ma_count = int (Suc (length xs)), ma_sum = js_int (sum_list (n # xs)), ma_min = js_int (Min (set (n # xs))),
     ma_max = js_int (Max (set (n # xs))), ma_last = js_int (last (n # xs))\<rparr>"
    if "length xs \<le> length ns" "set xs \<subseteq> set ns" for xs
    using that
  proof (induction xs rule: rev_induct)
    case Nil
    then show ?case by (simp add: first_metric_def)
  next
    case (snoc x xs)
    have "\<bar>sum_list ((n # xs) @ [x])\<bar> \<le> 2 ^ 53"
      using assms snoc.prems by (intro partial_sum_bound [where k = "Suc (length ns)"]) auto
    then have "js_add (js_int (sum_list (n # xs))) (js_int x) = js_int (sum_list (n # xs) + x)"
      by (intro js_add_int) (simp add: algebra_simps)
    moreover have "Min (insert n (insert x (set xs))) = min (Min (insert n (set xs))) x"
      "Max (insert n (insert x (set xs))) = max (Max (insert n (set xs))) x"
      using Min_insert [of "insert n (set xs)" x] Max_insert [of "insert n (set xs)" x]
      by (simp_all add: insert_commute min.commute max.commute)
    ultimately show ?case using snoc by (simp add: add_metric_def del: js_add.simps) (simp add: of_int_min of_int_max algebra_simps)
  qed
  from this [of ns] show ?thesis by simp
qed

text \<open>An integer aggregate lies between count times minimum and count times maximum.\<close>

lemma sum_between:
  assumes "ns \<noteq> []"
  shows "Min (set ns) * int (length ns) \<le> sum_list ns" "sum_list ns \<le> Max (set ns) * int (length ns)"
proof -
  have "Min (set ns) * int (length xs) \<le> sum_list xs \<and> sum_list xs \<le> Max (set ns) * int (length xs)"
    if "set xs \<subseteq> set ns" for xs
    using that
  proof (induction xs)
    case (Cons x xs)
    have x: "Min (set ns) \<le> x" "x \<le> Max (set ns)" using Cons.prems by (simp_all add: Min_le Max_ge)
    from Cons have "Min (set ns) * int (length xs) \<le> sum_list xs" "sum_list xs \<le> Max (set ns) * int (length xs)" by simp_all
    with x have "Min (set ns) + Min (set ns) * int (length xs) \<le> x + sum_list xs"
      "x + sum_list xs \<le> Max (set ns) + Max (set ns) * int (length xs)" by linarith+
    then show ?case by (simp add: distrib_left)
  qed simp
  from this [of ns] show "Min (set ns) * int (length ns) \<le> sum_list ns" "sum_list ns \<le> Max (set ns) * int (length ns)" by auto
qed

section \<open>Properties\<close>

text \<open>The event buffer never exceeds its byte budget, and what it holds after any number of events is the newest
  part, in order, of its old content followed by the events that fit at all; every other event is counted as
  dropped.\<close>

theorem event_buffer_keeps_newest:
  assumes "buffer_ok bytesOf b"
  shows "buffer_ok bytesOf (fold (\<lambda>e b. fst (enqueue bytesOf e b)) es b) \<and>
    eb_bytes (fold (\<lambda>e b. fst (enqueue bytesOf e b)) es b) \<le> eb_maxBytes b \<and>
    suffix (contents (fold (\<lambda>e b. fst (enqueue bytesOf e b)) es b)) (contents b @ filter (\<lambda>e. int (bytesOf e) \<le> eb_maxBytes b) es) \<and>
    length (contents (fold (\<lambda>e b. fst (enqueue bytesOf e b)) es b)) + eb_dropped (fold (\<lambda>e b. fst (enqueue bytesOf e b)) es b) =
      length (contents b) + eb_dropped b + length es"
proof -
  let ?run = "fold (\<lambda>e b. fst (enqueue bytesOf e b)) es b"
  have ok: "buffer_ok bytesOf ?run \<and> eb_maxBytes ?run = eb_maxBytes b"
    using event_queue.run_ok [of bytesOf b "eb_maxBytes b" es] assms by blast
  have "length (contents (fold (\<lambda>e b. fst (enqueue bytesOf e b)) es b)) + eb_dropped (fold (\<lambda>e b. fst (enqueue bytesOf e b)) es b) =
      length (contents b) + eb_dropped b + length es"
    using assms
  proof (induction es arbitrary: b)
    case (Cons e es)
    from Cons.IH [OF enqueue_ok [OF Cons.prems]] enqueue_accounting [OF Cons.prems, of e] show ?case by (simp add: contents_def)
  qed simp
  moreover have "suffix (contents ?run) (contents b @ filter (\<lambda>e. int (bytesOf e) \<le> eb_maxBytes b) es)"
    using event_queue.run_suffix [of bytesOf b "eb_maxBytes b" es] assms by simp
  ultimately show ?thesis using ok by (simp add: buffer_ok_def)
qed

theorem event_buffer_keeps_newest_witness:
  "contents (fold (\<lambda>e b. fst (enqueue (\<lambda>n. n) e b)) [3, 9, 4, 2 :: nat]
     \<lparr>eb_maxBytes = 6, eb_events = [], eb_bytes = 0, eb_dropped = 0\<rparr>) = [4, 2] \<and>
   eb_dropped (fold (\<lambda>e b. fst (enqueue (\<lambda>n. n) e b)) [3, 9, 4, 2 :: nat]
     \<lparr>eb_maxBytes = 6, eb_events = [], eb_bytes = 0, eb_dropped = 0\<rparr>) = 2"
proof -
  let ?b = "\<lparr>eb_maxBytes = 6, eb_events = [], eb_bytes = 0, eb_dropped = 0\<rparr> :: nat event_buffer"
  define r where "r = fold (\<lambda>e b. fst (enqueue (\<lambda>n. n) e b)) [3, 9, 4, 2 :: nat] ?b"
  have c: "contents r = [4, 2]" by (simp add: r_def enqueue_def contents_def)
  have "buffer_ok (\<lambda>n. n) ?b" by (simp add: buffer_ok_def)
  from event_buffer_keeps_newest [OF this, of "[3, 9, 4, 2]", folded r_def] have "eb_dropped r = 2" by (simp add: c) (simp add: contents_def)
  with c show ?thesis unfolding r_def by blast
qed

text \<open>A batch is a non-empty prefix of a non-empty buffer and fits its byte limit unless it is one event that is too
  large by itself; putting it back restores the buffer exactly.\<close>

theorem batch_round_trip:
  assumes "buffer_ok bytesOf b" "takeBatch m b = (b', es)" "0 < m"
  shows "requeueFront bytesOf es b' = b \<and> es @ contents b' = contents b \<and> (contents b \<noteq> [] \<longrightarrow> es \<noteq> []) \<and>
    (int (sum_list (map bytesOf es)) \<le> m \<or> length es = 1)"
proof -
  note t = takeBatch_split [OF assms(2,1)]
  obtain batch rest where l: "take_loop m False 0 (eb_events b) = (batch, rest)" by fastforce
  show ?thesis
  proof (cases "eb_events b = []")
    case True
    then have "es = []" using assms(2) by (simp add: takeBatch_def)
    then show ?thesis using take_requeue [OF assms(2,1)] t assms(3) True by (simp add: contents_def)
  next
    case False
    then have es: "es = map fst batch" using assms(2,3) l by (simp add: takeBatch_def)
    have ne: "batch \<noteq> []" using take_loop_nonempty [OF False l] .
    have "map (\<lambda>e. (e, bytesOf e)) es = batch"
      using t(5) take_loop_append [OF l] es by (metis append_eq_append_conv length_map)
    then have "sum_list (map bytesOf es) = sum_list (map snd batch)" by (auto simp: o_def)
    moreover have "int (sum_list (map snd batch)) \<le> m \<or> length batch = 1"
      using take_loop_bound [OF l] ne by (cases batch) auto
    ultimately show ?thesis using take_requeue [OF assms(2,1)] t(1) es ne by simp
  qed
qed

theorem batch_round_trip_witness:
  "requeueFront (\<lambda>n. n) [3, 2] \<lparr>eb_maxBytes = 20, eb_events = [(4 :: nat, 4)], eb_bytes = 4, eb_dropped = 1\<rparr> =
     \<lparr>eb_maxBytes = 20, eb_events = [(3 :: nat, 3), (2, 2), (4, 4)], eb_bytes = 9, eb_dropped = 1\<rparr>"
proof -
  let ?b = "\<lparr>eb_maxBytes = 20, eb_events = [(3 :: nat, 3), (2, 2), (4, 4)], eb_bytes = 9, eb_dropped = 1\<rparr>"
  have "buffer_ok (\<lambda>n. n) ?b" by (simp add: buffer_ok_def)
  moreover have "takeBatch 6 ?b = (\<lparr>eb_maxBytes = 20, eb_events = [(4 :: nat, 4)], eb_bytes = 4, eb_dropped = 1\<rparr>, [3, 2])"
    by (simp add: takeBatch_def)
  ultimately show ?thesis using batch_round_trip [of "\<lambda>n. n" ?b 6] by simp
qed

end
