(* ===== verification/Rate_Limiter.thy ===== *)
theory Rate_Limiter
  imports JS_Number
begin

text \<open>
  \<^verbatim>\<open>packages/sdk-node/src/rate-limiter.ts\<close>: the token bucket that limits the hits of one probe.  The
  clock the bucket reads is the argument \<open>now\<close> of the operation, in milliseconds.  For a whole-number
  rate and calls at whole seconds the floating-point bucket is shown to compute exactly what the
  integer bucket \<open>take_int\<close> computes, and the number of calls granted in any stretch of time is
  bounded by the rate.
\<close>

section \<open>Definitions\<close>

record token_bucket =
  tb_ratePerSecond :: jsnum
  tb_capacity :: jsnum
  tb_tokens :: jsnum
  tb_lastRefill :: jsnum

definition new_token_bucket :: "jsnum \<Rightarrow> jsnum \<Rightarrow> (string, token_bucket) res" where
  "new_token_bucket rate now =
     (if \<not> is_finite_num rate \<or> js_le rate (Fin 0) then Err ''ratePerSecond must be positive and finite''
      else Ok \<lparr>tb_ratePerSecond = rate, tb_capacity = rate, tb_tokens = rate, tb_lastRefill = now\<rparr>)"

definition tryTake :: "jsnum \<Rightarrow> token_bucket \<Rightarrow> token_bucket \<times> bool" where
  "tryTake now b =
     (let elapsedSeconds = js_div (js_max (Fin 0) (js_sub now (tb_lastRefill b))) (Fin 1000);
          tokens = js_min (tb_capacity b) (js_add (tb_tokens b) (js_mult elapsedSeconds (tb_ratePerSecond b))) in
      if js_lt tokens (Fin 1) then (b\<lparr>tb_tokens := tokens, tb_lastRefill := now\<rparr>, False)
      else (b\<lparr>tb_tokens := js_sub tokens (Fin 1), tb_lastRefill := now\<rparr>, True))"

text \<open>A sequence of calls: how many are granted.\<close>

fun takes :: "jsnum list \<Rightarrow> token_bucket \<Rightarrow> token_bucket \<times> nat" where
  "takes [] b = (b, 0)"
| "takes (t # ts) b = (let (b1, ok) = tryTake t b; (b2, n) = takes ts b1 in (b2, (if ok then 1 else 0) + n))"

text \<open>The integer bucket: rate, the second of the call, tokens and the second of the last call.\<close>

definition take_int :: "int \<Rightarrow> int \<Rightarrow> int \<Rightarrow> int \<Rightarrow> int \<times> bool" where
  "take_int r s k s0 = (let k1 = min r (k + max 0 (s - s0) * r) in if k1 < 1 then (k1, False) else (k1 - 1, True))"

fun takes_int :: "int \<Rightarrow> int list \<Rightarrow> int \<Rightarrow> int \<Rightarrow> int \<times> nat" where
  "takes_int r [] k s0 = (k, 0)"
| "takes_int r (s # ss) k s0 =
     (let (k1, ok) = take_int r s k s0; (k2, n) = takes_int r ss k1 s in (k2, (if ok then 1 else 0) + n))"

abbreviation seconds :: "int \<Rightarrow> jsnum" where
  "seconds s \<equiv> js_int (1000 * s)"

definition int_bucket :: "int \<Rightarrow> int \<Rightarrow> int \<Rightarrow> token_bucket" where
  "int_bucket r k s0 = \<lparr>tb_ratePerSecond = js_int r, tb_capacity = js_int r, tb_tokens = js_int k, tb_lastRefill = seconds s0\<rparr>"

text \<open>Values that are not negative, an overflow included.\<close>

definition nonneg :: "jsnum \<Rightarrow> bool" where
  "nonneg v \<longleftrightarrow> v = Infinity True \<or> (\<exists>r \<ge> 0. v = Fin r)"

section \<open>Lemmas\<close>

lemma js_sub_int: "\<bar>a - b\<bar> \<le> 2 ^ 53 \<Longrightarrow> js_sub (js_int a) (js_int b) = js_int (a - b)"
  using js_add_int [of a "- b"] by (simp add: js_sub_def)

lemma js_max_int: "js_max (js_int a) (js_int b) = js_int (max a b)"
  by (simp add: of_int_max)

lemma js_min_int: "js_min (js_int a) (js_int b) = js_int (min a b)"
  by (simp add: of_int_min)

lemma js_div_seconds: "\<bar>s\<bar> \<le> 2 ^ 53 \<Longrightarrow> js_div (seconds s) (Fin 1000) = js_int s"
  using fround_int [of s] by simp

lemma take_int_range: "0 < r \<Longrightarrow> 0 \<le> k \<Longrightarrow> take_int r s k s0 = (k', ok) \<Longrightarrow> 0 \<le> k' \<and> k' \<le> r"
  by (auto simp: take_int_def Let_def split: if_splits)

text \<open>The floating-point bucket follows the integer one: nothing is rounded.\<close>

lemma tryTake_int:
  assumes "0 < r" "0 \<le> k" "k \<le> r" "\<bar>s - s0\<bar> * 1000 \<le> 2 ^ 53" "r + \<bar>s - s0\<bar> * r \<le> 2 ^ 53"
  shows "tryTake (seconds s) (int_bucket r k s0) =
    (int_bucket r (fst (take_int r s k s0)) s, snd (take_int r s k s0))"
proof -
  let ?d = "max 0 (s - s0)"
  have d: "0 \<le> ?d" "?d \<le> \<bar>s - s0\<bar>" by simp_all
  then have dr: "0 \<le> ?d * r" "?d * r \<le> \<bar>s - s0\<bar> * r" using assms(1) by (simp_all add: mult_right_mono)
  have "js_sub (seconds s) (seconds s0) = seconds (s - s0)"
    using js_sub_int [of "1000 * s" "1000 * s0"] assms(4) abs_mult [of 1000 "s - s0"]
    by (simp add: right_diff_distrib mult.commute)
  then have "js_max (Fin 0) (js_sub (seconds s) (seconds s0)) = seconds ?d"
    using js_max_int [of 0 "1000 * (s - s0)"] by (simp add: max_def)
  then have e: "js_div (js_max (Fin 0) (js_sub (seconds s) (seconds s0))) (Fin 1000) = js_int ?d"
    using js_div_seconds [of ?d] d assms(4) by simp
  have m: "js_mult (js_int ?d) (js_int r) = js_int (?d * r)" using dr assms by (intro js_mult_int) linarith
  have p: "js_add (js_int k) (js_int (?d * r)) = js_int (k + ?d * r)" using dr assms by (intro js_add_int) linarith
  let ?k = "min r (k + ?d * r)"
  have k: "js_min (js_int r) (js_add (js_int k) (js_mult (js_div (js_max (Fin 0) (js_sub (seconds s) (seconds s0))) (Fin 1000)) (js_int r))) =
    js_int ?k"
    unfolding e m p by (rule js_min_int)
  have one: "js_sub (js_int ?k) (Fin 1) = js_int (?k - 1)" if "\<not> ?k < 1"
  proof -
    have "r \<le> 2 ^ 53" using dr assms(5) by linarith
    with that have "\<bar>?k - 1\<bar> \<le> 2 ^ 53" by linarith
    from js_sub_int [OF this] show ?thesis by simp
  qed
  have lt: "js_lt (js_int ?k) (Fin 1) \<longleftrightarrow> ?k < 1" by simp
  show ?thesis
    unfolding tryTake_def int_bucket_def token_bucket.simps k Let_def lt
    by (cases "?k < 1") (simp_all only: if_True if_False not_False_eq_True take_int_def Let_def one token_bucket.simps fst_conv snd_conv)
qed

lemma takes_int_bound:
  assumes "0 < r" "0 \<le> k" "k \<le> r" "sorted (s0 # ss)"
  shows "0 \<le> fst (takes_int r ss k s0) \<and> int (snd (takes_int r ss k s0)) + fst (takes_int r ss k s0) \<le> k + (last (s0 # ss) - s0) * r"
  using assms
proof (induction ss arbitrary: k s0)
  case (Cons s ss)
  obtain k1 ok where t: "take_int r s k s0 = (k1, ok)" by fastforce
  have k1: "0 \<le> k1" "k1 \<le> r" using take_int_range [OF Cons.prems(1,2) t] by simp_all
  have "(if ok then 1 else 0) + k1 \<le> k + (s - s0) * r"
    using t Cons.prems by (auto simp: take_int_def Let_def split: if_splits)
  moreover have "0 \<le> fst (takes_int r ss k1 s)"
    "int (snd (takes_int r ss k1 s)) + fst (takes_int r ss k1 s) \<le> k1 + (last (s # ss) - s) * r"
    using Cons.IH [of k1 s] Cons.prems k1 by auto
  ultimately show ?case by (auto simp: t case_prod_beta algebra_simps)
qed simp

text \<open>At one instant exactly the tokens are granted.\<close>

lemma takes_int_burst:
  assumes "0 < r" "0 \<le> k" "k \<le> r"
  shows "snd (takes_int r (replicate n s) k s) = min n (nat k)"
  using assms
proof (induction n arbitrary: k)
  case (Suc n)
  then show ?case
  proof (cases "k < 1")
    case True
    with Suc.prems Suc.IH [of k] show ?thesis by (simp add: take_int_def)
  next
    case False
    then have "take_int r s k s = (k - 1, True)" using Suc.prems by (simp add: take_int_def)
    moreover have "Suc (min n (nat (k - 1))) = min (Suc n) (nat k)" using False by linarith
    ultimately show ?thesis using Suc.prems Suc.IH [of "k - 1"] False by (simp add: case_prod_beta)
  qed
qed simp

lemma takes_follow:
  assumes "0 < r" "0 \<le> k" "k \<le> r" "sorted (s0 # ss)" "(last (s0 # ss) - s0) * 1000 \<le> 2 ^ 53"
    "r + (last (s0 # ss) - s0) * r \<le> 2 ^ 53"
  shows "snd (takes (map seconds ss) (int_bucket r k s0)) = snd (takes_int r ss k s0)"
  using assms
proof (induction ss arbitrary: k s0)
  case (Cons s ss)
  have le: "s0 \<le> s" "s \<le> last (s # ss)" using Cons.prems(4) last_in_set [of "s # ss"] by auto
  have "(s - s0) * r \<le> (last (s # ss) - s0) * r" "(last (s # ss) - s) * r \<le> (last (s # ss) - s0) * r"
    using le Cons.prems(1) by (simp_all add: mult_right_mono)
  then have b: "\<bar>s - s0\<bar> * 1000 \<le> 2 ^ 53" "r + \<bar>s - s0\<bar> * r \<le> 2 ^ 53"
    "(last (s # ss) - s) * 1000 \<le> 2 ^ 53" "r + (last (s # ss) - s) * r \<le> 2 ^ 53"
    using le Cons.prems(5,6) by simp_all
  obtain k1 ok where t: "take_int r s k s0 = (k1, ok)" by fastforce
  have "0 \<le> k1" "k1 \<le> r" using take_int_range [OF Cons.prems(1,2) t] by simp_all
  then have "snd (takes (map seconds ss) (int_bucket r k1 s)) = snd (takes_int r ss k1 s)"
    using Cons.IH [of k1 s] Cons.prems b by simp
  then show ?case using tryTake_int [OF Cons.prems(1,2,3) b(1,2)] by (simp add: t case_prod_beta)
qed simp

lemma new_bucket_int: "0 < r \<Longrightarrow> new_token_bucket (js_int r) (seconds s0) = Ok (int_bucket r r s0)"
  by (simp add: new_token_bucket_def int_bucket_def)

subsection \<open>Rates below one\<close>

lemma fround_nonneg: "0 \<le> q \<Longrightarrow> nonneg (fround q)"
proof -
  assume q: "0 \<le> q"
  have u: "0 < ulp q" by (simp add: ulp_def pow2_def)
  then have "0 \<le> round_even (q / ulp q)" using q by (intro round_even_nonneg divide_nonneg_pos)
  then have "0 \<le> of_int (round_even (q / ulp q)) * ulp q" using u by (intro mult_nonneg_nonneg less_imp_le [OF u]) simp
  then show ?thesis using q by (auto simp: nonneg_def fround_def Let_def sgn_if)
qed

lemma nonneg_ops:
  "nonneg a \<Longrightarrow> nonneg (js_div a (Fin 1000))"
  "nonneg a \<Longrightarrow> 0 < c \<Longrightarrow> nonneg (js_mult a (Fin c))"
  "nonneg a \<Longrightarrow> 0 \<le> k \<Longrightarrow> nonneg (js_add (Fin k) a)"
proof -
  have *: "nonneg (f a)" if "nonneg a" "f (Infinity True) = Infinity True" "\<And>r. 0 \<le> r \<Longrightarrow> \<exists>q \<ge> 0. f (Fin r) = fround q" for f :: "jsnum \<Rightarrow> jsnum"
    using that fround_nonneg unfolding nonneg_def by metis
  show "nonneg a \<Longrightarrow> nonneg (js_div a (Fin 1000))"
    by (rule *) (auto intro: exI [of _ "_ / 1000"])
  show "nonneg a \<Longrightarrow> 0 < c \<Longrightarrow> nonneg (js_mult a (Fin c))"
    by (rule *) (auto intro!: exI [of _ "_ * c"])
  show "nonneg a \<Longrightarrow> 0 \<le> k \<Longrightarrow> nonneg (js_add (Fin k) a)"
    by (rule *) (auto intro!: exI [of _ "k + _"])
qed

lemma nonneg_elapsed: "nonneg (js_max (Fin 0) (js_sub (Fin a) (Fin b)))"
proof (cases "fround (a - b)")
  case NaN then show ?thesis by (simp add: fround_def Let_def split: if_splits)
qed (auto simp: js_sub_def js_max_def nonneg_def)

lemma slow_take:
  assumes "0 < c" "c < 1" "tb_ratePerSecond b = Fin c" "tb_capacity b = Fin c" "tb_tokens b = Fin k" "0 \<le> k" "tb_lastRefill b = Fin t0"
  shows "\<exists>k'. 0 \<le> k' \<and> tryTake (Fin t) b = (b\<lparr>tb_tokens := Fin k', tb_lastRefill := Fin t\<rparr>, False)"
proof -
  have "nonneg (js_add (Fin k) (js_mult (js_div (js_max (Fin 0) (js_sub (Fin t) (Fin t0))) (Fin 1000)) (Fin c)))"
    using assms by (intro nonneg_ops nonneg_elapsed)
  then have "\<exists>k' \<ge> 0. k' \<le> c \<and> js_min (Fin c) v = Fin k'"
    if "v = js_add (Fin k) (js_mult (js_div (js_max (Fin 0) (js_sub (Fin t) (Fin t0))) (Fin 1000)) (Fin c))" for v
    using assms(1) that by (auto simp: nonneg_def js_min_def)
  then obtain k' where "js_min (Fin c) (js_add (Fin k) (js_mult (js_div (js_max (Fin 0) (js_sub (Fin t) (Fin t0))) (Fin 1000)) (Fin c))) = Fin k'"
      "0 \<le> k'" "k' \<le> c"
    by blast
  then show ?thesis using assms by (auto simp: tryTake_def Let_def)
qed

text \<open>
  The bucket holds at most its rate, so a rate below one per second, which the constructor accepts, never fills a
  whole token: no call is ever granted, however long the wait.
\<close>

theorem slow_bucket_never_grants:
  assumes "0 < c" "c < 1" "new_token_bucket (Fin c) (Fin t0) = Ok b"
  shows "snd (takes (map Fin ts) b) = 0"
proof -
  have "snd (takes (map Fin ts) b) = 0"
    if "tb_ratePerSecond b = Fin c" "tb_capacity b = Fin c" "tb_tokens b = Fin k" "0 \<le> k" "tb_lastRefill b = Fin t0" for b k t0
    using that
  proof (induction ts arbitrary: b k t0)
    case (Cons t ts)
    from slow_take [OF assms(1,2) Cons.prems, of t] obtain k' where
      "0 \<le> k'" "tryTake (Fin t) b = (b\<lparr>tb_tokens := Fin k', tb_lastRefill := Fin t\<rparr>, False)" by blast
    then show ?case using Cons.IH [of "b\<lparr>tb_tokens := Fin k', tb_lastRefill := Fin t\<rparr>" k' t] Cons.prems
      by (auto simp: case_prod_beta)
  qed simp
  then show ?thesis using assms by (auto simp: new_token_bucket_def split: if_splits)
qed

section \<open>Properties\<close>

text \<open>Over any stretch of whole-second calls the bucket grants at most its rate for the burst plus its rate per elapsed
  second, and at one instant it grants exactly the burst.\<close>

theorem token_bucket_rate:
  assumes "0 < r" "sorted (s0 # ss)" "(last (s0 # ss) - s0) * 1000 \<le> 2 ^ 53" "r + (last (s0 # ss) - s0) * r \<le> 2 ^ 53"
  shows "\<exists>b. new_token_bucket (js_int r) (seconds s0) = Ok b \<and>
    int (snd (takes (map seconds ss) b)) \<le> r + (last (s0 # ss) - s0) * r \<and>
    (\<forall>n. snd (takes (replicate n (seconds s0)) b) = min n (nat r))"
proof -
  have "int (snd (takes (map seconds ss) (int_bucket r r s0))) \<le> r + (last (s0 # ss) - s0) * r"
    using takes_int_bound [OF assms(1) _ _ assms(2), of r] takes_follow [OF assms(1) _ _ assms(2-4), of r] assms(1) by simp
  moreover have "snd (takes (replicate n (seconds s0)) (int_bucket r r s0)) = min n (nat r)" for n
  proof -
    have srt: "sorted (s0 # replicate n s0)" by (induction n) auto
    have l: "last (s0 # replicate n s0) = s0" by (induction n) auto
    have "0 \<le> (last (s0 # ss) - s0) * r" using assms(1,2) last_in_set [of "s0 # ss"] by (cases ss) auto
    then have "r \<le> 2 ^ 53" using assms(4) by linarith
    from takes_follow [OF assms(1) _ order_refl srt] this
    have "snd (takes (map seconds (replicate n s0)) (int_bucket r r s0)) = snd (takes_int r (replicate n s0) r s0)"
      using assms(1) by (simp add: l)
    then show ?thesis using takes_int_burst [OF assms(1) _ order_refl, of n s0] assms(1) by simp
  qed
  ultimately show ?thesis using new_bucket_int [OF assms(1), of s0] by blast
qed

theorem token_bucket_rate_witness:
  "\<exists>b. new_token_bucket (js_int 2) (seconds 0) = Ok b \<and> int (snd (takes (map seconds [0, 0, 0, 1, 1, 3]) b)) \<le> 8"
  using token_bucket_rate [of 2 0 "[0, 0, 0, 1, 1, 3]"] by auto

end
