(* ===== verification/Ingest_Isolation.thy ===== *)
theory Ingest_Isolation
  imports LP_Prelude
begin

text \<open>
  \<^verbatim>\<open>packages/sdk-node/src/ingest-isolation.ts\<close>: sending a batch of events and narrowing a rejection down
  to the events that cause it.  The transport is the parameter \<open>send\<close>: what it answers may depend
  on every request made before, which the model keeps as a log.  The lemmas show that no event is
  lost or duplicated whatever the transport answers, the number of requests, and that
  a broker that judges events one by one has exactly its bad events rejected.
\<close>

section \<open>Definitions\<close>

text \<open>\<open>Refused\<close> is a \<^verbatim>\<open>BrokerIngestError\<close> with status 400, \<open>Failed\<close> every other rejection of the promise.\<close>

datatype send_result = Delivered | Refused | Failed

type_synonym 'e send_log = "('e list \<times> send_result) list"
type_synonym 'e sender = "'e send_log \<Rightarrow> 'e list \<Rightarrow> send_result"

definition MAX_INGEST_SPLITS :: nat where "MAX_INGEST_SPLITS = 8"

record 'e ingest_run =
  ir_log :: "'e send_log"
  ir_splits :: nat
  ir_rejected :: "'e list"
  ir_deferred :: "'e list"

definition middle :: "'e list \<Rightarrow> nat" where
  "middle events = (length events + 1) div 2"

function ingestIsolating :: "'e sender \<Rightarrow> 'e send_log \<Rightarrow> nat \<Rightarrow> 'e list \<Rightarrow> 'e ingest_run" where
  "ingestIsolating send sent splits events =
     (let r = send sent events; sent1 = sent @ [(events, r)] in
      case r of
        Delivered \<Rightarrow> \<lparr>ir_log = sent1, ir_splits = splits, ir_rejected = [], ir_deferred = []\<rparr>
      | Failed \<Rightarrow> \<lparr>ir_log = sent1, ir_splits = splits, ir_rejected = [], ir_deferred = events\<rparr>
      | Refused \<Rightarrow>
          if length events \<le> 1 \<or> splits = 0
          then \<lparr>ir_log = sent1, ir_splits = splits, ir_rejected = events, ir_deferred = []\<rparr>
          else let first = ingestIsolating send sent1 (splits - 1) (take (middle events) events);
                   second = ingestIsolating send (ir_log first) (ir_splits first) (drop (middle events) events) in
            \<lparr>ir_log = ir_log second, ir_splits = ir_splits second,
             ir_rejected = ir_rejected first @ ir_rejected second,
             ir_deferred = ir_deferred first @ ir_deferred second\<rparr>)"
  by pat_completeness auto
termination
  by (relation "measure (\<lambda>(_, _, _, events). length events)") (auto simp: middle_def)

text \<open>The events a part of the log has delivered, in order.\<close>

definition delivered :: "'e send_log \<Rightarrow> 'e list" where
  "delivered sent = concat (map fst (filter (\<lambda>(_, r). r = Delivered) sent))"

text \<open>The part of the log a run has added.\<close>

definition run_log :: "'e send_log \<Rightarrow> 'e ingest_run \<Rightarrow> 'e send_log" where
  "run_log sent r = drop (length sent) (ir_log r)"

text \<open>A broker that refuses a batch exactly when it contains an event it finds bad.\<close>

definition validating :: "('e \<Rightarrow> bool) \<Rightarrow> 'e sender" where
  "validating bad sent batch = (if list_ex bad batch then Refused else Delivered)"

section \<open>Lemmas\<close>

declare ingestIsolating.simps [simp del]

lemma delivered_append [simp]: "delivered (a @ b) = delivered a @ delivered b"
  by (simp add: delivered_def)

lemma delivered_single [simp]: "delivered [(es, r)] = (if r = Delivered then es else [])"
  by (simp add: delivered_def)

lemma delivered_Nil [simp]: "delivered [] = []"
  by (simp add: delivered_def)

lemma ingest_cases:
  obtains (accepted) "send sent events = Delivered"
      "ingestIsolating send sent splits events = \<lparr>ir_log = sent @ [(events, Delivered)], ir_splits = splits, ir_rejected = [], ir_deferred = []\<rparr>"
  | (failed) "send sent events = Failed"
      "ingestIsolating send sent splits events = \<lparr>ir_log = sent @ [(events, Failed)], ir_splits = splits, ir_rejected = [], ir_deferred = events\<rparr>"
  | (refused) "send sent events = Refused" "length events \<le> 1 \<or> splits = 0"
      "ingestIsolating send sent splits events = \<lparr>ir_log = sent @ [(events, Refused)], ir_splits = splits, ir_rejected = events, ir_deferred = []\<rparr>"
  | (split) first second where "send sent events = Refused" "1 < length events" "0 < splits"
      "first = ingestIsolating send (sent @ [(events, Refused)]) (splits - 1) (take (middle events) events)"
      "second = ingestIsolating send (ir_log first) (ir_splits first) (drop (middle events) events)"
      "ingestIsolating send sent splits events = \<lparr>ir_log = ir_log second, ir_splits = ir_splits second,
         ir_rejected = ir_rejected first @ ir_rejected second, ir_deferred = ir_deferred first @ ir_deferred second\<rparr>"
proof (cases "send sent events")
  case Delivered
  then show ?thesis by (intro accepted) (simp_all add: ingestIsolating.simps [of send sent splits events])
next
  case Failed
  then show ?thesis by (intro failed) (simp_all add: ingestIsolating.simps [of send sent splits events])
next
  case Refused
  show ?thesis
  proof (cases "length events \<le> 1 \<or> splits = 0")
    case True
    then show ?thesis using Refused by (intro refused) (auto simp: ingestIsolating.simps [of send sent splits events])
  next
    case False
    then show ?thesis using Refused
      by (intro split [OF _ _ _ refl refl]) (simp_all add: ingestIsolating.simps [of send sent splits events] Let_def)
  qed
qed

lemma middle_bounds: "1 < length events \<Longrightarrow> 0 < middle events \<and> middle events < length events"
  by (auto simp: middle_def)

text \<open>Rule of induction over the recursive calls.\<close>

lemma ingest_induct [case_names run]:
  assumes "\<And>sent splits events.
    (\<And>sent' splits' events'. length events' < length events \<Longrightarrow> P sent' splits' events') \<Longrightarrow> P sent splits events"
  shows "P sent splits (events :: 'e list)"
  by (induction "length events" arbitrary: sent splits events rule: less_induct) (rule assms, blast)

lemma halves: "1 < length events \<Longrightarrow> length (take (middle events) events) < length events"
  "1 < length events \<Longrightarrow> length (drop (middle events) events) < length events"
  using middle_bounds [of events] by auto

text \<open>
  The log only grows, and each split made costs two further requests; nothing is lost: what the
  new part of the log delivered, what was rejected and what is deferred are the events.
\<close>

lemma ingest_accounts:
  "\<exists>added. ir_log (ingestIsolating send sent splits events) = sent @ added \<and>
     length added + 2 * ir_splits (ingestIsolating send sent splits events) = 1 + 2 * splits \<and>
     mset events = mset (delivered added) + mset (ir_rejected (ingestIsolating send sent splits events)) +
       mset (ir_deferred (ingestIsolating send sent splits events))"
proof (induction sent splits events rule: ingest_induct)
  case (run sent splits events)
  show ?case
  proof (cases rule: ingest_cases [of send sent events splits])
    case (split first second)
    note half = halves [OF split(2)]
    obtain a where a: "ir_log first = sent @ [(events, Refused)] @ a" "length a + 2 * ir_splits first = 1 + 2 * (splits - 1)"
      "mset (take (middle events) events) = mset (delivered a) + mset (ir_rejected first) + mset (ir_deferred first)"
      using run [OF half(1), of "sent @ [(events, Refused)]" "splits - 1"] by (auto simp: split(4))
    obtain b where b: "ir_log second = ir_log first @ b" "length b + 2 * ir_splits second = 1 + 2 * ir_splits first"
      "mset (drop (middle events) events) = mset (delivered b) + mset (ir_rejected second) + mset (ir_deferred second)"
      using run [OF half(2), of "ir_log first" "ir_splits first"] by (auto simp: split(5))
    have "mset events = mset (take (middle events) events) + mset (drop (middle events) events)"
      by (metis append_take_drop_id mset_append)
    then show ?thesis using a b split(3,6) by (intro exI [of _ "(events, Refused) # a @ b"]) (auto simp: delivered_def)
  qed auto
qed

lemma run_log_accounts:
  fixes send sent splits events
  defines "r \<equiv> ingestIsolating send sent splits events"
  shows "ir_log r = sent @ run_log sent r" "length (run_log sent r) + 2 * ir_splits r = 1 + 2 * splits"
    "mset events = mset (delivered (run_log sent r)) + mset (ir_rejected r) + mset (ir_deferred r)"
  using ingest_accounts [of send sent splits events] by (auto simp: r_def run_log_def)

lemma ingest_subseq:
  "subseq (ir_rejected (ingestIsolating send sent splits events)) events \<and>
   subseq (ir_deferred (ingestIsolating send sent splits events)) events"
proof (induction sent splits events rule: ingest_induct)
  case (run sent splits events)
  show ?case
  proof (cases rule: ingest_cases [of send sent events splits])
    case (split first second)
    note half = halves [OF split(2)]
    have f: "subseq (ir_rejected first) (take (middle events) events)" "subseq (ir_deferred first) (take (middle events) events)"
      using run [OF half(1)] unfolding split(4) by blast+
    have s: "subseq (ir_rejected second) (drop (middle events) events)" "subseq (ir_deferred second) (drop (middle events) events)"
      using run [OF half(2)] unfolding split(5) by blast+
    show ?thesis unfolding split(6) using list_emb_append_mono [OF f(1) s(1)] list_emb_append_mono [OF f(2) s(2)] by simp
  qed auto
qed

lemma filter_split: "filter P (take n xs) @ filter P (drop n xs) = filter P xs"
  by (metis append_take_drop_id filter_append)

lemma list_ex_filter: "list_ex P xs \<longleftrightarrow> filter P xs \<noteq> []"
  by (auto simp: list_ex_iff filter_empty_conv)

lemma validating_iff [simp]:
  "validating bad sent es = Delivered \<longleftrightarrow> filter bad es = []"
  "validating bad sent es = Refused \<longleftrightarrow> filter bad es \<noteq> []"
  "validating bad sent es \<noteq> Failed"
  by (auto simp: validating_def list_ex_filter)

lemma split_cost: "0 < p + q \<Longrightarrow> 1 + p * d + q * d \<le> (p + q) * Suc (d :: nat)"
  by (simp add: algebra_simps del: add_gr_0)

text \<open>
  Against a validating broker \<open>b\<close> bad events among at most \<open>2 ^ d\<close> are found with \<open>b * d\<close> splits.
\<close>

lemma isolates:
  assumes "length events \<le> 2 ^ d" "length (filter bad events) * d \<le> splits"
  shows "ir_rejected (ingestIsolating (validating bad) sent splits events) = filter bad events \<and>
    ir_deferred (ingestIsolating (validating bad) sent splits events) = [] \<and>
    splits \<le> ir_splits (ingestIsolating (validating bad) sent splits events) + length (filter bad events) * d"
  using assms
proof (induction d arbitrary: sent splits events)
  case 0
  then consider "events = []" | e where "events = [e]" by (cases events) auto
  then show ?case by cases (simp_all add: validating_def [of bad sent] ingestIsolating.simps)
next
  case (Suc d)
  show ?case
  proof (cases rule: ingest_cases [of "validating bad" sent events splits])
    case accepted
    then show ?thesis by simp
  next
    case refused
    then have "0 < length (filter bad events)" by simp
    with Suc.prems(2) have "0 < splits" by (cases "length (filter bad events)") auto
    with refused show ?thesis by (cases events) (auto split: if_splits)
  next
    case (split first second)
    let ?l = "take (middle events) events" and ?r = "drop (middle events) events"
    have len: "length ?l \<le> 2 ^ d" "length ?r \<le> 2 ^ d" using Suc.prems(1) by (auto simp: middle_def)
    have n: "length (filter bad events) = length (filter bad ?l) + length (filter bad ?r)"
      by (metis filter_split length_append)
    have "filter bad events \<noteq> []" using split(1) by simp
    then have pos: "0 < length (filter bad events)" by simp
    have budget: "1 + length (filter bad ?l) * d + length (filter bad ?r) * d \<le> splits"
      using Suc.prems(2) n pos split_cost [of "length (filter bad ?l)" "length (filter bad ?r)" d] by simp
    have f: "ir_rejected first = filter bad ?l" "ir_deferred first = []"
      "splits - 1 \<le> ir_splits first + length (filter bad ?l) * d"
      using Suc.IH [OF len(1), of "splits - 1"] budget by (auto simp: split(4))
    have s: "ir_rejected second = filter bad ?r" "ir_deferred second = []"
      "ir_splits first \<le> ir_splits second + length (filter bad ?r) * d"
      using Suc.IH [OF len(2), of "ir_splits first"] budget f(3) by (auto simp: split(5))
    have "splits \<le> ir_splits second + length (filter bad events) * Suc d"
      using f(3) s(3) n pos budget split_cost [of "length (filter bad ?l)" "length (filter bad ?r)" d] by simp
    then show ?thesis using f s by (simp add: split(6) filter_split)
  qed simp
qed

section \<open>Properties\<close>

text \<open>C39: Whatever the transport answers, one flush loses and duplicates nothing: the events are delivered, rejected
  or deferred, each exactly once; rejected and deferred keep their order; and the flush makes at most one request
  more than twice the splits it spends.\<close>

theorem isolation_accounts:
  "mset events = mset (delivered (run_log [] (ingestIsolating send [] splits events))) +
      mset (ir_rejected (ingestIsolating send [] splits events)) + mset (ir_deferred (ingestIsolating send [] splits events)) \<and>
   subseq (ir_rejected (ingestIsolating send [] splits events)) events \<and>
   subseq (ir_deferred (ingestIsolating send [] splits events)) events \<and>
   length (run_log [] (ingestIsolating send [] splits events)) \<le> 1 + 2 * splits"
proof -
  have "length (run_log [] (ingestIsolating send [] splits events)) \<le> 1 + 2 * splits"
    using run_log_accounts(2) [of "[]" send splits events] by linarith
  then show ?thesis using run_log_accounts(3) [of events "[]" send splits] ingest_subseq [of send "[]" splits events] by blast
qed

text \<open>Against a broker that refuses a batch for its bad events, the default budget isolates a single bad event among
  up to 256 exactly: it alone is rejected and every other event is delivered.\<close>

theorem single_bad_event_isolated:
  assumes "filter bad events = [x]" "length events \<le> 256"
  shows "ir_rejected (ingestIsolating (validating bad) [] MAX_INGEST_SPLITS events) = [x] \<and>
    ir_deferred (ingestIsolating (validating bad) [] MAX_INGEST_SPLITS events) = [] \<and>
    mset (delivered (run_log [] (ingestIsolating (validating bad) [] MAX_INGEST_SPLITS events))) = mset events - {#x#}"
proof -
  have "ir_rejected (ingestIsolating (validating bad) [] MAX_INGEST_SPLITS events) = [x]"
    "ir_deferred (ingestIsolating (validating bad) [] MAX_INGEST_SPLITS events) = []"
    using isolates [of events 8 bad MAX_INGEST_SPLITS "[]"] assms by (simp_all add: MAX_INGEST_SPLITS_def)
  then show ?thesis using run_log_accounts(3) [of events "[]" "validating bad" MAX_INGEST_SPLITS] by simp
qed

theorem single_bad_event_isolated_witness:
  "ir_rejected (ingestIsolating (validating (\<lambda>n. n = 3)) [] MAX_INGEST_SPLITS [1, 2, 3, 4, 5 :: nat]) = [3]"
  using single_bad_event_isolated [of "\<lambda>n. n = 3" "[1, 2, 3, 4, 5 :: nat]" 3] by simp

end
