(* ===== verification/Safety_Monitor.thy ===== *)
theory Safety_Monitor
  imports JS_Number
begin

text \<open>
  \<^verbatim>\<open>packages/sdk-node/src/safety-monitor.ts\<close>: the circuit breaker that disarms an agent's probes
  while the event loop lags.  The histogram is the p95 value a sample reads; the calls the
  monitor makes (its callbacks, the histogram and the timers) are returned as a list of outputs in
  the order they are made.  \<open>monitor_step\<close> is what can happen to a monitor: a call of
  \<^verbatim>\<open>start\<close>, \<^verbatim>\<open>stop\<close> or \<^verbatim>\<open>sampleNow\<close>, and the firing of the pending cooldown timer.  The callbacks
  are taken to return (\<^verbatim>\<open>live-probe.ts\<close> passes callbacks that do not throw synchronously).
\<close>

section \<open>Definitions\<close>

datatype safety_state = Green | Red

datatype monitor_output = CallOnRed jsnum | CallOnRearm | HistogramReset | HistogramEnable | HistogramDisable

record safety_monitor =
  sm_maxLagMs :: jsnum
  sm_state :: safety_state
  sm_interval :: bool
  sm_cooldown :: bool
  sm_started :: bool

text \<open>\<open>sm_interval\<close> and \<open>sm_cooldown\<close> say that the interval and the cooldown timer are pending.\<close>

definition new_safety_monitor :: "jsnum \<Rightarrow> (string, safety_monitor) res" where
  "new_safety_monitor maxLagMs =
     (if \<not> is_finite_num maxLagMs \<or> js_le maxLagMs (Fin 0) then Err ''maxLagMs must be positive and finite''
      else Ok \<lparr>sm_maxLagMs = maxLagMs, sm_state = Green, sm_interval = False, sm_cooldown = False, sm_started = False\<rparr>)"

definition reasonCode :: "safety_monitor \<Rightarrow> string option" where
  "reasonCode m = (if sm_state m = Red then Some ''event_loop_lag'' else None)"

definition start :: "safety_monitor \<Rightarrow> safety_monitor \<times> monitor_output list" where
  "start m =
     (if sm_started m then (m, [])
      else (m\<lparr>sm_interval := True, sm_started := True\<rparr>, [HistogramEnable]))"

definition sampleNow :: "jsnum \<Rightarrow> safety_monitor \<Rightarrow> safety_monitor \<times> monitor_output list" where
  "sampleNow percentile m =
     (if \<not> sm_started m \<or> sm_state m = Red then (m, [])
      else let p95Ms = js_div percentile (Fin 1000000) in
        if \<not> is_finite_num p95Ms \<or> js_le p95Ms (sm_maxLagMs m) then (m, [HistogramReset])
        else (m\<lparr>sm_state := Red, sm_cooldown := True\<rparr>, [HistogramReset, CallOnRed p95Ms]))"

text \<open>The callback of the cooldown timer; a timer that has fired is no longer pending.\<close>

definition cooldown_fires :: "safety_monitor \<Rightarrow> safety_monitor \<times> monitor_output list" where
  "cooldown_fires m =
     (let m = m\<lparr>sm_cooldown := False\<rparr> in
      if \<not> sm_started m then (m, [])
      else (m\<lparr>sm_state := Green\<rparr>, [HistogramReset, CallOnRearm]))"

definition stop :: "safety_monitor \<Rightarrow> safety_monitor \<times> monitor_output list" where
  "stop m =
     (if \<not> sm_started m then (m, [])
      else (m\<lparr>sm_state := Green, sm_interval := False, sm_cooldown := False, sm_started := False\<rparr>, [HistogramDisable]))"

datatype monitor_input = Start | Stop | Sample jsnum | CooldownFires

text \<open>A sample by the interval timer and one by a direct call are the same operation.\<close>

inductive monitor_step :: "safety_monitor \<Rightarrow> monitor_input \<Rightarrow> safety_monitor \<Rightarrow> monitor_output list \<Rightarrow> bool" where
  start: "start m = (m', out) \<Longrightarrow> monitor_step m Start m' out"
| stop: "stop m = (m', out) \<Longrightarrow> monitor_step m Stop m' out"
| sample: "sampleNow p m = (m', out) \<Longrightarrow> monitor_step m (Sample p) m' out"
| cooldown: "sm_cooldown m \<Longrightarrow> cooldown_fires m = (m', out) \<Longrightarrow> monitor_step m CooldownFires m' out"

inductive monitor_run :: "safety_monitor \<Rightarrow> (monitor_input \<times> monitor_output list) list \<Rightarrow> safety_monitor \<Rightarrow> bool" where
  nil: "monitor_run m [] m"
| snoc: "monitor_run m tr m' \<Longrightarrow> monitor_step m' i m'' out \<Longrightarrow> monitor_run m (tr @ [(i, out)]) m''"

text \<open>The outputs and stops of a run that matter for arming.\<close>

fun arming :: "(monitor_input \<times> monitor_output list) list \<Rightarrow> bool" where
  "arming [] = True"
| "arming ((i, out) # tr) = arming tr"

definition monitor_ok :: "safety_monitor \<Rightarrow> bool" where
  "monitor_ok m \<longleftrightarrow> (sm_state m = Red \<longleftrightarrow> sm_cooldown m) \<and> (sm_cooldown m \<longrightarrow> sm_started m) \<and>
     sm_interval m = sm_started m"

text \<open>
  The state a client that only sees the trace ends up with: disarmed after \<^verbatim>\<open>onRed\<close>, armed again after
  \<^verbatim>\<open>onRearm\<close> or a stop.
\<close>

definition client_step :: "monitor_input \<times> monitor_output list \<Rightarrow> safety_state \<Rightarrow> safety_state" where
  "client_step e s =
     (if fst e = Stop then Green
      else fold (\<lambda>o1 s. case o1 of CallOnRed _ \<Rightarrow> Red | CallOnRearm \<Rightarrow> Green | _ \<Rightarrow> s) (snd e) s)"

section \<open>Lemmas\<close>

inductive_cases monitor_stepE: "monitor_step m i m' out"
inductive_simps monitor_step_simps:
  "monitor_step m Start m' out" "monitor_step m Stop m' out" "monitor_step m (Sample p) m' out" "monitor_step m CooldownFires m' out"

lemma not_Red [simp]: "s \<noteq> Red \<longleftrightarrow> s = Green"
  by (cases s) simp_all

lemmas monitor_ops = start_def stop_def sampleNow_def cooldown_fires_def Let_def

lemma monitor_ok_step: "monitor_step m i m' out \<Longrightarrow> monitor_ok m \<Longrightarrow> monitor_ok m'"
  by (erule monitor_stepE) (auto simp: monitor_ops monitor_ok_def split: if_splits)

lemma client_follows_step:
  "monitor_step m i m' out \<Longrightarrow> monitor_ok m \<Longrightarrow> client_step (i, out) (sm_state m) = sm_state m'"
  by (erule monitor_stepE) (auto simp: monitor_ops monitor_ok_def client_step_def split: if_splits)

lemma monitor_run_ok: "monitor_run m tr m' \<Longrightarrow> monitor_ok m \<Longrightarrow> monitor_ok m'"
  by (induction rule: monitor_run.induct) (auto intro: monitor_ok_step)

lemma client_follows:
  "monitor_run m tr m' \<Longrightarrow> monitor_ok m \<Longrightarrow> fold client_step tr (sm_state m) = sm_state m'"
  by (induction rule: monitor_run.induct) (auto simp: client_follows_step monitor_run_ok)

lemma new_monitor_ok: "new_safety_monitor x = Ok m \<Longrightarrow> monitor_ok m \<and> sm_state m = Green"
  by (auto simp: new_safety_monitor_def monitor_ok_def split: if_splits)

text \<open>While red, no sample is taken and \<^verbatim>\<open>onRed\<close> is not called again; only the timer or a stop ends it.\<close>

lemma red_latched:
  "monitor_step m i m' out \<Longrightarrow> sm_state m = Red \<Longrightarrow> monitor_ok m \<Longrightarrow>
   (\<forall>p. CallOnRed p \<notin> set out) \<and> (sm_state m' = Green \<longrightarrow> i = Stop \<or> i = CooldownFires \<and> CallOnRearm \<in> set out)"
  by (erule monitor_stepE) (auto simp: monitor_ops monitor_ok_def split: if_splits)

lemma trips_exactly:
  "sm_started m \<Longrightarrow> sm_state m = Green \<Longrightarrow>
   (sm_state (fst (sampleNow p m)) = Red \<longleftrightarrow> is_finite_num (js_div p (Fin 1000000)) \<and> \<not> js_le (js_div p (Fin 1000000)) (sm_maxLagMs m))"
  by (auto simp: sampleNow_def Let_def)

section \<open>Properties\<close>

text \<open>C40: The circuit breaker and its client stay in step along every run: the monitor is red exactly when the client was
  last told to disarm, exactly while a cooldown is pending, and only while started; it trips exactly on a finite
  p95 above the limit, and once red it leaves that state only through the cooldown, with a re-arm, or a stop.\<close>

theorem monitor_in_step:
  assumes "new_safety_monitor lag = Ok m0" "monitor_run m0 tr m"
  shows "fold client_step tr Green = sm_state m \<and> (sm_state m = Red \<longleftrightarrow> sm_cooldown m) \<and> (sm_state m = Red \<longrightarrow> sm_started m) \<and>
    (\<forall>i m' out. monitor_step m i m' out \<and> sm_state m = Red \<and> sm_state m' = Green \<longrightarrow>
       i = Stop \<or> i = CooldownFires \<and> CallOnRearm \<in> set out) \<and>
    (\<forall>p. sm_started m \<and> sm_state m = Green \<longrightarrow>
       (sm_state (fst (sampleNow p m)) = Red \<longleftrightarrow>
        is_finite_num (js_div p (Fin 1000000)) \<and> \<not> js_le (js_div p (Fin 1000000)) (sm_maxLagMs m)))"
proof -
  note n = new_monitor_ok [OF assms(1)]
  have ok: "monitor_ok m" using monitor_run_ok [OF assms(2)] n by blast
  have "fold client_step tr Green = sm_state m" using client_follows [OF assms(2)] n by simp
  then show ?thesis using ok red_latched [OF _ _ ok] trips_exactly [of m] unfolding monitor_ok_def by blast
qed

theorem monitor_in_step_witness:
  "fold client_step [(Start, [HistogramEnable]), (Sample (Infinity True), [HistogramReset])] Green = Green"
proof -
  let ?m0 = "\<lparr>sm_maxLagMs = Fin 50, sm_state = Green, sm_interval = False, sm_cooldown = False, sm_started = False\<rparr>"
  let ?m1 = "?m0\<lparr>sm_interval := True, sm_started := True\<rparr>"
  have n: "new_safety_monitor (Fin 50) = Ok ?m0" by (simp add: new_safety_monitor_def)
  have "monitor_run ?m0 ([] @ [(Start, [HistogramEnable])]) ?m1"
    by (rule monitor_run.snoc [OF monitor_run.nil]) (simp add: monitor_step_simps start_def)
  then have "monitor_run ?m0 (([] @ [(Start, [HistogramEnable])]) @ [(Sample (Infinity True), [HistogramReset])]) ?m1"
    by (rule monitor_run.snoc) (simp add: monitor_step_simps sampleNow_def)
  then have r: "monitor_run ?m0 [(Start, [HistogramEnable]), (Sample (Infinity True), [HistogramReset])] ?m1" by simp
  from monitor_in_step [OF n r] show ?thesis by simp
qed

end
