(* ===== verification/Script_Registry.thy ===== *)
theory Script_Registry
  imports Source_Map_Resolver
begin

text \<open>
  \<^verbatim>\<open>packages/sdk-node/src/script-registry.ts\<close>: the scripts V8 has parsed and the search for the one a
  probe names by a path suffix.  \<^verbatim>\<open>fileURLToPath\<close> (\<open>None\<close> when it throws), \<^verbatim>\<open>decodeURIComponent\<close> and
  \<^verbatim>\<open>localeCompare\<close> are parameters.  The lemmas show which script is found and when the search is
  ambiguous, independently of how \<^verbatim>\<open>localeCompare\<close> orders strings.
\<close>

section \<open>Definitions\<close>

record script_env =
  se_fileURLToPath :: "string \<Rightarrow> string option"
  se_decodeURIComponent :: "string \<Rightarrow> string option"
  se_localeCompare :: "string \<Rightarrow> string \<Rightarrow> int"

record registered_script =
  rs_scriptId :: string
  rs_url :: string
  rs_path :: string

datatype script_resolution = ScriptFound registered_script | ScriptMissing | ScriptAmbiguous "registered_script list"

definition forward_slashes :: "string \<Rightarrow> string" where
  "forward_slashes s = map (\<lambda>c. if c = CHR 0x5C then CHR ''/'' else c) s"

definition normalizeScriptPath :: "script_env \<Rightarrow> string \<Rightarrow> string" where
  "normalizeScriptPath env v =
     (let t = js_trim v;
          n = (if prefix ''file://'' t then (case se_fileURLToPath env t of None \<Rightarrow> t | Some p \<Rightarrow> p)
               else let cut = takeWhile (\<lambda>c. c \<noteq> CHR ''?'' \<and> c \<noteq> CHR ''#'') t in
                 (case se_decodeURIComponent env cut of None \<Rightarrow> cut | Some d \<Rightarrow> d)) in
      collapse_slashes (forward_slashes n))"

definition normalizedProbeSuffix :: "script_env \<Rightarrow> string \<Rightarrow> string" where
  "normalizedProbeSuffix env file = strip_dots (normalizeScriptPath env file)"

definition scriptMatchesSuffix :: "string \<Rightarrow> string \<Rightarrow> bool" where
  "scriptMatchesSuffix path suff \<longleftrightarrow> path = suff \<or> suffix (CHR ''/'' # suff) path"

text \<open>The registry is the map of the class; \<open>register\<close> ignores an event without id or url.\<close>

definition register ::
  "script_env \<Rightarrow> string \<Rightarrow> string \<Rightarrow> (string, registered_script) jsmap \<Rightarrow> (string, registered_script) jsmap \<times> registered_script option" where
  "register env scriptId url scripts =
     (if scriptId = [] \<or> url = [] then (scripts, None)
      else let script = \<lparr>rs_scriptId = scriptId, rs_url = url, rs_path = normalizeScriptPath env url\<rparr> in
        (jset scriptId script scripts, Some script))"

text \<open>The order of the candidates: by the length of the path, then by the path, then by the id.\<close>

definition script_le :: "script_env \<Rightarrow> registered_script \<Rightarrow> registered_script \<Rightarrow> bool" where
  "script_le env l r =
     (let d = int (length (rs_path l)) - int (length (rs_path r));
          p = se_localeCompare env (rs_path l) (rs_path r);
          i = se_localeCompare env (rs_scriptId l) (rs_scriptId r) in
      (if d \<noteq> 0 then d else if p \<noteq> 0 then p else i) \<le> 0)"

definition resolutionFromMatches :: "script_env \<Rightarrow> registered_script list \<Rightarrow> script_resolution" where
  "resolutionFromMatches env ms =
     (case stable_sort (script_le env) ms of
        [] \<Rightarrow> ScriptMissing
      | best # rest \<Rightarrow>
          let equallySpecific = filter (\<lambda>c. length (rs_path c) = length (rs_path best)) (best # rest) in
          if 1 < length equallySpecific then ScriptAmbiguous equallySpecific else ScriptFound best)"

definition resolveBySuffix :: "script_env \<Rightarrow> string \<Rightarrow> (string, registered_script) jsmap \<Rightarrow> script_resolution" where
  "resolveBySuffix env file scripts =
     (let suff = normalizedProbeSuffix env file in
      if suff = [] then ScriptMissing
      else resolutionFromMatches env (filter (\<lambda>s. scriptMatchesSuffix (rs_path s) suff) (jvalues scripts)))"

definition findBySuffix :: "script_env \<Rightarrow> string \<Rightarrow> (string, registered_script) jsmap \<Rightarrow> registered_script option" where
  "findBySuffix env file scripts = (case resolveBySuffix env file scripts of ScriptFound s \<Rightarrow> Some s | _ \<Rightarrow> None)"

definition clear_scripts :: "(string, registered_script) jsmap \<Rightarrow> (string, registered_script) jsmap" where
  "clear_scripts scripts = []"

text \<open>The scripts a probe may mean.\<close>

definition script_matches :: "script_env \<Rightarrow> string \<Rightarrow> (string, registered_script) jsmap \<Rightarrow> registered_script list" where
  "script_matches env file scripts =
     (let suff = normalizedProbeSuffix env file in
      if suff = [] then [] else filter (\<lambda>s. scriptMatchesSuffix (rs_path s) suff) (jvalues scripts))"

definition shortest :: "registered_script list \<Rightarrow> registered_script list" where
  "shortest ms = filter (\<lambda>s. \<forall>t \<in> set ms. length (rs_path s) \<le> length (rs_path t)) ms"

section \<open>Lemmas\<close>

text \<open>
  Whatever \<^verbatim>\<open>localeCompare\<close> answers, insertion by \<open>script_le\<close> keeps the lengths in order: the length
  decides first.
\<close>

lemma script_le_length: "length (rs_path a) < length (rs_path b) \<Longrightarrow> script_le env a b"
  "script_le env a b \<Longrightarrow> length (rs_path a) \<le> length (rs_path b)"
  by (auto simp: script_le_def Let_def split: if_splits)

lemma insert_lengths:
  "sorted (map (length \<circ> rs_path) xs) \<Longrightarrow> sorted (map (length \<circ> rs_path) (insert_sorted (script_le env) x xs))"
proof (induction xs)
  case (Cons y ys)
  show ?case
  proof (cases "script_le env x y")
    case True
    then show ?thesis using Cons.prems script_le_length(2) [OF True] by fastforce
  next
    case False
    then have "length (rs_path y) \<le> length (rs_path x)" using script_le_length(1) [of x y env] by fastforce
    moreover have "set (insert_sorted (script_le env) x ys) = insert x (set ys)"
      by (metis mset_insert_sorted set_mset_add_mset_insert set_mset_mset)
    ultimately show ?thesis using False Cons by auto
  qed
qed simp

lemma sort_lengths: "sorted (map (length \<circ> rs_path) (stable_sort (script_le env) ms))"
proof (induction ms)
  case (Cons m ms)
  from insert_lengths [OF Cons.IH, of env m] show ?case unfolding stable_sort.simps .
qed simp

lemma resolution_cases:
  assumes "ms \<noteq> []"
  obtains best where "mset (filter (\<lambda>c. length (rs_path c) = length (rs_path best)) (stable_sort (script_le env) ms)) = mset (shortest ms)"
    "best \<in> set (shortest ms)"
    "resolutionFromMatches env ms = (let eq = filter (\<lambda>c. length (rs_path c) = length (rs_path best)) (stable_sort (script_le env) ms) in
       if 1 < length eq then ScriptAmbiguous eq else ScriptFound best)"
proof -
  obtain best rest where b: "stable_sort (script_le env) ms = best # rest"
    using assms by (cases "stable_sort (script_le env) ms") auto
  have mem: "set ms = insert best (set rest)" using arg_cong [OF b, of set] by simp
  have least: "length (rs_path best) \<le> length (rs_path t)" if "t \<in> set ms" for t
    using that sort_lengths [of env ms] unfolding b mem by auto
  have sh: "shortest ms = filter (\<lambda>c. length (rs_path c) = length (rs_path best)) ms"
    unfolding shortest_def using least mem by (intro filter_cong) (auto intro: le_antisym)
  have "mset (filter (\<lambda>c. length (rs_path c) = length (rs_path best)) (stable_sort (script_le env) ms)) = mset (shortest ms)"
    by (simp add: sh mset_filter)
  moreover have "best \<in> set (shortest ms)" using mem by (simp add: sh)
  moreover have "resolutionFromMatches env ms = (let eq = filter (\<lambda>c. length (rs_path c) = length (rs_path best)) (stable_sort (script_le env) ms) in
       if 1 < length eq then ScriptAmbiguous eq else ScriptFound best)"
    by (simp add: resolutionFromMatches_def b Let_def)
  ultimately show ?thesis using that by blast
qed

lemma resolve_matches: "resolveBySuffix env file scripts = resolutionFromMatches env (script_matches env file scripts)"
  by (simp add: resolveBySuffix_def script_matches_def resolutionFromMatches_def Let_def)

section \<open>Properties\<close>

text \<open>A probe is attached to a script only when the choice is unique: the script found is the only one with the shortest
  path among those whose path ends in the probe's file; when several are equally short the answer is ambiguous and
  lists exactly those, and it is missing only when no path matches.\<close>

theorem script_choice_unique:
  "case resolveBySuffix env file scripts of
     ScriptFound s \<Rightarrow> shortest (script_matches env file scripts) = [s]
   | ScriptMissing \<Rightarrow> script_matches env file scripts = []
   | ScriptAmbiguous ms \<Rightarrow> mset ms = mset (shortest (script_matches env file scripts)) \<and> 1 < length ms"
proof (cases "script_matches env file scripts = []")
  case True
  then show ?thesis by (simp add: resolve_matches resolutionFromMatches_def)
next
  case False
  then obtain best where b: "mset (filter (\<lambda>c. length (rs_path c) = length (rs_path best)) (stable_sort (script_le env) (script_matches env file scripts))) =
      mset (shortest (script_matches env file scripts))" "best \<in> set (shortest (script_matches env file scripts))"
    "resolutionFromMatches env (script_matches env file scripts) =
      (let eq = filter (\<lambda>c. length (rs_path c) = length (rs_path best)) (stable_sort (script_le env) (script_matches env file scripts)) in
       if 1 < length eq then ScriptAmbiguous eq else ScriptFound best)"
    by (rule resolution_cases)
  have n: "length (filter (\<lambda>c. length (rs_path c) = length (rs_path best)) (stable_sort (script_le env) (script_matches env file scripts))) =
      length (shortest (script_matches env file scripts))"
    using arg_cong [OF b(1), of size] unfolding size_mset .
  have "shortest (script_matches env file scripts) = [best]" if "length (shortest (script_matches env file scripts)) \<le> 1"
    using that b(2) by (cases "shortest (script_matches env file scripts)") auto
  then show ?thesis using b n by (simp add: resolve_matches Let_def)
qed

end
