(* ===== verification/Probe_Manager.thy ===== *)
theory Probe_Manager
  imports Script_Registry Agent_Buffers Rate_Limiter Safe_Values Serializer
begin

text \<open>
  \<^verbatim>\<open>packages/sdk-node/src/probe-manager.ts\<close>: which probes are armed, the breakpoints they share, the
  handling of a pause, and suspension, re-arming and stopping.  Installed probes and breakpoint
  holders are shared mutable objects of the source; here they live in two stores and the maps hold
  their references.  The asynchronous functions are cut where they wait for the inspector: what is
  in flight is a list of tasks, each with the rest of the function that waits, and a task may be
  answered at any time and in any order.  Continuations that wait for nothing but a settled promise
  run in the same step.
\<close>

section \<open>Definitions\<close>

subsection \<open>State\<close>

type_synonym ref = nat

record manager_env =
  me_scripts :: script_env
  me_bytesOf :: "probe_event \<Rightarrow> nat"
  me_numText :: "jsnum \<Rightarrow> string"
  me_fingerprint :: "probe_definition \<Rightarrow> string"
  me_config :: serializer_config

record installed_probe =
  ip_active :: bool
  ip_breakpointId :: string
  ip_definition :: probe_definition
  ip_fingerprint :: string
  ip_hits :: int
  ip_pending :: int
  ip_scriptId :: string

record breakpoint_holder =
  bh_breakpointId :: string
  bh_keys :: "string list"
  bh_probeIds :: "string list"

record manager =
  mg_desired :: "(string, probe_definition) jsmap"
  mg_installed :: "(string, ref) jsmap"
  mg_objects :: "installed_probe list"
  mg_byBreakpoint :: "(string, ref) jsmap"
  mg_byLocation :: "(string, ref) jsmap"
  mg_holders :: "breakpoint_holder list"
  mg_arming :: "(string, nat) jsmap"
  mg_attempts :: nat
  mg_exhausted :: "(string, string) jsmap"
  mg_installing :: "string list"
  mg_lastError :: "(string, string) jsmap"
  mg_suspended :: bool
  mg_stopped :: bool
  mg_inspectorFailed :: bool
  mg_epoch :: nat
  mg_droppedHits :: nat
  mg_rateLimiter :: token_bucket
  mg_events :: "probe_event event_buffer"
  mg_aggregates :: aggregate_buffer
  mg_scripts :: "(string, registered_script) jsmap"
  mg_audit :: "string list"

definition new_manager :: "token_bucket \<Rightarrow> probe_event event_buffer \<Rightarrow> manager" where
  "new_manager bucket buffer =
     \<lparr>mg_desired = [], mg_installed = [], mg_objects = [], mg_byBreakpoint = [], mg_byLocation = [], mg_holders = [],
      mg_arming = [], mg_attempts = 0, mg_exhausted = [], mg_installing = [], mg_lastError = [], mg_suspended = False,
      mg_stopped = False, mg_inspectorFailed = False, mg_epoch = 0, mg_droppedHits = 0, mg_rateLimiter = bucket,
      mg_events = buffer, mg_aggregates = empty_aggregates, mg_scripts = [], mg_audit = []\<rparr>"

text \<open>A capture: the heap it built, the variables of the top frame, those of every frame, and the stack.\<close>

record raw_capture =
  rw_heap :: heap
  rw_variables :: jsval
  rw_frameLocals :: "jsval list"
  rw_stack :: "stack_frame list"

text \<open>What follows the removal of a breakpoint.\<close>

datatype after_removal =
    ThenAborted probe_definition "probe_definition list"
  | ThenNoLocation probe_definition string nat "probe_definition list"
  | ThenReconcile probe_definition "probe_definition list" "(string \<times> ref) list"
  | ThenRemove "string list"
  | ThenRetired probe_definition
  | ThenNothing

text \<open>
  What is in flight: a request for a breakpoint with its attempt number, an arm that waits for the attempt of
  another, a removal, a fire-and-forget arm, a capture, a resume and its retry, and the two deferred callbacks.
\<close>

datatype task =
    SetBreakpoint nat probe_definition registered_script int int string "probe_definition list"
  | AwaitArming nat probe_definition registered_script int int string "probe_definition list"
  | RemoveBreakpoint string after_removal
  | ArmLater probe_definition
  | Capturing "ref list" nat
  | Resuming "ref list" "(nat \<times> string option \<times> raw_capture) option"
  | Retrying "ref list" "(nat \<times> string option \<times> raw_capture) option" string
  | Processing "ref list" nat "string option" raw_capture
  | ReportFailure "probe_definition list" string

text \<open>
  The manager with what is in flight; beside it, the breakpoints V8 holds and those it would not remove.
\<close>

record agent_sys =
  sy_manager :: manager
  sy_tasks :: "task list"
  sy_v8 :: "string list"
  sy_refused :: "string list"

definition emit :: "task \<Rightarrow> agent_sys \<Rightarrow> agent_sys" where
  "emit t sy = sy\<lparr>sy_tasks := sy_tasks sy @ [t]\<rparr>"

definition on_manager :: "(manager \<Rightarrow> manager) \<Rightarrow> agent_sys \<Rightarrow> agent_sys" where
  "on_manager f sy = sy\<lparr>sy_manager := f (sy_manager sy)\<rparr>"

subsection \<open>Reports\<close>

fun show_type :: "probe_type \<Rightarrow> string" where
  "show_type TSnapshot = ''snapshot''"
| "show_type TLog = ''log''"
| "show_type TCounter = ''counter''"
| "show_type TMetric = ''metric''"

fun comma_list :: "string list \<Rightarrow> string" where
  "comma_list [] = []"
| "comma_list [s] = s"
| "comma_list (s # ss) = s @ '', '' @ comma_list ss"

definition safeAuditText :: "string \<Rightarrow> string" where
  "safeAuditText s = map (\<lambda>c. if of_char c < (32 :: nat) \<or> char_in 127 159 c then CHR '' '' else c) s"

definition audit :: "string \<Rightarrow> manager \<Rightarrow> manager" where
  "audit line m = m\<lparr>mg_audit := mg_audit m @ [line]\<rparr>"

definition at_line :: "probe_definition \<Rightarrow> string" where
  "at_line p = safeAuditText (pd_file p) @ '':'' @ show_int (pd_line p)"

definition add_event :: "manager_env \<Rightarrow> probe_event \<Rightarrow> manager \<Rightarrow> manager" where
  "add_event env e m = m\<lparr>mg_events := fst (enqueue (me_bytesOf env) e (mg_events m))\<rparr>"

definition status :: "manager_env \<Rightarrow> int \<Rightarrow> string \<Rightarrow> status_name \<Rightarrow> string option \<Rightarrow> manager \<Rightarrow> manager" where
  "status env now probeId s detail m = add_event env (agent_event probeId now (StatusEvent s detail no_metadata)) m"

definition error :: "manager_env \<Rightarrow> int \<Rightarrow> probe_definition \<Rightarrow> string \<Rightarrow> manager \<Rightarrow> manager" where
  "error env now probe detail m =
     (let dedupe = me_fingerprint env probe @ '':'' @ detail in
      if jget (mg_lastError m) (pd_id probe) = Some dedupe then m
      else audit (''[liveprobe] PROBE ERROR '' @ at_line probe @ '' '' @ safeAuditText detail)
        (status env now (pd_id probe) Error (Some detail)
          (m\<lparr>mg_lastError := jset (pd_id probe) dedupe (mg_lastError m)\<rparr>)))"

subsection \<open>Breakpoints\<close>

definition locationKey :: "string \<Rightarrow> int \<Rightarrow> int \<Rightarrow> string" where
  "locationKey scriptId zeroBasedLine column = scriptId @ '':'' @ show_int zeroBasedLine @ '':'' @ show_int column"

definition set_object :: "ref \<Rightarrow> (installed_probe \<Rightarrow> installed_probe) \<Rightarrow> manager \<Rightarrow> manager" where
  "set_object r f m = (if r < length (mg_objects m) then m\<lparr>mg_objects := (mg_objects m)[r := f (mg_objects m ! r)]\<rparr> else m)"

definition set_holder :: "ref \<Rightarrow> (breakpoint_holder \<Rightarrow> breakpoint_holder) \<Rightarrow> manager \<Rightarrow> manager" where
  "set_holder r f m = (if r < length (mg_holders m) then m\<lparr>mg_holders := (mg_holders m)[r := f (mg_holders m ! r)]\<rparr> else m)"

text \<open>\<^verbatim>\<open>holder.probeIds.add(id)\<close> and \<^verbatim>\<open>holder.probeIds.delete(id)\<close>\<close>

definition claim :: "string \<Rightarrow> ref \<Rightarrow> manager \<Rightarrow> manager" where
  "claim pid r = set_holder r (\<lambda>h. h\<lparr>bh_probeIds := js_set (bh_probeIds h @ [pid])\<rparr>)"

definition disclaim :: "string \<Rightarrow> ref \<Rightarrow> manager \<Rightarrow> manager" where
  "disclaim pid r = set_holder r (\<lambda>h. h\<lparr>bh_probeIds := filter (\<lambda>q. q \<noteq> pid) (bh_probeIds h)\<rparr>)"

text \<open>\<open>Some\<close> of the breakpoint to remove, once nothing claims the holder and it is still registered.\<close>

definition releaseHolder :: "ref \<Rightarrow> manager \<Rightarrow> manager \<times> string option" where
  "releaseHolder r m =
     (let h = mg_holders m ! r in
      if bh_probeIds h \<noteq> [] \<or> jget (mg_byBreakpoint m) (bh_breakpointId h) \<noteq> Some r then (m, None)
      else (m\<lparr>mg_byBreakpoint := jdel (bh_breakpointId h) (mg_byBreakpoint m),
              mg_byLocation := fold (\<lambda>k l. if jget l k = Some r then jdel k l else l) (bh_keys h) (mg_byLocation m)\<rparr>,
            Some (bh_breakpointId h)))"

definition releaseBreakpointFor :: "ref \<Rightarrow> manager \<Rightarrow> manager \<times> string option" where
  "releaseBreakpointFor o1 m =
     (let i = mg_objects m ! o1 in
      case jget (mg_byBreakpoint m) (ip_breakpointId i) of
        None \<Rightarrow> (m, None)
      | Some h \<Rightarrow> releaseHolder h (disclaim (pd_id (ip_definition i)) h m))"

text \<open>Returns the breakpoints the registry held.\<close>

definition clearBreakpointRegistry :: "manager \<Rightarrow> manager \<times> string list" where
  "clearBreakpointRegistry m =
     (let hs = js_set (jvalues (mg_byBreakpoint m)) in
      (fold (\<lambda>h. set_holder h (\<lambda>x. x\<lparr>bh_probeIds := []\<rparr>)) hs (m\<lparr>mg_byBreakpoint := [], mg_byLocation := []\<rparr>),
       map (\<lambda>h. bh_breakpointId (mg_holders m ! h)) hs))"

text \<open>The position V8 resolved a request to: script, line and column, each possibly missing.\<close>

record resolved_location =
  rv_scriptId :: "string option"
  rv_lineNumber :: "int option"
  rv_columnNumber :: "int option"

definition resolvedKey :: "string \<Rightarrow> resolved_location \<Rightarrow> string option" where
  "resolvedKey fallback l =
     (case rv_lineNumber l of
        None \<Rightarrow> None
      | Some n \<Rightarrow> Some (locationKey (case rv_scriptId l of None \<Rightarrow> fallback | Some s \<Rightarrow> s) n
          (case rv_columnNumber l of None \<Rightarrow> 0 | Some c \<Rightarrow> c)))"

subsection \<open>Arming\<close>

text \<open>The end of an arm: the \<^verbatim>\<open>finally\<close> block, which starts over when the definition changed meanwhile.\<close>

definition finish_arm :: "manager_env \<Rightarrow> probe_definition \<Rightarrow> agent_sys \<Rightarrow> agent_sys" where
  "finish_arm env probe sy =
     (let m = (sy_manager sy)\<lparr>mg_installing := filter (\<lambda>q. q \<noteq> pd_id probe) (mg_installing (sy_manager sy))\<rparr>;
          sy1 = sy\<lparr>sy_manager := m\<rparr> in
      case jget (mg_desired m) (pd_id probe) of
        None \<Rightarrow> sy1
      | Some current \<Rightarrow>
          if me_fingerprint env current \<noteq> me_fingerprint env probe \<and> \<not> jhas (mg_installed m) (pd_id probe) \<and>
             \<not> mg_suspended m \<and> \<not> mg_stopped m \<and> \<not> mg_inspectorFailed m
          then emit (ArmLater current) sy1 else sy1)"

text \<open>
  The part of \<^verbatim>\<open>ensureArmed\<close> after the breakpoint is acquired: \<open>h\<close> already counts the probe.  The result
  says whether the function has returned; otherwise it waits for the removal of the breakpoint.
\<close>

definition install :: "manager_env \<Rightarrow> int \<Rightarrow> probe_definition \<Rightarrow> registered_script \<Rightarrow> ref \<Rightarrow> manager \<Rightarrow> manager" where
  "install env now probe script h m =
     audit (''[liveprobe] PROBE ARMED '' @ at_line probe @ '' ('' @ show_type (pd_type probe) @ '', by '' @ safeAuditText (pd_createdBy probe) @ '')'')
       (status env now (pd_id probe) Armed (Some (pd_file probe @ '':'' @ show_int (pd_line probe)))
         (m\<lparr>mg_objects := mg_objects m @ [\<lparr>ip_active = True, ip_breakpointId = bh_breakpointId (mg_holders m ! h),
              ip_definition = probe, ip_fingerprint = me_fingerprint env probe, ip_hits = 0, ip_pending = 0,
              ip_scriptId = rs_scriptId script\<rparr>],
            mg_installed := jset (pd_id probe) (length (mg_objects m)) (mg_installed m),
            mg_lastError := jdel (pd_id probe) (mg_lastError m)\<rparr>))"

definition acquired ::
  "manager_env \<Rightarrow> int \<Rightarrow> probe_definition \<Rightarrow> registered_script \<Rightarrow> ref \<Rightarrow> probe_definition list \<Rightarrow> agent_sys \<Rightarrow> agent_sys \<times> bool" where
  "acquired env now probe script h rest sy =
     (let m = sy_manager sy in
      if (case jget (mg_desired m) (pd_id probe) of None \<Rightarrow> True
          | Some current \<Rightarrow> me_fingerprint env current \<noteq> me_fingerprint env probe) \<or> mg_stopped m \<or> mg_suspended m
      then (case releaseHolder h (disclaim (pd_id probe) h m) of
              (m1, None) \<Rightarrow> (finish_arm env probe (sy\<lparr>sy_manager := m1\<rparr>), True)
            | (m1, Some b) \<Rightarrow> (emit (RemoveBreakpoint b (ThenAborted probe rest)) (sy\<lparr>sy_manager := m1\<rparr>), False))
      else (finish_arm env probe (sy\<lparr>sy_manager := install env now probe script h m\<rparr>), True))"

text \<open>A new attempt at a location: the request goes out and is recorded as in flight.\<close>

definition start_attempt ::
  "probe_definition \<Rightarrow> registered_script \<Rightarrow> int \<Rightarrow> int \<Rightarrow> string \<Rightarrow> probe_definition list \<Rightarrow> agent_sys \<Rightarrow> agent_sys" where
  "start_attempt probe script line col requested rest sy =
     (let m = sy_manager sy; n = mg_attempts m in
      emit (SetBreakpoint n probe script line col requested rest)
        (sy\<lparr>sy_manager := m\<lparr>mg_attempts := n + 1, mg_arming := jset requested n (mg_arming m)\<rparr>\<rparr>))"

definition acquireBreakpoint ::
  "manager_env \<Rightarrow> int \<Rightarrow> probe_definition \<Rightarrow> registered_script \<Rightarrow> int \<Rightarrow> int \<Rightarrow> probe_definition list \<Rightarrow> agent_sys \<Rightarrow> agent_sys \<times> bool" where
  "acquireBreakpoint env now probe script line col rest sy =
     (let requested = locationKey (rs_scriptId script) (line - 1) col; m = sy_manager sy in
      case jget (mg_byLocation m) requested of
        Some h \<Rightarrow> acquired env now probe script h rest (sy\<lparr>sy_manager := claim (pd_id probe) h m\<rparr>)
      | None \<Rightarrow>
          (case jget (mg_arming m) requested of
             Some n \<Rightarrow> (emit (AwaitArming n probe script line col requested rest) sy, False)
           | None \<Rightarrow> (start_attempt probe script line col requested rest sy, False)))"

definition ensureArmed :: "manager_env \<Rightarrow> int \<Rightarrow> probe_definition \<Rightarrow> probe_definition list \<Rightarrow> agent_sys \<Rightarrow> agent_sys \<times> bool" where
  "ensureArmed env now probe rest sy =
     (let m = sy_manager sy in
      if jhas (mg_installed m) (pd_id probe) \<or> pd_id probe \<in> set (mg_installing m) \<or>
         jget (mg_exhausted m) (pd_id probe) = Some (me_fingerprint env probe) \<or>
         mg_stopped m \<or> mg_suspended m \<or> mg_inspectorFailed m
      then (sy, True)
      else let file = (case pd_runtime probe of None \<Rightarrow> pd_file probe | Some r \<Rightarrow> rl_location r);
               line = (case pd_runtime probe of None \<Rightarrow> pd_line probe | Some r \<Rightarrow> rl_line r);
               col = (case pd_runtime probe of None \<Rightarrow> 0 | Some r \<Rightarrow> rl_column r) in
        (case resolveBySuffix (me_scripts env) file (mg_scripts m) of
           ScriptMissing \<Rightarrow> (sy\<lparr>sy_manager := error env now probe (''line-not-found: '' @ file @ '':'' @ show_int line) m\<rparr>, True)
         | ScriptAmbiguous ms \<Rightarrow> (sy\<lparr>sy_manager := error env now probe (''ambiguous-script: '' @ file @ '' matched '' @ comma_list (map rs_path ms)) m\<rparr>, True)
         | ScriptFound script \<Rightarrow>
             acquireBreakpoint env now probe script line col rest
               (sy\<lparr>sy_manager := m\<lparr>mg_installing := mg_installing m @ [pd_id probe]\<rparr>\<rparr>)))"

text \<open>\<^verbatim>\<open>for (const probe of probes) await this.#ensureArmed(probe)\<close>: the loop stops at an arm that has to wait.\<close>

fun arm_loop :: "manager_env \<Rightarrow> int \<Rightarrow> probe_definition list \<Rightarrow> agent_sys \<Rightarrow> agent_sys" where
  "arm_loop env now [] sy = sy"
| "arm_loop env now (p # ps) sy =
     (case ensureArmed env now p ps sy of (sy1, returned) \<Rightarrow> if returned then arm_loop env now ps sy1 else sy1)"

definition continue_arm :: "manager_env \<Rightarrow> int \<Rightarrow> probe_definition list \<Rightarrow> agent_sys \<times> bool \<Rightarrow> agent_sys" where
  "continue_arm env now rest r = (case r of (sy, returned) \<Rightarrow> if returned then arm_loop env now rest sy else sy)"

text \<open>The \<^verbatim>\<open>finally\<close> block of an attempt.\<close>

definition settle :: "string \<Rightarrow> nat \<Rightarrow> manager \<Rightarrow> manager" where
  "settle requested n m =
     (if jget (mg_arming m) requested = Some n then m\<lparr>mg_arming := jdel requested (mg_arming m)\<rparr> else m)"

datatype set_answer = SetFailed string | SetOk string "resolved_location list"

text \<open>\<^verbatim>\<open>#installBreakpoint\<close> after V8 has answered: the holder of the new breakpoint and its keys.\<close>

definition add_holder :: "string \<Rightarrow> string \<Rightarrow> string \<Rightarrow> resolved_location \<Rightarrow> manager \<Rightarrow> manager" where
  "add_holder scriptId requested b loc m =
     (let h = length (mg_holders m);
          l1 = jset requested h (mg_byLocation m);
          (keys, l2) = (case resolvedKey scriptId loc of
              None \<Rightarrow> ([requested], l1)
            | Some k \<Rightarrow> if jhas l1 k then ([requested], l1) else ([requested, k], jset k h l1)) in
      m\<lparr>mg_holders := mg_holders m @ [\<lparr>bh_breakpointId = b, bh_keys = keys, bh_probeIds = []\<rparr>],
        mg_byBreakpoint := jset b h (mg_byBreakpoint m), mg_byLocation := l2\<rparr>)"

definition answer_set ::
  "manager_env \<Rightarrow> int \<Rightarrow> set_answer \<Rightarrow> nat \<Rightarrow> probe_definition \<Rightarrow> registered_script \<Rightarrow> string \<Rightarrow> probe_definition list \<Rightarrow> agent_sys \<Rightarrow> agent_sys" where
  "answer_set env now answer n probe script requested rest sy =
     (let m = sy_manager sy in
      case answer of
        SetFailed message \<Rightarrow>
          continue_arm env now rest
            (finish_arm env probe (sy\<lparr>sy_manager := settle requested n (error env now probe (''inspector-arm: '' @ message) m)\<rparr>), True)
      | SetOk b [] \<Rightarrow>
          emit (RemoveBreakpoint b (ThenNoLocation probe requested n rest)) (sy\<lparr>sy_v8 := b # sy_v8 sy\<rparr>)
      | SetOk b (loc # _) \<Rightarrow>
          continue_arm env now rest
            (acquired env now probe script (length (mg_holders m)) rest
              (sy\<lparr>sy_manager := claim (pd_id probe) (length (mg_holders m)) (settle requested n (add_holder (rs_scriptId script) requested b loc m)),
                  sy_v8 := b # sy_v8 sy\<rparr>)))"

text \<open>An arm that waited for another attempt takes its breakpoint, or tries for itself.\<close>

definition answer_await ::
  "manager_env \<Rightarrow> int \<Rightarrow> probe_definition \<Rightarrow> registered_script \<Rightarrow> int \<Rightarrow> int \<Rightarrow> string \<Rightarrow> probe_definition list \<Rightarrow> agent_sys \<Rightarrow> agent_sys" where
  "answer_await env now probe script line col requested rest sy =
     (let m = sy_manager sy in
      case jget (mg_byLocation m) requested of
        Some h \<Rightarrow> continue_arm env now rest (acquired env now probe script h rest (sy\<lparr>sy_manager := claim (pd_id probe) h m\<rparr>))
      | None \<Rightarrow> start_attempt probe script line col requested rest sy)"

subsection \<open>Reconciling\<close>

definition uninstall_audit :: "probe_definition \<Rightarrow> manager \<Rightarrow> manager" where
  "uninstall_audit p = audit (''[liveprobe] PROBE REMOVED '' @ at_line p)"

text \<open>The synchronous part of \<^verbatim>\<open>#uninstall\<close>; \<open>Some\<close> of the breakpoint whose removal it waits for.\<close>

definition uninstall :: "ref \<Rightarrow> manager \<Rightarrow> manager \<times> string option" where
  "uninstall r m =
     (let m1 = set_object r (\<lambda>i. i\<lparr>ip_active := False, ip_pending := 0\<rparr>) m;
          m2 = m1\<lparr>mg_installed := jdel (pd_id (ip_definition (mg_objects m ! r))) (mg_installed m1)\<rparr> in
      releaseBreakpointFor r m2)"

text \<open>\<^verbatim>\<open>new Map(probes.map((probe) => [probe.id, probe]))\<close>\<close>

definition by_id :: "probe_definition list \<Rightarrow> (string, probe_definition) jsmap" where
  "by_id ps = fold (\<lambda>p. jset (pd_id p) p) ps []"

definition unwanted :: "manager_env \<Rightarrow> probe_definition list \<Rightarrow> string \<Rightarrow> string \<Rightarrow> bool" where
  "unwanted env wanted pid fp \<longleftrightarrow>
     (case jget (by_id wanted) pid of None \<Rightarrow> True | Some w \<Rightarrow> me_fingerprint env w \<noteq> fp)"

text \<open>The end of \<^verbatim>\<open>reconcile\<close>: the exhausted and the desired probes, then the arms.\<close>

definition commit :: "manager_env \<Rightarrow> int \<Rightarrow> probe_definition list \<Rightarrow> agent_sys \<Rightarrow> agent_sys" where
  "commit env now wanted sy =
     (let m = (sy_manager sy)\<lparr>mg_exhausted := filter (\<lambda>(pid, fp). \<not> unwanted env wanted pid fp) (mg_exhausted (sy_manager sy)),
            mg_desired := by_id wanted\<rparr>;
          sy1 = sy\<lparr>sy_manager := m\<rparr> in
      if \<not> mg_suspended m \<and> \<not> mg_inspectorFailed m then arm_loop env now wanted sy1 else sy1)"

fun reconcile_loop ::
  "manager_env \<Rightarrow> int \<Rightarrow> probe_definition list \<Rightarrow> (string \<times> ref) list \<Rightarrow> agent_sys \<Rightarrow> agent_sys" where
  "reconcile_loop env now wanted [] sy = commit env now wanted sy"
| "reconcile_loop env now wanted ((pid, r) # rest) sy =
     (let m = sy_manager sy; i = mg_objects m ! r in
      if unwanted env wanted pid (ip_fingerprint i)
      then (case uninstall r m of
              (m1, None) \<Rightarrow> reconcile_loop env now wanted rest (sy\<lparr>sy_manager := uninstall_audit (ip_definition i) m1\<rparr>)
            | (m1, Some b) \<Rightarrow> emit (RemoveBreakpoint b (ThenReconcile (ip_definition i) wanted rest)) (sy\<lparr>sy_manager := m1\<rparr>))
      else reconcile_loop env now wanted rest sy)"

definition reconcile :: "manager_env \<Rightarrow> int \<Rightarrow> probe_definition list \<Rightarrow> agent_sys \<Rightarrow> agent_sys" where
  "reconcile env now wanted sy =
     (let m = sy_manager sy in
      if mg_stopped m then sy
      else let changed = (length wanted \<noteq> length (mg_desired m) \<or>
                 list_ex (\<lambda>p. case jget (mg_desired m) (pd_id p) of None \<Rightarrow> True
                    | Some current \<Rightarrow> me_fingerprint env p \<noteq> me_fingerprint env current) wanted);
               m1 = (if changed then m\<lparr>mg_epoch := mg_epoch m + 1\<rparr> else m) in
        reconcile_loop env now wanted (mg_installed m1) (sy\<lparr>sy_manager := m1\<rparr>))"

definition onScriptAvailable :: "manager_env \<Rightarrow> int \<Rightarrow> agent_sys \<Rightarrow> agent_sys" where
  "onScriptAvailable env now sy =
     (let m = sy_manager sy in
      if mg_stopped m \<or> mg_suspended m \<or> mg_inspectorFailed m then sy
      else arm_loop env now (jvalues (mg_desired m)) sy)"

definition rearm :: "manager_env \<Rightarrow> int \<Rightarrow> agent_sys \<Rightarrow> agent_sys" where
  "rearm env now sy =
     (let m = sy_manager sy in
      if mg_stopped m \<or> mg_inspectorFailed m then sy
      else arm_loop env now (jvalues (mg_desired m)) (sy\<lparr>sy_manager := m\<lparr>mg_suspended := False\<rparr>\<rparr>))"

subsection \<open>Suspending and stopping\<close>

definition deactivate :: "ref list \<Rightarrow> manager \<Rightarrow> manager" where
  "deactivate rs = fold (\<lambda>r. set_object r (\<lambda>i. i\<lparr>ip_active := False, ip_pending := 0\<rparr>)) rs"

text \<open>The removal of a list of breakpoints one after the other.\<close>

definition remove_all :: "string list \<Rightarrow> agent_sys \<Rightarrow> agent_sys" where
  "remove_all bs sy = (case bs of [] \<Rightarrow> sy | b # rest \<Rightarrow> emit (RemoveBreakpoint b (ThenRemove rest)) sy)"

definition suspendAll :: "manager_env \<Rightarrow> int \<Rightarrow> string \<Rightarrow> agent_sys \<Rightarrow> agent_sys" where
  "suspendAll env now detail sy =
     (let m = sy_manager sy in
      if mg_stopped m \<or> mg_suspended m then sy
      else let installed = jvalues (mg_installed m);
               (m1, bs) = clearBreakpointRegistry (m\<lparr>mg_suspended := True, mg_epoch := mg_epoch m + 1\<rparr>);
               m2 = deactivate installed (m1\<lparr>mg_installed := []\<rparr>);
               m3 = fold (\<lambda>r. status env now (pd_id (ip_definition (mg_objects m ! r))) Suspended (Some detail)) installed m2 in
        remove_all bs (sy\<lparr>sy_manager := m3\<rparr>))"

definition stopManager :: "agent_sys \<Rightarrow> agent_sys" where
  "stopManager sy =
     (let m = sy_manager sy in
      if mg_stopped m then sy
      else let installed = jvalues (mg_installed m);
               (m1, bs) = clearBreakpointRegistry (m\<lparr>mg_stopped := True, mg_epoch := mg_epoch m + 1\<rparr>);
               m2 = deactivate installed (m1\<lparr>mg_installed := [], mg_desired := []\<rparr>) in
        fold (\<lambda>b. emit (RemoveBreakpoint b ThenNothing)) bs (sy\<lparr>sy_manager := m2\<rparr>))"

subsection \<open>Hits\<close>

definition expressionPolicy :: "manager_env \<Rightarrow> policy" where
  "expressionPolicy env =
     \<lparr>isRedactedKeyP = (\<lambda>k. isRedactedKey k (me_config env)),
      isRedactedValueP = (\<lambda>v. case v of VStr s \<Rightarrow> s \<in> set (redactValues (me_config env)) | _ \<Rightarrow> False)\<rparr>"

definition shouldRedact :: "manager_env \<Rightarrow> string \<Rightarrow> jsval \<Rightarrow> bool" where
  "shouldRedact env path v \<longleftrightarrow>
     list_ex (\<lambda>seg. isRedactedKey seg (me_config env)) (js_split CHR ''.'' path) \<or>
     (case v of VStr s \<Rightarrow> s \<in> set (redactValues (me_config env)) | _ \<Rightarrow> False)"

text \<open>\<^verbatim>\<open>serialize(value, config)\<close> normalizes the configuration it is given once more.\<close>

definition config_input :: "serializer_config \<Rightarrow> serializer_config_input" where
  "config_input c = \<lparr>in_maxDepth = Some (js_int (int (maxDepth c))), in_maxArray = Some (js_int (int (maxArray c))),
     in_maxProps = Some (js_int (int (maxProps c))), in_maxString = Some (js_int (int (maxString c))),
     in_maxStackFrames = Some (js_int (int (maxStackFrames c))), in_redactKeys = Some (redactKeys c), in_redactValues = Some (redactValues c)\<rparr>"

definition sanitize :: "manager_env \<Rightarrow> heap \<Rightarrow> jsval \<Rightarrow> serialized_node" where
  "sanitize env h v =
     (case serialize h v (config_input (me_config env)) of Inr n \<Rightarrow> n | Inl _ \<Rightarrow> NTruncated TrUnsupported)"

definition watch_path :: "manager_env \<Rightarrow> raw_capture \<Rightarrow> string \<Rightarrow> serialized_node" where
  "watch_path env c path =
     (let r = resolveDotPath (rw_heap c) (rw_variables c) path in
      if shouldRedact env path (pr_value r) then NRedacted
      else sanitize env (rw_heap c) (if pr_found r \<or> pr_truncated r then pr_value r else VUndefined))"

definition watch_expression :: "manager_env \<Rightarrow> raw_capture \<Rightarrow> compiled_expression \<Rightarrow> serialized_node" where
  "watch_expression env c e =
     (case evaluateExpression (me_numText env) e (rw_heap c) (rw_variables c) (expressionPolicy env) of
        Inr v \<Rightarrow> sanitize env (rw_heap c) v
      | Inl _ \<Rightarrow> NTruncated TrUnsupported)"

definition watches :: "manager_env \<Rightarrow> raw_capture \<Rightarrow> string list \<Rightarrow> compiled_expression list \<Rightarrow> (string \<times> serialized_node) list" where
  "watches env c paths exprs =
     fold (\<lambda>e w. jset (ce_source e) (watch_expression env c e) w) exprs
       (fold (\<lambda>p w. jset p (watch_path env c p) w) paths [])"

definition stack_of :: "manager_env \<Rightarrow> raw_capture \<Rightarrow> bool \<Rightarrow> int \<Rightarrow> stack_frame list" where
  "stack_of env c includeLocals limit =
     (if includeLocals
      then map (\<lambda>(f, i). f\<lparr>sf_variables := Some (sanitize env (rw_heap c)
             (if i < length (rw_frameLocals c) then rw_frameLocals c ! i else VUndefined))\<rparr>)
        (zip (take (nat limit) (rw_stack c)) [0..<length (rw_stack c)])
      else rw_stack c)"

text \<open>
  The hit of one probe by its type: the state with the report, and whether the hit counts; a metric that
  cannot be read is reported as an error and does not count.
\<close>

definition metric_value :: "manager_env \<Rightarrow> raw_capture \<Rightarrow> string option \<Rightarrow> compiled_expression option \<Rightarrow> jsval option" where
  "metric_value env c path expr =
     (case expr of
        None \<Rightarrow> (let r = resolveDotPath (rw_heap c) (rw_variables c) (case path of None \<Rightarrow> [] | Some p \<Rightarrow> p) in
          if pr_found r then Some (pr_value r) else None)
      | Some e \<Rightarrow>
          (case evaluateExpression (me_numText env) e (rw_heap c) (rw_variables c) (expressionPolicy env) of
             Inr v \<Rightarrow> Some v | Inl _ \<Rightarrow> None))"

definition metric_truncated :: "raw_capture \<Rightarrow> string option \<Rightarrow> compiled_expression option \<Rightarrow> bool" where
  "metric_truncated c path expr \<longleftrightarrow>
     expr = None \<and> pr_truncated (resolveDotPath (rw_heap c) (rw_variables c) (case path of None \<Rightarrow> [] | Some p \<Rightarrow> p))"

definition metric_name :: "string option \<Rightarrow> compiled_expression option \<Rightarrow> string" where
  "metric_name path expr = (case expr of Some e \<Rightarrow> ce_source e | None \<Rightarrow> (case path of None \<Rightarrow> [] | Some p \<Rightarrow> p))"

definition log_message :: "manager_env \<Rightarrow> raw_capture \<Rightarrow> string \<Rightarrow> template_segment list option \<Rightarrow> string" where
  "log_message env c tpl segs =
     (case segs of
        None \<Rightarrow> renderTemplate (me_numText env) tpl (rw_heap c) (rw_variables c) 4096 (shouldRedact env)
      | Some ss \<Rightarrow> renderExpressionTemplate (me_numText env) ss (rw_heap c) (rw_variables c) 4096 (expressionPolicy env))"

definition report_hit :: "manager_env \<Rightarrow> int \<Rightarrow> probe_definition \<Rightarrow> raw_capture \<Rightarrow> manager \<Rightarrow> manager \<times> bool" where
  "report_hit env now p c m =
     (case pd_body p of
        SnapshotProbe wp we sl fl \<Rightarrow>
          (add_event env (agent_event (pd_id p) now (SnapshotEvent (sanitize env (rw_heap c) (rw_variables c))
             (watches env c (case wp of None \<Rightarrow> [] | Some x \<Rightarrow> x) (case we of None \<Rightarrow> [] | Some x \<Rightarrow> x))
             (stack_of env c sl fl))) m, True)
      | LogProbe tpl lv segs \<Rightarrow>
          (let msg = log_message env c tpl segs in
           (audit (''[liveprobe] '' @ safeAuditText msg) (add_event env (agent_event (pd_id p) now (LogEvent msg lv)) m), True))
      | CounterProbe \<Rightarrow> (m\<lparr>mg_aggregates := incrementCounter (pd_id p) (mg_aggregates m)\<rparr>, True)
      | MetricProbe mp me \<Rightarrow>
          if metric_truncated c mp me
          then (error env now p (''capture-truncated: '' @ (case mp of None \<Rightarrow> [] | Some x \<Rightarrow> x)) m, False)
          else (case metric_value env c mp me of
              Some (VNum n) \<Rightarrow>
                if is_finite_num n then (m\<lparr>mg_aggregates := recordMetric (pd_id p) n (mg_aggregates m)\<rparr>, True)
                else (error env now p (''invalid-metric: '' @ metric_name mp me) m, False)
            | _ \<Rightarrow> (error env now p (''invalid-metric: '' @ metric_name mp me) m, False)))"

definition condition_holds :: "manager_env \<Rightarrow> raw_capture \<Rightarrow> probe_definition \<Rightarrow> bool" where
  "condition_holds env c p \<longleftrightarrow>
     matchesCondition (rw_heap c) (rw_variables c) (pd_condition p) \<and>
     (case pd_conditionExpression p of
        None \<Rightarrow> True
      | Some e \<Rightarrow> evaluateExpression (me_numText env) e (rw_heap c) (rw_variables c) (expressionPolicy env) = Ok (VBool True))"

definition retireAtHitLimit :: "manager_env \<Rightarrow> int \<Rightarrow> ref \<Rightarrow> agent_sys \<Rightarrow> agent_sys" where
  "retireAtHitLimit env now r sy =
     (let m = sy_manager sy; i = mg_objects m ! r; p = ip_definition i in
      if jget (mg_installed m) (pd_id p) \<noteq> Some r then sy
      else let m1 = set_object r (\<lambda>i. i\<lparr>ip_active := False, ip_pending := 0\<rparr>) m;
               m2 = m1\<lparr>mg_installed := jdel (pd_id p) (mg_installed m1),
                       mg_exhausted := jset (pd_id p) (ip_fingerprint i) (mg_exhausted m1)\<rparr>;
               m3 = audit (''[liveprobe] PROBE HIT LIMIT '' @ at_line p) (status env now (pd_id p) HitLimitReached None m2) in
        (case releaseBreakpointFor r m3 of
           (m4, None) \<Rightarrow> sy\<lparr>sy_manager := m4\<rparr>
         | (m4, Some b) \<Rightarrow> emit (RemoveBreakpoint b (ThenRetired p)) (sy\<lparr>sy_manager := m4\<rparr>)))"

definition retire_if_done :: "manager_env \<Rightarrow> int \<Rightarrow> ref \<Rightarrow> agent_sys \<Rightarrow> agent_sys" where
  "retire_if_done env now r sy =
     (let i = mg_objects (sy_manager sy) ! r in
      if pd_hitLimit (ip_definition i) \<le> ip_hits i then retireAtHitLimit env now r sy else sy)"

definition count_hit :: "ref \<Rightarrow> manager \<Rightarrow> manager" where
  "count_hit r = set_object r (\<lambda>i. i\<lparr>ip_hits := ip_hits i + 1\<rparr>)"

definition processHit :: "manager_env \<Rightarrow> int \<Rightarrow> raw_capture \<Rightarrow> ref \<Rightarrow> agent_sys \<Rightarrow> agent_sys" where
  "processHit env now c r sy =
     (let m = sy_manager sy; p = ip_definition (mg_objects m ! r) in
      if \<not> condition_holds env c p then sy
      else (case report_hit env now p c m of
          (m1, counted) \<Rightarrow>
            if counted then retire_if_done env now r (sy\<lparr>sy_manager := count_hit r m1\<rparr>)
            else sy\<lparr>sy_manager := m1\<rparr>))"

subsection \<open>Pauses\<close>

text \<open>The installed probes a pause may count for, each once.\<close>

definition hit_probes :: "string list \<Rightarrow> manager \<Rightarrow> string list" where
  "hit_probes bs m = js_set (concat (map (\<lambda>b. case jget (mg_byBreakpoint m) b of None \<Rightarrow> [] | Some h \<Rightarrow> bh_probeIds (mg_holders m ! h)) bs))"

definition hit_candidate :: "manager \<Rightarrow> string \<Rightarrow> ref option" where
  "hit_candidate m pid =
     (case jget (mg_installed m) pid of
        None \<Rightarrow> None
      | Some r \<Rightarrow>
          let i = mg_objects m ! r in
          if ip_active i \<and> \<not> mg_suspended m \<and> \<not> mg_inspectorFailed m \<and>
             ip_hits i + ip_pending i < pd_hitLimit (ip_definition i) then Some r else None)"

definition candidates :: "string list \<Rightarrow> manager \<Rightarrow> ref list" where
  "candidates bs m = List.map_filter (hit_candidate m) (hit_probes bs m)"

definition bare_counter :: "probe_definition \<Rightarrow> bool" where
  "bare_counter p \<longleftrightarrow> pd_type p = TCounter \<and> pd_condition p = None \<and> pd_conditionExpression p = None"

definition releasePending :: "ref list \<Rightarrow> manager \<Rightarrow> manager" where
  "releasePending rs = fold (\<lambda>r. set_object r (\<lambda>i. i\<lparr>ip_pending := max 0 (ip_pending i - 1)\<rparr>)) rs"

definition resumeWithFallback :: "ref list \<Rightarrow> (nat \<times> string option \<times> raw_capture) option \<Rightarrow> agent_sys \<Rightarrow> agent_sys" where
  "resumeWithFallback rs k sy =
     (if mg_inspectorFailed (sy_manager sy) then on_manager (releasePending rs) sy else emit (Resuming rs k) sy)"

definition empty_capture :: raw_capture where
  "empty_capture = \<lparr>rw_heap = (\<lambda>_. PlainObj []), rw_variables = VRef 0, rw_frameLocals = [VRef 0], rw_stack = []\<rparr>"

definition handlePaused :: "manager_env \<Rightarrow> int \<Rightarrow> string list \<Rightarrow> agent_sys \<Rightarrow> agent_sys" where
  "handlePaused env now bs sy =
     (let m = sy_manager sy; rs = candidates bs m in
      if rs = [] then resumeWithFallback [] None sy
      else (case tryTake (js_int now) (mg_rateLimiter m) of
          (bucket, False) \<Rightarrow>
            let m1 = m\<lparr>mg_rateLimiter := bucket\<rparr>;
                counted = filter (\<lambda>r. bare_counter (ip_definition (mg_objects m ! r))) rs;
                m2 = fold (\<lambda>r m. count_hit r (m\<lparr>mg_aggregates := incrementCounter (pd_id (ip_definition (mg_objects m ! r))) (mg_aggregates m)\<rparr>)) counted m1;
                m3 = (if length counted < length rs then m2\<lparr>mg_droppedHits := mg_droppedHits m2 + 1\<rparr> else m2) in
            fold (retire_if_done env now) counted (resumeWithFallback [] None (sy\<lparr>sy_manager := m3\<rparr>))
        | (bucket, True) \<Rightarrow>
            let m1 = fold (\<lambda>r. set_object r (\<lambda>i. i\<lparr>ip_pending := ip_pending i + 1\<rparr>)) rs (m\<lparr>mg_rateLimiter := bucket\<rparr>);
                sy1 = sy\<lparr>sy_manager := m1\<rparr> in
            if list_all (\<lambda>r. bare_counter (ip_definition (mg_objects m ! r))) rs
            then resumeWithFallback rs (Some (mg_epoch m, None, empty_capture)) sy1
            else emit (Capturing rs (mg_epoch m)) sy1))"

text \<open>The deferred end of a pause.\<close>

definition process_candidate :: "manager_env \<Rightarrow> int \<Rightarrow> string option \<Rightarrow> raw_capture \<Rightarrow> ref \<Rightarrow> agent_sys \<Rightarrow> agent_sys" where
  "process_candidate env now err c r sy =
     (let m = sy_manager sy; i = mg_objects m ! r in
      if \<not> ip_active i \<or> jget (mg_installed m) (pd_id (ip_definition i)) \<noteq> Some r then sy
      else (case err of
          Some message \<Rightarrow> on_manager (error env now (ip_definition i) (''inspector-capture: '' @ message)) sy
        | None \<Rightarrow> processHit env now c r sy))"

definition process_pause :: "manager_env \<Rightarrow> int \<Rightarrow> ref list \<Rightarrow> nat \<Rightarrow> string option \<Rightarrow> raw_capture \<Rightarrow> agent_sys \<Rightarrow> agent_sys" where
  "process_pause env now rs epoch err c sy =
     (let sy1 = on_manager (releasePending rs) sy; m = sy_manager sy1 in
      if mg_stopped m \<or> mg_suspended m \<or> mg_inspectorFailed m \<or> epoch \<noteq> mg_epoch m then sy1
      else fold (process_candidate env now err c) rs sy1)"

definition handleResumeFailure :: "manager_env \<Rightarrow> string \<Rightarrow> string \<Rightarrow> string \<Rightarrow> ref list \<Rightarrow> agent_sys \<Rightarrow> agent_sys" where
  "handleResumeFailure env firstError retryError disconnectDetail rs sy =
     (let m = releasePending rs (sy_manager sy) in
      if mg_inspectorFailed m then sy\<lparr>sy_manager := m\<rparr>
      else let installed = jvalues (mg_installed m);
               m1 = fst (clearBreakpointRegistry (m\<lparr>mg_inspectorFailed := True, mg_suspended := True, mg_epoch := mg_epoch m + 1,
                      mg_installed := []\<rparr>));
               m2 = deactivate installed m1;
               detail = ''inspector-resume-failed: '' @ firstError @ ''; retry: '' @ retryError @ ''; '' @ disconnectDetail in
        emit (ReportFailure (map (\<lambda>r. ip_definition (mg_objects m ! r)) installed) detail) (sy\<lparr>sy_manager := m2\<rparr>))"

definition report_failure :: "manager_env \<Rightarrow> int \<Rightarrow> probe_definition list \<Rightarrow> string \<Rightarrow> manager \<Rightarrow> manager" where
  "report_failure env now ps detail m =
     (if mg_stopped m then m
      else if ps = [] then audit (''[liveprobe] PROBE ERROR '' @ safeAuditText detail) m
      else fold (\<lambda>p. error env now p detail) ps m)"

subsection \<open>Runs\<close>

text \<open>The answer to the removal of a breakpoint: \<open>None\<close>, or the error V8 gave.\<close>

fun continue_removal :: "manager_env \<Rightarrow> int \<Rightarrow> string option \<Rightarrow> after_removal \<Rightarrow> agent_sys \<Rightarrow> agent_sys" where
  "continue_removal env now err (ThenAborted p rest) sy = continue_arm env now rest (finish_arm env p sy, True)"
| "continue_removal env now err (ThenNoLocation p requested n rest) sy =
     continue_arm env now rest (finish_arm env p (on_manager (\<lambda>m. settle requested n
       (error env now p (''line-not-found: '' @ pd_file p @ '':'' @ show_int (pd_line p)) m)) sy), True)"
| "continue_removal env now err (ThenReconcile p wanted rest) sy = reconcile_loop env now wanted rest (on_manager (uninstall_audit p) sy)"
| "continue_removal env now err (ThenRemove bs) sy = remove_all bs sy"
| "continue_removal env now err (ThenRetired p) sy =
     (case err of None \<Rightarrow> sy | Some e \<Rightarrow> on_manager (error env now p (''inspector-remove: '' @ e)) sy)"
| "continue_removal env now err ThenNothing sy = sy"

definition answer_removal :: "manager_env \<Rightarrow> int \<Rightarrow> string option \<Rightarrow> string \<Rightarrow> after_removal \<Rightarrow> agent_sys \<Rightarrow> agent_sys" where
  "answer_removal env now err b k sy =
     continue_removal env now err k
       (case err of None \<Rightarrow> sy\<lparr>sy_v8 := remove1 b (sy_v8 sy)\<rparr> | Some _ \<Rightarrow> sy\<lparr>sy_refused := sy_refused sy @ [b]\<rparr>)"

definition resumed :: "ref list \<Rightarrow> (nat \<times> string option \<times> raw_capture) option \<Rightarrow> agent_sys \<Rightarrow> agent_sys" where
  "resumed rs k sy = (case k of None \<Rightarrow> sy | Some (epoch, err, c) \<Rightarrow> emit (Processing rs epoch err c) sy)"

fun is_attempt :: "nat \<Rightarrow> task \<Rightarrow> bool" where
  "is_attempt n (SetBreakpoint k _ _ _ _ _ _) = (k = n)"
| "is_attempt n (RemoveBreakpoint _ (ThenNoLocation _ _ k _)) = (k = n)"
| "is_attempt n _ = False"

text \<open>Takes one task out of those in flight.\<close>

definition without :: "task list \<Rightarrow> task list \<Rightarrow> agent_sys \<Rightarrow> agent_sys" where
  "without before after sy = sy\<lparr>sy_tasks := before @ after\<rparr>"

text \<open>
  The answers.  V8 never hands out the id of a breakpoint it holds; an arm that waits for the attempt of another is
  answered once that attempt is over.
\<close>

inductive answer_step :: "manager_env \<Rightarrow> agent_sys \<Rightarrow> agent_sys \<Rightarrow> bool" for env :: manager_env where
  step_set: "sy_tasks sy = xs @ SetBreakpoint n p script line col requested rest # ys \<Longrightarrow>
    (\<And>b ls. answer = SetOk b ls \<Longrightarrow> b \<notin> set (sy_v8 sy)) \<Longrightarrow>
    answer_step env sy (answer_set env now answer n p script requested rest (without xs ys sy))"
| step_await: "sy_tasks sy = xs @ AwaitArming n p script line col requested rest # ys \<Longrightarrow>
    list_all (\<lambda>t. \<not> is_attempt n t) (sy_tasks sy) \<Longrightarrow>
    answer_step env sy (answer_await env now p script line col requested rest (without xs ys sy))"
| step_removed: "sy_tasks sy = xs @ RemoveBreakpoint b k # ys \<Longrightarrow>
    answer_step env sy (answer_removal env now err b k (without xs ys sy))"
| step_later: "sy_tasks sy = xs @ ArmLater p # ys \<Longrightarrow> answer_step env sy (arm_loop env now [p] (without xs ys sy))"
| step_captured: "sy_tasks sy = xs @ Capturing rs epoch # ys \<Longrightarrow>
    answer_step env sy (resumeWithFallback rs (Some (epoch, err, c)) (without xs ys sy))"
| step_resumed: "sy_tasks sy = xs @ Resuming rs k # ys \<Longrightarrow> answer_step env sy (resumed rs k (without xs ys sy))"
| step_retry: "sy_tasks sy = xs @ Resuming rs k # ys \<Longrightarrow> answer_step env sy (emit (Retrying rs k e) (without xs ys sy))"
| step_retried: "sy_tasks sy = xs @ Retrying rs k e # ys \<Longrightarrow> answer_step env sy (resumed rs k (without xs ys sy))"
| step_failed: "sy_tasks sy = xs @ Retrying rs k e # ys \<Longrightarrow>
    answer_step env sy (handleResumeFailure env e e' detail rs (without xs ys sy))"
| step_process: "sy_tasks sy = xs @ Processing rs epoch err c # ys \<Longrightarrow>
    answer_step env sy (process_pause env now rs epoch err c (without xs ys sy))"
| step_report: "sy_tasks sy = xs @ ReportFailure ps detail # ys \<Longrightarrow>
    answer_step env sy (on_manager (report_failure env now ps detail) (without xs ys sy))"

text \<open>
  The operations of the manager and the answers.  The iteration over the desired probes is live in the source, so a
  loop may also come to a probe that was added to them later: \<open>step_arm\<close>.
\<close>

inductive agent_step :: "manager_env \<Rightarrow> agent_sys \<Rightarrow> agent_sys \<Rightarrow> bool" for env :: manager_env where
  step_reconcile: "agent_step env sy (reconcile env now wanted sy)"
| step_script: "agent_step env sy (onScriptAvailable env now (on_manager (\<lambda>m. m\<lparr>mg_scripts := fst (register (me_scripts env) sid url (mg_scripts m))\<rparr>) sy))"
| step_arm: "p \<in> set (jvalues (mg_desired (sy_manager sy))) \<Longrightarrow> agent_step env sy (arm_loop env now [p] sy)"
| step_suspend: "agent_step env sy (suspendAll env now detail sy)"
| step_rearm: "agent_step env sy (rearm env now sy)"
| step_stop: "agent_step env sy (stopManager sy)"
| step_pause: "agent_step env sy (handlePaused env now bs sy)"
| step_answer: "answer_step env sy sy' \<Longrightarrow> agent_step env sy sy'"

inductive agent_reachable :: "manager_env \<Rightarrow> agent_sys \<Rightarrow> bool" for env :: manager_env where
  agent_init: "agent_reachable env \<lparr>sy_manager = new_manager bucket buffer, sy_tasks = [], sy_v8 = [], sy_refused = []\<rparr>"
| agent_next: "agent_reachable env sy \<Longrightarrow> agent_step env sy sy' \<Longrightarrow> agent_reachable env sy'"

end
