(* ===== verification/Agent_Invariant.thy ===== *)
theory Agent_Invariant
  imports Probe_Manager "HOL-Library.Multiset"
begin

text \<open>
  The invariant of the probe manager over every interleaving of its operations with the answers of
  the inspector: hits stay within their limit, a suspended or stopped manager holds no breakpoint, the
  registry of breakpoints is consistent, every armed probe claims a registered breakpoint, and V8 holds
  exactly the breakpoints that are registered, being removed or refused removal.
\<close>

section \<open>Definitions\<close>

subsection \<open>What is in flight\<close>

fun task_refs :: "task \<Rightarrow> ref list" where
  "task_refs (Capturing rs _) = rs"
| "task_refs (Resuming rs _) = rs"
| "task_refs (Retrying rs _ _) = rs"
| "task_refs (Processing rs _ _ _) = rs"
| "task_refs _ = []"

text \<open>A resume that nothing waits for reserves no hit.\<close>

fun task_ok :: "task \<Rightarrow> bool" where
  "task_ok (Resuming rs None) = (rs = [])"
| "task_ok (Retrying rs None _) = (rs = [])"
| "task_ok _ = True"

definition inflight :: "task list \<Rightarrow> ref \<Rightarrow> nat" where
  "inflight ts r = count_list (concat (map task_refs ts)) r"

text \<open>The breakpoints whose removal has been decided.\<close>

fun removals :: "task \<Rightarrow> string list" where
  "removals (RemoveBreakpoint b (ThenRemove bs)) = b # bs"
| "removals (RemoveBreakpoint b _) = [b]"
| "removals _ = []"

definition removing :: "task list \<Rightarrow> string list" where
  "removing ts = concat (map removals ts)"

text \<open>The probes whose arm is in flight.\<close>

fun arm_id :: "task \<Rightarrow> string list" where
  "arm_id (SetBreakpoint _ p _ _ _ _ _) = [pd_id p]"
| "arm_id (AwaitArming _ p _ _ _ _ _) = [pd_id p]"
| "arm_id (RemoveBreakpoint _ (ThenAborted p _)) = [pd_id p]"
| "arm_id (RemoveBreakpoint _ (ThenNoLocation p _ _ _)) = [pd_id p]"
| "arm_id _ = []"

definition arm_ids :: "task list \<Rightarrow> string list" where
  "arm_ids ts = concat (map arm_id ts)"

subsection \<open>The invariant\<close>

abbreviation limit_of :: "installed_probe \<Rightarrow> int" where
  "limit_of i \<equiv> max 0 (pd_hitLimit (ip_definition i))"

definition hit_ok :: "installed_probe \<Rightarrow> nat \<Rightarrow> bool" where
  "hit_ok i n \<longleftrightarrow> 0 \<le> ip_hits i \<and> ip_hits i \<le> limit_of i \<and>
     (ip_active i \<longrightarrow> ip_pending i = int n \<and> ip_hits i + ip_pending i \<le> limit_of i)"

text \<open>The probes in \<open>S\<close> may have reached their limit and wait to be retired.\<close>

definition hits_inv :: "ref set \<Rightarrow> installed_probe list \<Rightarrow> (string, ref) jsmap \<Rightarrow> task list \<Rightarrow> bool" where
  "hits_inv S objs inst ts \<longleftrightarrow>
     (\<forall>r < length objs. hit_ok (objs ! r) (inflight ts r)) \<and>
     (\<forall>pid r. jget inst pid = Some r \<longrightarrow> r < length objs \<and> pd_id (ip_definition (objs ! r)) = pid \<and>
        (ip_hits (objs ! r) < limit_of (objs ! r) \<or> ip_hits (objs ! r) = 0 \<or> r \<in> S)) \<and>
     (\<forall>t \<in> set ts. task_ok t \<and> distinct (task_refs t) \<and> (\<forall>r \<in> set (task_refs t). r < length objs))"

definition quiet_inv :: "bool \<Rightarrow> bool \<Rightarrow> bool \<Rightarrow> (string, ref) jsmap \<Rightarrow> (string, ref) jsmap \<Rightarrow> bool" where
  "quiet_inv susp stopped failed inst byB \<longleftrightarrow>
     (susp \<or> stopped \<longrightarrow> inst = [] \<and> byB = []) \<and> (failed \<longrightarrow> susp)"

text \<open>Every registered location belongs to a registered holder that lists it.\<close>

definition holders_inv :: "(string, ref) jsmap \<Rightarrow> (string, ref) jsmap \<Rightarrow> breakpoint_holder list \<Rightarrow> bool" where
  "holders_inv byB byL hs \<longleftrightarrow> jwf byB \<and>
     (\<forall>b h. jget byB b = Some h \<longrightarrow> h < length hs \<and> bh_breakpointId (hs ! h) = b) \<and>
     (\<forall>k h. jget byL k = Some h \<longrightarrow> h < length hs \<and> k \<in> set (bh_keys (hs ! h)) \<and>
        jget byB (bh_breakpointId (hs ! h)) = Some h)"

text \<open>Every installed probe claims a registered breakpoint.\<close>

definition armed_inv :: "(string, ref) jsmap \<Rightarrow> installed_probe list \<Rightarrow> (string, ref) jsmap \<Rightarrow> breakpoint_holder list \<Rightarrow> bool" where
  "armed_inv inst objs byB hs \<longleftrightarrow> (\<forall>pid r. jget inst pid = Some r \<longrightarrow>
     (\<exists>h. jget byB (ip_breakpointId (objs ! r)) = Some h \<and> pid \<in> set (bh_probeIds (hs ! h))))"

text \<open>A probe is armed by one arm at a time, and not while it is installed.\<close>

definition arming_inv :: "string list \<Rightarrow> (string, ref) jsmap \<Rightarrow> task list \<Rightarrow> bool" where
  "arming_inv installing inst ts \<longleftrightarrow> distinct (arm_ids ts) \<and> set (arm_ids ts) \<subseteq> set installing \<and>
     (\<forall>pid \<in> set installing. jget inst pid = None)"

text \<open>The breakpoints of V8 are those registered, those being removed and those it would not remove.\<close>

definition v8_inv :: "bool \<Rightarrow> (string, ref) jsmap \<Rightarrow> task list \<Rightarrow> string list \<Rightarrow> string list \<Rightarrow> bool" where
  "v8_inv failed byB ts v8 refused \<longleftrightarrow> failed \<or>
     distinct v8 \<and> mset v8 = mset (jkeys byB) + mset (removing ts) + mset refused"

definition sys_inv :: "ref set \<Rightarrow> agent_sys \<Rightarrow> bool" where
  "sys_inv S sy \<longleftrightarrow> (let m = sy_manager sy; ts = sy_tasks sy in
     hits_inv S (mg_objects m) (mg_installed m) ts \<and>
     quiet_inv (mg_suspended m) (mg_stopped m) (mg_inspectorFailed m) (mg_installed m) (mg_byBreakpoint m) \<and>
     holders_inv (mg_byBreakpoint m) (mg_byLocation m) (mg_holders m) \<and>
     armed_inv (mg_installed m) (mg_objects m) (mg_byBreakpoint m) (mg_holders m) \<and>
     arming_inv (mg_installing m) (mg_installed m) ts \<and>
     v8_inv (mg_inspectorFailed m) (mg_byBreakpoint m) ts (sy_v8 sy) (sy_refused sy))"

abbreviation agent_inv :: "agent_sys \<Rightarrow> bool" where
  "agent_inv \<equiv> sys_inv {}"

text \<open>The arm of \<open>p\<close> is running: no other is in flight for it.\<close>

definition arming :: "probe_definition \<Rightarrow> agent_sys \<Rightarrow> bool" where
  "arming p sy \<longleftrightarrow> pd_id p \<in> set (mg_installing (sy_manager sy)) \<and> pd_id p \<notin> set (arm_ids (sy_tasks sy))"

subsection \<open>A sample run\<close>

definition sample_manager_env :: manager_env where
  "sample_manager_env = \<lparr>me_scripts = \<lparr>se_fileURLToPath = Some, se_decodeURIComponent = Some, se_localeCompare = (\<lambda>_ _. 0)\<rparr>,
     me_bytesOf = (\<lambda>_. 1), me_numText = (\<lambda>_. []), me_fingerprint = pd_id, me_config = DEFAULT_SERIALIZER_CONFIG\<rparr>"

definition sample_counter :: probe_definition where
  "sample_counter = \<lparr>pd_id = ''p1'', pd_serviceId = ''pay'', pd_sourceCommit = None, pd_file = ''a.ts'',
     pd_line = 3, pd_runtime = None, pd_condition = None, pd_conditionExpression = None,
     pd_ttlSeconds = 60, pd_hitLimit = 2, pd_version = 1, pd_createdBy = ''me'', pd_body = CounterProbe\<rparr>"

definition sample_script :: registered_script where
  "sample_script = \<lparr>rs_scriptId = ''7'', rs_url = ''a.ts'', rs_path = ''a.ts''\<rparr>"

definition sample_loaded :: agent_sys where
  "sample_loaded = \<lparr>sy_manager = (new_manager (int_bucket 5 5 0) \<lparr>eb_maxBytes = 100, eb_events = [], eb_bytes = 0, eb_dropped = 0\<rparr>)
     \<lparr>mg_scripts := [(''7'', sample_script)]\<rparr>, sy_tasks = [], sy_v8 = [], sy_refused = []\<rparr>"

definition sample_requested :: agent_sys where
  "sample_requested = reconcile sample_manager_env 0 [sample_counter] sample_loaded"

definition sample_armed :: agent_sys where
  "sample_armed = answer_set sample_manager_env 0 (SetOk ''b1'' [\<lparr>rv_scriptId = None, rv_lineNumber = Some 2, rv_columnNumber = Some 4\<rparr>])
     0 sample_counter sample_script ''7:2:0'' [] (without [] [] sample_requested)"



definition sample_suspended :: agent_sys where
  "sample_suspended = suspendAll sample_manager_env 0 ''heap'' sample_armed"

definition sample_stopped :: agent_sys where
  "sample_stopped = answer_removal sample_manager_env 0 None ''b1'' ThenNothing (without [] [] (stopManager sample_armed))"

abbreviation switch_off :: "installed_probe \<Rightarrow> installed_probe" where
  "switch_off i \<equiv> i\<lparr>ip_active := False, ip_pending := 0\<rparr>"

definition removal_chain :: "string list \<Rightarrow> task list" where
  "removal_chain bs = (case bs of [] \<Rightarrow> [] | b # rest \<Rightarrow> [RemoveBreakpoint b (ThenRemove rest)])"

abbreviation settled :: "string option \<Rightarrow> string \<Rightarrow> agent_sys \<Rightarrow> agent_sys" where
  "settled err b sy \<equiv>
     (case err of None \<Rightarrow> sy\<lparr>sy_v8 := remove1 b (sy_v8 sy)\<rparr> | Some _ \<Rightarrow> sy\<lparr>sy_refused := sy_refused sy @ [b]\<rparr>)"

text \<open>A hit that was reserved is given back: what it leaves is room for one more.\<close>

definition slack :: "ref list \<Rightarrow> agent_sys \<Rightarrow> bool" where
  "slack rs sy \<longleftrightarrow> (\<forall>r \<in> set rs. r < length (mg_objects (sy_manager sy)) \<and>
     (ip_active (mg_objects (sy_manager sy) ! r) \<longrightarrow>
        ip_hits (mg_objects (sy_manager sy) ! r) + ip_pending (mg_objects (sy_manager sy) ! r) < limit_of (mg_objects (sy_manager sy) ! r)))"

definition sample_claimed :: manager where
  "sample_claimed = (sy_manager sample_requested)\<lparr>mg_arming := [], mg_byBreakpoint := [(''b1'', 0)],
     mg_byLocation := [(''7:2:0'', 0), (''7:2:4'', 0)],
     mg_holders := [\<lparr>bh_breakpointId = ''b1'', bh_keys = [''7:2:0'', ''7:2:4''], bh_probeIds = [''p1'']\<rparr>]\<rparr>"

section \<open>Lemmas\<close>

subsection \<open>Lists of tasks\<close>

lemma inflight_simps [simp]:
  "inflight [] r = 0"
  "inflight (t # ts) r = count_list (task_refs t) r + inflight ts r"
  "inflight (ts @ us) r = inflight ts r + inflight us r"
  by (simp_all add: inflight_def)

lemma removing_simps [simp]:
  "removing [] = []" "removing (t # ts) = removals t @ removing ts" "removing (ts @ us) = removing ts @ removing us"
  by (simp_all add: removing_def)

lemma arm_ids_simps [simp]:
  "arm_ids [] = []" "arm_ids (t # ts) = arm_id t @ arm_ids ts" "arm_ids (ts @ us) = arm_ids ts @ arm_ids us"
  by (simp_all add: arm_ids_def)

subsection \<open>What reports leave alone\<close>

lemma audit_fields [simp]:
  "mg_objects (audit l m) = mg_objects m" "mg_installed (audit l m) = mg_installed m"
  "mg_byBreakpoint (audit l m) = mg_byBreakpoint m" "mg_byLocation (audit l m) = mg_byLocation m"
  "mg_holders (audit l m) = mg_holders m" "mg_installing (audit l m) = mg_installing m"
  "mg_suspended (audit l m) = mg_suspended m" "mg_stopped (audit l m) = mg_stopped m"
  "mg_inspectorFailed (audit l m) = mg_inspectorFailed m" "mg_desired (audit l m) = mg_desired m"
  by (simp_all add: audit_def)

lemma add_event_fields [simp]:
  "mg_objects (add_event env e m) = mg_objects m" "mg_installed (add_event env e m) = mg_installed m"
  "mg_byBreakpoint (add_event env e m) = mg_byBreakpoint m" "mg_byLocation (add_event env e m) = mg_byLocation m"
  "mg_holders (add_event env e m) = mg_holders m" "mg_installing (add_event env e m) = mg_installing m"
  "mg_suspended (add_event env e m) = mg_suspended m" "mg_stopped (add_event env e m) = mg_stopped m"
  "mg_inspectorFailed (add_event env e m) = mg_inspectorFailed m" "mg_desired (add_event env e m) = mg_desired m"
  by (simp_all add: add_event_def)

lemma status_fields [simp]:
  "mg_objects (status env now pid s d m) = mg_objects m" "mg_installed (status env now pid s d m) = mg_installed m"
  "mg_byBreakpoint (status env now pid s d m) = mg_byBreakpoint m" "mg_byLocation (status env now pid s d m) = mg_byLocation m"
  "mg_holders (status env now pid s d m) = mg_holders m" "mg_installing (status env now pid s d m) = mg_installing m"
  "mg_suspended (status env now pid s d m) = mg_suspended m" "mg_stopped (status env now pid s d m) = mg_stopped m"
  "mg_inspectorFailed (status env now pid s d m) = mg_inspectorFailed m" "mg_desired (status env now pid s d m) = mg_desired m"
  by (simp_all add: status_def)

lemma error_fields [simp]:
  "mg_objects (error env now p d m) = mg_objects m" "mg_installed (error env now p d m) = mg_installed m"
  "mg_byBreakpoint (error env now p d m) = mg_byBreakpoint m" "mg_byLocation (error env now p d m) = mg_byLocation m"
  "mg_holders (error env now p d m) = mg_holders m" "mg_installing (error env now p d m) = mg_installing m"
  "mg_suspended (error env now p d m) = mg_suspended m" "mg_stopped (error env now p d m) = mg_stopped m"
  "mg_inspectorFailed (error env now p d m) = mg_inspectorFailed m" "mg_desired (error env now p d m) = mg_desired m"
  by (simp_all add: error_def Let_def)

lemma settle_fields [simp]:
  "mg_objects (settle k n m) = mg_objects m" "mg_installed (settle k n m) = mg_installed m"
  "mg_byBreakpoint (settle k n m) = mg_byBreakpoint m" "mg_byLocation (settle k n m) = mg_byLocation m"
  "mg_holders (settle k n m) = mg_holders m" "mg_installing (settle k n m) = mg_installing m"
  "mg_suspended (settle k n m) = mg_suspended m" "mg_stopped (settle k n m) = mg_stopped m"
  "mg_inspectorFailed (settle k n m) = mg_inspectorFailed m" "mg_desired (settle k n m) = mg_desired m"
  by (simp_all add: settle_def)

lemma set_object_fields [simp]:
  "mg_installed (set_object r f m) = mg_installed m" "mg_byBreakpoint (set_object r f m) = mg_byBreakpoint m"
  "mg_byLocation (set_object r f m) = mg_byLocation m" "mg_holders (set_object r f m) = mg_holders m"
  "mg_installing (set_object r f m) = mg_installing m" "mg_suspended (set_object r f m) = mg_suspended m"
  "mg_stopped (set_object r f m) = mg_stopped m" "mg_inspectorFailed (set_object r f m) = mg_inspectorFailed m"
  "mg_desired (set_object r f m) = mg_desired m" "length (mg_objects (set_object r f m)) = length (mg_objects m)"
  by (simp_all add: set_object_def)

lemma set_holder_fields [simp]:
  "mg_installed (set_holder r f m) = mg_installed m" "mg_byBreakpoint (set_holder r f m) = mg_byBreakpoint m"
  "mg_byLocation (set_holder r f m) = mg_byLocation m" "mg_objects (set_holder r f m) = mg_objects m"
  "mg_installing (set_holder r f m) = mg_installing m" "mg_suspended (set_holder r f m) = mg_suspended m"
  "mg_stopped (set_holder r f m) = mg_stopped m" "mg_inspectorFailed (set_holder r f m) = mg_inspectorFailed m"
  "mg_desired (set_holder r f m) = mg_desired m" "length (mg_holders (set_holder r f m)) = length (mg_holders m)"
  by (simp_all add: set_holder_def)

lemma sys_emit [simp]:
  "sy_manager (emit t sy) = sy_manager sy" "sy_tasks (emit t sy) = sy_tasks sy @ [t]"
  "sy_v8 (emit t sy) = sy_v8 sy" "sy_refused (emit t sy) = sy_refused sy"
  by (simp_all add: emit_def)

lemma sys_on_manager [simp]:
  "sy_manager (on_manager f sy) = f (sy_manager sy)" "sy_tasks (on_manager f sy) = sy_tasks sy"
  "sy_v8 (on_manager f sy) = sy_v8 sy" "sy_refused (on_manager f sy) = sy_refused sy"
  by (simp_all add: on_manager_def)

lemma sys_without [simp]:
  "sy_manager (without xs ys sy) = sy_manager sy" "sy_tasks (without xs ys sy) = xs @ ys"
  "sy_v8 (without xs ys sy) = sy_v8 sy" "sy_refused (without xs ys sy) = sy_refused sy"
  by (simp_all add: without_def)

lemma nth_set_object:
  "r < length (mg_objects m) \<Longrightarrow> mg_objects (set_object q f m) ! r = (if r = q then f (mg_objects m ! r) else mg_objects m ! r)"
  by (simp add: set_object_def nth_list_update)

lemma nth_set_holder:
  "r < length (mg_holders m) \<Longrightarrow> mg_holders (set_holder q f m) ! r = (if r = q then f (mg_holders m ! r) else mg_holders m ! r)"
  by (simp add: set_holder_def nth_list_update)

subsection \<open>The registry of breakpoints\<close>

lemma holdersI:
  assumes "jwf byB" and "\<And>b h. jget byB b = Some h \<Longrightarrow> h < length hs \<and> bh_breakpointId (hs ! h) = b"
    and "\<And>k h. jget byL k = Some h \<Longrightarrow>
      h < length hs \<and> k \<in> set (bh_keys (hs ! h)) \<and> jget byB (bh_breakpointId (hs ! h)) = Some h"
  shows "holders_inv byB byL hs"
  using assms unfolding holders_inv_def by blast

lemma holdersD:
  assumes "holders_inv byB byL hs"
  shows "jwf byB" and "jget byB b = Some h \<Longrightarrow> h < length hs \<and> bh_breakpointId (hs ! h) = b"
    and "jget byL k = Some h \<Longrightarrow> h < length hs \<and> k \<in> set (bh_keys (hs ! h)) \<and> jget byB (bh_breakpointId (hs ! h)) = Some h"
  using assms unfolding holders_inv_def by blast+

lemma holders_relabel:
  assumes "length hs' = length hs" and "\<And>r. r < length hs \<Longrightarrow> bh_breakpointId (hs' ! r) = bh_breakpointId (hs ! r)"
    and "\<And>r. r < length hs \<Longrightarrow> bh_keys (hs' ! r) = bh_keys (hs ! r)" and inv: "holders_inv byB byL hs"
  shows "holders_inv byB byL hs'"
  by (rule holdersI) (use assms(1-3) holdersD [OF inv] in auto)

lemma holders_claim: "holders_inv byB byL (mg_holders m) \<Longrightarrow> holders_inv byB byL (mg_holders (claim pid h m))"
  by (rule holders_relabel) (simp_all add: claim_def nth_set_holder)

lemma holders_disclaim: "holders_inv byB byL (mg_holders m) \<Longrightarrow> holders_inv byB byL (mg_holders (disclaim pid h m))"
  by (rule holders_relabel) (simp_all add: disclaim_def nth_set_holder)

lemma holders_empty [simp]: "holders_inv [] [] hs"
  by (simp add: holders_inv_def)

lemma no_locations: "holders_inv [] byL hs \<Longrightarrow> byL = []"
  by (cases byL) (auto simp: holders_inv_def split: if_splits)

lemma unlisted: "jget (fold (\<lambda>k l. if jget l k = Some r then jdel k l else l) ks l) k =
    (if k \<in> set ks \<and> jget l k = Some r then None else jget l k)"
  by (induction ks arbitrary: l) auto

lemma holders_release:
  assumes inv: "holders_inv byB byL hs" and h: "jget byB (bh_breakpointId (hs ! h)) = Some h"
  shows "holders_inv (jdel (bh_breakpointId (hs ! h)) byB)
     (fold (\<lambda>k l. if jget l k = Some h then jdel k l else l) (bh_keys (hs ! h)) byL) hs"
proof (rule holdersI, goal_cases)
  case 1 then show ?case using holdersD(1) [OF inv] by simp
next
  case (2 b g) then show ?case using holdersD(2) [OF inv] by (simp split: if_splits)
next
  case (3 k g)
  then have g: "jget byL k = Some g" "\<not> (k \<in> set (bh_keys (hs ! h)) \<and> g = h)" by (auto simp: unlisted split: if_splits)
  note g' = holdersD(3) [OF inv g(1)]
  then have "bh_breakpointId (hs ! g) \<noteq> bh_breakpointId (hs ! h)" using g(2) h by auto
  then show ?case using g' by simp
qed

lemma holders_add:
  assumes inv: "holders_inv byB byL hs" and new: "\<not> jhas byB b" and x: "bh_breakpointId x = b"
    and byL': "\<And>k. jget byL' k = (if k \<in> set (bh_keys x) then Some (length hs) else jget byL k)"
  shows "holders_inv (jset b (length hs) byB) byL' (hs @ [x])"
proof (rule holdersI, goal_cases)
  case 1 then show ?case using holdersD(1) [OF inv] by simp
next
  case (2 c g) then show ?case using holdersD(2) [OF inv, of c g] x by (auto simp: nth_append split: if_splits)
next
  case (3 k g)
  show ?case
  proof (cases "k \<in> set (bh_keys x)")
    case True then show ?thesis using 3 byL' x by (auto simp: nth_append)
  next
    case False
    then have g: "jget byL k = Some g" using 3 byL' by simp
    note g' = holdersD(3) [OF inv g]
    then have "bh_breakpointId (hs ! g) \<noteq> b" using new by (auto simp: jhas_def)
    then show ?thesis using g' by (simp add: nth_append)
  qed
qed

lemma claims_set_holder:
  "h < length (mg_holders m) \<Longrightarrow> (pid \<in> set (bh_probeIds (mg_holders (claim q c m) ! h))) =
     (pid \<in> set (bh_probeIds (mg_holders m ! h)) \<or> h = c \<and> pid = q)"
  "h < length (mg_holders m) \<Longrightarrow> (pid \<in> set (bh_probeIds (mg_holders (disclaim q c m) ! h))) =
     (pid \<in> set (bh_probeIds (mg_holders m ! h)) \<and> \<not> (h = c \<and> pid = q))"
  by (auto simp: claim_def disclaim_def nth_set_holder)

lemma armed_claim:
  "holders_inv byB byL (mg_holders m) \<Longrightarrow> armed_inv inst objs byB (mg_holders m) \<Longrightarrow> armed_inv inst objs byB (mg_holders (claim q c m))"
  unfolding armed_inv_def by (metis claims_set_holder(1) holdersD(2))

lemma armed_disclaim:
  assumes "holders_inv byB byL (mg_holders m)" "armed_inv inst objs byB (mg_holders m)" "jget inst q = None"
  shows "armed_inv inst objs byB (mg_holders (disclaim q c m))"
proof -
  have "\<exists>h. jget byB (ip_breakpointId (objs ! r)) = Some h \<and> pid \<in> set (bh_probeIds (mg_holders (disclaim q c m) ! h))"
    if r: "jget inst pid = Some r" for pid r
  proof -
    obtain h where h: "jget byB (ip_breakpointId (objs ! r)) = Some h" "pid \<in> set (bh_probeIds (mg_holders m ! h))"
      using assms(2) r unfolding armed_inv_def by blast
    then have "h < length (mg_holders m)" using holdersD(2) [OF assms(1)] by simp
    moreover have "pid \<noteq> q" using r assms(3) by auto
    ultimately show ?thesis using h by (auto simp: claims_set_holder)
  qed
  then show ?thesis by (simp add: armed_inv_def)
qed

lemma armed_release:
  assumes "armed_inv inst objs byB hs" "bh_probeIds (hs ! h) = []" "jget byB b = Some h"
  shows "armed_inv inst objs (jdel b byB) hs"
  using assms unfolding armed_inv_def by (metis empty_iff jget_jdel list.set(1) option.inject)

lemma armed_uninstalled: "armed_inv inst objs byB hs \<Longrightarrow> armed_inv (jdel pid inst) objs byB hs"
  by (simp add: armed_inv_def)

lemma armed_nothing [simp]: "armed_inv [] objs byB hs"
  by (simp add: armed_inv_def)

lemma mset_jkeys_jdel: "jwf m \<Longrightarrow> jget m k = Some v \<Longrightarrow> mset (jkeys m) = add_mset k (mset (jkeys (jdel k m)))"
proof (induction m)
  case (Cons p m)
  show ?case
  proof (cases "fst p = k")
    case True
    then have "filter (\<lambda>q. fst q \<noteq> k) m = m" using Cons.prems(1) by (auto simp: filter_id_conv image_iff)
    then show ?thesis using True by (simp add: jdel_filter)
  next
    case False
    then show ?thesis using Cons by (cases p) (simp add: jdel_filter)
  qed
qed simp

lemma v8_release:
  assumes "v8_inv failed byB ts v8 refused" "jwf byB" "jget byB b = Some h" "removals t = [b]"
  shows "v8_inv failed (jdel b byB) (ts @ [t]) v8 refused"
  using assms mset_jkeys_jdel [OF assms(2,3)] by (auto simp: v8_inv_def)

subsection \<open>Hits\<close>

lemma hits_emit:
  "hits_inv S objs inst ts \<Longrightarrow> task_refs t = [] \<Longrightarrow> task_ok t \<Longrightarrow> hits_inv S objs inst (ts @ [t])"
  by (simp add: hits_inv_def)

lemma hits_uninstalled: "hits_inv S objs inst ts \<Longrightarrow> hits_inv S objs (jdel pid inst) ts"
  by (auto simp: hits_inv_def split: if_splits)

lemma hits_nothing: "hits_inv S objs inst ts \<Longrightarrow> hits_inv T objs [] ts"
  by (simp add: hits_inv_def)

lemma hits_mono: "hits_inv S objs inst ts \<Longrightarrow> S \<subseteq> T \<Longrightarrow> hits_inv T objs inst ts"
  by (auto simp: hits_inv_def)

lemma hits_switch_off:
  "hits_inv S (mg_objects m) inst ts \<Longrightarrow> hits_inv S (mg_objects (set_object r switch_off m)) inst ts"
  by (auto simp: hits_inv_def nth_set_object hit_ok_def)

lemma armed_set_object:
  assumes "\<And>x. ip_breakpointId (f x) = ip_breakpointId x" and "hits_inv S (mg_objects m) inst ts"
  shows "armed_inv inst (mg_objects (set_object r f m)) byB hs = armed_inv inst (mg_objects m) byB hs"
proof -
  have "q < length (mg_objects m) \<Longrightarrow> ip_breakpointId (mg_objects (set_object r f m) ! q) = ip_breakpointId (mg_objects m ! q)" for q
    using assms(1) by (simp add: nth_set_object)
  then show ?thesis using assms(2) by (auto simp: armed_inv_def hits_inv_def)
qed

subsection \<open>The arm of a probe\<close>

lemmas sys_parts = sys_inv_def Let_def

lemma sys_emit_neutral:
  "task_refs t = [] \<Longrightarrow> task_ok t \<Longrightarrow> removals t = [] \<Longrightarrow> arm_id t = [] \<Longrightarrow> sys_inv S (emit t sy) = sys_inv S sy"
  by (simp add: sys_parts hits_inv_def arming_inv_def v8_inv_def)

lemma sys_emit_arm:
  assumes "sys_inv S sy" "arming p sy" "task_refs t = []" "task_ok t" "removals t = []" "arm_id t = [pd_id p]"
  shows "sys_inv S (emit t sy)"
  using assms by (auto simp: sys_parts hits_emit arming_inv_def v8_inv_def arming_def)

lemma sys_end_arm:
  assumes "sys_inv S sy" "pd_id p \<notin> set (arm_ids (sy_tasks sy))"
  shows "sys_inv S (sy\<lparr>sy_manager := (sy_manager sy)\<lparr>mg_installing := filter (\<lambda>q. q \<noteq> pd_id p) (mg_installing (sy_manager sy))\<rparr>\<rparr>)"
  using assms by (auto simp: sys_parts arming_inv_def)

lemma sys_finish_arm:
  assumes "sys_inv S sy" "pd_id p \<notin> set (arm_ids (sy_tasks sy))"
  shows "sys_inv S (finish_arm env p sy)"
  using sys_end_arm [OF assms] by (simp add: finish_arm_def Let_def sys_emit_neutral split: option.split)

lemma claim_fields [simp]:
  "mg_installed (claim pid h m) = mg_installed m" "mg_byBreakpoint (claim pid h m) = mg_byBreakpoint m"
  "mg_byLocation (claim pid h m) = mg_byLocation m" "mg_objects (claim pid h m) = mg_objects m"
  "mg_installing (claim pid h m) = mg_installing m" "mg_suspended (claim pid h m) = mg_suspended m"
  "mg_stopped (claim pid h m) = mg_stopped m" "mg_inspectorFailed (claim pid h m) = mg_inspectorFailed m"
  "mg_desired (claim pid h m) = mg_desired m" "length (mg_holders (claim pid h m)) = length (mg_holders m)"
  by (simp_all add: claim_def)

lemma disclaim_fields [simp]:
  "mg_installed (disclaim pid h m) = mg_installed m" "mg_byBreakpoint (disclaim pid h m) = mg_byBreakpoint m"
  "mg_byLocation (disclaim pid h m) = mg_byLocation m" "mg_objects (disclaim pid h m) = mg_objects m"
  "mg_installing (disclaim pid h m) = mg_installing m" "mg_suspended (disclaim pid h m) = mg_suspended m"
  "mg_stopped (disclaim pid h m) = mg_stopped m" "mg_inspectorFailed (disclaim pid h m) = mg_inspectorFailed m"
  "mg_desired (disclaim pid h m) = mg_desired m" "length (mg_holders (disclaim pid h m)) = length (mg_holders m)"
  by (simp_all add: disclaim_def)

lemma sys_claim: "sys_inv S sy \<Longrightarrow> sys_inv S (sy\<lparr>sy_manager := claim pid h (sy_manager sy)\<rparr>)"
  by (auto simp: sys_parts intro: holders_claim armed_claim)

lemma sys_disclaim:
  "sys_inv S sy \<Longrightarrow> jget (mg_installed (sy_manager sy)) pid = None \<Longrightarrow> sys_inv S (sy\<lparr>sy_manager := disclaim pid h (sy_manager sy)\<rparr>)"
  by (auto simp: sys_parts intro: holders_disclaim armed_disclaim)

lemma releaseHolder_None: "releaseHolder h m = (m1, None) \<Longrightarrow> m1 = m"
  by (auto simp: releaseHolder_def Let_def split: if_splits)

lemma sys_release:
  assumes inv: "sys_inv S sy" and rel: "releaseHolder h (sy_manager sy) = (m1, Some b)"
    and k: "removals (RemoveBreakpoint b k) = [b]"
      "arm_id (RemoveBreakpoint b k) = [] \<or> (\<exists>p. arm_id (RemoveBreakpoint b k) = [pd_id p] \<and> arming p sy)"
  shows "sys_inv S (emit (RemoveBreakpoint b k) (sy\<lparr>sy_manager := m1\<rparr>))"
proof -
  let ?m = "sy_manager sy"
  have b: "bh_probeIds (mg_holders ?m ! h) = []" "b = bh_breakpointId (mg_holders ?m ! h)" "jget (mg_byBreakpoint ?m) b = Some h"
    and m1: "m1 = ?m\<lparr>mg_byBreakpoint := jdel b (mg_byBreakpoint ?m), mg_byLocation :=
        fold (\<lambda>k l. if jget l k = Some h then jdel k l else l) (bh_keys (mg_holders ?m ! h)) (mg_byLocation ?m)\<rparr>"
    using rel by (auto simp: releaseHolder_def Let_def split: if_splits)
  have "arming_inv (mg_installing ?m) (mg_installed ?m) (sy_tasks sy @ [RemoveBreakpoint b k])"
    using inv k(2) by (auto simp: sys_parts arming_inv_def arming_def)
  moreover have "v8_inv (mg_inspectorFailed ?m) (jdel b (mg_byBreakpoint ?m)) (sy_tasks sy @ [RemoveBreakpoint b k]) (sy_v8 sy) (sy_refused sy)"
    using inv b(3) k(1) by (auto simp: sys_parts holdersD(1) intro: v8_release)
  moreover have "armed_inv (mg_installed ?m) (mg_objects ?m) (jdel b (mg_byBreakpoint ?m)) (mg_holders ?m)"
    using inv b by (auto simp: sys_parts intro: armed_release)
  moreover have "holders_inv (mg_byBreakpoint m1) (mg_byLocation m1) (mg_holders ?m)"
    using inv holders_release b(2,3) by (simp add: sys_parts m1)
  ultimately show ?thesis
    using inv by (auto simp: sys_parts m1 hits_emit quiet_inv_def)
qed

lemma releaseHolder_v8: "releaseHolder h m = (m1, Some b) \<Longrightarrow> jget (mg_byBreakpoint m) b = Some h"
  by (auto simp: releaseHolder_def Let_def split: if_splits)

text \<open>A probe is installed on a registered holder that already counts it, and its arm ends.\<close>

lemma install_fields [simp]:
  "mg_objects (install env now p s h m) = mg_objects m @ [\<lparr>ip_active = True, ip_breakpointId = bh_breakpointId (mg_holders m ! h),
     ip_definition = p, ip_fingerprint = me_fingerprint env p, ip_hits = 0, ip_pending = 0, ip_scriptId = rs_scriptId s\<rparr>]"
  "mg_installed (install env now p s h m) = jset (pd_id p) (length (mg_objects m)) (mg_installed m)"
  "mg_byBreakpoint (install env now p s h m) = mg_byBreakpoint m" "mg_byLocation (install env now p s h m) = mg_byLocation m"
  "mg_holders (install env now p s h m) = mg_holders m" "mg_installing (install env now p s h m) = mg_installing m"
  "mg_suspended (install env now p s h m) = mg_suspended m" "mg_stopped (install env now p s h m) = mg_stopped m"
  "mg_inspectorFailed (install env now p s h m) = mg_inspectorFailed m"
  by (simp_all add: install_def)

lemma unknown_ref: "hits_inv S objs inst ts \<Longrightarrow> inflight ts (length objs) = 0"
  by (auto simp: hits_inv_def inflight_def count_list_0_iff)

lemma hits_install:
  assumes "hits_inv S objs inst ts" "ip_hits x = 0" "ip_pending x = 0" "pd_id (ip_definition x) = pid"
  shows "hits_inv S (objs @ [x]) (jset pid (length objs) inst) ts"
  using assms unknown_ref [OF assms(1)]
  by (auto simp: hits_inv_def nth_append less_Suc_eq hit_ok_def split: if_splits)

lemma armed_install:
  assumes "hits_inv S objs inst ts" "armed_inv inst objs byB hs" "jget byB (ip_breakpointId x) = Some h" "pid \<in> set (bh_probeIds (hs ! h))"
  shows "armed_inv (jset pid (length objs) inst) (objs @ [x]) byB hs"
  using assms by (auto simp: armed_inv_def hits_inv_def nth_append)

lemma sys_install:
  assumes inv: "sys_inv S sy" and p: "arming p sy"
    and h: "jget (mg_byBreakpoint (sy_manager sy)) (bh_breakpointId (mg_holders (sy_manager sy) ! h)) = Some h"
      "pd_id p \<in> set (bh_probeIds (mg_holders (sy_manager sy) ! h))"
    and on: "\<not> mg_suspended (sy_manager sy)" "\<not> mg_stopped (sy_manager sy)"
  shows "sys_inv S (finish_arm env p (sy\<lparr>sy_manager := install env now p s h (sy_manager sy)\<rparr>))"
proof -
  let ?m = "sy_manager sy"
  let ?m1 = "(install env now p s h ?m)\<lparr>mg_installing := filter (\<lambda>q. q \<noteq> pd_id p) (mg_installing ?m)\<rparr>"
  have "arming_inv (mg_installing ?m1) (mg_installed ?m1) (sy_tasks sy)"
    using inv p by (auto simp: sys_parts arming_inv_def arming_def)
  moreover have "hits_inv S (mg_objects ?m1) (mg_installed ?m1) (sy_tasks sy)"
    using inv by (auto simp: sys_parts intro: hits_install)
  moreover have "armed_inv (mg_installed ?m1) (mg_objects ?m1) (mg_byBreakpoint ?m) (mg_holders ?m)"
    using inv h by (auto simp: sys_parts intro: armed_install)
  ultimately have "sys_inv S (sy\<lparr>sy_manager := ?m1\<rparr>)"
    using inv on by (auto simp: sys_parts quiet_inv_def)
  then show ?thesis by (simp add: finish_arm_def Let_def sys_emit_neutral split: option.split)
qed

lemma arming_not_installed:
  "sys_inv S sy \<Longrightarrow> arming p sy \<Longrightarrow> jget (mg_installed (sy_manager sy)) (pd_id p) = None"
  by (simp add: sys_parts arming_inv_def arming_def)

lemma arming_manager: "mg_installing m = mg_installing (sy_manager sy) \<Longrightarrow> arming p (sy\<lparr>sy_manager := m\<rparr>) = arming p sy"
  by (simp add: arming_def)

lemma sys_acquired:
  assumes inv: "sys_inv S sy" and p: "arming p sy"
    and h: "jget (mg_byBreakpoint (sy_manager sy)) (bh_breakpointId (mg_holders (sy_manager sy) ! h)) = Some h"
      "pd_id p \<in> set (bh_probeIds (mg_holders (sy_manager sy) ! h))"
  shows "sys_inv S (fst (acquired env now p s h rest sy))"
proof -
  let ?sy = "sy\<lparr>sy_manager := disclaim (pd_id p) h (sy_manager sy)\<rparr>"
  have d: "sys_inv S ?sy" "arming p ?sy"
    using sys_disclaim [OF inv arming_not_installed [OF inv p]] p by (auto simp: arming_manager)
  obtain m1 ob where rel: "releaseHolder h (sy_manager ?sy) = (m1, ob)" by force
  have "sys_inv S (finish_arm env p (sy\<lparr>sy_manager := m1\<rparr>))" if "ob = None"
    using sys_finish_arm [OF d(1)] releaseHolder_None rel that p by (fastforce simp: arming_def)
  moreover have "sys_inv S (emit (RemoveBreakpoint b (ThenAborted p rest)) (sy\<lparr>sy_manager := m1\<rparr>))" if "ob = Some b" for b
    using sys_release [OF d(1), of h m1 b "ThenAborted p rest"] rel that d(2) by auto
  moreover have "sys_inv S (finish_arm env p (sy\<lparr>sy_manager := install env now p s h (sy_manager sy)\<rparr>))"
    if "\<not> mg_suspended (sy_manager sy)" "\<not> mg_stopped (sy_manager sy)"
    using sys_install [OF inv p h that] .
  ultimately show ?thesis
    using rel by (auto simp: acquired_def Let_def split: option.splits)
qed

lemma sys_acquire_existing:
  assumes inv: "sys_inv S sy" and p: "arming p sy" and k: "jget (mg_byLocation (sy_manager sy)) k = Some h"
  shows "sys_inv S (fst (acquired env now p s h rest (sy\<lparr>sy_manager := claim (pd_id p) h (sy_manager sy)\<rparr>)))"
proof -
  have h: "h < length (mg_holders (sy_manager sy))"
      "jget (mg_byBreakpoint (sy_manager sy)) (bh_breakpointId (mg_holders (sy_manager sy) ! h)) = Some h"
    using inv k holdersD(3) by (auto simp: sys_parts)
  have "bh_breakpointId (mg_holders (claim (pd_id p) h (sy_manager sy)) ! h) = bh_breakpointId (mg_holders (sy_manager sy) ! h)"
    using h(1) by (simp add: claim_def nth_set_holder)
  then show ?thesis
    using p h by (intro sys_acquired sys_claim [OF inv]) (simp_all add: arming_manager claims_set_holder)
qed

lemma sys_start_attempt:
  assumes "sys_inv S sy" "arming p sy"
  shows "sys_inv S (start_attempt p s l c k rest sy)"
proof -
  let ?sy = "sy\<lparr>sy_manager := (sy_manager sy)\<lparr>mg_attempts := mg_attempts (sy_manager sy) + 1,
      mg_arming := jset k (mg_attempts (sy_manager sy)) (mg_arming (sy_manager sy))\<rparr>\<rparr>"
  have "sys_inv S ?sy" "arming p ?sy" using assms by (auto simp: sys_parts arming_def)
  then show ?thesis by (simp add: start_attempt_def Let_def sys_emit_arm)
qed

lemma sys_acquireBreakpoint:
  assumes "sys_inv S sy" "arming p sy"
  shows "sys_inv S (fst (acquireBreakpoint env now p s l c rest sy))"
  using assms sys_acquire_existing [OF assms] sys_start_attempt [OF assms]
  by (auto simp: acquireBreakpoint_def Let_def sys_emit_arm split: option.split)

lemma sys_report: "sys_inv S sy \<Longrightarrow> sys_inv S (sy\<lparr>sy_manager := error env now p d (sy_manager sy)\<rparr>)"
  by (simp add: sys_parts)

lemma sys_ensureArmed:
  assumes inv: "sys_inv S sy"
  shows "sys_inv S (fst (ensureArmed env now p rest sy))"
proof -
  let ?m = "sy_manager sy"
  let ?sy = "sy\<lparr>sy_manager := ?m\<lparr>mg_installing := mg_installing ?m @ [pd_id p]\<rparr>\<rparr>"
  have "sys_inv S ?sy \<and> arming p ?sy" if "\<not> jhas (mg_installed ?m) (pd_id p)" "pd_id p \<notin> set (mg_installing ?m)"
    using inv that by (auto simp: sys_parts arming_inv_def arming_def jhas_def)
  then show ?thesis
    using inv sys_report [OF inv] by (auto simp: ensureArmed_def Let_def sys_acquireBreakpoint split: script_resolution.split)
qed

lemma sys_arm_loop: "sys_inv S sy \<Longrightarrow> sys_inv S (arm_loop env now ps sy)"
proof (induction ps arbitrary: sy)
  case (Cons p ps)
  then show ?case using sys_ensureArmed [OF Cons.prems, of env now p ps] by (auto split: prod.split)
qed simp

lemma sys_continue_arm: "sys_inv S (fst r) \<Longrightarrow> sys_inv S (continue_arm env now rest r)"
  by (auto simp: continue_arm_def sys_arm_loop split: prod.split)

subsection \<open>Answers to a request for a breakpoint\<close>

lemma sys_take_arm:
  assumes "sys_inv S sy" "sy_tasks sy = xs @ t # ys" "task_refs t = []" "removals t = []" "arm_id t = [pd_id p]"
  shows "sys_inv S (without xs ys sy)" "arming p (without xs ys sy)"
  using assms by (auto simp: sys_parts hits_inv_def arming_inv_def v8_inv_def arming_def)

lemma sys_take_neutral:
  assumes "sys_inv S sy" "sy_tasks sy = xs @ t # ys" "task_refs t = []" "removals t = []" "arm_id t = []"
  shows "sys_inv S (without xs ys sy)"
  using assms by (auto simp: sys_parts hits_inv_def arming_inv_def v8_inv_def arming_def)

lemma v8_new:
  "v8_inv failed byB ts v8 refused \<Longrightarrow> b \<notin> set v8 \<Longrightarrow> \<not> jhas byB b \<Longrightarrow> v8_inv failed (jset b h byB) ts (b # v8) refused"
  by (auto simp: v8_inv_def jset_new)

lemma registered_in_v8:
  "quiet_inv susp stopped failed inst byB \<Longrightarrow> v8_inv failed byB ts v8 refused \<Longrightarrow> jhas byB b \<Longrightarrow> b \<in> set v8"
proof -
  assume a: "quiet_inv susp stopped failed inst byB" "v8_inv failed byB ts v8 refused" "jhas byB b"
  then have "\<not> failed" by (auto simp: quiet_inv_def jhas_def)
  then have "set_mset (mset v8) = set_mset (mset (jkeys byB) + mset (removing ts) + mset refused)"
    using a(2) by (simp add: v8_inv_def)
  then show "b \<in> set v8" using a(3) by (auto simp: jhas_iff_key)
qed

lemma add_holder_eq:
  obtains keys l2 where "add_holder sid k b l m = m\<lparr>mg_holders := mg_holders m @ [\<lparr>bh_breakpointId = b, bh_keys = keys, bh_probeIds = []\<rparr>],
      mg_byBreakpoint := jset b (length (mg_holders m)) (mg_byBreakpoint m), mg_byLocation := l2\<rparr>"
    and "\<And>j. jget l2 j = (if j \<in> set keys then Some (length (mg_holders m)) else jget (mg_byLocation m) j)"
proof (cases "resolvedKey sid l")
  case None
  then show ?thesis using that [where keys = "[k]"] by (auto simp: add_holder_def Let_def)
next
  case (Some a)
  show ?thesis
  proof (cases "jhas (jset k (length (mg_holders m)) (mg_byLocation m)) a")
    case True
    then show ?thesis using that [where keys = "[k]"] Some by (auto simp: add_holder_def Let_def simp del: jhas_simps)
  next
    case False
    then show ?thesis using that [where keys = "[k, a]"] Some by (auto simp: add_holder_def Let_def simp del: jhas_simps)
  qed
qed

lemma armed_add:
  assumes hs: "holders_inv byB byL hs" and armed: "armed_inv inst objs byB hs" and new: "\<not> jhas byB b"
  shows "armed_inv inst objs (jset b (length hs) byB) (hs @ [x])"
  unfolding armed_inv_def
proof (intro allI impI)
  fix pid r assume "jget inst pid = Some r"
  then obtain h where h: "jget byB (ip_breakpointId (objs ! r)) = Some h" "pid \<in> set (bh_probeIds (hs ! h))"
    using armed unfolding armed_inv_def by blast
  then have "h < length hs" "ip_breakpointId (objs ! r) \<noteq> b" using holdersD(2) [OF hs h(1)] new by (auto simp: jhas_def)
  then show "\<exists>h. jget (jset b (length hs) byB) (ip_breakpointId (objs ! r)) = Some h \<and> pid \<in> set (bh_probeIds ((hs @ [x]) ! h))"
    using h by (simp add: nth_append)
qed

lemma sys_new_holder:
  assumes inv: "sys_inv S sy" and b: "b \<notin> set (sy_v8 sy)" and on: "\<not> mg_suspended (sy_manager sy)" "\<not> mg_stopped (sy_manager sy)"
  shows "sys_inv S (sy\<lparr>sy_manager := settle j n (add_holder sid k b l (sy_manager sy)), sy_v8 := b # sy_v8 sy\<rparr>)"
proof -
  let ?m = "sy_manager sy"
  have new: "\<not> jhas (mg_byBreakpoint ?m) b" using inv b registered_in_v8 by (auto simp: sys_parts)
  obtain keys l2 where m1: "add_holder sid k b l ?m = ?m\<lparr>mg_holders := mg_holders ?m @ [\<lparr>bh_breakpointId = b, bh_keys = keys, bh_probeIds = []\<rparr>],
        mg_byBreakpoint := jset b (length (mg_holders ?m)) (mg_byBreakpoint ?m), mg_byLocation := l2\<rparr>"
    and l2: "\<And>j. jget l2 j = (if j \<in> set keys then Some (length (mg_holders ?m)) else jget (mg_byLocation ?m) j)"
    by (rule add_holder_eq [of sid k b l ?m]) (rule that)
  have hs: "holders_inv (mg_byBreakpoint ?m) (mg_byLocation ?m) (mg_holders ?m)"
    and armed: "armed_inv (mg_installed ?m) (mg_objects ?m) (mg_byBreakpoint ?m) (mg_holders ?m)"
    using inv by (simp_all add: sys_parts)
  have "holders_inv (jset b (length (mg_holders ?m)) (mg_byBreakpoint ?m)) l2
      (mg_holders ?m @ [\<lparr>bh_breakpointId = b, bh_keys = keys, bh_probeIds = []\<rparr>])"
    using l2 by (intro holders_add [OF hs new]) simp_all
  moreover note armed_add [OF hs armed new]
  moreover have "v8_inv (mg_inspectorFailed ?m) (jset b (length (mg_holders ?m)) (mg_byBreakpoint ?m)) (sy_tasks sy) (b # sy_v8 sy) (sy_refused sy)"
    using inv b new by (auto simp: sys_parts intro: v8_new)
  ultimately show ?thesis
    using inv on by (simp add: sys_parts quiet_inv_def m1)
qed

lemma sys_new_holder_acquired:
  assumes inv: "sys_inv S sy" and b: "b \<notin> set (sy_v8 sy)" and on: "\<not> mg_suspended (sy_manager sy)" "\<not> mg_stopped (sy_manager sy)"
    and p: "arming p sy"
  shows "sys_inv S (fst (acquired env now p s (length (mg_holders (sy_manager sy))) rest
    (sy\<lparr>sy_manager := claim (pd_id p) (length (mg_holders (sy_manager sy))) (settle j n (add_holder sid k b l (sy_manager sy))),
       sy_v8 := b # sy_v8 sy\<rparr>)))" (is "sys_inv S (fst (acquired env now p s ?h rest ?sy))")
proof -
  let ?m = "settle j n (add_holder sid k b l (sy_manager sy))"
  have "sys_inv S ?sy"
    using sys_claim [OF sys_new_holder [OF inv b on, of j n sid k l], of "pd_id p" ?h] by (simp add: sys_parts)
  moreover have hs: "?h < length (mg_holders ?m)" "bh_breakpointId (mg_holders ?m ! ?h) = b"
      "mg_byBreakpoint ?m = jset b ?h (mg_byBreakpoint (sy_manager sy))" "mg_installing ?m = mg_installing (sy_manager sy)"
    by (simp_all add: add_holder_def Let_def split: option.split prod.split)
  moreover have "bh_breakpointId (mg_holders (claim (pd_id p) ?h ?m) ! ?h) = b"
    using hs(1,2) by (simp add: claim_def nth_set_holder)
  ultimately show ?thesis
    using p by (intro sys_acquired) (simp_all add: arming_def claims_set_holder)
qed

lemma quiet_acquired:
  assumes inv: "sys_inv S sy" and b: "b \<notin> set (sy_v8 sy)" and off: "mg_suspended (sy_manager sy) \<or> mg_stopped (sy_manager sy)"
    and p: "arming p sy"
  shows "sys_inv S (fst (acquired env now p s (length (mg_holders (sy_manager sy))) rest
    (sy\<lparr>sy_manager := claim (pd_id p) (length (mg_holders (sy_manager sy))) (settle j n (add_holder sid k b l (sy_manager sy))),
       sy_v8 := b # sy_v8 sy\<rparr>)))" (is "sys_inv S (fst (acquired env now p s ?h rest ?sy))")
proof -
  let ?m = "disclaim (pd_id p) ?h (sy_manager ?sy)"
  have none: "mg_byBreakpoint (sy_manager sy) = []" "mg_installed (sy_manager sy) = []" "mg_byLocation (sy_manager sy) = []"
    using inv off no_locations by (auto simp: sys_parts quiet_inv_def)
  have hs: "bh_breakpointId (mg_holders ?m ! ?h) = b" "bh_probeIds (mg_holders ?m ! ?h) = []" "mg_byBreakpoint ?m = [(b, ?h)]"
      "mg_installing ?m = mg_installing (sy_manager sy)" "mg_objects ?m = mg_objects (sy_manager sy)" "mg_installed ?m = []"
      "mg_suspended ?m = mg_suspended (sy_manager sy)" "mg_stopped ?m = mg_stopped (sy_manager sy)"
      "mg_inspectorFailed ?m = mg_inspectorFailed (sy_manager sy)"
    using none by (simp_all add: add_holder_def claim_def disclaim_def set_holder_def settle_def Let_def split: option.split)
  have byL: "fold (\<lambda>k l. if jget l k = Some ?h then jdel k l else l) (bh_keys (mg_holders ?m ! ?h)) (mg_byLocation ?m) = []"
    using none by (auto simp: add_holder_def claim_def disclaim_def set_holder_def settle_def Let_def split: option.split)
  have "releaseHolder ?h ?m = (?m\<lparr>mg_byBreakpoint := [], mg_byLocation := []\<rparr>, Some b)"
    using hs byL by (simp add: releaseHolder_def Let_def)
  then have "acquired env now p s ?h rest ?sy =
      (emit (RemoveBreakpoint b (ThenAborted p rest)) (?sy\<lparr>sy_manager := ?m\<lparr>mg_byBreakpoint := [], mg_byLocation := []\<rparr>\<rparr>), False)"
    using off hs by (auto simp: acquired_def Let_def)
  moreover have "sys_inv S (emit (RemoveBreakpoint b (ThenAborted p rest)) (?sy\<lparr>sy_manager := ?m\<lparr>mg_byBreakpoint := [], mg_byLocation := []\<rparr>\<rparr>))"
    using inv p b hs none by (auto simp: sys_parts hits_emit quiet_inv_def arming_inv_def arming_def v8_inv_def)
  ultimately show ?thesis by simp
qed

lemma sys_answer_set:
  assumes inv: "sys_inv S sy" and p: "arming p sy" and b: "\<And>b ls. answer = SetOk b ls \<Longrightarrow> b \<notin> set (sy_v8 sy)"
  shows "sys_inv S (answer_set env now answer n p s k rest sy)"
proof (cases answer)
  case (SetFailed e)
  have "sys_inv S (finish_arm env p (sy\<lparr>sy_manager := settle k n (error env now p (''inspector-arm: '' @ e) (sy_manager sy))\<rparr>))"
    using inv p by (intro sys_finish_arm) (auto simp: sys_parts arming_def)
  then show ?thesis by (simp add: answer_set_def SetFailed sys_continue_arm)
next
  case (SetOk b ls)
  note b = b [OF SetOk]
  show ?thesis
  proof (cases ls)
    case Nil
    have "sys_inv S (emit (RemoveBreakpoint b (ThenNoLocation p k n rest)) (sy\<lparr>sy_v8 := b # sy_v8 sy\<rparr>))"
      using inv p b by (auto simp: sys_parts hits_emit arming_inv_def arming_def v8_inv_def)
    then show ?thesis by (simp add: answer_set_def SetOk Nil)
  next
    case (Cons l ls')
    let ?h = "length (mg_holders (sy_manager sy))"
    have "sys_inv S (fst (acquired env now p s ?h rest (sy\<lparr>sy_manager := claim (pd_id p) ?h
        (settle k n (add_holder (rs_scriptId s) k b l (sy_manager sy))), sy_v8 := b # sy_v8 sy\<rparr>)))"
      using sys_new_holder_acquired [OF inv b _ _ p] quiet_acquired [OF inv b _ p] by blast
    then show ?thesis unfolding answer_set_def SetOk Cons Let_def by (simp add: sys_continue_arm)
  qed
qed

lemma sys_answer_await:
  assumes "sys_inv S sy" "arming p sy"
  shows "sys_inv S (answer_await env now p s l c k rest sy)"
  using sys_acquire_existing [OF assms] sys_start_attempt [OF assms]
  by (auto simp: answer_await_def Let_def sys_continue_arm split: option.split)

subsection \<open>Removing probes\<close>

lemma hits_retired:
  assumes "hits_inv S (mg_objects m) inst ts"
  shows "hits_inv (S - {r}) (mg_objects (set_object r switch_off m)) (jdel (pd_id (ip_definition (mg_objects m ! r))) inst) ts"
  using hits_switch_off [OF assms, of r] assms
  by (auto simp: hits_inv_def nth_set_object split: if_splits)

lemma sys_switch_off:
  assumes inv: "sys_inv S sy"
    and m: "mg_objects m = mg_objects (set_object r switch_off (sy_manager sy))"
      "mg_installed m = jdel (pd_id (ip_definition (mg_objects (sy_manager sy) ! r))) (mg_installed (sy_manager sy))"
      "mg_byBreakpoint m = mg_byBreakpoint (sy_manager sy)" "mg_byLocation m = mg_byLocation (sy_manager sy)"
      "mg_holders m = mg_holders (sy_manager sy)" "mg_installing m = mg_installing (sy_manager sy)"
      "mg_suspended m = mg_suspended (sy_manager sy)" "mg_stopped m = mg_stopped (sy_manager sy)"
      "mg_inspectorFailed m = mg_inspectorFailed (sy_manager sy)"
  shows "sys_inv (S - {r}) (sy\<lparr>sy_manager := m\<rparr>)"
proof -
  let ?m = "sy_manager sy"
  have "armed_inv (mg_installed m) (mg_objects m) (mg_byBreakpoint ?m) (mg_holders ?m)"
  proof -
    have h: "hits_inv S (mg_objects ?m) (mg_installed m) (sy_tasks sy)" using inv by (simp add: sys_parts m hits_uninstalled)
    show ?thesis unfolding m(1) using inv by (subst armed_set_object [OF _ h]) (simp_all add: sys_parts m(2) armed_uninstalled)
  qed
  moreover have "hits_inv (S - {r}) (mg_objects m) (mg_installed m) (sy_tasks sy)"
    using inv hits_retired by (simp add: sys_parts m)
  moreover have "quiet_inv (mg_suspended ?m) (mg_stopped ?m) (mg_inspectorFailed ?m) (mg_installed m) (mg_byBreakpoint ?m)"
    using inv by (auto simp: sys_parts m quiet_inv_def)
  ultimately show ?thesis using inv by (auto simp: sys_parts m(3-) arming_inv_def m(2))
qed

lemma object_definition [simp]:
  "pd_id (ip_definition (mg_objects (set_object r switch_off m) ! r)) = pd_id (ip_definition (mg_objects m ! r))"
  by (simp add: set_object_def)

lemma sys_releaseFor:
  assumes inv: "sys_inv S sy" and r: "jget (mg_installed (sy_manager sy)) (pd_id (ip_definition (mg_objects (sy_manager sy) ! r))) = None"
    and rel: "releaseBreakpointFor r (sy_manager sy) = (m1, ob)"
  shows "ob = None \<Longrightarrow> sys_inv S (sy\<lparr>sy_manager := m1\<rparr>)"
    and "ob = Some b \<Longrightarrow> removals (RemoveBreakpoint b k) = [b] \<Longrightarrow> arm_id (RemoveBreakpoint b k) = [] \<Longrightarrow>
      sys_inv S (emit (RemoveBreakpoint b k) (sy\<lparr>sy_manager := m1\<rparr>))"
proof -
  let ?i = "mg_objects (sy_manager sy) ! r"
  let ?sy = "\<lambda>h. sy\<lparr>sy_manager := disclaim (pd_id (ip_definition ?i)) h (sy_manager sy)\<rparr>"
  note d = sys_disclaim [OF inv r]
  { assume "ob = None"
    then show "sys_inv S (sy\<lparr>sy_manager := m1\<rparr>)"
      using rel inv d by (auto simp: releaseBreakpointFor_def Let_def dest!: releaseHolder_None split: option.splits) }
  { assume b: "ob = Some b" "removals (RemoveBreakpoint b k) = [b]" "arm_id (RemoveBreakpoint b k) = []"
    then obtain h where "releaseHolder h (sy_manager (?sy h)) = (m1, Some b)"
      using rel by (auto simp: releaseBreakpointFor_def Let_def split: option.splits)
    from sys_release [OF d this b(2)] b(3) show "sys_inv S (emit (RemoveBreakpoint b k) (sy\<lparr>sy_manager := m1\<rparr>))" by simp }
qed

lemma sys_uninstall:
  assumes inv: "sys_inv S sy" and u: "uninstall r (sy_manager sy) = (m1, ob)"
  shows "ob = None \<Longrightarrow> sys_inv S (sy\<lparr>sy_manager := m1\<rparr>)"
    and "ob = Some b \<Longrightarrow> removals (RemoveBreakpoint b k) = [b] \<Longrightarrow> arm_id (RemoveBreakpoint b k) = [] \<Longrightarrow>
      sys_inv S (emit (RemoveBreakpoint b k) (sy\<lparr>sy_manager := m1\<rparr>))"
proof -
  let ?pid = "pd_id (ip_definition (mg_objects (sy_manager sy) ! r))"
  let ?m1 = "set_object r switch_off (sy_manager sy)"
  let ?m = "?m1\<lparr>mg_installed := jdel ?pid (mg_installed ?m1)\<rparr>"
  have "sys_inv (S - {r}) (sy\<lparr>sy_manager := ?m\<rparr>)"
    by (rule sys_switch_off [OF inv]) simp_all
  then have "sys_inv S (sy\<lparr>sy_manager := ?m\<rparr>)" by (auto simp: sys_parts intro: hits_mono)
  note rel = sys_releaseFor [OF this, of r]
  have "releaseBreakpointFor r ?m = (m1, ob)" using u by (simp add: uninstall_def Let_def)
  then show "ob = None \<Longrightarrow> sys_inv S (sy\<lparr>sy_manager := m1\<rparr>)"
    and "ob = Some b \<Longrightarrow> removals (RemoveBreakpoint b k) = [b] \<Longrightarrow> arm_id (RemoveBreakpoint b k) = [] \<Longrightarrow>
      sys_inv S (emit (RemoveBreakpoint b k) (sy\<lparr>sy_manager := m1\<rparr>))"
    using rel by simp_all
qed

text \<open>Changes of the other fields.\<close>

lemma sys_frame:
  assumes "sys_inv S sy" "mg_objects m = mg_objects (sy_manager sy)" "mg_installed m = mg_installed (sy_manager sy)"
    "mg_byBreakpoint m = mg_byBreakpoint (sy_manager sy)" "mg_byLocation m = mg_byLocation (sy_manager sy)"
    "mg_holders m = mg_holders (sy_manager sy)" "mg_installing m = mg_installing (sy_manager sy)"
    "mg_suspended m = mg_suspended (sy_manager sy)" "mg_stopped m = mg_stopped (sy_manager sy)"
    "mg_inspectorFailed m = mg_inspectorFailed (sy_manager sy)"
  shows "sys_inv S (sy\<lparr>sy_manager := m\<rparr>)"
  using assms by (simp add: sys_parts)

lemma sys_commit:
  assumes "sys_inv S sy" shows "sys_inv S (commit env now wanted sy)"
proof -
  have "sys_inv S (sy\<lparr>sy_manager := (sy_manager sy)\<lparr>mg_exhausted := e, mg_desired := d\<rparr>\<rparr>)" for e d
    by (rule sys_frame [OF assms]) simp_all
  then show ?thesis by (simp add: commit_def Let_def sys_arm_loop)
qed

lemma sys_audit: "sys_inv S (sy\<lparr>sy_manager := uninstall_audit p m\<rparr>) = sys_inv S (sy\<lparr>sy_manager := m\<rparr>)"
  by (simp add: sys_parts uninstall_audit_def)

lemma sys_reconcile_loop: "sys_inv S sy \<Longrightarrow> sys_inv S (reconcile_loop env now wanted inst sy)"
proof (induction inst arbitrary: sy)
  case Nil
  then show ?case by (simp add: sys_commit)
next
  case (Cons e rest)
  obtain pid r where e: "e = (pid, r)" by force
  obtain m1 ob where u: "uninstall r (sy_manager sy) = (m1, ob)" by force
  note un = sys_uninstall [OF Cons.prems u]
  show ?case
    using Cons.IH [of "sy\<lparr>sy_manager := uninstall_audit (ip_definition (mg_objects (sy_manager sy) ! r)) m1\<rparr>"] Cons.IH [OF Cons.prems]
      un(1) un(2) [where k = "ThenReconcile (ip_definition (mg_objects (sy_manager sy) ! r)) wanted rest"]
    by (auto simp: e u Let_def sys_audit split: option.splits)
qed

lemma sys_reconcile: "sys_inv S sy \<Longrightarrow> sys_inv S (reconcile env now wanted sy)"
  unfolding reconcile_def Let_def by (auto intro!: sys_reconcile_loop sys_frame)

subsection \<open>Suspending, stopping and failing\<close>

lemma fold_set_holder:
  defines "g \<equiv> \<lambda>h. set_holder h (\<lambda>x. x\<lparr>bh_probeIds := []\<rparr>)"
  shows "mg_installed (fold g hs m) = mg_installed m" "mg_byBreakpoint (fold g hs m) = mg_byBreakpoint m"
    "mg_byLocation (fold g hs m) = mg_byLocation m" "mg_objects (fold g hs m) = mg_objects m"
    "mg_installing (fold g hs m) = mg_installing m" "mg_suspended (fold g hs m) = mg_suspended m"
    "mg_stopped (fold g hs m) = mg_stopped m" "mg_inspectorFailed (fold g hs m) = mg_inspectorFailed m"
  unfolding g_def by (induction hs arbitrary: m) simp_all

lemma cleared_fields:
  assumes "clearBreakpointRegistry m = (m1, bs)"
  shows "mg_installed m1 = mg_installed m" "mg_byBreakpoint m1 = []" "mg_byLocation m1 = []" "mg_objects m1 = mg_objects m"
    "mg_installing m1 = mg_installing m" "mg_suspended m1 = mg_suspended m" "mg_stopped m1 = mg_stopped m"
    "mg_inspectorFailed m1 = mg_inspectorFailed m"
  using assms by (auto simp: clearBreakpointRegistry_def Let_def fold_set_holder)

lemma cleared_breakpoints:
  assumes "clearBreakpointRegistry m = (m1, bs)" and inv: "holders_inv (mg_byBreakpoint m) byL (mg_holders m)"
  shows "bs = jkeys (mg_byBreakpoint m)"
proof -
  have "\<forall>e \<in> set (mg_byBreakpoint m). bh_breakpointId (mg_holders m ! snd e) = fst e"
    using holdersD(2) [OF inv] jwf_get_iff [OF holdersD(1) [OF inv]] by auto
  then have ids: "map (\<lambda>h. bh_breakpointId (mg_holders m ! h)) (jvalues (mg_byBreakpoint m)) = jkeys (mg_byBreakpoint m)"
    by simp
  then have "distinct (jvalues (mg_byBreakpoint m))"
    using holdersD(1) [OF inv] by (metis distinct_map)
  then show ?thesis using assms(1) ids by (auto simp: clearBreakpointRegistry_def Let_def js_set_id)
qed

lemma deactivate_fields [simp]:
  "mg_installed (deactivate rs m) = mg_installed m" "mg_byBreakpoint (deactivate rs m) = mg_byBreakpoint m"
  "mg_byLocation (deactivate rs m) = mg_byLocation m" "mg_holders (deactivate rs m) = mg_holders m"
  "mg_installing (deactivate rs m) = mg_installing m" "mg_suspended (deactivate rs m) = mg_suspended m"
  "mg_stopped (deactivate rs m) = mg_stopped m" "mg_inspectorFailed (deactivate rs m) = mg_inspectorFailed m"
  unfolding deactivate_def by (induction rs arbitrary: m) simp_all

lemma hits_deactivate: "hits_inv S (mg_objects m) inst ts \<Longrightarrow> hits_inv S (mg_objects (deactivate rs m)) inst ts"
  unfolding deactivate_def by (induction rs arbitrary: m) (simp_all add: hits_switch_off)

lemma sys_cleared:
  assumes inv: "sys_inv S sy" and m: "mg_objects m = mg_objects (deactivate rs m')" "mg_objects m' = mg_objects (sy_manager sy)"
      "mg_installed m = []" "mg_byBreakpoint m = []" "mg_byLocation m = []" "mg_installing m = mg_installing (sy_manager sy)"
      "mg_inspectorFailed m \<Longrightarrow> mg_suspended m" "mg_inspectorFailed (sy_manager sy) \<Longrightarrow> mg_inspectorFailed m"
    and ts: "\<forall>t \<in> set ts. task_refs t = [] \<and> task_ok t \<and> arm_id t = []"
      "mg_inspectorFailed m \<or> removing ts = jkeys (mg_byBreakpoint (sy_manager sy))"
  shows "sys_inv T (sy\<lparr>sy_manager := m, sy_tasks := sy_tasks sy @ ts\<rparr>)"
proof -
  have none: "arm_ids ts = []" "inflight ts r = 0" for r using ts(1) by (auto simp: arm_ids_def inflight_def)
  have "hits_inv S (mg_objects m') (mg_installed (sy_manager sy)) (sy_tasks sy)" using inv m(2) by (simp add: sys_parts)
  then have "hits_inv T (mg_objects m) [] (sy_tasks sy)"
    unfolding m(1) by (intro hits_nothing hits_deactivate)
  then have "hits_inv T (mg_objects m) [] (sy_tasks sy @ ts)" using ts(1) none by (auto simp: hits_inv_def)
  moreover have "v8_inv (mg_inspectorFailed m) [] (sy_tasks sy @ ts) (sy_v8 sy) (sy_refused sy)"
    using inv ts(2) m(8) by (auto simp: sys_parts v8_inv_def)
  ultimately show ?thesis
    using inv m(3-7) none(1) by (auto simp: sys_parts quiet_inv_def arming_inv_def)
qed

lemma fold_status_fields [simp]:
  defines "g \<equiv> \<lambda>env now d m r. status env now (pd_id (ip_definition (mg_objects m ! r))) Suspended d"
  shows "mg_objects (fold (g env now d n) rs m) = mg_objects m" "mg_installed (fold (g env now d n) rs m) = mg_installed m"
    "mg_byBreakpoint (fold (g env now d n) rs m) = mg_byBreakpoint m" "mg_byLocation (fold (g env now d n) rs m) = mg_byLocation m"
    "mg_installing (fold (g env now d n) rs m) = mg_installing m" "mg_suspended (fold (g env now d n) rs m) = mg_suspended m"
    "mg_stopped (fold (g env now d n) rs m) = mg_stopped m"
    "mg_inspectorFailed (fold (g env now d n) rs m) = mg_inspectorFailed m"
  unfolding g_def by (induction rs arbitrary: m) simp_all

lemma removal_chain [simp]:
  "removing (removal_chain bs) = bs" "arm_ids (removal_chain bs) = []"
  "\<forall>t \<in> set (removal_chain bs). task_refs t = [] \<and> task_ok t \<and> arm_id t = []"
  by (cases bs; simp add: removal_chain_def)+

lemma remove_all_eq: "remove_all bs sy = sy\<lparr>sy_tasks := sy_tasks sy @ removal_chain bs\<rparr>"
  by (simp add: remove_all_def removal_chain_def emit_def split: list.split)

lemma sys_suspendAll:
  assumes inv: "sys_inv S sy" shows "sys_inv S (suspendAll env now detail sy)"
proof -
  let ?m = "sy_manager sy"
  obtain m1 bs where c: "clearBreakpointRegistry (?m\<lparr>mg_suspended := True, mg_epoch := Suc (mg_epoch ?m)\<rparr>) = (m1, bs)" by force
  have bs: "bs = jkeys (mg_byBreakpoint ?m)" using cleared_breakpoints [OF c] inv by (auto simp: sys_parts)
  show ?thesis
    using inv by (auto simp: suspendAll_def Let_def c remove_all_eq bs cleared_fields [OF c]
        intro!: sys_cleared [OF inv, where m' = "m1\<lparr>mg_installed := []\<rparr>" and rs = "jvalues (mg_installed ?m)"])
qed

lemma fold_emit: "fold (\<lambda>b. emit (f b)) bs sy = sy\<lparr>sy_tasks := sy_tasks sy @ map f bs\<rparr>"
  by (induction bs arbitrary: sy) (simp_all add: emit_def)

lemma sys_stopManager:
  assumes inv: "sys_inv S sy" shows "sys_inv S (stopManager sy)"
proof -
  let ?m = "sy_manager sy"
  obtain m1 bs where c: "clearBreakpointRegistry (?m\<lparr>mg_stopped := True, mg_epoch := Suc (mg_epoch ?m)\<rparr>) = (m1, bs)" by force
  have bs: "bs = jkeys (mg_byBreakpoint ?m)" using cleared_breakpoints [OF c] inv by (auto simp: sys_parts)
  have rem: "removing (map (\<lambda>b. RemoveBreakpoint b ThenNothing) cs) = cs" for cs by (induction cs) simp_all
  have fs: "mg_inspectorFailed ?m \<Longrightarrow> mg_suspended ?m" using inv by (simp add: sys_parts quiet_inv_def)
  show ?thesis
    using inv fs by (auto simp: stopManager_def Let_def c fold_emit bs rem cleared_fields [OF c] simp del: map_map 
        intro!: sys_cleared [OF inv, where m' = "m1\<lparr>mg_installed := [], mg_desired := []\<rparr>" and rs = "jvalues (mg_installed ?m)"])
qed

lemma sys_onScriptAvailable: "sys_inv S sy \<Longrightarrow> sys_inv S (onScriptAvailable env now sy)"
  by (simp add: onScriptAvailable_def Let_def sys_arm_loop)

lemma sys_rearm:
  assumes inv: "sys_inv S sy" shows "sys_inv S (rearm env now sy)"
proof -
  have "sys_inv S (sy\<lparr>sy_manager := (sy_manager sy)\<lparr>mg_suspended := False\<rparr>\<rparr>)"
    if "\<not> mg_inspectorFailed (sy_manager sy)" "\<not> mg_stopped (sy_manager sy)"
    using inv that by (simp add: sys_parts quiet_inv_def)
  then show ?thesis using inv by (simp add: rearm_def Let_def sys_arm_loop)
qed

subsection \<open>Answers to a removal\<close>

lemma settled_fields [simp]:
  "sy_manager (settled err b sy) = sy_manager sy" "sy_tasks (settled err b sy) = sy_tasks sy"
  by (simp_all split: option.split)

lemma v8_settled:
  assumes v8: "v8_inv failed byB (xs @ t # ys) (sy_v8 sy) (sy_refused sy)" and t: "removals t = b # bs" "removing us = bs"
  shows "v8_inv failed byB (xs @ ys @ us) (sy_v8 (settled err b sy)) (sy_refused (settled err b sy))"
proof -
  have "mset (remove1 b v) = A + mset bs + C + D" "distinct (remove1 b v)"
    if "mset v = A + add_mset b (mset bs + C) + D" "distinct v" for v :: "string list" and A C D
    using that by simp_all
  then show ?thesis using v8 t by (cases err) (auto simp: v8_inv_def)
qed

lemma sys_settled:
  assumes inv: "sys_inv S sy" and ts: "sy_tasks sy = xs @ RemoveBreakpoint b k # ys" and k: "removals (RemoveBreakpoint b k) = [b]"
  shows "sys_inv S (settled err b (without xs ys sy))"
    and "arm_id (RemoveBreakpoint b k) = [pd_id p] \<Longrightarrow> arming p (settled err b (without xs ys sy))"
proof -
  have "v8_inv (mg_inspectorFailed (sy_manager sy)) (mg_byBreakpoint (sy_manager sy)) (xs @ ys)
      (sy_v8 (settled err b (without xs ys sy))) (sy_refused (settled err b (without xs ys sy)))"
    using v8_settled [of _ _ xs "RemoveBreakpoint b k" ys "without xs ys sy" b "[]" "[]" err] inv k by (simp add: sys_parts ts)
  then show "sys_inv S (settled err b (without xs ys sy))"
    using inv by (auto simp: sys_parts ts hits_inv_def arming_inv_def)
  show "arming p (settled err b (without xs ys sy))" if "arm_id (RemoveBreakpoint b k) = [pd_id p]"
    using inv that by (auto simp: sys_parts ts arming_inv_def arming_def)
qed

lemma sys_settled_chain:
  assumes inv: "sys_inv S sy" and ts: "sy_tasks sy = xs @ RemoveBreakpoint b (ThenRemove bs) # ys"
  shows "sys_inv S (remove_all bs (settled err b (without xs ys sy)))"
proof -
  have "v8_inv (mg_inspectorFailed (sy_manager sy)) (mg_byBreakpoint (sy_manager sy)) (xs @ ys @ removal_chain bs)
      (sy_v8 (settled err b (without xs ys sy))) (sy_refused (settled err b (without xs ys sy)))"
    using v8_settled [of _ _ xs "RemoveBreakpoint b (ThenRemove bs)" ys "without xs ys sy" b bs "removal_chain bs" err] inv
    by (simp add: sys_parts ts)
  moreover have "inflight (removal_chain bs) r = 0" for r by (simp add: removal_chain_def split: list.split)
  ultimately show ?thesis
    using inv removal_chain(3) [of bs] by (auto simp: sys_parts ts hits_inv_def arming_inv_def remove_all_eq)
qed

lemma sys_answer_removal:
  assumes inv: "sys_inv S sy" and ts: "sy_tasks sy = xs @ RemoveBreakpoint b k # ys"
  shows "sys_inv S (answer_removal env now err b k (without xs ys sy))"
proof (cases k)
  case (ThenAborted p rest)
  then show ?thesis
    using sys_settled(1) [OF inv ts, where err = err] sys_settled(2) [OF inv ts, where err = err and p = p] by (auto simp: answer_removal_def arming_def intro!: sys_continue_arm sys_finish_arm)
next
  case (ThenNoLocation p j n rest)
  have "sys_inv S (on_manager (\<lambda>m. settle j n (error env now p d m)) (settled err b (without xs ys sy)))" for d
    using sys_settled(1) [OF inv ts, where err = err] ThenNoLocation by (auto simp: on_manager_def intro!: sys_frame)
  then show ?thesis
    using sys_settled(1) [OF inv ts, where err = err] sys_settled(2) [OF inv ts, where err = err and p = p] ThenNoLocation
    by (auto simp: answer_removal_def arming_def intro!: sys_continue_arm sys_finish_arm)
next
  case (ThenReconcile p wanted rest)
  then show ?thesis
    using sys_settled(1) [OF inv ts, where err = err]
    by (auto simp: answer_removal_def on_manager_def uninstall_audit_def intro!: sys_reconcile_loop sys_frame)
next
  case (ThenRemove bs)
  then show ?thesis using sys_settled_chain [OF inv] ts by (simp add: answer_removal_def)
next
  case (ThenRetired p)
  then show ?thesis
    using sys_settled(1) [OF inv ts, where err = err]
    by (cases err) (auto simp: answer_removal_def on_manager_def intro!: sys_frame)
next
  case ThenNothing
  then show ?thesis using sys_settled(1) [OF inv ts, where err = err] by (simp add: answer_removal_def)
qed

subsection \<open>Pauses\<close>

lemma fold_set_object_fields:
  defines "g \<equiv> \<lambda>f r. set_object r f"
  shows "mg_installed (fold (g f) rs m) = mg_installed m" "mg_byBreakpoint (fold (g f) rs m) = mg_byBreakpoint m"
    "mg_byLocation (fold (g f) rs m) = mg_byLocation m" "mg_holders (fold (g f) rs m) = mg_holders m"
    "mg_installing (fold (g f) rs m) = mg_installing m" "mg_suspended (fold (g f) rs m) = mg_suspended m"
    "mg_stopped (fold (g f) rs m) = mg_stopped m" "mg_inspectorFailed (fold (g f) rs m) = mg_inspectorFailed m"
    "length (mg_objects (fold (g f) rs m)) = length (mg_objects m)"
  unfolding g_def by (induction rs arbitrary: m) simp_all

lemma nth_fold_set_object:
  "distinct rs \<Longrightarrow> r < length (mg_objects m) \<Longrightarrow> mg_objects (fold (\<lambda>r. set_object r f) rs m) ! r =
     (if r \<in> set rs then f (mg_objects m ! r) else mg_objects m ! r)"
  by (induction rs arbitrary: m) (auto simp: nth_set_object)

text \<open>Every change of the hits of installed probes is a change of the objects alone.\<close>

lemma sys_objects:
  assumes inv: "sys_inv S sy" and hits: "hits_inv T (mg_objects m) (mg_installed (sy_manager sy)) (sy_tasks sy @ ts)"
    and ids: "\<And>r. r < length (mg_objects (sy_manager sy)) \<Longrightarrow> ip_breakpointId (mg_objects m ! r) = ip_breakpointId (mg_objects (sy_manager sy) ! r)"
    and ts: "arm_ids ts = []" "removing ts = []"
    and same: "mg_installed m = mg_installed (sy_manager sy)"
    "mg_byBreakpoint m = mg_byBreakpoint (sy_manager sy)" "mg_byLocation m = mg_byLocation (sy_manager sy)"
    "mg_holders m = mg_holders (sy_manager sy)" "mg_installing m = mg_installing (sy_manager sy)"
    "mg_suspended m = mg_suspended (sy_manager sy)" "mg_stopped m = mg_stopped (sy_manager sy)"
    "mg_inspectorFailed m = mg_inspectorFailed (sy_manager sy)"
  shows "sys_inv T (sy\<lparr>sy_manager := m, sy_tasks := sy_tasks sy @ ts\<rparr>)"
proof -
  have "armed_inv (mg_installed (sy_manager sy)) (mg_objects m) (mg_byBreakpoint (sy_manager sy)) (mg_holders (sy_manager sy))"
    using inv ids by (auto simp: sys_parts armed_inv_def hits_inv_def)
  then show ?thesis
    using inv hits ts by (auto simp: sys_parts same arming_inv_def v8_inv_def)
qed

lemma sys_same_refs:
  assumes "task_refs t = task_refs t'" "task_ok t'" "task_ok t" "removals t = removals t'" "arm_id t = arm_id t'"
  shows "sys_inv S (emit t sy) = sys_inv S (emit t' sy)"
  using assms by (auto simp: sys_parts hits_inv_def arming_inv_def v8_inv_def)

lemma sys_take:
  "sys_inv S sy \<Longrightarrow> sy_tasks sy = xs @ t # ys \<Longrightarrow> sys_inv S (emit t (without xs ys sy))"
  by (auto simp: sys_parts hits_inv_def arming_inv_def v8_inv_def add.left_commute add.commute)

lemma releasePending_fields [simp]:
  "mg_installed (releasePending rs m) = mg_installed m" "mg_byBreakpoint (releasePending rs m) = mg_byBreakpoint m"
  "mg_byLocation (releasePending rs m) = mg_byLocation m" "mg_holders (releasePending rs m) = mg_holders m"
  "mg_installing (releasePending rs m) = mg_installing m" "mg_suspended (releasePending rs m) = mg_suspended m"
  "mg_stopped (releasePending rs m) = mg_stopped m" "mg_inspectorFailed (releasePending rs m) = mg_inspectorFailed m"
  "length (mg_objects (releasePending rs m)) = length (mg_objects m)"
  by (simp_all add: releasePending_def fold_set_object_fields)

lemma count_list_distinct: "distinct xs \<Longrightarrow> count_list xs x = (if x \<in> set xs then 1 else 0)"
  by (induction xs) auto

lemma given_back:
  assumes h: "hit_ok i (n + count_list rs r)" and d: "distinct rs" "r \<in> set rs"
  defines "j \<equiv> i\<lparr>ip_pending := max 0 (ip_pending i - 1)\<rparr>"
  shows "hit_ok j n" "ip_active j \<Longrightarrow> ip_hits j + ip_pending j < limit_of j"
proof -
  have "count_list rs r = 1" using d by (simp add: count_list_distinct)
  then show "hit_ok j n" "ip_active j \<Longrightarrow> ip_hits j + ip_pending j < limit_of j"
    using h by (auto simp: hit_ok_def j_def)
qed

lemma reserved_hit_ok:
  assumes "sys_inv S (emit t sy)" "r < length (mg_objects (sy_manager sy))"
  shows "hit_ok (mg_objects (sy_manager sy) ! r) (inflight (sy_tasks sy) r + count_list (task_refs t) r)"
  using assms by (simp add: sys_parts hits_inv_def)

lemma sys_releasePending:
  assumes inv: "sys_inv S (emit t sy)" and t: "task_refs t = rs" "removals t = []" "arm_id t = []"
  shows "sys_inv S (on_manager (releasePending rs) sy)" "slack rs (on_manager (releasePending rs) sy)"
proof -
  let ?m = "sy_manager sy"
  have d: "distinct rs" "\<forall>r \<in> set rs. r < length (mg_objects ?m)" using inv t(1) by (auto simp: sys_parts hits_inv_def)
  let ?o = "\<lambda>r. mg_objects (releasePending rs ?m) ! r"
  have nth: "?o r = (if r \<in> set rs then (mg_objects ?m ! r)\<lparr>ip_pending := max 0 (ip_pending (mg_objects ?m ! r) - 1)\<rparr> else mg_objects ?m ! r)"
    if "r < length (mg_objects ?m)" for r
    using d(1) that by (simp add: releasePending_def nth_fold_set_object)
  have ok: "hit_ok (?o r) (inflight (sy_tasks sy) r)" if "r < length (mg_objects ?m)" for r
    using reserved_hit_ok [OF inv that] given_back(1) [OF _ d(1)] by (auto simp: nth [OF that] t(1))
  have "hits_inv S (mg_objects (releasePending rs ?m)) (mg_installed ?m) (sy_tasks sy)"
    using inv ok by (auto simp: sys_parts hits_inv_def nth)
  moreover have "armed_inv (mg_installed ?m) (mg_objects (releasePending rs ?m)) (mg_byBreakpoint ?m) (mg_holders ?m)"
    using inv by (auto simp: sys_parts armed_inv_def hits_inv_def nth)
  ultimately show "sys_inv S (on_manager (releasePending rs) sy)"
    using inv t by (auto simp: sys_parts arming_inv_def v8_inv_def)
  show "slack rs (on_manager (releasePending rs) sy)"
    unfolding slack_def
  proof (intro ballI conjI impI, goal_cases)
    case (2 r)
    then have r: "r < length (mg_objects ?m)" using d(2) by simp
    show ?case
      using given_back(2) [OF _ d(1) 2(1)] reserved_hit_ok [OF inv r] 2 by (simp add: nth [OF r] t(1))
  qed (use d(2) in simp)
qed

lemma sys_resumeWithFallback:
  assumes inv: "sys_inv S (emit t sy)" and t: "task_refs t = rs" "removals t = []" "arm_id t = []" "task_ok t" and k: "k = None \<Longrightarrow> rs = []"
  shows "sys_inv S (resumeWithFallback rs k sy)"
proof -
  have "task_ok (Resuming rs k)" using k by (cases k) simp_all
  then have "sys_inv S (emit (Resuming rs k) sy)" using inv t by (subst sys_same_refs [of _ t]) simp_all
  then show ?thesis using sys_releasePending(1) [OF inv t(1-3)] by (simp add: resumeWithFallback_def)
qed

lemma sys_resume_only:
  assumes "sys_inv S sy" shows "sys_inv S (resumeWithFallback [] None sy)"
  by (rule sys_resumeWithFallback [of S "Resuming [] None"]) (simp_all add: sys_emit_neutral assms)

lemma sys_resumed:
  assumes inv: "sys_inv S (emit t sy)" and t: "task_refs t = rs" "removals t = []" "arm_id t = []" "task_ok t" and k: "k = None \<Longrightarrow> rs = []"
  shows "sys_inv S (resumed rs k sy)"
proof (cases k)
  case None
  then show ?thesis using inv t k by (simp add: resumed_def sys_emit_neutral)
next
  case (Some w)
  obtain epoch err c where w: "w = (epoch, err, c)" by (cases w)
  have "sys_inv S (emit (Processing rs epoch err c) sy)" using inv t by (subst sys_same_refs [of _ t]) simp_all
  then show ?thesis by (simp add: resumed_def Some w)
qed

lemma sys_handleResumeFailure:
  assumes inv: "sys_inv S (emit t sy)" and t: "task_refs t = rs" "removals t = []" "arm_id t = []"
  shows "sys_inv S (handleResumeFailure env e e' d rs sy)"
proof -
  let ?sy = "on_manager (releasePending rs) sy"
  let ?m = "sy_manager ?sy"
  note rel = sys_releasePending(1) [OF inv t]
  obtain m1 bs where c: "clearBreakpointRegistry (?m\<lparr>mg_inspectorFailed := True, mg_suspended := True, mg_epoch := Suc (mg_epoch ?m),
      mg_installed := []\<rparr>) = (m1, bs)" by force
  have "sys_inv S (?sy\<lparr>sy_manager := deactivate (jvalues (mg_installed ?m)) m1, sy_tasks := sy_tasks ?sy @ ts\<rparr>)"
    if "ts = [ReportFailure ps detail]" for ts ps detail
    using that by (intro sys_cleared [OF rel, where m' = m1 and rs = "jvalues (mg_installed ?m)"]) (simp_all add: cleared_fields [OF c])
  then show ?thesis
    using rel c by (auto simp: handleResumeFailure_def Let_def on_manager_def emit_def)
qed

subsection \<open>Hits\<close>

lemma hits_counted:
  assumes h: "hits_inv S (mg_objects m) inst ts" and d: "distinct rs"
    and rs: "\<And>r. r \<in> set rs \<Longrightarrow> r < length (mg_objects m) \<and> ip_active (mg_objects m ! r) \<and>
      ip_hits (mg_objects m ! r) + ip_pending (mg_objects m ! r) < limit_of (mg_objects m ! r)"
  shows "hits_inv (S \<union> set rs) (mg_objects (fold count_hit rs m)) inst ts"
proof -
  let ?o = "\<lambda>r. mg_objects (fold count_hit rs m) ! r"
  have nth: "?o r = (if r \<in> set rs then (mg_objects m ! r)\<lparr>ip_hits := ip_hits (mg_objects m ! r) + 1\<rparr> else mg_objects m ! r)"
    if "r < length (mg_objects m)" for r
    using d that unfolding count_hit_def by (simp add: nth_fold_set_object)
  have len: "length (mg_objects (fold count_hit rs m)) = length (mg_objects m)"
    unfolding count_hit_def by (simp add: fold_set_object_fields)
  have "hit_ok (?o r) (inflight ts r)" if r: "r < length (mg_objects m)" for r
    using h r rs [of r] by (auto simp: hits_inv_def hit_ok_def nth)
  then show ?thesis using h by (auto simp: hits_inv_def len nth)
qed

lemma count_hit_fields [simp]:
  "mg_installed (count_hit r m) = mg_installed m" "mg_byBreakpoint (count_hit r m) = mg_byBreakpoint m"
  "mg_byLocation (count_hit r m) = mg_byLocation m" "mg_holders (count_hit r m) = mg_holders m"
  "mg_installing (count_hit r m) = mg_installing m" "mg_suspended (count_hit r m) = mg_suspended m"
  "mg_stopped (count_hit r m) = mg_stopped m" "mg_inspectorFailed (count_hit r m) = mg_inspectorFailed m"
  "length (mg_objects (count_hit r m)) = length (mg_objects m)"
  by (simp_all add: count_hit_def)

lemma sys_retireAtHitLimit:
  assumes inv: "sys_inv S sy" shows "sys_inv (S - {r}) (retireAtHitLimit env now r sy)"
proof (cases "jget (mg_installed (sy_manager sy)) (pd_id (ip_definition (mg_objects (sy_manager sy) ! r))) = Some r")
  case False
  then have "hits_inv (S - {r}) (mg_objects (sy_manager sy)) (mg_installed (sy_manager sy)) (sy_tasks sy)"
    using inv by (auto simp: sys_parts hits_inv_def)
  then show ?thesis using inv False by (auto simp: retireAtHitLimit_def Let_def sys_parts)
next
  case True
  let ?m = "sy_manager sy" let ?p = "ip_definition (mg_objects ?m ! r)"
  let ?m1 = "set_object r switch_off ?m"
  let ?m3 = "audit (''[liveprobe] PROBE HIT LIMIT '' @ at_line ?p) (status env now (pd_id ?p) HitLimitReached None
      (?m1\<lparr>mg_installed := jdel (pd_id ?p) (mg_installed ?m1), mg_exhausted := jset (pd_id ?p) (ip_fingerprint (mg_objects ?m ! r)) (mg_exhausted ?m1)\<rparr>))"
  have m3: "sys_inv (S - {r}) (sy\<lparr>sy_manager := ?m3\<rparr>)" by (rule sys_switch_off [OF inv]) simp_all
  obtain m4 ob where rel: "releaseBreakpointFor r ?m3 = (m4, ob)" by force
  have "sys_inv (S - {r}) (sy\<lparr>sy_manager := m4\<rparr>)" if "ob = None"
    using sys_releaseFor(1) [OF m3, of r m4 ob] rel that by simp
  moreover have "sys_inv (S - {r}) (emit (RemoveBreakpoint b (ThenRetired ?p)) (sy\<lparr>sy_manager := m4\<rparr>))" if "ob = Some b" for b
    using sys_releaseFor(2) [OF m3, of r m4 ob b "ThenRetired ?p"] rel that by simp
  ultimately show ?thesis
    using True rel by (auto simp: retireAtHitLimit_def Let_def split: option.split)
qed

lemma sys_retire_if_done:
  assumes inv: "sys_inv S sy" shows "sys_inv (S - {r}) (retire_if_done env now r sy)"
proof (cases "pd_hitLimit (ip_definition (mg_objects (sy_manager sy) ! r)) \<le> ip_hits (mg_objects (sy_manager sy) ! r)")
  case True
  then show ?thesis using sys_retireAtHitLimit [OF inv] by (simp add: retire_if_done_def)
next
  case False
  then have "hits_inv (S - {r}) (mg_objects (sy_manager sy)) (mg_installed (sy_manager sy)) (sy_tasks sy)"
    using inv by (auto simp: sys_parts hits_inv_def)
  then show ?thesis using inv False by (auto simp: retire_if_done_def Let_def sys_parts)
qed

lemma sys_retire_all: "sys_inv S sy \<Longrightarrow> sys_inv (S - set rs) (fold (retire_if_done env now) rs sy)"
proof (induction rs arbitrary: S sy)
  case (Cons r rs)
  have "S - {r} - set rs = S - set (r # rs)" by auto
  then show ?case using Cons.IH [OF sys_retire_if_done [OF Cons.prems, of r]] by simp
qed simp

text \<open>Retiring a probe touches no other.\<close>

lemma releaseBreakpointFor_objects: "mg_objects (fst (releaseBreakpointFor r m)) = mg_objects m"
  by (auto simp: releaseBreakpointFor_def releaseHolder_def Let_def split: option.split)

lemma retire_cases:
  "mg_objects (sy_manager (retire_if_done env now r sy)) \<in>
     {mg_objects (sy_manager sy), mg_objects (set_object r switch_off (sy_manager sy))}"
proof -
  have "mg_objects m1 = mg_objects m" if "releaseBreakpointFor r m = (m1, ob)" for m m1 ob
    using releaseBreakpointFor_objects [of r m] that by simp
  then show ?thesis by (auto simp: retire_if_done_def retireAtHitLimit_def Let_def split: prod.split option.split)
qed

lemma retire_objects:
  "length (mg_objects (sy_manager (retire_if_done env now r sy))) = length (mg_objects (sy_manager sy))"
  "q < length (mg_objects (sy_manager sy)) \<Longrightarrow> q \<noteq> r \<Longrightarrow>
     mg_objects (sy_manager (retire_if_done env now r sy)) ! q = mg_objects (sy_manager sy) ! q"
  using retire_cases [of env now r sy] by (auto simp: nth_set_object)

lemma report_hit_fields:
  assumes "report_hit env now p c m = (m1, k)"
  shows "mg_objects m1 = mg_objects m" "mg_installed m1 = mg_installed m" "mg_byBreakpoint m1 = mg_byBreakpoint m"
    "mg_byLocation m1 = mg_byLocation m" "mg_holders m1 = mg_holders m" "mg_installing m1 = mg_installing m"
    "mg_suspended m1 = mg_suspended m" "mg_stopped m1 = mg_stopped m" "mg_inspectorFailed m1 = mg_inspectorFailed m"
  using assms by (auto simp: report_hit_def Let_def split: probe_body.splits if_splits option.splits jsval.splits)

lemma sys_processHit:
  assumes inv: "sys_inv S sy" and r: "r < length (mg_objects (sy_manager sy))" "ip_active (mg_objects (sy_manager sy) ! r)"
    "ip_hits (mg_objects (sy_manager sy) ! r) + ip_pending (mg_objects (sy_manager sy) ! r) < limit_of (mg_objects (sy_manager sy) ! r)"
  shows "sys_inv S (processHit env now c r sy)"
    and "length (mg_objects (sy_manager (processHit env now c r sy))) = length (mg_objects (sy_manager sy))"
    and "q < length (mg_objects (sy_manager sy)) \<Longrightarrow> q \<noteq> r \<Longrightarrow>
      mg_objects (sy_manager (processHit env now c r sy)) ! q = mg_objects (sy_manager sy) ! q"
proof -
  let ?m = "sy_manager sy"
  obtain m1 k where rep: "report_hit env now (ip_definition (mg_objects ?m ! r)) c ?m = (m1, k)" by force
  note f = report_hit_fields [OF rep]
  have "hits_inv S (mg_objects m1) (mg_installed ?m) (sy_tasks sy)" using inv by (simp add: sys_parts f)
  then have "hits_inv (S \<union> {r}) (mg_objects (count_hit r m1)) (mg_installed ?m) (sy_tasks sy)"
    using hits_counted [of S m1 "mg_installed ?m" "sy_tasks sy" "[r]"] r by (simp add: f)
  moreover have "ip_breakpointId (mg_objects (count_hit r m1) ! q) = ip_breakpointId (mg_objects ?m ! q)" if "q < length (mg_objects ?m)" for q
    using that by (simp add: count_hit_def nth_set_object f)
  ultimately have "sys_inv (S \<union> {r}) (sy\<lparr>sy_manager := count_hit r m1\<rparr>)"
    using sys_objects [OF inv, of "S \<union> {r}" "count_hit r m1" "[]"] by (simp add: f)
  then have "sys_inv (S \<union> {r} - {r}) (retire_if_done env now r (sy\<lparr>sy_manager := count_hit r m1\<rparr>))" by (rule sys_retire_if_done)
  then have "sys_inv S (retire_if_done env now r (sy\<lparr>sy_manager := count_hit r m1\<rparr>))"
    by (auto simp: sys_parts intro: hits_mono)
  moreover have "sys_inv S (sy\<lparr>sy_manager := m1\<rparr>)" by (rule sys_frame [OF inv]) (simp_all add: f)
  ultimately show "sys_inv S (processHit env now c r sy)"
    using inv rep by (simp add: processHit_def Let_def)
  show "length (mg_objects (sy_manager (processHit env now c r sy))) = length (mg_objects ?m)"
    using rep by (simp add: processHit_def Let_def retire_objects f)
  show "mg_objects (sy_manager (processHit env now c r sy)) ! q = mg_objects ?m ! q" if "q < length (mg_objects ?m)" "q \<noteq> r"
    using rep that by (simp add: processHit_def Let_def retire_objects f count_hit_def nth_set_object)
qed

lemma sys_process_candidate:
  assumes inv: "sys_inv S sy" and sl: "slack (r # rs) sy" and d: "r \<notin> set rs"
  shows "sys_inv S (process_candidate env now err c r sy)" "slack rs (process_candidate env now err c r sy)"
proof -
  let ?m = "sy_manager sy"
  have hit: "r < length (mg_objects ?m)" "ip_active (mg_objects ?m ! r) \<Longrightarrow>
      ip_hits (mg_objects ?m ! r) + ip_pending (mg_objects ?m ! r) < limit_of (mg_objects ?m ! r)"
    and rest: "slack rs sy"
    using sl by (auto simp: slack_def)
  note p = sys_processHit [OF inv hit(1) _ hit(2)]
  have "slack rs (processHit env now c r sy)" if "ip_active (mg_objects ?m ! r)"
    unfolding slack_def
  proof (intro ballI)
    fix q assume q: "q \<in> set rs"
    then have "q < length (mg_objects ?m)" "q \<noteq> r" using rest d by (auto simp: slack_def)
    then show "q < length (mg_objects (sy_manager (processHit env now c r sy))) \<and>
        (ip_active (mg_objects (sy_manager (processHit env now c r sy)) ! q) \<longrightarrow>
          ip_hits (mg_objects (sy_manager (processHit env now c r sy)) ! q) + ip_pending (mg_objects (sy_manager (processHit env now c r sy)) ! q)
            < limit_of (mg_objects (sy_manager (processHit env now c r sy)) ! q))"
      using p(2,3) [OF that that] rest q by (auto simp: slack_def)
  qed
  then show "slack rs (process_candidate env now err c r sy)"
    using rest by (auto simp: process_candidate_def Let_def slack_def split: option.split)
  show "sys_inv S (process_candidate env now err c r sy)"
    using inv p(1) by (auto simp: process_candidate_def Let_def on_manager_def intro!: sys_frame split: option.split)
qed

lemma sys_process_all:
  "sys_inv S sy \<Longrightarrow> slack rs sy \<Longrightarrow> distinct rs \<Longrightarrow> sys_inv S (fold (process_candidate env now err c) rs sy)"
proof (induction rs arbitrary: sy)
  case (Cons r rs)
  then show ?case using sys_process_candidate [OF Cons.prems(1,2)] by simp
qed simp

lemma sys_process_pause:
  assumes inv: "sys_inv S (emit t sy)" and t: "task_refs t = rs" "removals t = []" "arm_id t = []"
  shows "sys_inv S (process_pause env now rs epoch err c sy)"
proof -
  have "distinct rs" using inv t(1) by (auto simp: sys_parts hits_inv_def)
  then show ?thesis
    using sys_releasePending [OF inv t] by (simp add: process_pause_def Let_def sys_process_all)
qed

lemma errors_fields:
  defines "g \<equiv> \<lambda>env now d p. error env now p d"
  shows "mg_objects (fold (g env now d) ps m) = mg_objects m" "mg_installed (fold (g env now d) ps m) = mg_installed m"
    "mg_byBreakpoint (fold (g env now d) ps m) = mg_byBreakpoint m" "mg_byLocation (fold (g env now d) ps m) = mg_byLocation m"
    "mg_holders (fold (g env now d) ps m) = mg_holders m" "mg_installing (fold (g env now d) ps m) = mg_installing m"
    "mg_suspended (fold (g env now d) ps m) = mg_suspended m" "mg_stopped (fold (g env now d) ps m) = mg_stopped m"
    "mg_inspectorFailed (fold (g env now d) ps m) = mg_inspectorFailed m"
  unfolding g_def by (induction ps arbitrary: m) simp_all

lemma sys_report_failure:
  assumes "sys_inv S sy" shows "sys_inv S (on_manager (report_failure env now ps d) sy)"
  unfolding on_manager_def by (rule sys_frame [OF assms]) (simp_all add: report_failure_def errors_fields)

text \<open>The probes a pause may count for are installed, active and below their limit, and each occurs once.\<close>

lemma map_filter_set: "set (List.map_filter f xs) = {y. \<exists>x \<in> set xs. f x = Some y}"
  by (induction xs) (auto simp: List.map_filter_simps split: option.splits)

lemma map_filter_distinct:
  assumes "distinct xs" "\<And>x y z. f x = Some z \<Longrightarrow> f y = Some z \<Longrightarrow> x = y" shows "distinct (List.map_filter f xs)"
  using assms(1)
proof (induction xs)
  case (Cons x xs)
  have "y \<notin> set (List.map_filter f xs)" if "f x = Some y" for y
    using that assms(2) Cons.prems by (auto simp: map_filter_set)
  then show ?case using Cons by (auto simp: List.map_filter_simps split: option.split)
qed (simp add: List.map_filter_simps)

lemma candidates_ok:
  assumes inv: "sys_inv S sy"
  shows "distinct (candidates bs (sy_manager sy))"
    and "r \<in> set (candidates bs (sy_manager sy)) \<Longrightarrow> r < length (mg_objects (sy_manager sy)) \<and> ip_active (mg_objects (sy_manager sy) ! r) \<and>
      ip_hits (mg_objects (sy_manager sy) ! r) + ip_pending (mg_objects (sy_manager sy) ! r) < limit_of (mg_objects (sy_manager sy) ! r)"
proof -
  let ?m = "sy_manager sy"
  have inst: "r < length (mg_objects ?m) \<and> pd_id (ip_definition (mg_objects ?m ! r)) = pid" if "jget (mg_installed ?m) pid = Some r" for pid r
    using inv that by (simp add: sys_parts hits_inv_def)
  have cand: "jget (mg_installed ?m) pid = Some r \<and> ip_active (mg_objects ?m ! r) \<and>
      ip_hits (mg_objects ?m ! r) + ip_pending (mg_objects ?m ! r) < limit_of (mg_objects ?m ! r)"
    if "hit_candidate ?m pid = Some r" for pid r
    using that by (auto simp: hit_candidate_def Let_def split: option.splits if_splits)
  have "x = y" if "hit_candidate ?m x = Some r" "hit_candidate ?m y = Some r" for x y r
    using cand [OF that(1)] cand [OF that(2)] inst by metis
  then show "distinct (candidates bs ?m)"
    unfolding candidates_def hit_probes_def by (intro map_filter_distinct) auto
  show "r \<in> set (candidates bs ?m) \<Longrightarrow> r < length (mg_objects ?m) \<and> ip_active (mg_objects ?m ! r) \<and>
      ip_hits (mg_objects ?m ! r) + ip_pending (mg_objects ?m ! r) < limit_of (mg_objects ?m ! r)"
    using cand inst unfolding candidates_def map_filter_set by blast
qed

lemma counted_fields:
  defines "g \<equiv> \<lambda>f r m. count_hit r (m\<lparr>mg_aggregates := f r m\<rparr>)"
  shows "mg_installed (fold (g f) rs m) = mg_installed m" "mg_byBreakpoint (fold (g f) rs m) = mg_byBreakpoint m"
    "mg_byLocation (fold (g f) rs m) = mg_byLocation m" "mg_holders (fold (g f) rs m) = mg_holders m"
    "mg_installing (fold (g f) rs m) = mg_installing m" "mg_suspended (fold (g f) rs m) = mg_suspended m"
    "mg_stopped (fold (g f) rs m) = mg_stopped m" "mg_inspectorFailed (fold (g f) rs m) = mg_inspectorFailed m"
  unfolding g_def by (induction rs arbitrary: m) simp_all

lemma counted_objects:
  "mg_objects m = mg_objects m' \<Longrightarrow>
     mg_objects (fold (\<lambda>r m. count_hit r (m\<lparr>mg_aggregates := f r m\<rparr>)) rs m) = mg_objects (fold count_hit rs m')"
proof (induction rs arbitrary: m m')
  case (Cons r rs)
  then have "mg_objects (count_hit r (m\<lparr>mg_aggregates := f r m\<rparr>)) = mg_objects (count_hit r m')"
    by (simp add: count_hit_def set_object_def)
  then show ?case using Cons.IH by simp
qed simp

lemma breakpointId_counted:
  "r < length (mg_objects m) \<Longrightarrow> distinct rs \<Longrightarrow> ip_breakpointId (mg_objects (fold count_hit rs m) ! r) = ip_breakpointId (mg_objects m ! r)"
  unfolding count_hit_def by (simp add: nth_fold_set_object)

text \<open>Over the rate limit only bare counters count; the breakpoint of each that is done goes.\<close>

lemma sys_over_limit:
  assumes inv: "sys_inv S sy" and rs: "set rs \<subseteq> set (candidates bs (sy_manager sy))" "distinct rs"
    and m: "mg_objects m = mg_objects (fold count_hit rs (sy_manager sy))" "mg_installed m = mg_installed (sy_manager sy)"
    "mg_byBreakpoint m = mg_byBreakpoint (sy_manager sy)" "mg_byLocation m = mg_byLocation (sy_manager sy)"
    "mg_holders m = mg_holders (sy_manager sy)" "mg_installing m = mg_installing (sy_manager sy)"
    "mg_suspended m = mg_suspended (sy_manager sy)" "mg_stopped m = mg_stopped (sy_manager sy)"
    "mg_inspectorFailed m = mg_inspectorFailed (sy_manager sy)"
  shows "sys_inv S (fold (retire_if_done env now) rs (resumeWithFallback [] None (sy\<lparr>sy_manager := m\<rparr>)))"
proof -
  have "hits_inv S (mg_objects (sy_manager sy)) (mg_installed (sy_manager sy)) (sy_tasks sy)" using inv by (simp add: sys_parts)
  then have "hits_inv (S \<union> set rs) (mg_objects m) (mg_installed (sy_manager sy)) (sy_tasks sy)"
    unfolding m(1) by (rule hits_counted) (use rs candidates_ok(2) [OF inv] in blast)+
  then have "sys_inv (S \<union> set rs) (sy\<lparr>sy_manager := m\<rparr>)"
    using sys_objects [OF inv, of "S \<union> set rs" m "[]"] breakpointId_counted rs(2) by (simp add: m)
  then have "sys_inv (S \<union> set rs - set rs) (fold (retire_if_done env now) rs (resumeWithFallback [] None (sy\<lparr>sy_manager := m\<rparr>)))"
    by (intro sys_retire_all sys_resume_only)
  then show ?thesis by (auto simp: sys_parts intro: hits_mono)
qed

lemma sys_reserve:
  assumes inv: "sys_inv S sy" and m: "mg_objects m = mg_objects (sy_manager sy)" "mg_installed m = mg_installed (sy_manager sy)"
    "mg_byBreakpoint m = mg_byBreakpoint (sy_manager sy)" "mg_byLocation m = mg_byLocation (sy_manager sy)"
    "mg_holders m = mg_holders (sy_manager sy)" "mg_installing m = mg_installing (sy_manager sy)"
    "mg_suspended m = mg_suspended (sy_manager sy)" "mg_stopped m = mg_stopped (sy_manager sy)"
    "mg_inspectorFailed m = mg_inspectorFailed (sy_manager sy)" and rs: "rs = candidates bs (sy_manager sy)"
  shows "sys_inv S (emit (Capturing rs epoch) (sy\<lparr>sy_manager := fold (\<lambda>r. set_object r (\<lambda>i. i\<lparr>ip_pending := ip_pending i + 1\<rparr>)) rs m\<rparr>))"
proof -
  let ?m1 = "fold (\<lambda>r. set_object r (\<lambda>i. i\<lparr>ip_pending := ip_pending i + 1\<rparr>)) rs m"
  note ok = candidates_ok(1) [OF inv, of bs, folded rs] candidates_ok(2) [OF inv, where bs = bs, folded rs]
  have nth: "mg_objects ?m1 ! r = (if r \<in> set rs then (mg_objects (sy_manager sy) ! r)\<lparr>ip_pending := ip_pending (mg_objects (sy_manager sy) ! r) + 1\<rparr>
      else mg_objects (sy_manager sy) ! r)" if "r < length (mg_objects (sy_manager sy))" for r
    using that ok(1) by (simp add: nth_fold_set_object m)
  have "hit_ok (mg_objects ?m1 ! r) (inflight (sy_tasks sy) r + count_list rs r)" if r: "r < length (mg_objects (sy_manager sy))" for r
  proof -
    have "hit_ok (mg_objects (sy_manager sy) ! r) (inflight (sy_tasks sy) r)" using inv r by (simp add: sys_parts hits_inv_def)
    then show ?thesis using ok(1) ok(2) [of r] by (auto simp: nth [OF r] hit_ok_def count_list_distinct)
  qed
  then have "hits_inv S (mg_objects ?m1) (mg_installed (sy_manager sy)) (sy_tasks sy @ [Capturing rs epoch])"
    using inv ok by (auto simp: sys_parts hits_inv_def fold_set_object_fields m nth)
  then show ?thesis
    using sys_objects [OF inv, of S ?m1 "[Capturing rs epoch]"] by (simp add: nth fold_set_object_fields m emit_def)
qed

lemma sys_handlePaused:
  assumes inv: "sys_inv S sy" shows "sys_inv S (handlePaused env now bs sy)"
proof -
  let ?m = "sy_manager sy" let ?rs = "candidates bs ?m"
  let ?counted = "filter (\<lambda>r. bare_counter (ip_definition (mg_objects ?m ! r))) ?rs"
  obtain bucket took where take: "tryTake (js_int now) (mg_rateLimiter ?m) = (bucket, took)" by force
  show ?thesis
  proof (cases took)
    case False
    have d: "set ?counted \<subseteq> set ?rs" "distinct ?counted" using candidates_ok(1) [OF inv, of bs] by auto
    have "sys_inv S (fold (retire_if_done env now) ?counted (resumeWithFallback [] None (sy\<lparr>sy_manager := m\<rparr>)))"
      if "m \<in> {m2, m2\<lparr>mg_droppedHits := n\<rparr>}" and m2: "m2 = fold (\<lambda>r m. count_hit r (m\<lparr>mg_aggregates :=
           incrementCounter (pd_id (ip_definition (mg_objects m ! r))) (mg_aggregates m)\<rparr>)) ?counted (?m\<lparr>mg_rateLimiter := bucket\<rparr>)" for m m2 n
    proof -
      have "mg_objects m2 = mg_objects (fold count_hit ?counted ?m)" unfolding m2 by (rule counted_objects) simp
      then show ?thesis
        using that(1) by (intro sys_over_limit [OF inv d]) (auto simp: m2 counted_fields)
    qed
    then show ?thesis
      using False take sys_resume_only [OF inv] by (auto simp: handlePaused_def Let_def simp del: filter_filter)
  next
    case True
    let ?sy = "sy\<lparr>sy_manager := fold (\<lambda>r. set_object r (\<lambda>i. i\<lparr>ip_pending := ip_pending i + 1\<rparr>)) ?rs (?m\<lparr>mg_rateLimiter := bucket\<rparr>)\<rparr>"
    have "sys_inv S (emit (Capturing ?rs (mg_epoch ?m)) ?sy)" by (rule sys_reserve [OF inv]) simp_all
    then show ?thesis
      using True take sys_resume_only [OF inv] sys_resumeWithFallback [of S "Capturing ?rs (mg_epoch ?m)" ?sy ?rs "Some (mg_epoch ?m, None, empty_capture)"]
      by (simp add: handlePaused_def Let_def)
  qed
qed

subsection \<open>Every step keeps the invariant\<close>

lemma agent_init_inv: "agent_inv \<lparr>sy_manager = new_manager bucket buffer, sy_tasks = [], sy_v8 = [], sy_refused = []\<rparr>"
  by (simp add: sys_parts new_manager_def hits_inv_def quiet_inv_def arming_inv_def v8_inv_def)

lemma answer_step_inv: "answer_step env sy sy' \<Longrightarrow> agent_inv sy \<Longrightarrow> agent_inv sy'"
proof (induction rule: answer_step.induct)
  case (step_set sy xs n p script line col requested rest ys answer now)
  have "agent_inv (without xs ys sy)" "arming p (without xs ys sy)"
    using sys_take_arm [OF step_set.prems step_set.hyps(1)] by simp_all
  then show ?case using step_set.hyps(2) by (intro sys_answer_set) simp_all
next
  case (step_await sy xs n p script line col requested rest ys now)
  have "agent_inv (without xs ys sy)" "arming p (without xs ys sy)"
    using sys_take_arm [OF step_await.prems step_await.hyps(1)] by simp_all
  then show ?case by (rule sys_answer_await)
next
  case (step_later sy xs p ys now)
  show ?case by (intro sys_arm_loop, rule sys_take_neutral [OF step_later.prems step_later.hyps]) simp_all
next
  case (step_captured sy xs rs epoch ys err c)
  show ?case using sys_take [OF step_captured.prems step_captured.hyps] by (rule sys_resumeWithFallback) simp_all
next
  case (step_resumed sy xs rs k ys)
  have "task_ok (Resuming rs k)" using step_resumed by (auto simp: sys_parts hits_inv_def)
  then show ?case using sys_take [OF step_resumed.prems step_resumed.hyps] by (intro sys_resumed) (auto split: option.splits)
next
  case (step_retry sy xs rs k ys e)
  have "task_ok (Resuming rs k)" using step_retry by (auto simp: sys_parts hits_inv_def)
  then have "task_ok (Retrying rs k e)" by (cases k) simp_all
  then show ?case
    using sys_take [OF step_retry.prems step_retry.hyps] \<open>task_ok (Resuming rs k)\<close> by (subst sys_same_refs [of _ "Resuming rs k"]) simp_all
next
  case (step_retried sy xs rs k e ys)
  have "task_ok (Retrying rs k e)" using step_retried by (auto simp: sys_parts hits_inv_def)
  then show ?case using sys_take [OF step_retried.prems step_retried.hyps] by (intro sys_resumed) (auto split: option.splits)
next
  case (step_failed sy xs rs k e ys e' detail)
  show ?case using sys_take [OF step_failed.prems step_failed.hyps] by (rule sys_handleResumeFailure) simp_all
next
  case (step_process sy xs rs epoch err c ys now)
  show ?case using sys_take [OF step_process.prems step_process.hyps] by (rule sys_process_pause) simp_all
next
  case (step_report sy xs ps detail ys now)
  show ?case by (intro sys_report_failure, rule sys_take_neutral [OF step_report.prems step_report.hyps]) simp_all
qed (rule sys_answer_removal)

lemma agent_step_inv: "agent_step env sy sy' \<Longrightarrow> agent_inv sy \<Longrightarrow> agent_inv sy'"
proof (induction rule: agent_step.induct)
  case (step_arm p sy now)
  then show ?case by (intro sys_arm_loop)
next
  case (step_script sy now sid url)
  then show ?case by (auto simp: on_manager_def intro!: sys_onScriptAvailable sys_frame)
next
  case (step_answer sy sy')
  then show ?case by (rule answer_step_inv)
qed (auto intro: sys_reconcile sys_suspendAll sys_rearm sys_stopManager sys_handlePaused)

lemma agent_reachable_inv: "agent_reachable env sy \<Longrightarrow> agent_inv sy"
  by (induction rule: agent_reachable.induct) (auto intro: agent_init_inv agent_step_inv)

section \<open>The sample run is a run\<close>

lemmas sample_defs = sample_manager_env_def sample_counter_def sample_loaded_def new_manager_def

lemma sample_resolution:
  "resolveBySuffix (me_scripts sample_manager_env) ''a.ts'' [(''7'', sample_script)] = ScriptFound sample_script"
  "register (me_scripts sample_manager_env) ''7'' ''a.ts'' [] = ([(''7'', sample_script)], Some sample_script)"
  "locationKey ''7'' 2 0 = ''7:2:0''" "locationKey ''7'' 2 4 = ''7:2:4''"
  by code_simp+

lemma sample_requested_eq:
  "sample_requested = sample_loaded\<lparr>sy_manager := (sy_manager sample_loaded)\<lparr>mg_epoch := 1, mg_desired := [(''p1'', sample_counter)],
       mg_installing := [''p1''], mg_attempts := 1, mg_arming := [(''7:2:0'', 0)]\<rparr>,
     sy_tasks := [SetBreakpoint 0 sample_counter sample_script 3 0 ''7:2:0'' []]\<rparr>"
  using sample_resolution
  by (simp add: sample_requested_def reconcile_def commit_def by_id_def ensureArmed_def acquireBreakpoint_def start_attempt_def emit_def
      sample_defs sample_script_def Let_def)

lemma sample_loaded_reachable: "agent_reachable sample_manager_env sample_loaded"
proof -
  let ?sy = "\<lparr>sy_manager = new_manager (int_bucket 5 5 0) \<lparr>eb_maxBytes = 100, eb_events = [], eb_bytes = 0, eb_dropped = 0\<rparr>,
      sy_tasks = [], sy_v8 = [], sy_refused = []\<rparr>"
  have "onScriptAvailable sample_manager_env 0 (on_manager (\<lambda>m. m\<lparr>mg_scripts :=
      fst (register (me_scripts sample_manager_env) ''7'' ''a.ts'' (mg_scripts m))\<rparr>) ?sy) = sample_loaded"
    using sample_resolution(2) by (simp add: onScriptAvailable_def on_manager_def sample_loaded_def new_manager_def Let_def)
  then show ?thesis
    using agent_next [OF agent_init step_script [of sample_manager_env ?sy 0 "''7''" "''a.ts''"]] by simp
qed

lemma sample_armed_reachable: "agent_reachable sample_manager_env sample_armed"
proof -
  have "agent_reachable sample_manager_env sample_requested"
    unfolding sample_requested_def by (rule agent_next [OF sample_loaded_reachable step_reconcile])
  then show ?thesis
    unfolding sample_armed_def by (rule agent_next [OF _ step_answer [OF step_set [of _ "[]"]]]) (simp_all add: sample_requested_eq sample_loaded_def)
qed

lemma sample_claimed_eq:
  "claim ''p1'' 0 (settle ''7:2:0'' 0 (add_holder ''7'' ''7:2:0'' ''b1''
     \<lparr>rv_scriptId = None, rv_lineNumber = Some 2, rv_columnNumber = Some 4\<rparr> (sy_manager sample_requested))) = sample_claimed"
  using sample_resolution(3,4)
  by (simp add: sample_claimed_def sample_requested_eq add_holder_def resolvedKey_def claim_def set_holder_def settle_def
      sample_loaded_def new_manager_def Let_def jhas_def)

lemma install_others:
  "mg_epoch (install env now p s h m) = mg_epoch m" "mg_rateLimiter (install env now p s h m) = mg_rateLimiter m"
  "mg_desired (install env now p s h m) = mg_desired m"
  by (simp_all add: install_def audit_def status_def add_event_def)

lemma sample_armed_eq:
  "sample_armed = \<lparr>sy_manager = (install sample_manager_env 0 sample_counter sample_script 0 sample_claimed)\<lparr>mg_installing := []\<rparr>,
     sy_tasks = [], sy_v8 = [''b1''], sy_refused = []\<rparr>"
proof -
  have r: "mg_holders (sy_manager sample_requested) = []" "sy_v8 sample_requested = []" "sy_refused sample_requested = []"
    by (simp_all add: sample_requested_eq sample_loaded_def new_manager_def)
  have c: "mg_desired sample_claimed = [(''p1'', sample_counter)]" "\<not> mg_stopped sample_claimed" "\<not> mg_suspended sample_claimed"
      "mg_installing sample_claimed = [''p1'']"
    by (simp_all add: sample_claimed_def sample_requested_eq sample_loaded_def new_manager_def)
  have p: "pd_id sample_counter = ''p1''" "rs_scriptId sample_script = ''7''" by (simp_all add: sample_counter_def sample_script_def)
  have "sample_armed = continue_arm sample_manager_env 0 [] (acquired sample_manager_env 0 sample_counter sample_script 0 []
      (sample_requested\<lparr>sy_tasks := [], sy_manager := sample_claimed, sy_v8 := [''b1'']\<rparr>))"
    by (simp add: sample_armed_def answer_set_def r p sample_claimed_eq without_def Let_def)
  also have "\<dots> = sample_requested\<lparr>sy_tasks := [], sy_v8 := [''b1''], sy_manager :=
      (install sample_manager_env 0 sample_counter sample_script 0 sample_claimed)\<lparr>mg_installing := []\<rparr>\<rparr>"
    by (simp add: continue_arm_def acquired_def p c finish_arm_def install_others Let_def)
  finally have eq: "sample_armed = \<dots>" .
  show ?thesis by (rule agent_sys.equality) (simp_all add: eq r(3))
qed

lemma sample_armed_state:
  "sy_v8 sample_armed = [''b1'']" "mg_installed (sy_manager sample_armed) = [(''p1'', 0)]"
  "mg_objects (sy_manager sample_armed) = [\<lparr>ip_active = True, ip_breakpointId = ''b1'', ip_definition = sample_counter, ip_fingerprint = ''p1'',
     ip_hits = 0, ip_pending = 0, ip_scriptId = ''7''\<rparr>]"
  "mg_byBreakpoint (sy_manager sample_armed) = [(''b1'', 0)]"
  "mg_holders (sy_manager sample_armed) = [\<lparr>bh_breakpointId = ''b1'', bh_keys = [''7:2:0'', ''7:2:4''], bh_probeIds = [''p1'']\<rparr>]"
  "sy_tasks sample_armed = []" "\<not> mg_suspended (sy_manager sample_armed)" "\<not> mg_stopped (sy_manager sample_armed)"
  "\<not> mg_inspectorFailed (sy_manager sample_armed)" "mg_epoch (sy_manager sample_armed) = 1"
  "mg_rateLimiter (sy_manager sample_armed) = int_bucket 5 5 0" "sy_refused sample_armed = []"
  by (simp_all add: sample_armed_eq install_others sample_claimed_def sample_requested_eq sample_defs sample_script_def)





lemma sample_suspended_reachable: "agent_reachable sample_manager_env sample_suspended"
  unfolding sample_suspended_def by (rule agent_next [OF sample_armed_reachable step_suspend])

lemma sample_suspended_flag: "mg_suspended (sy_manager sample_suspended)"
  by (simp add: sample_suspended_def suspendAll_def sample_armed_state Let_def clearBreakpointRegistry_def set_holder_def deactivate_def
      set_object_def status_def add_event_def remove_all_def emit_def)

lemma sample_stopped_reachable: "agent_reachable sample_manager_env sample_stopped"
proof -
  have "agent_reachable sample_manager_env (stopManager sample_armed)"
    by (rule agent_next [OF sample_armed_reachable step_stop])
  moreover have "sy_tasks (stopManager sample_armed) = [RemoveBreakpoint ''b1'' ThenNothing]"
    by (simp add: stopManager_def sample_armed_state Let_def clearBreakpointRegistry_def emit_def)
  ultimately show ?thesis
    unfolding sample_stopped_def by (intro agent_next [OF _ step_answer [OF step_removed [of _ "[]"]]]) simp_all
qed

lemma sample_stopped_state:
  "mg_stopped (sy_manager sample_stopped)" "sy_tasks sample_stopped = []" "\<not> mg_inspectorFailed (sy_manager sample_stopped)"
  "sy_refused sample_stopped = []"
  by (simp_all add: sample_stopped_def answer_removal_def without_def stopManager_def sample_armed_state Let_def clearBreakpointRegistry_def
      set_holder_def emit_def deactivate_def set_object_def)

section \<open>What the agent guarantees\<close>



text \<open>
  C36: A manager that is suspended or stopped has no probe installed and no breakpoint registered, so a pause
  counts for no probe: it is resumed at once and nothing else changes.
\<close>

theorem suspended_means_disarmed:
  assumes "agent_reachable env sy" and "mg_suspended (sy_manager sy) \<or> mg_stopped (sy_manager sy)"
  shows "mg_installed (sy_manager sy) = [] \<and> mg_byBreakpoint (sy_manager sy) = [] \<and> mg_byLocation (sy_manager sy) = [] \<and>
     handlePaused env now bs sy = (if mg_inspectorFailed (sy_manager sy) then sy else emit (Resuming [] None) sy)"
proof -
  have inv: "mg_installed (sy_manager sy) = []" "mg_byBreakpoint (sy_manager sy) = []"
    and hs: "holders_inv (mg_byBreakpoint (sy_manager sy)) (mg_byLocation (sy_manager sy)) (mg_holders (sy_manager sy))"
    using agent_reachable_inv [OF assms(1)] assms(2) by (auto simp: sys_parts quiet_inv_def)
  have "candidates bs (sy_manager sy) = []"
    using inv(1) by (auto simp: candidates_def hit_candidate_def List.map_filter_def filter_empty_conv)
  then have "handlePaused env now bs sy = resumeWithFallback [] None sy" by (simp add: handlePaused_def Let_def)
  then show ?thesis
    using inv no_locations hs by (auto simp: resumeWithFallback_def on_manager_def releasePending_def)
qed

theorem suspended_means_disarmed_witness:
  "mg_suspended (sy_manager sample_suspended) \<and> mg_installed (sy_manager sample_suspended) = []"
  using suspended_means_disarmed [OF sample_suspended_reachable] sample_suspended_flag by simp

text \<open>
  C37: An armed probe is watched: as long as the inspector session works, the breakpoint of every installed probe is
  registered, is held by V8, and lists the probe, so that a pause at it finds the probe.
\<close>

theorem armed_probe_is_watched:
  assumes "agent_reachable env sy" and "jget (mg_installed (sy_manager sy)) pid = Some r"
  shows "\<exists>h. jget (mg_byBreakpoint (sy_manager sy)) (ip_breakpointId (mg_objects (sy_manager sy) ! r)) = Some h \<and>
     bh_breakpointId (mg_holders (sy_manager sy) ! h) = ip_breakpointId (mg_objects (sy_manager sy) ! r) \<and>
     ip_breakpointId (mg_objects (sy_manager sy) ! r) \<in> set (sy_v8 sy) \<and>
     pid \<in> set (hit_probes [ip_breakpointId (mg_objects (sy_manager sy) ! r)] (sy_manager sy))"
proof -
  let ?m = "sy_manager sy" let ?b = "ip_breakpointId (mg_objects ?m ! r)"
  note inv = agent_reachable_inv [OF assms(1)]
  obtain h where h: "jget (mg_byBreakpoint ?m) ?b = Some h" "pid \<in> set (bh_probeIds (mg_holders ?m ! h))"
    using inv assms(2) unfolding sys_parts armed_inv_def by blast
  have "bh_breakpointId (mg_holders ?m ! h) = ?b" using inv h(1) holdersD(2) by (auto simp: sys_parts)
  moreover have "?b \<in> set (sy_v8 sy)"
    using inv registered_in_v8 h(1) by (auto simp: sys_parts jhas_def)
  ultimately show ?thesis using h by (auto simp: hit_probes_def)
qed

theorem armed_probe_is_watched_witness: "''b1'' \<in> set (sy_v8 sample_armed)"
  using armed_probe_is_watched [OF sample_armed_reachable, of "''p1''" 0] sample_armed_state by simp

end
