(* ===== verification/Agent_Shutdown.thy ===== *)
theory Agent_Shutdown
  imports Agent_Invariant
begin

text \<open>
  The end of \<^verbatim>\<open>ProbeManager.stop\<close>: once the manager is stopped the answers to what is in flight start nothing
  that goes on for ever, some answer is always possible until nothing is left, and then V8 holds no breakpoint
  but those it refused to remove.
\<close>

section \<open>Definitions\<close>

text \<open>How many more answers a task can lead to once the manager is stopped.\<close>

fun weight :: "task \<Rightarrow> nat" where
  "weight (SetBreakpoint _ _ _ _ _ _ _) = 2"
| "weight (AwaitArming _ _ _ _ _ _ _) = 3"
| "weight (RemoveBreakpoint _ (ThenRemove bs)) = 1 + length bs"
| "weight (RemoveBreakpoint _ (ThenReconcile _ _ rest)) = 1 + length rest"
| "weight (RemoveBreakpoint _ _) = 1"
| "weight (ArmLater _) = 1"
| "weight (Capturing _ _) = 4"
| "weight (Resuming _ _) = 3"
| "weight (Retrying _ _ _) = 2"
| "weight (Processing _ _ _ _) = 1"
| "weight (ReportFailure _ _) = 1"

definition pending_work :: "agent_sys \<Rightarrow> nat" where
  "pending_work sy = sum_list (map weight (sy_tasks sy))"

abbreviation stopped :: "agent_sys \<Rightarrow> bool" where
  "stopped sy \<equiv> mg_stopped (sy_manager sy)"

section \<open>Lemmas\<close>

lemma pending_work_simps [simp]:
  "pending_work (emit t sy) = pending_work sy + weight t"
  "pending_work (on_manager f sy) = pending_work sy"
  "pending_work (sy\<lparr>sy_manager := m\<rparr>) = pending_work sy"
  "pending_work (sy\<lparr>sy_v8 := v\<rparr>) = pending_work sy"
  "pending_work (sy\<lparr>sy_refused := v\<rparr>) = pending_work sy"
  by (simp_all add: pending_work_def)

lemma pending_work_without:
  "sy_tasks sy = xs @ t # ys \<Longrightarrow> pending_work sy = pending_work (without xs ys sy) + weight t"
  by (simp add: pending_work_def)

subsection \<open>A stopped manager arms nothing\<close>

lemma stopped_arm_loop [simp]: "stopped sy \<Longrightarrow> arm_loop env now ps sy = sy"
  by (induction ps) (simp_all add: ensureArmed_def Let_def)

lemma stopped_continue_arm [simp]: "stopped (fst r) \<Longrightarrow> continue_arm env now rest r = fst r"
  by (auto simp: continue_arm_def split: prod.split)

lemma stopped_finish_arm [simp]:
  "stopped (finish_arm env p sy) = stopped sy" "stopped sy \<Longrightarrow> pending_work (finish_arm env p sy) = pending_work sy"
  by (auto simp: finish_arm_def Let_def split: option.split)

lemma stopped_releaseHolder [simp]: "mg_stopped (fst (releaseHolder h m)) = mg_stopped m"
  by (simp add: releaseHolder_def Let_def)

lemma stopped_releaseFor [simp]: "mg_stopped (fst (releaseBreakpointFor r m)) = mg_stopped m"
  by (simp add: releaseBreakpointFor_def Let_def split: option.split)

lemma stopped_uninstall [simp]: "mg_stopped (fst (uninstall r m)) = mg_stopped m"
  by (simp add: uninstall_def Let_def)

lemma stopped_acquired:
  assumes "stopped sy"
  shows "stopped (fst (acquired env now p s h rest sy))" "pending_work (fst (acquired env now p s h rest sy)) \<le> pending_work sy + 1"
proof -
  obtain m1 ob where r: "releaseHolder h (disclaim (pd_id p) h (sy_manager sy)) = (m1, ob)" by force
  then have "mg_stopped m1" using stopped_releaseHolder [of h "disclaim (pd_id p) h (sy_manager sy)"] assms by simp
  then show "stopped (fst (acquired env now p s h rest sy))" "pending_work (fst (acquired env now p s h rest sy)) \<le> pending_work sy + 1"
    using assms r by (auto simp: acquired_def Let_def split: option.split)
qed

lemma stopped_commit: "stopped sy \<Longrightarrow> stopped (commit env now w sy) \<and> pending_work (commit env now w sy) = pending_work sy"
  by (simp add: commit_def Let_def)

lemma stopped_reconcile_loop:
  "stopped sy \<Longrightarrow> stopped (reconcile_loop env now w inst sy) \<and> pending_work (reconcile_loop env now w inst sy) \<le> pending_work sy + length inst"
proof (induction inst arbitrary: sy)
  case (Cons e rest)
  obtain pid r where e: "e = (pid, r)" by force
  obtain m1 ob where u: "uninstall r (sy_manager sy) = (m1, ob)" by force
  have m1: "mg_stopped m1" using stopped_uninstall [of r "sy_manager sy"] u Cons.prems by simp
  then show ?case
    using Cons.IH [of sy] Cons.prems Cons.IH [of "sy\<lparr>sy_manager := uninstall_audit (ip_definition (mg_objects (sy_manager sy) ! r)) m1\<rparr>"]
    by (auto simp: e u Let_def uninstall_audit_def split: option.split)
qed (simp add: stopped_commit)

lemma stopped_answer_set:
  assumes "stopped sy"
  shows "stopped (answer_set env now answer n p s k rest sy) \<and> pending_work (answer_set env now answer n p s k rest sy) \<le> pending_work sy + 1"
proof (cases answer)
  case (SetFailed e)
  then show ?thesis using assms by (simp add: answer_set_def Let_def)
next
  case (SetOk b ls)
  have "mg_stopped (add_holder sid j c l (sy_manager sy))" for sid j c l
    using assms by (simp add: add_holder_def Let_def split: prod.split)
  then have "stopped (fst (acquired env now p s h rest sy1)) \<and> pending_work (fst (acquired env now p s h rest sy1)) \<le> pending_work sy + 1"
    if "sy1 = sy\<lparr>sy_manager := claim (pd_id p) j (settle k n (add_holder sid k b l (sy_manager sy))), sy_v8 := b # sy_v8 sy\<rparr>" for sy1 h j sid l
    using stopped_acquired [of sy1 env now p s h rest] that by simp
  then show ?thesis
    using assms SetOk by (cases ls) (auto simp: answer_set_def Let_def)
qed

lemma stopped_answer_await:
  assumes "stopped sy"
  shows "stopped (answer_await env now p s l c k rest sy) \<and> pending_work (answer_await env now p s l c k rest sy) \<le> pending_work sy + 2"
proof -
  have "stopped (fst (acquired env now p s h rest (sy\<lparr>sy_manager := claim (pd_id p) h (sy_manager sy)\<rparr>))) \<and>
      pending_work (fst (acquired env now p s h rest (sy\<lparr>sy_manager := claim (pd_id p) h (sy_manager sy)\<rparr>))) \<le> pending_work sy + 1" for h
    using stopped_acquired [of "sy\<lparr>sy_manager := claim (pd_id p) h (sy_manager sy)\<rparr>"] assms by simp
  then show ?thesis
    using assms by (auto simp: answer_await_def start_attempt_def Let_def le_SucI split: option.split)
qed

lemma stopped_remove_all: "stopped (remove_all bs sy) = stopped sy" "pending_work (remove_all bs sy) = pending_work sy + length bs"
  by (simp_all add: remove_all_def split: list.split)

lemma stopped_removal:
  assumes "stopped sy"
  shows "stopped (answer_removal env now err b k sy) \<and>
     pending_work (answer_removal env now err b k sy) < pending_work sy + weight (RemoveBreakpoint b k)"
proof -
  have s: "stopped (settled err b sy)" "pending_work (settled err b sy) = pending_work sy" using assms by (simp_all split: option.split)
  show ?thesis
  proof (cases k)
    case (ThenReconcile p w rest)
    have "stopped (on_manager (uninstall_audit p) (settled err b sy))" using s by (simp add: uninstall_audit_def)
    from stopped_reconcile_loop [OF this, of env now w rest] show ?thesis
      using s by (simp add: answer_removal_def ThenReconcile)
  qed (use s in \<open>auto simp: answer_removal_def stopped_remove_all split: option.split\<close>)
qed

lemma stopped_failure:
  assumes "stopped sy"
  shows "stopped (handleResumeFailure env e e' d rs sy) \<and> pending_work (handleResumeFailure env e e' d rs sy) \<le> pending_work sy + 1"
proof -
  have "mg_stopped (fst (clearBreakpointRegistry m)) = mg_stopped m" for m
    using cleared_fields(7) by (metis prod.collapse)
  then show ?thesis using assms by (simp add: handleResumeFailure_def Let_def)
qed

text \<open>Every answer brings the end nearer.\<close>

lemma answer_decreases:
  assumes "answer_step env sy sy'" "stopped sy"
  shows "stopped sy' \<and> pending_work sy' < pending_work sy"
  using assms
proof (induction rule: answer_step.induct)
  case (step_set sy xs n p script line col requested rest ys answer now)
  then show ?case using stopped_answer_set [of "without xs ys sy"] pending_work_without [OF step_set.hyps(1)] by (auto simp: less_Suc_eq_le)
next
  case (step_await sy xs n p script line col requested rest ys now)
  then show ?case using stopped_answer_await [of "without xs ys sy" env now p script line col requested rest] pending_work_without [OF step_await.hyps(1)] by simp
next
  case (step_removed sy xs b k ys now err)
  then show ?case using stopped_removal [of "without xs ys sy"] pending_work_without [OF step_removed.hyps(1)] by simp
next
  case (step_later sy xs p ys now)
  then show ?case
    using stopped_arm_loop [of "without xs ys sy" env now "[p]"] pending_work_without [OF step_later.hyps(1)] by (simp del: arm_loop.simps)
next
  case (step_failed sy xs rs k e ys e' detail)
  then show ?case using stopped_failure [of "without xs ys sy"] pending_work_without [OF step_failed.hyps(1)] by (auto simp: less_Suc_eq_le)
qed (auto simp: pending_work_without resumeWithFallback_def resumed_def process_pause_def report_failure_def Let_def split: option.split)

text \<open>Something can always be answered.\<close>

lemma answer_possible:
  assumes "sy_tasks sy \<noteq> []" shows "\<exists>sy'. answer_step env sy sy'"
proof (cases "\<exists>t \<in> set (sy_tasks sy). \<forall>n p s l c k rest. t \<noteq> AwaitArming n p s l c k rest")
  case True
  then obtain t xs ys where t: "sy_tasks sy = xs @ t # ys" "\<forall>n p s l c k rest. t \<noteq> AwaitArming n p s l c k rest"
    by (metis split_list)
  show ?thesis
  proof (cases t)
    case (SetBreakpoint n p s l c k rest)
    show ?thesis using step_set [OF t(1) [unfolded SetBreakpoint], of "SetFailed []"] by blast
  qed (use t in \<open>blast intro: answer_step.intros\<close>)+
next
  case False
  then have all: "\<forall>t \<in> set (sy_tasks sy). \<exists>n p s l c k rest. t = AwaitArming n p s l c k rest" by blast
  obtain t ys where ts: "sy_tasks sy = [] @ t # ys" using assms by (cases "sy_tasks sy") auto
  with all obtain n p s l c k rest where t: "t = AwaitArming n p s l c k rest" by auto
  have "list_all (\<lambda>t. \<not> is_attempt n t) (sy_tasks sy)" using all by (auto simp: list_all_iff)
  then show ?thesis using step_await [OF ts [unfolded t]] by blast
qed

lemma answers_bounded:
  "(answer_step env ^^ n) sy sy' \<Longrightarrow> stopped sy \<Longrightarrow> stopped sy' \<and> pending_work sy' + n \<le> pending_work sy"
proof (induction n arbitrary: sy')
  case (Suc n)
  then obtain mid where "(answer_step env ^^ n) sy mid" "answer_step env mid sy'" by auto
  then show ?case using Suc.IH [of mid] Suc.prems(2) answer_decreases by fastforce
qed simp

lemma answers_reachable: "(answer_step env ^^ n) sy sy' \<Longrightarrow> agent_reachable env sy \<Longrightarrow> agent_reachable env sy'"
  by (induction n arbitrary: sy') (auto intro: agent_next step_answer)

lemma idle_v8:
  assumes "agent_inv sy" "stopped sy" "sy_tasks sy = []" "\<not> mg_inspectorFailed (sy_manager sy)"
  shows "mset (sy_v8 sy) = mset (sy_refused sy)"
  using assms by (simp add: sys_parts quiet_inv_def v8_inv_def)

text \<open>
  C38: Stopping ends.  From any reachable state in which the manager is stopped, the inspector can give at most
  \<open>pending_work\<close> answers, whatever they are and in whatever order; it can always give one until nothing is in
  flight; and then, unless the session failed, V8 holds no breakpoint of the agent but those it refused to remove.
\<close>

theorem stop_drains:
  assumes "agent_reachable env sy" "mg_stopped (sy_manager sy)" "(answer_step env ^^ n) sy sy'"
  shows "n \<le> pending_work sy \<and> ((\<exists>sy''. answer_step env sy' sy'') \<longleftrightarrow> sy_tasks sy' \<noteq> []) \<and>
     (sy_tasks sy' = [] \<and> \<not> mg_inspectorFailed (sy_manager sy') \<longrightarrow> mset (sy_v8 sy') = mset (sy_refused sy'))"
proof -
  have n: "stopped sy'" "pending_work sy' + n \<le> pending_work sy" using answers_bounded [OF assms(3,2)] by simp_all
  have "\<not> answer_step env sy' sy''" if "sy_tasks sy' = []" for sy''
    using answer_decreases [of env sy' sy''] n(1) that by (auto simp: pending_work_def)
  moreover have "agent_inv sy'" by (rule agent_reachable_inv [OF answers_reachable [OF assms(3,1)]])
  ultimately show ?thesis using n answer_possible [of sy' env] idle_v8 [of sy'] by auto
qed

lemma sample_stop_run:
  "(answer_step sample_manager_env ^^ 1) (stopManager sample_armed) sample_stopped"
  "agent_reachable sample_manager_env (stopManager sample_armed)" "mg_stopped (sy_manager (stopManager sample_armed))"
proof -
  have "sy_tasks (stopManager sample_armed) = [] @ RemoveBreakpoint ''b1'' ThenNothing # []"
    by (simp add: stopManager_def sample_armed_state Let_def clearBreakpointRegistry_def emit_def)
  from step_removed [OF this, of sample_manager_env 0 None]
  show "(answer_step sample_manager_env ^^ 1) (stopManager sample_armed) sample_stopped"
    by (simp add: sample_stopped_def relcompp_apply)
  show "agent_reachable sample_manager_env (stopManager sample_armed)" by (rule agent_next [OF sample_armed_reachable step_stop])
  show "mg_stopped (sy_manager (stopManager sample_armed))"
    by (simp add: stopManager_def sample_armed_state Let_def clearBreakpointRegistry_def set_holder_def emit_def)
qed

theorem stop_drains_witness: "sy_v8 sample_armed = [''b1''] \<and> sy_v8 sample_stopped = []"
  using stop_drains [OF sample_stop_run(2,3,1)] sample_stopped_state sample_armed_state by simp

end
