(* ===== verification/Broker_Client.thy ===== *)
theory Broker_Client
  imports Safe_Expression Broker_System Broker_Sample Wire_Schemas
begin

text \<open>
  The agent's side of a poll (\<^verbatim>\<open>packages/sdk-node/src/broker-client.ts\<close>): the validation of the decoded
  response, probe by probe.  A value from the network is a \<open>json\<close> document, \<^verbatim>\<open>value[k]\<close> is its member or
  nothing.  The broker's answer is encoded by \<open>probe_json\<close>, which is \<^verbatim>\<open>JSON.stringify\<close> on the
  records of the protocol: an absent option is an absent member.  The lemmas show when the agent accepts what the
  broker sends, over every reachable state of the broker.
\<close>

section \<open>Definitions\<close>

subsection \<open>Members of a decoded value\<close>

fun isRecord :: "json \<Rightarrow> bool" where
  "isRecord (JObj _) = True"
| "isRecord _ = False"

fun member :: "json \<Rightarrow> string \<Rightarrow> json option" where
  "member (JObj ps) k = jget ps k"
| "member _ k = None"

fun is_string :: "json option \<Rightarrow> bool" where
  "is_string (Some (JStr _)) = True"
| "is_string _ = False"

fun nonempty_string :: "json option \<Rightarrow> bool" where
  "nonempty_string (Some (JStr s)) = (s \<noteq> [])"
| "nonempty_string _ = False"

fun string_in :: "string list \<Rightarrow> json option \<Rightarrow> bool" where
  "string_in names (Some (JStr s)) = (s \<in> set names)"
| "string_in names _ = False"

fun is_boolean :: "json option \<Rightarrow> bool" where
  "is_boolean (Some (JBool _)) = True"
| "is_boolean _ = False"

text \<open>\<^verbatim>\<open>Number.isSafeInteger(v) && v >= low\<close>.\<close>

fun safe_integer_from :: "int \<Rightarrow> json option \<Rightarrow> bool" where
  "safe_integer_from low (Some (JNum n)) = (is_safe_integer_num n \<and> js_le (js_int low) n)"
| "safe_integer_from low _ = False"

fun array_of :: "(json \<Rightarrow> bool) \<Rightarrow> json option \<Rightarrow> bool" where
  "array_of ok (Some (JArr vs)) = list_all ok vs"
| "array_of ok _ = False"

fun isJsonScalar_decoded :: "json option \<Rightarrow> bool" where
  "isJsonScalar_decoded (Some JNull) = True"
| "isJsonScalar_decoded (Some (JStr _)) = True"
| "isJsonScalar_decoded (Some (JBool _)) = True"
| "isJsonScalar_decoded (Some (JNum n)) = is_finite_num n"
| "isJsonScalar_decoded _ = False"

text \<open>An optional member that has to pass a test when it is there.\<close>

definition opt_member :: "(json option \<Rightarrow> bool) \<Rightarrow> json option \<Rightarrow> bool" where
  "opt_member ok v \<longleftrightarrow> v = None \<or> ok v"

subsection \<open>Validation of a probe\<close>

definition PROBE_TYPES :: "string list" where
  "PROBE_TYPES = [''snapshot'', ''log'', ''counter'', ''metric'']"

definition CONDITION_OPERATORS :: "string list" where
  "CONDITION_OPERATORS = [''eq'', ''ne'', ''gt'', ''gte'', ''lt'', ''lte'']"

definition LOG_LEVELS :: "string list" where
  "LOG_LEVELS = [''debug'', ''info'', ''warn'', ''error'']"

definition isTemplateSegment :: "json \<Rightarrow> bool" where
  "isTemplateSegment v =
     (case v of
        JObj ps \<Rightarrow>
          (case jget ps ''type'' of
             Some (JStr t) \<Rightarrow>
               if t = ''text'' then
                 (case jget ps ''value'' of Some (JStr s) \<Rightarrow> length s \<le> 16384 \<and> length ps = 2 | _ \<Rightarrow> False)
               else t = ''expression'' \<and>
                 (case jget ps ''expression'' of Some e \<Rightarrow> isCompiledExpression e \<and> length ps = 2 | None \<Rightarrow> False)
           | _ \<Rightarrow> False)
      | _ \<Rightarrow> False)"

definition parseCondition_ok :: "json option \<Rightarrow> bool" where
  "parseCondition_ok v =
     (case v of
        None \<Rightarrow> True
      | Some c \<Rightarrow> isRecord c \<and> is_string (member c ''path'') \<and> string_in CONDITION_OPERATORS (member c ''op'') \<and>
          isJsonScalar_decoded (member c ''value''))"

definition identity_ok :: "json \<Rightarrow> string \<Rightarrow> bool" where
  "identity_ok v serviceId \<longleftrightarrow>
     nonempty_string (member v ''id'') \<and> member v ''serviceId'' = Some (JStr serviceId) \<and>
     string_in PROBE_TYPES (member v ''type'') \<and> nonempty_string (member v ''file'') \<and>
     safe_integer_from 1 (member v ''line'') \<and> safe_integer_from 1 (member v ''hitLimit'') \<and>
     safe_integer_from 1 (member v ''ttlSeconds'') \<and> safe_integer_from 1 (member v ''version'') \<and>
     nonempty_string (member v ''createdBy'')"

definition stackFrameLimit_ok :: "json option \<Rightarrow> bool" where
  "stackFrameLimit_ok v = (case v of Some (JNum n) \<Rightarrow> safe_integer_from 1 v \<and> js_le n (js_int 8) | _ \<Rightarrow> False)"

definition runtime_ok :: "json \<Rightarrow> bool" where
  "runtime_ok v \<longleftrightarrow>
     (member v ''runtimeLocation'' = None \<and> member v ''runtimeLine'' = None \<and> member v ''runtimeColumn'' = None) \<or>
     (nonempty_string (member v ''runtimeLocation'') \<and> safe_integer_from 1 (member v ''runtimeLine'') \<and>
      safe_integer_from 0 (member v ''runtimeColumn''))"

text \<open>The checks in the order of the code, each with the message it throws.\<close>

definition probe_checks :: "json \<Rightarrow> string \<Rightarrow> (bool \<times> string) list" where
  "probe_checks v serviceId =
     (let typ = member v ''type'' in
      [(isRecord v, ''broker returned a non-object probe''),
       (identity_ok v serviceId, ''broker returned an invalid probe definition''),
       (typ = Some (JStr ''log'') \<longrightarrow> is_string (member v ''template''), ''broker returned a log probe without a template''),
       (typ = Some (JStr ''log'') \<longrightarrow> opt_member (string_in LOG_LEVELS) (member v ''logLevel''),
          ''broker returned a log probe with an invalid level''),
       (opt_member nonempty_string (member v ''metricPath''), ''broker returned an invalid metric path''),
       (opt_member (array_of (\<lambda>p. is_string (Some p))) (member v ''watchPaths''), ''broker returned invalid watch paths''),
       (opt_member (\<lambda>e. isCompiledExpression (the e)) (member v ''conditionExpression''),
          ''broker returned an invalid condition expression''),
       (opt_member (array_of isCompiledExpression) (member v ''watchExpressions''), ''broker returned invalid watch expressions''),
       (typ = Some (JStr ''snapshot'') \<longrightarrow> opt_member is_boolean (member v ''includeStackLocals''),
          ''broker returned an invalid stack-locals option''),
       (typ = Some (JStr ''snapshot'') \<longrightarrow> opt_member stackFrameLimit_ok (member v ''stackFrameLimit''),
          ''broker returned an invalid stack frame limit''),
       (opt_member (array_of isTemplateSegment) (member v ''templateSegments''), ''broker returned invalid template segments''),
       (opt_member (\<lambda>e. isCompiledExpression (the e)) (member v ''metricExpression''),
          ''broker returned an invalid metric expression''),
       (typ = Some (JStr ''metric'') \<longrightarrow> (member v ''metricPath'' = None) \<noteq> (member v ''metricExpression'' = None),
          ''broker returned a metric probe without exactly one value source''),
       (runtime_ok v, ''broker returned invalid runtime probe coordinates''),
       (parseCondition_ok (member v ''condition''), ''broker returned an invalid probe condition'')])"

text \<open>The first check that fails ends the function.\<close>

fun first_failure :: "(bool \<times> string) list \<Rightarrow> string option" where
  "first_failure [] = None"
| "first_failure ((ok, message) # checks) = (if ok then first_failure checks else Some message)"

text \<open>\<^verbatim>\<open>{ ...value, logLevel: "info" }\<close>.\<close>

fun with_level :: "json \<Rightarrow> json" where
  "with_level (JObj ps) = JObj (jset ''logLevel'' (JStr ''info'') ps)"
| "with_level v = v"

definition parseProbe :: "json \<Rightarrow> string \<Rightarrow> (string, json) res" where
  "parseProbe v serviceId =
     (case first_failure (probe_checks v serviceId) of
        Some message \<Rightarrow> Err message
      | None \<Rightarrow>
          Ok (if member v ''type'' = Some (JStr ''log'') \<and> member v ''logLevel'' = None then with_level v else v))"

datatype poll_response = PollUnchanged jsnum | PollReceived jsnum "json list"

definition parsePollResponse :: "json \<Rightarrow> string \<Rightarrow> (string, poll_response) res" where
  "parsePollResponse v serviceId =
     (case member v ''version'' of
        Some (JNum n) \<Rightarrow>
          if \<not> safe_integer_from 0 (Some (JNum n)) then Err ''broker returned an invalid poll response''
          else if member v ''unchanged'' = Some (JBool True) then Ok (PollUnchanged n)
          else (case member v ''probes'' of
                  Some (JArr ps) \<Rightarrow> bind_res (map_res (\<lambda>p. parseProbe p serviceId) ps) (\<lambda>qs. Ok (PollReceived n qs))
                | _ \<Rightarrow> Err ''broker poll response is missing probes'')
      | _ \<Rightarrow> Err ''broker returned an invalid poll response'')"

subsection \<open>What the broker sends\<close>

definition opt_field :: "string \<Rightarrow> ('a \<Rightarrow> json) \<Rightarrow> 'a option \<Rightarrow> (string \<times> json) list" where
  "opt_field k f x = (case x of None \<Rightarrow> [] | Some a \<Rightarrow> [(k, f a)])"

fun type_name :: "probe_type \<Rightarrow> string" where
  "type_name TSnapshot = ''snapshot''"
| "type_name TLog = ''log''"
| "type_name TCounter = ''counter''"
| "type_name TMetric = ''metric''"

fun op_name :: "cond_op \<Rightarrow> string" where
  "op_name CEq = ''eq''"
| "op_name CNe = ''ne''"
| "op_name CGt = ''gt''"
| "op_name CGte = ''gte''"
| "op_name CLt = ''lt''"
| "op_name CLte = ''lte''"

fun level_name :: "log_level \<Rightarrow> string" where
  "level_name LDebug = ''debug''"
| "level_name LInfo = ''info''"
| "level_name LWarn = ''warn''"
| "level_name LError = ''error''"

definition condition_json :: "condition \<Rightarrow> json" where
  "condition_json c = JObj [(''path'', JStr (c_path c)), (''op'', JStr (op_name (c_op c))), (''value'', scalar_json (c_value c))]"

fun templateSegment_json :: "template_segment \<Rightarrow> json" where
  "templateSegment_json (TText s) = JObj [(''type'', JStr ''text''), (''value'', JStr s)]"
| "templateSegment_json (TExpr e) = JObj [(''type'', JStr ''expression''), (''expression'', compiledExpression_json e)]"

abbreviation int_json :: "int \<Rightarrow> json" where
  "int_json n \<equiv> JNum (js_int n)"

fun body_fields :: "probe_body \<Rightarrow> (string \<times> json) list" where
  "body_fields (SnapshotProbe wp we sl fl) =
     opt_field ''watchPaths'' (\<lambda>ps. JArr (map JStr ps)) wp @
     opt_field ''watchExpressions'' (\<lambda>es. JArr (map compiledExpression_json es)) we @
     [(''includeStackLocals'', JBool sl), (''stackFrameLimit'', int_json fl)]"
| "body_fields (LogProbe t lv segs) =
     [(''template'', JStr t), (''logLevel'', JStr (level_name lv))] @
     opt_field ''templateSegments'' (\<lambda>ss. JArr (map templateSegment_json ss)) segs"
| "body_fields CounterProbe = []"
| "body_fields (MetricProbe mp me) =
     opt_field ''metricPath'' JStr mp @ opt_field ''metricExpression'' compiledExpression_json me"

definition runtime_fields :: "runtime_location option \<Rightarrow> (string \<times> json) list" where
  "runtime_fields r =
     (case r of None \<Rightarrow> []
      | Some l \<Rightarrow> [(''runtimeLocation'', JStr (rl_location l)), (''runtimeLine'', int_json (rl_line l)),
          (''runtimeColumn'', int_json (rl_column l))])"

definition probe_json :: "probe_definition \<Rightarrow> json" where
  "probe_json p =
     JObj ([(''id'', JStr (pd_id p)), (''serviceId'', JStr (pd_serviceId p))] @
       opt_field ''sourceCommit'' JStr (pd_sourceCommit p) @
       [(''file'', JStr (pd_file p)), (''line'', int_json (pd_line p))] @
       runtime_fields (pd_runtime p) @
       opt_field ''condition'' condition_json (pd_condition p) @
       opt_field ''conditionExpression'' compiledExpression_json (pd_conditionExpression p) @
       [(''ttlSeconds'', int_json (pd_ttlSeconds p)), (''hitLimit'', int_json (pd_hitLimit p)),
        (''version'', int_json (pd_version p)), (''createdBy'', JStr (pd_createdBy p)),
        (''type'', JStr (type_name (pd_type p)))] @ body_fields (pd_body p))"

fun poll_json :: "poll_result \<Rightarrow> json" where
  "poll_json (Unchanged v) = JObj [(''version'', int_json v), (''unchanged'', JBool True)]"
| "poll_json (PollProbes v ps) = JObj [(''version'', int_json v), (''probes'', JArr (map probe_json ps))]"

subsection \<open>Expressions of a probe\<close>

fun body_expressions :: "probe_body \<Rightarrow> compiled_expression list" where
  "body_expressions (SnapshotProbe _ we _ _) = (case we of None \<Rightarrow> [] | Some es \<Rightarrow> es)"
| "body_expressions (LogProbe _ _ segs) =
     (case segs of None \<Rightarrow> [] | Some ss \<Rightarrow> concat (map (\<lambda>s. case s of TText _ \<Rightarrow> [] | TExpr e \<Rightarrow> [e]) ss))"
| "body_expressions CounterProbe = []"
| "body_expressions (MetricProbe _ me) = (case me of None \<Rightarrow> [] | Some e \<Rightarrow> [e])"

definition probe_expressions :: "probe_definition \<Rightarrow> compiled_expression list" where
  "probe_expressions p =
     (case pd_conditionExpression p of None \<Rightarrow> [] | Some e \<Rightarrow> [e]) @ body_expressions (pd_body p)"

text \<open>No path of the expression names a segment that the agent forbids.\<close>

fun names_allowed :: "expression_node \<Rightarrow> bool" where
  "names_allowed (Literal _) = True"
| "names_allowed (Reference path) = list_all (\<lambda>s. case s of SegStr n \<Rightarrow> n \<notin> set FORBIDDEN_SEGMENTS | SegNum _ \<Rightarrow> True) path"
| "names_allowed (Unary _ e) = names_allowed e"
| "names_allowed (Binary _ l r) = (names_allowed l \<and> names_allowed r)"

definition sendable :: "probe_definition \<Rightarrow> bool" where
  "sendable p \<longleftrightarrow> list_all (\<lambda>e. names_allowed (ce_ast e)) (probe_expressions p)"

text \<open>A compiled expression after the schema: within the limits, up to forbidden names.\<close>

definition from_compiler :: "compiled_expression \<Rightarrow> bool" where
  "from_compiler e \<longleftrightarrow> (\<exists>c. node_safe (ce_ast c) \<and> node_count (ce_ast c) \<le> MAX_AST_NODES \<and>
     node_depth (ce_ast c) \<le> MAX_AST_DEPTH \<and> compiledExpression_parse c = Some e)"

text \<open>What holds of every probe the broker stores: it has passed the schema, its expressions come from the compiler and
  a metric has one source.\<close>

definition wire_ok :: "probe_definition \<Rightarrow> bool" where
  "wire_ok p \<longleftrightarrow> probeDefinition_parse p = Some p \<and> list_all from_compiler (probe_expressions p) \<and>
     (case pd_body p of MetricProbe mp me \<Rightarrow> (mp = None) \<noteq> (me = None) | _ \<Rightarrow> True)"

definition body_keys :: "string list" where
  "body_keys = [''template'', ''logLevel'', ''metricPath'', ''watchPaths'', ''watchExpressions'', ''includeStackLocals'',
     ''stackFrameLimit'', ''templateSegments'', ''metricExpression'']"

definition stored_ok :: "broker \<Rightarrow> bool" where
  "stored_ok st \<longleftrightarrow> (\<forall>s \<in> set (jvalues (probes st)). wire_ok (sp_probe s))"

section \<open>Lemmas\<close>

subsection \<open>Expressions\<close>

lemma parse_segment_allowed:
  "segment_parse s = Some t \<Longrightarrow> segment_safe s \<Longrightarrow>
     segment_safe t \<longleftrightarrow> (case t of SegStr n \<Rightarrow> n \<notin> set FORBIDDEN_SEGMENTS | SegNum _ \<Rightarrow> True)"
  by (cases s) (auto simp: trimmed_Some js_trim_length [THEN order_trans] split: if_splits)

lemma parse_node_allowed:
  "expressionNode_parse e = Some e' \<Longrightarrow> node_safe e \<Longrightarrow>
     (node_safe e' \<longleftrightarrow> names_allowed e') \<and> node_count e' = node_count e \<and> node_depth e' = node_depth e"
proof (induction e arbitrary: e')
  case (Reference p)
  then obtain q where q: "traverse segment_parse p = Some q" "e' = Reference q" by (auto split: if_splits)
  have l: "length q = length p" using traverse_length [OF q(1)] .
  have "list_all2 (\<lambda>x y. segment_parse x = Some y \<and> segment_safe x) p q"
    using q(1) Reference.prems(2) by (auto simp: traverse_Some_iff list_all2_conv_all_nth list_all_iff)
  then have "segment_safe y \<longleftrightarrow> (case y of SegStr n \<Rightarrow> n \<notin> set FORBIDDEN_SEGMENTS | SegNum _ \<Rightarrow> True)" if "y \<in> set q" for y
    using that parse_segment_allowed by (fastforce simp: list_all2_conv_all_nth in_set_conv_nth)
  then show ?case using Reference.prems(2) l by (auto simp: q(2) list_all_iff)
qed (auto split: option.splits if_splits)

lemma validateNode_safe:
  "fst (validateNode (Some (expressionNode_json e)) c depth) \<Longrightarrow> node_safe e"
proof (induction e arbitrary: c depth)
  case (Literal v)
  then show ?case by (simp add: validateNode.simps Let_def isScalar_json_scalar split: if_splits)
next
  case (Reference p)
  then show ?case
    by (auto simp: validateNode.simps Let_def list_all_iff validPathSegment_json MAX_PATH_SEGMENTS_def split: if_splits)
next
  case (Unary u e)
  have "fst (validateNode (Some (expressionNode_json e)) (Suc c) (Suc depth))"
    using Unary.prems by (subst (asm) validateNode.simps) (auto simp: Let_def split: if_splits prod.splits)
  from Unary.IH [OF this] show ?case by simp
next
  case (Binary b l r)
  have "\<exists>c'. fst (validateNode (Some (expressionNode_json l)) (Suc c) (Suc depth)) \<and>
      fst (validateNode (Some (expressionNode_json r)) c' (Suc depth))"
    using Binary.prems by (subst (asm) validateNode.simps) (auto simp: Let_def split: if_splits prod.splits)
  with Binary.IH show ?case by (metis node_safe.simps(4))
qed

lemma isCompiledExpression_iff:
  assumes "from_compiler e"
  shows "isCompiledExpression (compiledExpression_json e) \<longleftrightarrow> names_allowed (ce_ast e)"
proof -
  obtain c :: compiled_expression where c: "node_safe (ce_ast c)" "node_count (ce_ast c) \<le> 100" "node_depth (ce_ast c) \<le> 20"
      "expressionNode_parse (ce_ast c) = Some (ce_ast e)" "len_between 1 4096 (ce_source e)"
  proof -
    from assms obtain c where "node_safe (ce_ast c)" "node_count (ce_ast c) \<le> 100" "node_depth (ce_ast c) \<le> 20"
        "compiledExpression_parse c = Some e"
      by (auto simp: from_compiler_def MAX_AST_NODES_def MAX_AST_DEPTH_def)
    then show thesis by (intro that [of c]) (auto simp: compiledExpression_parse_def split: if_splits)
  qed
  note n = parse_node_allowed [OF c(4,1)]
  show ?thesis
  proof
    assume "isCompiledExpression (compiledExpression_json e)"
    then have "node_safe (ce_ast e)"
      using validateNode_safe [of "ce_ast e" 0 0] by (simp add: isCompiledExpression_def compiledExpression_json_def)
    with n show "names_allowed (ce_ast e)" by simp
  qed (use n c in \<open>auto intro!: isCompiledExpression_json simp: len_between_def\<close>)
qed

lemma isTemplateSegment_iff:
  "isTemplateSegment (templateSegment_json s) \<longleftrightarrow>
     (case s of TText t \<Rightarrow> length t \<le> 16384 | TExpr e \<Rightarrow> isCompiledExpression (compiledExpression_json e))"
  by (cases s) (auto simp: isTemplateSegment_def)

subsection \<open>The members of an encoded probe\<close>

lemma jget_opt_field [simp]: "jget (opt_field k f x) j = (if j = k then map_option f x else None)"
  by (auto simp: opt_field_def split: option.splits)

lemma jget_runtime [simp]:
  "jget (runtime_fields r) k =
     (if k = ''runtimeLocation'' then map_option (JStr \<circ> rl_location) r
      else if k = ''runtimeLine'' then map_option (int_json \<circ> rl_line) r
      else if k = ''runtimeColumn'' then map_option (int_json \<circ> rl_column) r else None)"
  by (auto simp: runtime_fields_def split: option.splits)

lemma option_eta [simp]: "(case x of None \<Rightarrow> None | Some v \<Rightarrow> Some v) = x"
  by (cases x) auto

lemma body_fields_only: "k \<notin> set body_keys \<Longrightarrow> jget (body_fields b) k = None"
  by (cases b) (simp_all add: body_keys_def)

lemma body_members: "k \<in> set body_keys \<Longrightarrow> member (probe_json p) k = jget (body_fields (pd_body p)) k"
  by (simp add: body_keys_def probe_json_def, elim disjE) (simp_all add: map_add_def)

lemma probe_members:
  fixes p
  defines "v \<equiv> probe_json p"
  shows "isRecord v" "member v ''id'' = Some (JStr (pd_id p))" "member v ''serviceId'' = Some (JStr (pd_serviceId p))"
    "member v ''file'' = Some (JStr (pd_file p))" "member v ''line'' = Some (int_json (pd_line p))"
    "member v ''runtimeLocation'' = map_option (JStr \<circ> rl_location) (pd_runtime p)"
    "member v ''runtimeLine'' = map_option (int_json \<circ> rl_line) (pd_runtime p)"
    "member v ''runtimeColumn'' = map_option (int_json \<circ> rl_column) (pd_runtime p)"
    "member v ''condition'' = map_option condition_json (pd_condition p)"
    "member v ''conditionExpression'' = map_option compiledExpression_json (pd_conditionExpression p)"
    "member v ''ttlSeconds'' = Some (int_json (pd_ttlSeconds p))" "member v ''hitLimit'' = Some (int_json (pd_hitLimit p))"
    "member v ''version'' = Some (int_json (pd_version p))" "member v ''createdBy'' = Some (JStr (pd_createdBy p))"
    "member v ''type'' = Some (JStr (type_name (pd_type p)))"
  by (simp_all add: v_def probe_json_def body_fields_only body_keys_def map_add_def split: option.split)

lemma safe_int_json: "safe_int n \<Longrightarrow> m \<le> n \<Longrightarrow> safe_integer_from m (Some (int_json n))"
  by (simp add: safe_int_def flip: of_int_abs)

lemma positive_int_json [simp]: "positive_int n \<Longrightarrow> safe_integer_from 1 (Some (int_json n))"
  by (rule safe_int_json) (auto simp: positive_int_def)

declare safe_integer_from.simps [simp del]

subsection \<open>Validation of an encoded probe\<close>

lemma parsed_parts:
  assumes "probeDefinition_parse p = Some q"
  shows "serviceId_parse (pd_serviceId p) = Some (pd_serviceId q)" "sourceFile_parse (pd_file p) = Some (pd_file q)"
    "trimmed 1 500 (pd_createdBy p) = Some (pd_createdBy q)" "opt_parse runtime_parse (pd_runtime p) = Some (pd_runtime q)"
    "opt_parse condition_parse (pd_condition p) = Some (pd_condition q)"
    "opt_parse compiledExpression_parse (pd_conditionExpression p) = Some (pd_conditionExpression q)"
    "probeBody_parse (pd_body p) = Some (pd_body q)" "probeId_ok (pd_id p)" "positive_int (pd_line p)" "positive_int (pd_ttlSeconds p)"
    "positive_int (pd_hitLimit p)" "positive_int (pd_version p)"
  using assms by (auto simp: probeDefinition_parse_def split: option.splits if_splits)

lemma parsed_names:
  assumes "probeDefinition_parse p = Some p"
  shows "pd_id p \<noteq> []" "pd_file p \<noteq> []" "pd_createdBy p \<noteq> []"
  using parsed_parts(2,3,8) [OF assms] by (auto simp: probeId_ok_def sourceFile_parse_def trimmed_Some)

lemma parsed_runtime:
  assumes "opt_parse runtime_parse (pd_runtime p) = Some (pd_runtime p)"
  shows "runtime_ok (probe_json p)"
proof (cases "pd_runtime p")
  case (Some l)
  with assms have l: "runtime_parse l = Some l" by (simp add: opt_parse_def)
  then obtain f where f: "sourceFile_parse (rl_location l) = Some f" "l = l\<lparr>rl_location := f\<rparr>" "positive_int (rl_line l)"
      "0 \<le> rl_column l" "safe_int (rl_column l)"
    by (auto simp: runtime_parse_def split: option.splits if_splits)
  have "rl_location l = f" by (subst f(2)) simp
  with f(1) have "rl_location l \<noteq> []" by (auto simp: sourceFile_parse_def trimmed_Some)
  with f Some show ?thesis using safe_int_json [of "rl_column l" 0] by (simp add: runtime_ok_def probe_members)
qed (simp add: runtime_ok_def probe_members)

lemma parsed_condition:
  assumes "opt_parse condition_parse c = Some c"
  shows "parseCondition_ok (map_option condition_json c)"
proof (cases c)
  case (Some d)
  with assms have "jsonScalar_ok (c_value d)" by (auto simp: opt_parse_def condition_parse_def split: option.splits if_splits)
  then have "isJsonScalar_decoded (Some (scalar_json (c_value d)))" by (cases "c_value d") (auto simp: is_portable_def)
  with Some show ?thesis
    by (cases "c_op d") (simp_all add: parseCondition_ok_def condition_json_def CONDITION_OPERATORS_def)
qed (simp add: parseCondition_ok_def)

lemma first_failure_None: "first_failure cs = None \<longleftrightarrow> list_all fst cs"
  by (induction cs rule: first_failure.induct) auto

lemma level_name_known: "level_name l \<in> set LOG_LEVELS"
  by (cases l) (simp_all add: LOG_LEVELS_def)

text \<open>The part of the checks that depends on the body of the probe.\<close>

lemma body_checks:
  assumes "probeBody_parse b = Some b" "list_all from_compiler (body_expressions b)"
    "case b of MetricProbe mp me \<Rightarrow> (mp = None) \<noteq> (me = None) | _ \<Rightarrow> True"
  defines "g \<equiv> jget (body_fields b)" and "t \<equiv> Some (JStr (type_name (body_type b)))"
  shows "t = Some (JStr ''log'') \<Longrightarrow> is_string (g ''template'') \<and> opt_member (string_in LOG_LEVELS) (g ''logLevel'') \<and> g ''logLevel'' \<noteq> None"
    "opt_member nonempty_string (g ''metricPath'')" "opt_member (array_of (\<lambda>p. is_string (Some p))) (g ''watchPaths'')"
    "t = Some (JStr ''snapshot'') \<Longrightarrow> opt_member is_boolean (g ''includeStackLocals'') \<and> opt_member stackFrameLimit_ok (g ''stackFrameLimit'')"
    "t = Some (JStr ''metric'') \<Longrightarrow> (g ''metricPath'' = None) \<noteq> (g ''metricExpression'' = None)"
    "opt_member (array_of isCompiledExpression) (g ''watchExpressions'') \<and> opt_member (array_of isTemplateSegment) (g ''templateSegments'') \<and>
       opt_member (\<lambda>e. isCompiledExpression (the e)) (g ''metricExpression'') \<longleftrightarrow>
     list_all (\<lambda>e. names_allowed (ce_ast e)) (body_expressions b)"
proof -
  show "t = Some (JStr ''log'') \<Longrightarrow> is_string (g ''template'') \<and> opt_member (string_in LOG_LEVELS) (g ''logLevel'') \<and> g ''logLevel'' \<noteq> None"
    using level_name_known unfolding g_def t_def by (cases b) (auto simp: opt_member_def)
  show "opt_member nonempty_string (g ''metricPath'')"
    using assms(1) unfolding g_def by (cases b) (auto simp: opt_member_def opt_parse_Some dotPath_parse_def Let_def len_between_def dotPath_ok_def split: option.splits if_splits)
  show "opt_member (array_of (\<lambda>p. is_string (Some p))) (g ''watchPaths'')"
    unfolding g_def by (cases b) (auto simp: opt_member_def list_all_iff map_add_def split: option.split)
  show "t = Some (JStr ''snapshot'') \<Longrightarrow> opt_member is_boolean (g ''includeStackLocals'') \<and> opt_member stackFrameLimit_ok (g ''stackFrameLimit'')"
    using assms(1) unfolding g_def t_def
    by (cases b) (auto simp: opt_member_def stackFrameLimit_ok_def safe_int_def max_safe_def map_add_def intro!: safe_int_json
        split: option.splits if_splits)
  show "t = Some (JStr ''metric'') \<Longrightarrow> (g ''metricPath'' = None) \<noteq> (g ''metricExpression'' = None)"
    using assms(3) unfolding g_def t_def by (cases b) auto
  show "opt_member (array_of isCompiledExpression) (g ''watchExpressions'') \<and> opt_member (array_of isTemplateSegment) (g ''templateSegments'') \<and>
       opt_member (\<lambda>e. isCompiledExpression (the e)) (g ''metricExpression'') \<longleftrightarrow>
     list_all (\<lambda>e. names_allowed (ce_ast e)) (body_expressions b)"
  proof (cases b)
    case (SnapshotProbe wp we sl fl)
    then show ?thesis using assms(2) unfolding g_def
      by (cases we) (auto simp: opt_member_def list_all_iff isCompiledExpression_iff map_add_def split: option.splits)
  next
    case (LogProbe t lv segs)
    have s: "\<forall>s \<in> set (case segs of None \<Rightarrow> [] | Some ss \<Rightarrow> ss). templateSegment_parse s = Some s"
      using assms(1) LogProbe by (auto simp: opt_parse_Some bounded_list_def traverse_Some_iff list_all2_same split: if_splits)
    show ?thesis using assms(2) s LogProbe unfolding g_def
      by (cases segs) (fastforce simp: opt_member_def list_all_iff isCompiledExpression_iff isTemplateSegment_iff map_add_def split: template_segment.splits if_splits)+
  next
    case (MetricProbe mp me)
    then show ?thesis using assms(2) unfolding g_def
      by (cases me) (auto simp: opt_member_def isCompiledExpression_iff map_add_def split: option.splits)
  qed (simp add: g_def opt_member_def)
qed

lemma parseProbe_json:
  assumes "wire_ok p" "pd_serviceId p = sid"
  shows "sendable p \<Longrightarrow> parseProbe (probe_json p) sid = Ok (probe_json p)"
    "\<not> sendable p \<Longrightarrow> \<exists>m. parseProbe (probe_json p) sid = Err m"
proof -
  let ?v = "probe_json p" and ?b = "pd_body p"
  have w: "probeDefinition_parse p = Some p" "list_all from_compiler (probe_expressions p)"
      "case ?b of MetricProbe mp me \<Rightarrow> (mp = None) \<noteq> (me = None) | _ \<Rightarrow> True"
    using assms(1) by (simp_all add: wire_ok_def)
  note f = parsed_parts [OF w(1)] parsed_names [OF w(1)]
  have fc: "list_all from_compiler (body_expressions ?b)" "pred_option from_compiler (pd_conditionExpression p)"
    using w(2) by (auto simp: probe_expressions_def split: option.splits)
  note b = body_checks [OF f(7) fc(1) w(3)]
  have m: "member ?v k = jget (body_fields ?b) k" if "k \<in> set body_keys" for k using body_members [OF that] .
  have i: "identity_ok ?v sid"
    using f assms(2) by (cases "pd_type p") (simp_all add: identity_ok_def probe_members PROBE_TYPES_def)
  have c: "opt_member (\<lambda>e. isCompiledExpression (the e)) (member ?v ''conditionExpression'') \<longleftrightarrow>
      pred_option (\<lambda>e. names_allowed (ce_ast e)) (pd_conditionExpression p)"
    using fc(2) isCompiledExpression_iff by (cases "pd_conditionExpression p") (simp_all add: probe_members opt_member_def)
  have s: "sendable p \<longleftrightarrow> pred_option (\<lambda>e. names_allowed (ce_ast e)) (pd_conditionExpression p) \<and>
      list_all (\<lambda>e. names_allowed (ce_ast e)) (body_expressions ?b)"
    by (auto simp: sendable_def probe_expressions_def split: option.splits)
  have all: "first_failure (probe_checks ?v sid) = None \<longleftrightarrow> sendable p"
    using b i c s parsed_runtime [OF f(4)] parsed_condition [OF f(5)]
    by (auto simp: first_failure_None probe_checks_def Let_def probe_members m body_keys_def)
  show "sendable p \<Longrightarrow> parseProbe ?v sid = Ok ?v"
    using all b(1) by (auto simp: parseProbe_def probe_members m body_keys_def)
  show "\<not> sendable p \<Longrightarrow> \<exists>m. parseProbe ?v sid = Err m"
    using all by (auto simp: parseProbe_def split: option.splits)
qed

subsection \<open>Every stored probe\<close>

lemma template_loop_compiled:
  "template_loop parser t c ms = Ok segs \<Longrightarrow> TExpr e \<in> set segs \<Longrightarrow> \<exists>src. compileExpression parser src = Ok e"
proof (induction ms arbitrary: c segs)
  case (Cons m ms)
  then show ?case by (cases m) (auto simp: bind_res_Inr_iff split: if_splits)
qed (auto split: if_splits)

lemma compiled_body:
  assumes "compile_body env b = Ok pb"
  shows "\<forall>e \<in> set (body_expressions pb). \<exists>src. compileExpression (jsep env) src = Ok e"
    "case pb of MetricProbe mp me \<Rightarrow> (mp = None) \<noteq> (me = None) | _ \<Rightarrow> True"
proof -
  show "\<forall>e \<in> set (body_expressions pb). \<exists>src. compileExpression (jsep env) src = Ok e"
  proof (cases b)
    case (CreateSnapshot wp we sl fl)
    then show ?thesis using assms
      by (cases we) (auto simp: compile_or_400_def bind_res_Inr_iff dest: map_res_Inr_set split: sum.splits)
  next
    case (CreateLog t lv)
    then show ?thesis using assms template_loop_compiled
      by (fastforce simp: compile_or_400_def bind_res_Inr_iff compileTemplate_def Let_def split: sum.splits if_splits template_segment.splits option.splits)
  next
    case (CreateMetric path ex)
    then show ?thesis using assms by (auto simp: compile_opt_def compile_or_400_def bind_res_Inr_iff split: sum.splits if_splits option.splits)
  qed (use assms in auto)
  show "case pb of MetricProbe mp me \<Rightarrow> (mp = None) \<noteq> (me = None) | _ \<Rightarrow> True"
    using assms by (cases b) (auto simp: compile_opt_def bind_res_Inr_iff split: sum.splits if_splits option.splits)
qed

lemma parsed_expressions:
  assumes "probeDefinition_parse q = Some p" "e \<in> set (probe_expressions p)"
  shows "\<exists>c \<in> set (probe_expressions q). compiledExpression_parse c = Some e"
proof -
  obtain f h where f: "opt_parse compiledExpression_parse (pd_conditionExpression q) = Some f"
      "probeBody_parse (pd_body q) = Some h" "pd_conditionExpression p = f" "pd_body p = h"
    using parsed_parts(6,7) [OF assms(1)] by simp
  show ?thesis
  proof (cases "f = Some e")
    case True
    with f(1) show ?thesis by (auto simp: opt_parse_Some probe_expressions_def)
  next
    case False
    then have e: "e \<in> set (body_expressions h)" using assms(2) f(3,4) by (auto simp: probe_expressions_def split: option.splits)
    have t: "\<exists>x \<in> set xs. g x = Some y" if "bounded_list n g xs = Some ys" "y \<in> set ys" for n g xs ys and y :: 'b
      using that by (fastforce simp: bounded_list_def traverse_Some_iff list_all2_conv_all_nth in_set_conv_nth split: if_splits)
    have "\<exists>c \<in> set (body_expressions (pd_body q)). compiledExpression_parse c = Some e"
    proof (cases "pd_body q")
      case (SnapshotProbe wp we sl fl)
      with f(2) e t show ?thesis by (fastforce simp: opt_parse_Some split: option.splits if_splits)
    next
      case (LogProbe x lv segs)
      with f(2) obtain ss where ss: "opt_parse (bounded_list 201 templateSegment_parse) segs = Some ss" "h = LogProbe x lv ss"
        by (auto split: if_splits)
      with e obtain ts where ts: "ss = Some ts" "TExpr e \<in> set ts" by (auto split: option.splits template_segment.splits)
      with ss(1) obtain us where us: "segs = Some us" "bounded_list 201 templateSegment_parse us = Some ts" by (auto simp: opt_parse_Some)
      from t [OF us(2) ts(2)] obtain s where s: "s \<in> set us" "templateSegment_parse s = Some (TExpr e)" by blast
      obtain c where "s = TExpr c" "compiledExpression_parse c = Some e" using s(2) by (cases s) (auto split: if_splits)
      with s(1) us(1) LogProbe show ?thesis by force
    next
      case (MetricProbe mp me)
      with f(2) e show ?thesis by (auto simp: opt_parse_Some split: option.splits if_splits)
    qed (use f(2) e in auto)
    then show ?thesis by (auto simp: probe_expressions_def)
  qed
qed

lemma parsed_metric:
  assumes "probeDefinition_parse q = Some p" "case pd_body q of MetricProbe mp me \<Rightarrow> (mp = None) \<noteq> (me = None) | _ \<Rightarrow> True"
  shows "case pd_body p of MetricProbe mp me \<Rightarrow> (mp = None) \<noteq> (me = None) | _ \<Rightarrow> True"
  using assms(2) parsed_parts(7) [OF assms(1)]
    by (cases "pd_body q"; cases "pd_body p") (auto simp: opt_parse_Some split: option.splits if_splits)

lemma created_wire_ok:
  assumes "createProbe env gen now input scope st = (st', Ok p)"
  shows "wire_ok p"
  using assms
proof (cases rule: createProbe_OkE)
  case (1 cp st1)
  let ?q = "assemble_probe input cp (pd_id p) (service_version st scope (ci_serviceId input) + 1)"
  obtain b where b: "compile_opt env (ci_conditionExpression input) = Ok (cp_conditionExpression cp)" "compile_body env (ci_body input) = Ok (cp_body cp)"
    using 1(1) by (auto simp: compileProbeInput_def bind_res_Inr_iff split: if_splits)
  have c: "\<exists>src. compileExpression (jsep env) src = Ok e" if "e \<in> set (probe_expressions ?q)" for e
    using that b(1) compiled_body(1) [OF b(2)]
    by (cases "cp_conditionExpression cp")
      (auto simp: probe_expressions_def assemble_probe_def compile_opt_def compile_or_400_def bind_res_Inr_iff split: option.splits sum.splits)
  have "from_compiler e" if "e \<in> set (probe_expressions p)" for e
    using parsed_expressions [OF 1(7) that] c compileExpression_Ok by (metis from_compiler_def)
  moreover have "case pd_body p of MetricProbe mp me \<Rightarrow> (mp = None) \<noteq> (me = None) | _ \<Rightarrow> True"
    by (rule parsed_metric [OF 1(7)]) (use compiled_body(2) [OF b(2)] in \<open>simp add: assemble_probe_def\<close>)
  ultimately show ?thesis using probe_definitions.again [OF 1(7)] by (simp add: wire_ok_def list_all_iff)
qed

lemma stored_ok_same: "probes st' = probes st \<Longrightarrow> stored_ok st \<Longrightarrow> stored_ok st'"
  by (simp add: stored_ok_def)

lemma stored_ok_sweep: "broker_inv st \<Longrightarrow> stored_ok st \<Longrightarrow> stored_ok (sweep now st)"
  by (auto simp: stored_ok_def sweep_probes [OF broker_invD(1)] expire_stored_def)

lemma stored_ok_create: "stored_ok st \<Longrightarrow> stored_ok (fst (createProbe env gen now input scope st))"
proof -
  assume ok: "stored_ok st"
  obtain st' r where r: "createProbe env gen now input scope st = (st', r)" by fastforce
  have "stored_ok st'"
  proof (cases r)
    case (Inl e)
    from r [unfolded Inl] show ?thesis by (cases rule: createProbe_ErrE) (use ok in \<open>auto simp: stored_ok_def\<close>)
  next
    case (Inr p)
    have w: "wire_ok p" using created_wire_ok [OF r [unfolded Inr]] .
    from r [unfolded Inr] show ?thesis
    proof (cases rule: createProbe_OkE)
      case (1 cp st1)
      then have "jvalues (probes st') = jvalues (probes st) @ [\<lparr>sp_scope = scope, sp_probe = p,
          sp_expiresAt = expires_at now (pd_ttlSeconds p), sp_expired = False\<rparr>]"
        using 1(8) by (simp add: jset_new jhas_def)
      with ok w show ?thesis by (simp add: stored_ok_def)
    qed
  qed
  with r show ?thesis by simp
qed

lemma stored_ok_delete: "stored_ok st \<Longrightarrow> stored_ok (fst (deleteProbe now pid scope st))"
  by (auto simp: stored_ok_def deleteProbe_def Let_def set_jdel split: option.splits)

lemma map_probes:
  "probes (fst (sourceMapStatus now sid sha uploader scope st)) = probes st"
  "probes (fst (uploadSourceMap env now i scope st)) = probes st"
  "probes (fst (completeSourceMaps env now sid sha uploader scope st)) = probes st"
  by (auto simp: sourceMapStatus_def uploadSourceMap_def completeSourceMaps_def Let_def case_prod_beta
      split: option.splits sum.splits prod.splits if_splits)

lemma stored_ok_step: "broker_step env st st' \<Longrightarrow> broker_inv st \<Longrightarrow> stored_ok st \<Longrightarrow> stored_ok st'"
proof (induction rule: broker_step.induct)
  case (step_assignments st now aid since scope allowed)
  then show ?case using fst_nativeAssignments [of env now aid since scope allowed st] stored_ok_sweep by force
next
  case (step_poll st now sid since commit scope)
  then show ?case using stored_ok_sweep [of st now] by (simp add: stored_ok_def pollProbes_def Let_def)
next
  case (step_ingest st now input scope)
  then show ?case using stored_ok_sweep [of st now] by (auto simp: stored_ok_def ingest_def Let_def case_prod_beta fold_frame split: option.split)
qed (auto simp: stored_ok_create stored_ok_delete stored_ok_sweep waitForEvents_def register_frame replace_frame native_ops_frame
    dispose_frame map_probes intro: stored_ok_same)

lemma stored_ok_reachable: "reachable env st \<Longrightarrow> stored_ok st"
proof (induction rule: reachable.induct)
  case (reachable_init cap st)
  then show ?case by (auto simp: new_broker_def stored_ok_def empty_broker_def split: option.splits if_splits)
qed (auto intro: stored_ok_step inv_reachable)

subsection \<open>The answer of a poll\<close>

lemma version_nonneg: "reachable env st \<Longrightarrow> 0 \<le> service_version st s sid"
proof (induction rule: reachable.induct)
  case (reachable_init cap st)
  then show ?case by (auto simp: new_broker_def service_version_def empty_broker_def split: option.splits if_splits)
next
  case (reachable_step st st')
  then have "service_version st s sid \<le> service_version st' s sid"
    using coherent_step [OF reachable_step(2) inv_reachable] by (simp add: coherent_def)
  with reachable_step.IH show ?case by simp
qed

lemma located_wire_ok:
  assumes "withRuntimeLocation env sha scope st p = Ok q" "wire_ok p"
  shows "wire_ok q \<and> pd_serviceId q = pd_serviceId p"
proof (cases "q = p")
  case False
  with assms(1) obtain r where r: "probeDefinition_parse (p\<lparr>pd_runtime := Some r\<rparr>) = Some q"
    by (auto simp: withRuntimeLocation_def split: option.splits if_splits)
  have w: "probeDefinition_parse p = Some p" "list_all from_compiler (probe_expressions p)"
      "case pd_body p of MetricProbe mp me \<Rightarrow> (mp = None) \<noteq> (me = None) | _ \<Rightarrow> True"
    using assms(2) by (simp_all add: wire_ok_def)
  have s: "pd_serviceId q = pd_serviceId p" "pd_conditionExpression q = pd_conditionExpression p" "pd_body q = pd_body p"
    using parsed_parts [OF r] parsed_parts [OF w(1)] by simp_all
  then show ?thesis using w probe_definitions.again [OF r] by (simp add: wire_ok_def probe_expressions_def)
qed (use assms in simp)

lemma map_res_map: "map_res f (map g xs) = map_res (f \<circ> g) xs"
  by (induction xs) (auto simp: o_def split: sum.split)

lemma map_res_decided:
  assumes "\<And>x. x \<in> set xs \<Longrightarrow> good x \<Longrightarrow> f x = Ok (g x)" "\<And>x. x \<in> set xs \<Longrightarrow> \<not> good x \<Longrightarrow> \<exists>e. f x = Err e"
  shows "if list_all good xs then map_res f xs = Ok (map g xs) else \<exists>e. map_res f xs = Err e"
  using assms
proof (induction xs)
  case (Cons x xs)
  then show ?case by (cases "good x"; cases "list_all good xs") (force simp: bind_res_def split: sum.splits)+
qed simp

lemma poll_cases:
  assumes "pollProbes env now sid since sha scope st = (st', Ok r)"
  obtains "r = Unchanged (service_version st' scope sid)"
  | ps where "r = PollProbes (service_version st' scope sid) ps"
      "map_res (withRuntimeLocation env sha scope st') (live_probes st' scope sid) = Ok ps"
  using assms by (auto simp: pollProbes_def Let_def bind_res_Inr_iff split: if_splits)

lemma polled_wire_ok:
  assumes "reachable env st" "map_res (withRuntimeLocation env sha scope st) (live_probes st scope sid) = Ok ps" "q \<in> set ps"
  shows "wire_ok q \<and> pd_serviceId q = sid"
proof -
  obtain p where p: "p \<in> set (live_probes st scope sid)" "withRuntimeLocation env sha scope st p = Ok q"
    using map_res_Inr_set [OF assms(2,3)] by blast
  then have "wire_ok p" "pd_serviceId p = sid"
    using stored_ok_reachable [OF assms(1)] by (auto simp: stored_ok_def live_probes_def)
  with located_wire_ok [OF p(2)] show ?thesis by simp
qed

text \<open>The agent's verdict on an answer: by the version when there is nothing new, by the expressions otherwise.\<close>

lemma poll_answer_parsed:
  assumes "reachable env st" "pollProbes env now sid since sha scope st = (st', Ok r)"
    "service_version st' scope sid \<le> max_safe"
  shows "case r of
      Unchanged v \<Rightarrow> parsePollResponse (poll_json r) sid = Ok (PollUnchanged (js_int v))
    | PollProbes v ps \<Rightarrow>
        if list_all sendable ps then parsePollResponse (poll_json r) sid = Ok (PollReceived (js_int v) (map probe_json ps))
        else (\<exists>e. parsePollResponse (poll_json r) sid = Err e)"
proof -
  have "broker_step env st st'" using step_poll [of env st now sid since sha scope] assms(2) by simp
  then have re: "reachable env st'" by (rule reachable_step [OF assms(1)])
  have v: "safe_integer_from 0 (Some (int_json (service_version st' scope sid)))"
    using version_nonneg [OF re, of scope sid] assms(3) by (intro safe_int_json) (simp_all add: safe_int_def)
  from assms(2) show ?thesis
  proof (cases rule: poll_cases)
    case 1
    with v show ?thesis by (simp add: parsePollResponse_def)
  next
    case (2 ps)
    let ?f = "\<lambda>j. parseProbe j sid"
    have "if list_all sendable ps then map_res ?f (map probe_json ps) = Ok (map probe_json ps)
        else \<exists>e. map_res ?f (map probe_json ps) = Err e"
      using map_res_decided [of ps sendable "?f \<circ> probe_json" probe_json] polled_wire_ok [OF re 2(2)] parseProbe_json
      by (simp add: map_res_map)
    with 2(1) v show ?thesis by (auto simp: parsePollResponse_def bind_res_def split: if_splits)
  qed
qed

section \<open>Properties\<close>

text \<open>C25: Broker and agent agree on polls.  Whatever a reachable broker answers to a poll, the agent's parser accepts it
  unchanged, as long as the service version is a safe integer, exactly when no expression of the probes names a
  segment that the agent forbids; one such probe makes the agent refuse the whole answer.\<close>

theorem poll_answer_accepted:
  assumes "reachable env st" "pollProbes env now sid since sha scope st = (st', Ok r)"
    "service_version st' scope sid \<le> max_safe"
  shows "case r of
      Unchanged v \<Rightarrow> parsePollResponse (poll_json r) sid = Ok (PollUnchanged (js_int v))
    | PollProbes v ps \<Rightarrow>
        if list_all sendable ps then parsePollResponse (poll_json r) sid = Ok (PollReceived (js_int v) (map probe_json ps))
        else (\<exists>e. parsePollResponse (poll_json r) sid = Err e)"
  using poll_answer_parsed [OF assms] .

theorem poll_answer_accepted_witness:
  "parsePollResponse (poll_json (PollProbes 1 [sample_probe])) ''pay'' = Ok (PollReceived (js_int 1) [probe_json sample_probe])"
proof -
  have "service_version sample_polled DEFAULT_RESOURCE_SCOPE ''pay'' \<le> max_safe"
    using sample_version by (simp add: service_version_def sample_polled_def max_safe_def)
  from poll_answer_accepted [OF sample_reachable sample_poll this] show ?thesis
    by (simp add: sendable_def probe_expressions_def sample_probe_def)
qed

text \<open>An agent configured with a service name that has blanks around it asks for a service the broker knows under the
  trimmed name, and refuses every probe of it.\<close>

theorem padded_service_refused:
  assumes "pd_serviceId p \<noteq> sid"
  shows "parseProbe (probe_json p) sid = Err ''broker returned an invalid probe definition''"
  using assms by (simp add: parseProbe_def probe_checks_def Let_def identity_ok_def probe_members)

text \<open>What the parser lets through is usable: whatever the server sent, an accepted probe belongs to the service, has an
  identifier, a type and positive limits, and only expressions that the evaluator accepts.\<close>

theorem accepted_probe_usable:
  assumes "parseProbe v sid = Ok w"
  shows "identity_ok w sid \<and> runtime_ok w \<and> parseCondition_ok (member w ''condition'') \<and>
    opt_member (\<lambda>e. isCompiledExpression (the e)) (member w ''conditionExpression'') \<and>
    (member w ''type'' = Some (JStr ''log'') \<longrightarrow> string_in LOG_LEVELS (member w ''logLevel''))"
proof -
  have n: "list_all fst (probe_checks v sid)"
    and w: "w = (if member v ''type'' = Some (JStr ''log'') \<and> member v ''logLevel'' = None then with_level v else v)"
    using assms by (auto simp: parseProbe_def simp flip: first_failure_None split: option.splits)
  have c: "isRecord v" "identity_ok v sid" "runtime_ok v" "parseCondition_ok (member v ''condition'')"
      "opt_member (\<lambda>e. isCompiledExpression (the e)) (member v ''conditionExpression'')"
      "member v ''type'' = Some (JStr ''log'') \<longrightarrow> opt_member (string_in LOG_LEVELS) (member v ''logLevel'')"
    using n by (simp_all add: probe_checks_def Let_def)
  obtain ps where ps: "v = JObj ps" using c(1) by (cases v) auto
  have m: "member w k = member v k" if "k \<noteq> ''logLevel''" for k using that by (auto simp: w ps)
  have "member w ''type'' = Some (JStr ''log'') \<longrightarrow> string_in LOG_LEVELS (member w ''logLevel'')"
    using c(6) by (simp add: m) (auto simp: w ps opt_member_def LOG_LEVELS_def)
  moreover have "identity_ok w sid = identity_ok v sid" "runtime_ok w = runtime_ok v" by (simp_all add: identity_ok_def runtime_ok_def m)
  ultimately show ?thesis using c by (simp add: m)
qed

end
