(* ===== verification/Agent_Runtime.thy ===== *)
theory Agent_Runtime
  imports Wire_Schemas Agent_Buffers Rate_Limiter Ingest_Isolation Safety_Monitor
begin

text \<open>
  \<^verbatim>\<open>packages/sdk-node/src/live-probe.ts\<close>, first part: the limits and the commit an agent is configured with, and
  the flush of its events.  \<^verbatim>\<open>Number(text)\<close> is the parameter \<open>toNumber\<close>, the process environment the
  parameter \<open>env\<close>.  A flush takes a batch, sends it and puts back what could not be sent; while it is sending,
  probes go on adding events, so its begin and its end are separate steps of the relation \<open>flush_step\<close>.  The
  fields \<open>ar_entered\<close> and \<open>ar_delivered\<close> record the history and are never read.
\<close>

section \<open>Definitions\<close>

subsection \<open>Configuration\<close>

type_synonym env_vars = "string \<Rightarrow> string option"

definition envValue :: "env_vars \<Rightarrow> string \<Rightarrow> string option" where
  "envValue env name =
     (case env name of None \<Rightarrow> None | Some v \<Rightarrow> if js_trim v = [] then None else Some (js_trim v))"

definition nullish :: "'a option \<Rightarrow> 'a option \<Rightarrow> 'a option" where
  "nullish a b = (case a of None \<Rightarrow> b | Some x \<Rightarrow> Some x)"

definition positiveNumber :: "jsnum option \<Rightarrow> jsnum \<Rightarrow> string \<Rightarrow> (string, jsnum) res" where
  "positiveNumber v fallback name =
     (let n = (case v of None \<Rightarrow> fallback | Some x \<Rightarrow> x) in
      if \<not> is_finite_num n \<or> js_le n (Fin 0) then Err (name @ '' must be positive and finite'') else Ok n)"

definition positiveInteger :: "jsnum option \<Rightarrow> jsnum \<Rightarrow> string \<Rightarrow> (string, jsnum) res" where
  "positiveInteger v fallback name =
     (let n = (case v of None \<Rightarrow> fallback | Some x \<Rightarrow> x) in
      if \<not> is_safe_integer_num n \<or> js_le n (Fin 0) then Err (name @ '' must be a positive safe integer'') else Ok n)"

definition configuredNumber :: "(string \<Rightarrow> jsnum) \<Rightarrow> env_vars \<Rightarrow> string \<Rightarrow> (string, jsnum option) res" where
  "configuredNumber toNumber env name =
     (case envValue env name of
        None \<Rightarrow> Ok None
      | Some v \<Rightarrow> if \<not> is_finite_num (toNumber v) then Err (name @ '' must be numeric'') else Ok (Some (toNumber v)))"

definition aliasedNumber ::
  "jsnum option \<Rightarrow> jsnum option \<Rightarrow> jsnum option \<Rightarrow> jsnum \<Rightarrow> string \<Rightarrow> string \<Rightarrow> (string, jsnum) res" where
  "aliasedNumber canonical legacy environmentValue fallback canonicalName legacyName =
     (case (canonical, legacy) of
        (Some c, Some l) \<Rightarrow>
          if \<not> js_eq c l then Err (canonicalName @ '' conflicts with legacy '' @ legacyName) else Ok c
      | _ \<Rightarrow> Ok (case nullish canonical (nullish legacy environmentValue) of None \<Rightarrow> fallback | Some n \<Rightarrow> n))"

fun js_floor :: "jsnum \<Rightarrow> jsnum" where
  "js_floor (Fin q) = js_int \<lfloor>q\<rfloor>"
| "js_floor n = n"

record limits_input =
  li_maxProbeHitsPerSecond :: "jsnum option"
  li_maxTelemetryBytesPerSecond :: "jsnum option"
  li_maxBufferedEventBytes :: "jsnum option"
  li_maxEventLoopLagMs :: "jsnum option"
  li_safetyCooldownMs :: "jsnum option"
  li_hitsPerSec :: "jsnum option"
  li_bandwidthKbPerSec :: "jsnum option"
  li_maxLagMs :: "jsnum option"
  li_cooldownMs :: "jsnum option"
  li_pollIntervalMs :: "jsnum option"
  li_flushIntervalMs :: "jsnum option"
  li_requestTimeoutMs :: "jsnum option"
  li_maxQueueBytes :: "jsnum option"

record resolved_limits =
  lm_hitsPerSec :: jsnum
  lm_bandwidthKbPerSec :: jsnum
  lm_maxLagMs :: jsnum
  lm_cooldownMs :: jsnum
  lm_pollIntervalMs :: jsnum
  lm_flushIntervalMs :: jsnum
  lm_requestTimeoutMs :: jsnum
  lm_maxQueueBytes :: jsnum

text \<open>\<^verbatim>\<open>aliasedNumber(..., configuredNumber(variable), ...)\<close>: the environment is read first.\<close>

definition aliased ::
  "(string \<Rightarrow> jsnum) \<Rightarrow> env_vars \<Rightarrow> jsnum option \<Rightarrow> jsnum option \<Rightarrow> string \<Rightarrow> jsnum \<Rightarrow> string \<Rightarrow> string \<Rightarrow> (string, jsnum) res" where
  "aliased toNumber env canonical legacy variable fallback canonicalName legacyName =
     bind_res (configuredNumber toNumber env variable) (\<lambda>e.
       aliasedNumber canonical legacy e fallback canonicalName legacyName)"

definition queue_default :: "jsnum \<Rightarrow> jsnum" where
  "queue_default telemetry = js_max (js_int 65536) (js_floor (js_mult telemetry (js_int 5)))"

definition resolveLimits :: "(string \<Rightarrow> jsnum) \<Rightarrow> env_vars \<Rightarrow> limits_input \<Rightarrow> (string, resolved_limits) res" where
  "resolveLimits toNumber env i =
     bind_res (aliased toNumber env (li_maxTelemetryBytesPerSecond i)
         (map_option (\<lambda>n. js_mult n (js_int 1024)) (li_bandwidthKbPerSec i)) ''LIVEPROBE_MAX_TELEMETRY_BYTES_PER_SECOND''
         (js_int 204800) ''maxTelemetryBytesPerSecond'' ''bandwidthKbPerSec'') (\<lambda>telemetry.
     bind_res (positiveNumber (Some telemetry) (js_int 204800) ''maxTelemetryBytesPerSecond'') (\<lambda>telemetry.
     bind_res (aliased toNumber env (li_maxBufferedEventBytes i) (li_maxQueueBytes i) ''LIVEPROBE_MAX_BUFFERED_EVENT_BYTES''
         (queue_default telemetry) ''maxBufferedEventBytes'' ''maxQueueBytes'') (\<lambda>queue.
     bind_res (positiveInteger (Some queue) (queue_default telemetry) ''maxBufferedEventBytes'') (\<lambda>queue.
     bind_res (aliased toNumber env (li_maxProbeHitsPerSecond i) (li_hitsPerSec i) ''LIVEPROBE_MAX_PROBE_HITS_PER_SECOND''
         (js_int 10) ''maxProbeHitsPerSecond'' ''hitsPerSec'') (\<lambda>hits.
     bind_res (positiveNumber (Some hits) (js_int 10) ''maxProbeHitsPerSecond'') (\<lambda>hits.
     bind_res (aliased toNumber env (li_maxEventLoopLagMs i) (li_maxLagMs i) ''LIVEPROBE_MAX_EVENT_LOOP_LAG_MS''
         (js_int 50) ''maxEventLoopLagMs'' ''maxLagMs'') (\<lambda>lag.
     bind_res (positiveNumber (Some lag) (js_int 50) ''maxEventLoopLagMs'') (\<lambda>lag.
     bind_res (aliased toNumber env (li_safetyCooldownMs i) (li_cooldownMs i) ''LIVEPROBE_SAFETY_COOLDOWN_MS''
         (js_int 10000) ''safetyCooldownMs'' ''cooldownMs'') (\<lambda>cooldown.
     bind_res (positiveInteger (Some cooldown) (js_int 10000) ''safetyCooldownMs'') (\<lambda>cooldown.
     bind_res (positiveInteger (li_pollIntervalMs i) (js_int 1000) ''pollIntervalMs'') (\<lambda>poll.
     bind_res (positiveInteger (li_flushIntervalMs i) (js_int 2000) ''flushIntervalMs'') (\<lambda>flushing.
     bind_res (positiveInteger (li_requestTimeoutMs i) (js_int 5000) ''requestTimeoutMs'') (\<lambda>timeout.
       Ok \<lparr>lm_hitsPerSec = hits, lm_bandwidthKbPerSec = js_div telemetry (js_int 1024), lm_maxLagMs = lag,
           lm_cooldownMs = cooldown, lm_pollIntervalMs = poll, lm_flushIntervalMs = flushing, lm_requestTimeoutMs = timeout,
           lm_maxQueueBytes = queue\<rparr>)))))))))))))"

definition resolveCommitSha :: "env_vars \<Rightarrow> string option \<Rightarrow> (string, string \<times> commit_source) res" where
  "resolveCommitSha env commitSha =
     (case nullish (map_option js_trim commitSha) (nullish (envValue env ''LIVEPROBE_COMMIT_SHA'') (envValue env ''GIT_COMMIT'')) of
        None \<Rightarrow> Err ''commitSha is required; pass commitSha or set LIVEPROBE_COMMIT_SHA/GIT_COMMIT''
      | Some raw \<Rightarrow>
          if js_lower raw = ''unknown''
          then Err ''commitSha is required; pass commitSha or set LIVEPROBE_COMMIT_SHA/GIT_COMMIT''
          else if \<not> (len_between 7 64 raw \<and> list_all is_hex raw)
          then Err ''commitSha must be a 7-64 character hexadecimal Git object ID''
          else Ok (js_lower raw, if commitSha = None then CommitEnv else CommitConfig))"

subsection \<open>The state of the agent's reporting\<close>

record agent_run =
  ar_limits :: resolved_limits
  ar_events :: "probe_event event_buffer"
  ar_aggregates :: aggregate_buffer
  ar_sending :: "probe_event list option"
  ar_stopped :: bool
  ar_lastBrokerError :: "string option"
  ar_output :: "string list"
  ar_entered :: "probe_event list"
  ar_delivered :: "probe_event list"

text \<open>\<open>ar_sending\<close> is the batch of the flush in progress, \<open>ar_output\<close> the lines written.\<close>

definition one_line :: "string \<Rightarrow> string" where
  "one_line s = map (\<lambda>c. if c = CHR 0x0A \<or> c = CHR 0x0D then CHR '' '' else c) s"

definition reportBrokerError :: "string \<Rightarrow> agent_run \<Rightarrow> agent_run" where
  "reportBrokerError message r =
     (if ar_stopped r \<or> ar_lastBrokerError r = Some message then r
      else r\<lparr>ar_lastBrokerError := Some message, ar_output := ar_output r @ [''[liveprobe] BROKER ERROR '' @ one_line message]\<rparr>)"

definition clearBrokerError :: "agent_run \<Rightarrow> agent_run" where
  "clearBrokerError r =
     (if ar_lastBrokerError r = None then r
      else r\<lparr>ar_lastBrokerError := None, ar_output := ar_output r @ [''[liveprobe] BROKER CONNECTED'']\<rparr>)"

definition enqueue_all :: "(probe_event \<Rightarrow> nat) \<Rightarrow> probe_event list \<Rightarrow> agent_run \<Rightarrow> agent_run" where
  "enqueue_all bytesOf es r =
     r\<lparr>ar_events := fold (\<lambda>e b. fst (enqueue bytesOf e b)) es (ar_events r), ar_entered := ar_entered r @ es\<rparr>"

definition byteBudget :: "resolved_limits \<Rightarrow> jsnum" where
  "byteBudget l =
     js_max (js_int 1024)
       (js_floor (js_mult (js_mult (lm_bandwidthKbPerSec l) (js_int 1024)) (js_div (lm_flushIntervalMs l) (js_int 1000))))"

text \<open>\<^verbatim>\<open>takeBatch\<close> with a double: a limit that is not finite is never reached.\<close>

definition take_budget :: "jsnum \<Rightarrow> 'e event_buffer \<Rightarrow> 'e event_buffer \<times> 'e list" where
  "take_budget m b = takeBatch (case m of Fin q \<Rightarrow> \<lfloor>q\<rfloor> | _ \<Rightarrow> max 1 (eb_bytes b)) b"

definition drain_aggregates :: "(probe_event \<Rightarrow> nat) \<Rightarrow> int \<Rightarrow> agent_run \<Rightarrow> agent_run" where
  "drain_aggregates bytesOf now r =
     (let (ab, es) = flush now (ar_aggregates r) in enqueue_all bytesOf es (r\<lparr>ar_aggregates := ab\<rparr>))"

definition flush_begin :: "(probe_event \<Rightarrow> nat) \<Rightarrow> int \<Rightarrow> agent_run \<Rightarrow> agent_run" where
  "flush_begin bytesOf now r =
     (let r1 = drain_aggregates bytesOf now r; (b, batch) = take_budget (byteBudget (ar_limits r)) (ar_events r1) in
      r1\<lparr>ar_events := b, ar_sending := Some batch\<rparr>)"

text \<open>What is said about one request of the flush.\<close>

definition after_send :: "(probe_event list \<times> send_result \<Rightarrow> string) \<Rightarrow> probe_event list \<times> send_result \<Rightarrow> agent_run \<Rightarrow> agent_run" where
  "after_send message q r = (if snd q = Delivered then clearBrokerError r else reportBrokerError (message q) r)"

definition flush_end ::
  "(probe_event \<Rightarrow> nat) \<Rightarrow> probe_event sender \<Rightarrow> (probe_event list \<times> send_result \<Rightarrow> string) \<Rightarrow> agent_run \<Rightarrow> agent_run" where
  "flush_end bytesOf send message r =
     (case ar_sending r of
        None \<Rightarrow> r
      | Some batch \<Rightarrow>
          let run = ingestIsolating send [] MAX_INGEST_SPLITS batch;
              r1 = fold (after_send message) (ir_log run) r;
              b1 = (if ir_rejected run \<noteq> [] then recordRejected (ir_rejected run) (ar_events r1) else ar_events r1);
              b2 = (if ir_deferred run \<noteq> [] then requeueFront bytesOf (ir_deferred run) b1 else b1) in
          r1\<lparr>ar_events := b2, ar_sending := None, ar_delivered := ar_delivered r1 @ delivered (ir_log run)\<rparr>)"

text \<open>
  The steps: a probe adds an event, counts a hit or records a metric; the flush timer fires, which does nothing while
  a flush is running or after the stop; a flush ends; the agent is stopped; and, once nothing is being sent, the last
  flush of the stop begins.
\<close>

inductive flush_step :: "(probe_event \<Rightarrow> nat) \<Rightarrow> agent_run \<Rightarrow> agent_run \<Rightarrow> bool" for bytesOf where
  probe_event: "flush_step bytesOf r (enqueue_all bytesOf [e] r)"
| probe_hit: "flush_step bytesOf r (r\<lparr>ar_aggregates := incrementCounter p (ar_aggregates r)\<rparr>)"
| probe_metric: "flush_step bytesOf r (r\<lparr>ar_aggregates := recordMetric p v (ar_aggregates r)\<rparr>)"
| flush_timer: "ar_sending r = None \<Longrightarrow> \<not> ar_stopped r \<Longrightarrow> flush_step bytesOf r (flush_begin bytesOf now r)"
| flush_done: "ar_sending r \<noteq> None \<Longrightarrow> flush_step bytesOf r (flush_end bytesOf send message r)"
| stop_begin: "flush_step bytesOf r (r\<lparr>ar_stopped := True\<rparr>)"
| stop_flush: "ar_stopped r \<Longrightarrow> ar_sending r = None \<Longrightarrow>
    flush_step bytesOf r (flush_begin bytesOf now' (drain_aggregates bytesOf now r))"

definition new_agent_run :: "resolved_limits \<Rightarrow> probe_event event_buffer \<Rightarrow> agent_run" where
  "new_agent_run l b =
     \<lparr>ar_limits = l, ar_events = b, ar_aggregates = empty_aggregates, ar_sending = None, ar_stopped = False,
      ar_lastBrokerError = None, ar_output = [], ar_entered = [], ar_delivered = []\<rparr>"

inductive flush_reachable :: "(probe_event \<Rightarrow> nat) \<Rightarrow> agent_run \<Rightarrow> bool" for bytesOf where
  flush_init: "resolveLimits toNumber env i = Ok l \<Longrightarrow> new_event_buffer (lm_maxQueueBytes l) = Ok b \<Longrightarrow>
    flush_reachable bytesOf (new_agent_run l b)"
| flush_more: "flush_reachable bytesOf r \<Longrightarrow> flush_step bytesOf r r' \<Longrightarrow> flush_reachable bytesOf r'"

subsection \<open>The request of a flush\<close>

definition status_detail :: "nat \<Rightarrow> nat \<Rightarrow> nat \<Rightarrow> string option \<Rightarrow> string" where
  "status_detail armed rateDropped queueDropped environment =
     show_nat armed @ '' probes armed; '' @ show_nat rateDropped @ '' rate-dropped; '' @ show_nat queueDropped @ '' queue-dropped'' @
     (case environment of None \<Rightarrow> [] | Some e \<Rightarrow> ''; env='' @ e)"

fun num_int :: "jsnum \<Rightarrow> int" where
  "num_int (Fin q) = \<lfloor>q\<rfloor>"
| "num_int _ = 0"

definition agentStatus_of :: "resolved_limits \<Rightarrow> safety_monitor \<Rightarrow> string \<Rightarrow> agent_status" where
  "agentStatus_of l m detail =
     \<lparr>as_state = (if sm_state m = safety_state.Red then agent_state.Red else agent_state.Green),
      as_detail = Some detail, as_reasonCode = reasonCode m,
      as_limits = Some \<lparr>sl_maxProbeHitsPerSecond = Some (lm_hitsPerSec l), sl_maxProbePauseMsPerSecond = None,
        sl_safetyCooldownMs = Some (num_int (lm_cooldownMs l)),
        sl_maxTelemetryBytesPerSecond = Some (js_mult (lm_bandwidthKbPerSec l) (js_int 1024)),
        sl_maxBufferedEventBytes = Some (num_int (lm_maxQueueBytes l)), sl_maxEventLoopLagMs = Some (lm_maxLagMs l)\<rparr>\<rparr>"

definition AGENT_CAPABILITIES :: "string list" where
  "AGENT_CAPABILITIES = [''log-levels-v1'', ''expression-ast-v1'', ''frame-locals-v1'', ''safety-report-v1'']"

definition ingest_body ::
  "string \<Rightarrow> string \<Rightarrow> string \<Rightarrow> commit_source \<Rightarrow> agent_status \<Rightarrow> probe_event list \<Rightarrow> ingest_input" where
  "ingest_body serviceId agentId commitSha source status es =
     \<lparr>ig_serviceId = serviceId, ig_sdk = Node, ig_agentId = Some agentId, ig_commitSha = commitSha,
      ig_commitSource = Some source, ig_capabilities = Some AGENT_CAPABILITIES, ig_agentStatus = status, ig_events = es\<rparr>"

subsection \<open>A sample configuration\<close>

definition sample_limits :: limits_input where
  "sample_limits =
     \<lparr>li_maxProbeHitsPerSecond = None, li_maxTelemetryBytesPerSecond = Some (js_int 1024), li_maxBufferedEventBytes = Some (js_int 30),
      li_maxEventLoopLagMs = None, li_safetyCooldownMs = None, li_hitsPerSec = Some (js_int 10), li_bandwidthKbPerSec = None,
      li_maxLagMs = None, li_cooldownMs = None, li_pollIntervalMs = None, li_flushIntervalMs = None, li_requestTimeoutMs = None,
      li_maxQueueBytes = None\<rparr>"

definition sample_resolved :: resolved_limits where
  "sample_resolved =
     \<lparr>lm_hitsPerSec = js_int 10, lm_bandwidthKbPerSec = js_int 1, lm_maxLagMs = js_int 50, lm_cooldownMs = js_int 10000,
      lm_pollIntervalMs = js_int 1000, lm_flushIntervalMs = js_int 2000, lm_requestTimeoutMs = js_int 5000,
      lm_maxQueueBytes = js_int 30\<rparr>"

definition sample_queue :: "probe_event event_buffer" where
  "sample_queue = \<lparr>eb_maxBytes = 30, eb_events = [], eb_bytes = 0, eb_dropped = 0\<rparr>"

definition red_monitor :: safety_monitor where
  "red_monitor = \<lparr>sm_maxLagMs = js_int 50, sm_state = safety_state.Red, sm_interval = True, sm_cooldown = True, sm_started = True\<rparr>"

subsection \<open>Vocabulary of the lemmas\<close>

definition positive_num :: "jsnum \<Rightarrow> bool" where
  "positive_num n \<longleftrightarrow> is_finite_num n \<and> js_lt (Fin 0) n"

definition in_flight :: "agent_run \<Rightarrow> probe_event list" where
  "in_flight r = (case ar_sending r of None \<Rightarrow> [] | Some es \<Rightarrow> es)"

definition conserved :: "(probe_event \<Rightarrow> nat) \<Rightarrow> agent_run \<Rightarrow> bool" where
  "conserved bytesOf r \<longleftrightarrow> buffer_ok bytesOf (ar_events r) \<and>
     length (ar_entered r) = length (ar_delivered r) + eb_dropped (ar_events r) + length (contents (ar_events r)) + length (in_flight r) \<and>
     mset (ar_delivered r) + mset (contents (ar_events r)) + mset (in_flight r) \<subseteq># mset (ar_entered r)"

section \<open>Lemmas\<close>

subsection \<open>Configuration\<close>

lemma positive_num_iff: "positive_num n \<longleftrightarrow> is_finite_num n \<and> \<not> js_le n (Fin 0)"
  by (cases n) (auto simp: positive_num_def)

lemma positiveNumber_Ok: "positiveNumber v d name = Ok n \<Longrightarrow> positive_num n"
  by (auto simp: positiveNumber_def positive_num_iff Let_def split: if_splits)

lemma positiveInteger_Ok: "positiveInteger v d name = Ok n \<Longrightarrow> \<exists>k. n = js_int k \<and> positive_int k"
proof -
  assume "positiveInteger v d name = Ok n"
  then have n: "is_safe_integer_num n" "\<not> js_le n (Fin 0)" by (auto simp: positiveInteger_def Let_def split: if_splits)
  then obtain q where q: "n = Fin q" "of_int \<lfloor>q\<rfloor> = q" "\<bar>q\<bar> \<le> of_int max_safe" "0 < q" by (cases n) auto
  then have "\<bar>\<lfloor>q\<rfloor>\<bar> \<le> max_safe" by (metis of_int_abs of_int_le_iff)
  moreover have "0 < \<lfloor>q\<rfloor>" using q(2,4) by (metis of_int_0_less_iff)
  ultimately have "positive_int \<lfloor>q\<rfloor>" by (simp add: positive_int_def safe_int_def)
  then show ?thesis using q(1,2) by metis
qed

lemma positive_int_num: "positive_int k \<Longrightarrow> positive_num (js_int k)"
  by (simp add: positive_num_def positive_int_def)

lemma resolveLimits_Ok:
  assumes "resolveLimits toNumber env i = Ok l"
  shows "positive_num (lm_hitsPerSec l)" "positive_num (lm_maxLagMs l)"
    "\<exists>k. lm_cooldownMs l = js_int k \<and> positive_int k" "\<exists>k. lm_pollIntervalMs l = js_int k \<and> positive_int k"
    "\<exists>k. lm_flushIntervalMs l = js_int k \<and> positive_int k" "\<exists>k. lm_requestTimeoutMs l = js_int k \<and> positive_int k"
    "\<exists>k. lm_maxQueueBytes l = js_int k \<and> positive_int k"
    "\<exists>t. positive_num t \<and> lm_bandwidthKbPerSec l = js_div t (js_int 1024)"
  using assms by (auto simp: resolveLimits_def bind_res_Inr_iff dest: positiveNumber_Ok positiveInteger_Ok)

lemma js_max_ge: "\<not> js_lt (js_max (Fin a) n) (Fin a)"
  by (cases n) (auto simp: js_max_def)

lemma resolveCommitSha_Ok:
  assumes "resolveCommitSha env c = Ok (sha, source)"
  shows "sourceCommit_parse sha = Some sha"
proof -
  obtain raw where r: "len_between 7 64 raw" "list_all is_hex raw" "sha = js_lower raw"
    using assms by (auto simp: resolveCommitSha_def split: option.splits if_splits)
  have "js_trim raw = raw" by (rule trim_hex [OF r(2)])
  then have "sourceCommit_parse raw = Some sha" using r by (simp add: sourceCommit_parse_def Let_def)
  then show ?thesis using schema.again [OF schema_sourceCommit] by blast
qed

subsection \<open>Accounting\<close>

lemma drop_subset: "mset (drop k xs) \<subseteq># mset xs"
  by (metis append_take_drop_id mset_append mset_subset_eq_add_right)

lemma take_subset: "mset (take k xs) \<subseteq># mset xs"
  by (metis append_take_drop_id mset_append mset_subset_eq_add_left)

lemma enqueue_subset: "buffer_ok bytesOf b \<Longrightarrow> mset (contents (fst (enqueue bytesOf e b))) \<subseteq># mset (contents b) + {#e#}"
proof -
  assume "buffer_ok bytesOf b"
  then show ?thesis
  proof (cases rule: enqueue_cases [of bytesOf b e])
    case (stored k)
    then show ?thesis using drop_subset [of k "contents b"] by (simp add: contents_def drop_map)
  qed (simp add: contents_def)
qed

lemma fold_enqueue:
  assumes "buffer_ok bytesOf b"
  shows "buffer_ok bytesOf (fold (\<lambda>e b. fst (enqueue bytesOf e b)) es b) \<and>
    length (contents (fold (\<lambda>e b. fst (enqueue bytesOf e b)) es b)) + eb_dropped (fold (\<lambda>e b. fst (enqueue bytesOf e b)) es b) =
      length (contents b) + eb_dropped b + length es \<and>
    mset (contents (fold (\<lambda>e b. fst (enqueue bytesOf e b)) es b)) \<subseteq># mset (contents b) + mset es"
  using assms
proof (induction es arbitrary: b)
  case (Cons e es)
  let ?b = "fst (enqueue bytesOf e b)"
  note IH = Cons.IH [OF enqueue_ok [OF Cons.prems]]
  have "mset (contents ?b) + mset es \<subseteq># mset (contents b) + {#e#} + mset es"
    using enqueue_subset [OF Cons.prems] by (rule subset_mset.add_right_mono)
  then have "mset (contents (fold (\<lambda>e b. fst (enqueue bytesOf e b)) es ?b)) \<subseteq># mset (contents b) + {#e#} + mset es"
    using IH subset_mset.order_trans by blast
  then show ?case using IH enqueue_accounting [OF Cons.prems, of e] by (simp add: contents_def)
qed simp

lemma conserved_enqueue: "conserved bytesOf r \<Longrightarrow> conserved bytesOf (enqueue_all bytesOf es r)"
proof -
  assume c: "conserved bytesOf r"
  then have b: "buffer_ok bytesOf (ar_events r)" by (simp add: conserved_def)
  let ?n = "fold (\<lambda>e b. fst (enqueue bytesOf e b)) es (ar_events r)"
  note f = fold_enqueue [OF b, of es]
  have "mset (ar_delivered r) + mset (contents ?n) + mset (in_flight r) \<subseteq>#
      mset (ar_delivered r) + (mset (contents (ar_events r)) + mset es) + mset (in_flight r)"
    using f by (intro subset_mset.add_mono) auto
  also have "\<dots> \<subseteq># mset (ar_entered r) + mset es"
    using c by (simp add: conserved_def ac_simps)
  finally show ?thesis using f c by (simp add: conserved_def enqueue_all_def in_flight_def)
qed

lemma conserved_aggregates: "conserved bytesOf (r\<lparr>ar_aggregates := a\<rparr>) = conserved bytesOf r"
  by (simp add: conserved_def in_flight_def)

lemma conserved_stopped: "conserved bytesOf (r\<lparr>ar_stopped := x\<rparr>) = conserved bytesOf r"
  by (simp add: conserved_def in_flight_def)

lemma conserved_drain: "conserved bytesOf r \<Longrightarrow> conserved bytesOf (drain_aggregates bytesOf now r)"
  by (simp add: drain_aggregates_def case_prod_beta conserved_enqueue conserved_aggregates)

lemma drain_sending [simp]: "ar_sending (drain_aggregates bytesOf now r) = ar_sending r"
  by (simp add: drain_aggregates_def case_prod_beta enqueue_all_def)

lemma conserved_begin:
  assumes "conserved bytesOf r" "ar_sending r = None"
  shows "conserved bytesOf (flush_begin bytesOf now r)"
proof -
  let ?r = "drain_aggregates bytesOf now r"
  obtain b es where t: "take_budget (byteBudget (ar_limits r)) (ar_events ?r) = (b, es)" by fastforce
  have c: "conserved bytesOf ?r" by (rule conserved_drain [OF assms(1)])
  then have "buffer_ok bytesOf (ar_events ?r)" by (simp add: conserved_def)
  note s = takeBatch_split [OF t [unfolded take_budget_def] this]
  have "mset (contents (ar_events ?r)) = mset es + mset (contents b)" "length (contents (ar_events ?r)) = length es + length (contents b)"
    using s(1) by (metis mset_append, metis length_append)
  then show ?thesis using c s(2,3) assms(2) t by (simp add: conserved_def flush_begin_def Let_def in_flight_def ac_simps)
qed

lemma after_send_frame [simp]:
  "ar_events (after_send message q r) = ar_events r" "ar_sending (after_send message q r) = ar_sending r"
  "ar_entered (after_send message q r) = ar_entered r" "ar_delivered (after_send message q r) = ar_delivered r"
  by (simp_all add: after_send_def reportBrokerError_def clearBrokerError_def)

lemma fold_after_send [simp]:
  "ar_events (fold (after_send message) qs r) = ar_events r" "ar_sending (fold (after_send message) qs r) = ar_sending r"
  "ar_entered (fold (after_send message) qs r) = ar_entered r" "ar_delivered (fold (after_send message) qs r) = ar_delivered r"
  by (induction qs arbitrary: r) simp_all

text \<open>Putting the deferred events back loses none uncounted.\<close>

lemma requeue_accounts:
  assumes "buffer_ok bytesOf b"
  shows "buffer_ok bytesOf (requeueFront bytesOf es b)"
    "length (contents (requeueFront bytesOf es b)) + eb_dropped (requeueFront bytesOf es b) = length es + length (contents b) + eb_dropped b"
    "mset (contents (requeueFront bytesOf es b)) \<subseteq># mset es + mset (contents b)"
proof -
  from assms obtain k where k: "k \<le> length (es @ contents b)" "contents (requeueFront bytesOf es b) = take k (es @ contents b)"
    "eb_dropped (requeueFront bytesOf es b) = eb_dropped b + (length (es @ contents b) - k)" "buffer_ok bytesOf (requeueFront bytesOf es b)"
    by (rule requeueFront_cases)
  then show "buffer_ok bytesOf (requeueFront bytesOf es b)"
    "length (contents (requeueFront bytesOf es b)) + eb_dropped (requeueFront bytesOf es b) = length es + length (contents b) + eb_dropped b"
    by simp_all
  show "mset (contents (requeueFront bytesOf es b)) \<subseteq># mset es + mset (contents b)"
    using take_subset [of k "es @ contents b"] k(2) by simp
qed

lemma conserved_end: "conserved bytesOf r \<Longrightarrow> conserved bytesOf (flush_end bytesOf send message r)"
proof (cases "ar_sending r")
  case (Some batch)
  assume c: "conserved bytesOf r"
  define run where "run = ingestIsolating send [] MAX_INGEST_SPLITS batch"
  define b1 where "b1 = (if ir_rejected run \<noteq> [] then recordRejected (ir_rejected run) (ar_events r) else ar_events r)"
  define b2 where "b2 = (if ir_deferred run \<noteq> [] then requeueFront bytesOf (ir_deferred run) b1 else b1)"
  have e: "ar_events (flush_end bytesOf send message r) = b2" "in_flight (flush_end bytesOf send message r) = []"
      "ar_delivered (flush_end bytesOf send message r) = ar_delivered r @ delivered (ir_log run)"
      "ar_entered (flush_end bytesOf send message r) = ar_entered r"
    by (simp_all add: flush_end_def Some Let_def run_def b1_def b2_def in_flight_def)
  have m: "mset batch = mset (delivered (ir_log run)) + mset (ir_rejected run) + mset (ir_deferred run)"
    using run_log_accounts(3) [of batch "[]" send MAX_INGEST_SPLITS] by (simp add: run_def run_log_def)
  then have l: "length batch = length (delivered (ir_log run)) + length (ir_rejected run) + length (ir_deferred run)"
    by (metis size_mset size_union)
  have ok: "buffer_ok bytesOf b1" using c by (auto simp: b1_def conserved_def recordRejected_def buffer_ok_def)
  have b1: "contents b1 = contents (ar_events r)" "eb_dropped b1 = eb_dropped (ar_events r) + length (ir_rejected run)"
    by (auto simp: b1_def recordRejected_def contents_def)
  have b2: "buffer_ok bytesOf b2" "length (contents b2) + eb_dropped b2 = length (ir_deferred run) + length (contents b1) + eb_dropped b1"
      "mset (contents b2) \<subseteq># mset (ir_deferred run) + mset (contents b1)"
    using requeue_accounts [OF ok, of "ir_deferred run"] ok by (auto simp: b2_def)
  have "mset (ar_delivered r) + mset (delivered (ir_log run)) + mset (contents b2) \<subseteq>#
      mset (ar_delivered r) + mset (delivered (ir_log run)) + (mset (ir_deferred run) + mset (contents b1))"
    using b2(3) by (rule subset_mset.add_left_mono)
  also have "\<dots> \<subseteq># mset (ar_delivered r) + mset (contents (ar_events r)) + mset batch"
    using m b1(1) by (simp add: ac_simps)
  also have "\<dots> \<subseteq># mset (ar_entered r)" using c Some by (simp add: conserved_def in_flight_def)
  finally have "mset (ar_delivered r) + mset (delivered (ir_log run)) + mset (contents b2) \<subseteq># mset (ar_entered r)" .
  moreover have "length (ar_entered r) = length (ar_delivered r) + length (delivered (ir_log run)) + eb_dropped b2 + length (contents b2)"
    using c Some l b2(2) b1 by (simp add: conserved_def in_flight_def)
  ultimately show ?thesis using b2(1) by (simp add: conserved_def e)
qed (simp add: flush_end_def)

lemma conserved_step: "flush_step bytesOf r r' \<Longrightarrow> conserved bytesOf r \<Longrightarrow> conserved bytesOf r'"
  by (induction rule: flush_step.induct)
    (auto simp: conserved_aggregates conserved_stopped intro: conserved_enqueue conserved_begin conserved_end conserved_drain)

lemma conserved_reachable: "flush_reachable bytesOf r \<Longrightarrow> conserved bytesOf r"
proof (induction rule: flush_reachable.induct)
  case (flush_init toNumber env i l b)
  then show ?case by (auto simp: conserved_def new_agent_run_def in_flight_def new_event_buffer_def contents_def buffer_ok_def
        split: jsnum.splits if_splits)
qed (rule conserved_step)

lemma sample_limits_ok: "resolveLimits (\<lambda>_. NaN) (\<lambda>_. None) sample_limits = Ok sample_resolved"
proof -
  have "js_div (js_int 1024) (js_int 1024) = js_int 1" using fround_int [of 1] by simp
  then show ?thesis
    by (simp add: resolveLimits_def sample_limits_def aliased_def configuredNumber_def envValue_def aliasedNumber_def nullish_def
        positiveNumber_def positiveInteger_def sample_resolved_def Let_def max_safe_def)
qed

lemma sample_queue_ok: "new_event_buffer (lm_maxQueueBytes sample_resolved) = Ok sample_queue"
  by (simp add: new_event_buffer_def sample_resolved_def sample_queue_def max_safe_def)

subsection \<open>Requests\<close>

lemma capabilities_parse: "bounded_list 32 agentCapability_parse AGENT_CAPABILITIES = Some AGENT_CAPABILITIES"
  by (simp add: bounded_list_def AGENT_CAPABILITIES_def agentCapability_parse_def js_trim_def js_space_def len_between_def
      is_lower_def is_digit_def char_in_def Let_def)

section \<open>Properties\<close>

text \<open>C26: An agent accounts for its events through every interleaving of probes, flushes, failing requests and the
  stop: each event that entered the queue has been delivered once, is being sent, is still queued or is counted as
  dropped, and the queue stays within its byte budget.\<close>

theorem agent_conserves_events:
  assumes "flush_reachable bytesOf r"
  shows "length (ar_entered r) =
      length (ar_delivered r) + eb_dropped (ar_events r) + length (contents (ar_events r)) + length (in_flight r) \<and>
    mset (ar_delivered r) + mset (contents (ar_events r)) + mset (in_flight r) \<subseteq># mset (ar_entered r) \<and>
    eb_bytes (ar_events r) \<le> eb_maxBytes (ar_events r)"
  using conserved_reachable [OF assms] by (simp add: conserved_def buffer_ok_def)

theorem agent_conserves_events_witness:
  "length (ar_entered (enqueue_all (\<lambda>_. 20) [agent_event ''p'' 1 (CounterEvent 1), agent_event ''p'' 2 (CounterEvent 1)]
      (new_agent_run sample_resolved sample_queue))) = 2 \<and>
   eb_dropped (ar_events (enqueue_all (\<lambda>_. 20) [agent_event ''p'' 1 (CounterEvent 1), agent_event ''p'' 2 (CounterEvent 1)]
      (new_agent_run sample_resolved sample_queue))) = 1"
proof -
  let ?e = "\<lambda>n. agent_event ''p'' n (CounterEvent 1)" and ?r = "new_agent_run sample_resolved sample_queue"
  let ?s = "enqueue_all (\<lambda>_. 20) [?e 2] (enqueue_all (\<lambda>_. 20) [?e 1] ?r)"
  have "flush_reachable (\<lambda>_. 20) ?r" by (rule flush_init [OF sample_limits_ok sample_queue_ok])
  then have "flush_reachable (\<lambda>_. 20) ?s" by (intro flush_more [OF _ flush_step.probe_event])
  from agent_conserves_events [OF this] have "length (ar_entered ?s) = length (ar_delivered ?s) + eb_dropped (ar_events ?s) +
      length (contents (ar_events ?s)) + length (in_flight ?s)" by blast
  moreover have "contents (ar_events ?s) = [?e 2]" "ar_entered ?s = [?e 1, ?e 2]"
    by (simp_all add: enqueue_all_def enqueue_def new_agent_run_def sample_queue_def contents_def)
  ultimately have "eb_dropped (ar_events ?s) = 1" by (simp add: in_flight_def) (simp add: enqueue_all_def new_agent_run_def)
  moreover have "?s = enqueue_all (\<lambda>_. 20) [?e 1, ?e 2] ?r" by (simp add: enqueue_all_def)
  ultimately show ?thesis by (simp add: enqueue_all_def new_agent_run_def)
qed

text \<open>The limits an agent resolves are those its parts accept: the rate limiter, the event buffer and the safety monitor can
  all be built from them, and the timers have positive intervals.\<close>

theorem resolved_limits_fit:
  assumes "resolveLimits toNumber env i = Ok l"
  shows "is_ok (new_token_bucket (lm_hitsPerSec l) now) \<and>
    is_ok (new_event_buffer (lm_maxQueueBytes l) :: (string, probe_event event_buffer) res) \<and>
    is_ok (new_safety_monitor (lm_maxLagMs l)) \<and>
    positive_num (lm_cooldownMs l) \<and> positive_num (lm_pollIntervalMs l) \<and> positive_num (lm_flushIntervalMs l) \<and>
    positive_num (lm_requestTimeoutMs l) \<and> \<not> js_lt (byteBudget l) (js_int 1024)"
proof -
  note r = resolveLimits_Ok [OF assms]
  have "positive_num n" if "\<exists>k. n = js_int k \<and> positive_int k" for n using that positive_int_num by blast
  moreover obtain k where "lm_maxQueueBytes l = js_int k" "positive_int k" using r(7) by blast
  ultimately show ?thesis using r(1-6) positive_int_num [of k]
    by (auto simp: new_token_bucket_def new_event_buffer_def new_safety_monitor_def positive_num_iff positive_int_def safe_int_def
        byteBudget_def js_max_ge is_ok_def split: sum.splits)
qed

text \<open>C27: The broker's schema accepts what an agent sends: with the limits, the commit and the capabilities the agent
  resolves, a request passes exactly when its events do, as long as the service has a valid name and the status
  text is not too long; so a refusal is due to the events, which is what the isolation of bad events relies on.\<close>

theorem agent_request_accepted:
  assumes "resolveLimits toNumber env i = Ok l" "resolveCommitSha vars c = Ok (sha, source)"
    "nonnegative_num (js_mult (lm_bandwidthKbPerSec l) (js_int 1024))"
    "serviceId_parse sid = Some sid'" "agentId_parse aid = Some aid'"
    "length (status_detail armed rateDropped queueDropped environment) \<le> 4096" "length es \<le> 10000"
  shows "ingest_parse (ingest_body sid aid sha source
      (agentStatus_of l m (status_detail armed rateDropped queueDropped environment)) es) =
    map_option (\<lambda>es'. ingest_body sid' aid' sha source
      (agentStatus_of l m (status_detail armed rateDropped queueDropped environment)) es') (traverse probeEvent_parse es)"
proof -
  note r = resolveLimits_Ok [OF assms(1)]
  obtain cool queue where k: "lm_cooldownMs l = js_int cool" "positive_int cool" "lm_maxQueueBytes l = js_int queue" "positive_int queue"
    using r(3,7) by blast
  have "nonnegative_num (lm_hitsPerSec l)" using r(1) by (auto simp: positive_num_def nonnegative_num_def js_le_def)
  moreover have "nonnegative_int cool" using k(2) by (simp add: positive_int_def nonnegative_int_def)
  ultimately have "agentStatus_ok (agentStatus_of l m (status_detail armed rateDropped queueDropped environment))"
    using assms(3,6) r(2) k
    by (auto simp: agentStatus_ok_def agentStatus_of_def safetyLimits_ok_def reasonCode_def SAFETY_REASON_CODES_def positive_num_def)
  then show ?thesis using assms(4,5,7) resolveCommitSha_Ok [OF assms(2)] capabilities_parse
    by (auto simp: ingest_parse_def ingest_body_def opt_parse_def bounded_list_def split: option.splits if_splits)
qed

theorem agent_request_accepted_witness:
  "ingest_parse (ingest_body '' pay '' ''a'' ''abcdef0'' CommitConfig
      (agentStatus_of sample_resolved red_monitor (status_detail 1 0 0 None)) []) =
   Some (ingest_body ''pay'' ''a'' ''abcdef0'' CommitConfig (agentStatus_of sample_resolved red_monitor (status_detail 1 0 0 None)) [])"
proof -
  have c: "resolveCommitSha (\<lambda>_. None) (Some '' abcdef0 '') = Ok (''abcdef0'', CommitConfig)"
    by (simp add: resolveCommitSha_def nullish_def js_trim_def js_space_def js_lower_def to_lower_char_def char_in_def len_between_def
        is_hex_def is_digit_def)
  have t: "nonnegative_num (js_mult (lm_bandwidthKbPerSec sample_resolved) (js_int 1024))"
    using js_mult_int [of 1 1024] by (simp add: sample_resolved_def nonnegative_num_def del: js_mult.simps)
  have d: "length (status_detail 1 0 0 None) \<le> 4096" by (simp add: status_detail_def show_nat.simps)
  have s: "serviceId_parse '' pay '' = Some ''pay''" "agentId_parse ''a'' = Some ''a''"
    by (simp_all add: serviceId_parse_def agentId_parse_def trimmed_def js_trim_def js_space_def len_between_def)
  from agent_request_accepted [OF sample_limits_ok c t s d, of "[]" red_monitor] show ?thesis by simp
qed

end
