(* ===== verification/Agent_Polling.thy ===== *)
theory Agent_Polling
  imports Broker_Client Agent_Runtime
begin

text \<open>
  The polling of an agent (\<^verbatim>\<open>LiveProbe\<close> in \<^verbatim>\<open>packages/sdk-node/src/live-probe.ts\<close>: \<^verbatim>\<open>#schedulePoll\<close>
  and \<^verbatim>\<open>#poll\<close>) together with the broker it polls.  The request, the work of the broker and the arrival of
  the answer are separate steps; other requests change the broker in between, and any request may fail.  What the
  agent hands to \<^verbatim>\<open>ProbeManager.reconcile\<close> is the field \<open>la_probes\<close>.  The lemmas show that the
  version the agent keeps stands for the probes it keeps.
\<close>

section \<open>Definitions\<close>

datatype flight = NoPoll | Requested | Answered json

record live_agent =
  la_run :: agent_run
  la_version :: int
  la_probes :: "json list"
  la_flight :: flight







text \<open>The agent's version is that of an earlier broker whose answer the agent holds; an answer on its way is newer.\<close>

definition seen :: "env \<Rightarrow> string \<Rightarrow> string option \<Rightarrow> resource_scope \<Rightarrow> broker \<Rightarrow> live_agent \<Rightarrow> bool" where
  "seen env sid sha scope st a \<longleftrightarrow>
     (\<exists>ps. reachable env st \<and> service_version st scope sid = la_version a \<and> poll_answer env st scope sid sha = Ok ps \<and>
        la_probes a = map probe_json ps)"


section \<open>Lemmas\<close>




lemma run_version_mono: "(broker_step env)\<^sup>*\<^sup>* st st' \<Longrightarrow> reachable env st \<Longrightarrow> service_version st s sid \<le> service_version st' s sid"
  using polls.version_run [of env st st' "(s, sid)"] inv_reachable by simp





lemma seen_cong: "la_version a' = la_version a \<Longrightarrow> la_probes a' = la_probes a \<Longrightarrow> seen env sid sha scope st a' = seen env sid sha scope st a"
  by (simp add: seen_def)





section \<open>Properties\<close>



end
