(* ===== verification/Capture.thy ===== *)
theory Capture
  imports Serializer Probe_Manager
begin

text \<open>
  \<^verbatim>\<open>packages/sdk-node/src/capture.ts\<close>: reading the local variables of a paused program through the inspector.
  The objects built are a heap of \<open>JS_Value\<close>; address 0 is the marker \<^verbatim>\<open>CAPTURE_TRUNCATED_VALUE\<close>, the
  containers come after it in the order of their creation.  The inspector is the parameter \<open>answer\<close>, the reply to
  the \<open>n\<close>-th request for an object, so nothing is assumed about it.  \<^verbatim>\<open>step\<close> calls itself through
  \<^verbatim>\<open>processNext\<close>, whether the reply comes at once or later, so the run is the recursion \<open>pump\<close> over
  the task queue; it ends because a task is pushed only within the object budget.  Names that are indices come first
  in the order of an object's properties, as in the language.
\<close>

section \<open>Definitions\<close>

subsection \<open>The protocol\<close>

record remote_object =
  ro_type :: string
  ro_subtype :: "string option"
  ro_value :: "scalar option"
  ro_unserializable :: "string option"
  ro_objectId :: "string option"

record property_descriptor =
  de_name :: string
  de_enumerable :: "bool option"
  de_value :: "remote_object option"

record scope_descriptor =
  sc_type :: string
  sc_objectId :: "string option"

record call_frame =
  cf_functionName :: string
  cf_scriptId :: string
  cf_lineNumber :: int
  cf_scopeChain :: "scope_descriptor list"

record capture_options =
  co_maxArray :: nat
  co_maxDepth :: nat
  co_maxObjects :: nat
  co_maxProps :: nat
  co_maxStackFrames :: nat
  co_redactKeys :: "string list"
  co_scriptPath :: "string \<Rightarrow> string"

text \<open>The reply to \<^verbatim>\<open>getProperties\<close>: an error, no result, or the descriptors.\<close>

datatype inspector_answer = Failure string | NoResult | Properties "property_descriptor list"

type_synonym inspector = "nat \<Rightarrow> string \<Rightarrow> inspector_answer"

subsection \<open>Objects\<close>

definition is_index_name :: "string \<Rightarrow> bool" where
  "is_index_name s \<longleftrightarrow> s = ''0'' \<or> (s \<noteq> [] \<and> list_all is_digit s \<and> hd s \<noteq> CHR ''0'')"

definition digits_value :: "string \<Rightarrow> nat" where
  "digits_value s = foldl (\<lambda>n c. 10 * n + (of_char c - 48)) 0 s"

definition is_array_index :: "string \<Rightarrow> bool" where
  "is_array_index s \<longleftrightarrow> is_index_name s \<and> digits_value s < 2 ^ 32 - 1"

fun insert_index :: "string \<Rightarrow> property \<Rightarrow> (string \<times> property) list \<Rightarrow> (string \<times> property) list" where
  "insert_index k p [] = [(k, p)]"
| "insert_index k p ((j, q) # ps) =
     (if is_array_index j \<and> digits_value j < digits_value k then (j, q) # insert_index k p ps else (k, p) # (j, q) # ps)"

definition define_own :: "string \<Rightarrow> property \<Rightarrow> (string \<times> property) list \<Rightarrow> (string \<times> property) list" where
  "define_own k p ps =
     (if jhas ps k then jset k p ps else if is_array_index k then insert_index k p ps else ps @ [(k, p)])"

text \<open>\<^verbatim>\<open>defineData\<close> on an object and assignment to an index of an array.\<close>

fun put_property :: "string \<Rightarrow> jsval \<Rightarrow> jsobj \<Rightarrow> jsobj" where
  "put_property k v (PlainObj ps) = PlainObj (define_own k (PData v) ps)"
| "put_property k v (ArrayObj n ps) = ArrayObj (max n (digits_value k + 1)) (define_own k (PData v) ps)"
| "put_property k v TruncatedObj = TruncatedObj"

fun set_length :: "nat \<Rightarrow> jsobj \<Rightarrow> jsobj" where
  "set_length n (ArrayObj m ps) = ArrayObj n (filter (\<lambda>(k, _). digits_value k < n) ps)"
| "set_length n ob = ob"

fun is_array :: "jsobj \<Rightarrow> bool" where
  "is_array (ArrayObj _ _) = True"
| "is_array _ = False"

definition captureRedactedKey :: "string \<Rightarrow> string list \<Rightarrow> bool" where
  "captureRedactedKey k patterns \<longleftrightarrow> list_ex (\<lambda>pat. js_includes (js_lower k) pat) patterns"

definition remotePrimitive :: "remote_object \<Rightarrow> jsval" where
  "remotePrimitive r =
     (if ro_type r = ''function'' then VFunction
      else if ro_subtype r = Some ''null'' then VNull
      else if ro_type r = ''undefined'' \<or> ro_type r = ''symbol'' \<or> ro_type r = ''bigint'' then VUndefined
      else if ro_unserializable r \<noteq> None then VUndefined
      else (case ro_value r of None \<Rightarrow> VUndefined | Some s \<Rightarrow> scalar_val s))"

definition createContainer :: "remote_object \<Rightarrow> jsobj" where
  "createContainer r = (if ro_subtype r = Some ''array'' then ArrayObj 0 [] else PlainObj [])"

subsection \<open>Selection\<close>

definition FRAME_SCOPE_TYPES :: "string list" where
  "FRAME_SCOPE_TYPES = [''local'', ''block'', ''catch'']"

definition frameScopeIds :: "call_frame \<Rightarrow> string list" where
  "frameScopeIds f =
     fold (\<lambda>s ids. case sc_objectId s of
         Some i \<Rightarrow> if sc_type s \<in> set FRAME_SCOPE_TYPES \<and> i \<notin> set ids then ids @ [i] else ids
       | None \<Rightarrow> ids) (cf_scopeChain f) []"

definition reported_length :: "property_descriptor list \<Rightarrow> nat option" where
  "reported_length ds =
     (case find (\<lambda>d. de_name d = ''length'') ds of
        None \<Rightarrow> None
      | Some d \<Rightarrow>
          (case de_value d of
             None \<Rightarrow> None
           | Some r \<Rightarrow>
               (case ro_value r of
                  Some (SNum (Fin q)) \<Rightarrow> if is_safe_integer_num (Fin q) \<and> 0 \<le> q then Some (nat \<lfloor>q\<rfloor>) else None
                | _ \<Rightarrow> None)))"

definition selectedDescriptors ::
  "property_descriptor list \<Rightarrow> jsobj \<Rightarrow> capture_options \<Rightarrow> jsobj \<times> property_descriptor list" where
  "selectedDescriptors ds target opts =
     (let enumerable = filter (\<lambda>d. de_enumerable d \<noteq> Some False) ds in
      if \<not> is_array target then (target, take (co_maxProps opts + 1) enumerable)
      else ((case reported_length ds of None \<Rightarrow> target | Some n \<Rightarrow> set_length n target),
        filter (\<lambda>d. digits_value (de_name d) < co_maxArray opts)
          (sort_key (\<lambda>d. digits_value (de_name d)) (filter (\<lambda>d. is_index_name (de_name d)) enumerable))))"

subsection \<open>The traversal\<close>

record capture_task =
  ct_depth :: nat
  ct_objectId :: string
  ct_target :: addr
  ct_preserve :: bool

record capture_state =
  ks_heap :: heap
  ks_next :: addr
  ks_tasks :: "capture_task list"
  ks_materialized :: "(string, addr) jsmap"
  ks_visited :: nat
  ks_error :: "string option"
  ks_fetched :: "string list"

definition truncated_addr :: addr where "truncated_addr = 0"

definition objectBudget :: "capture_options \<Rightarrow> nat" where
  "objectBudget opts = max 1 (co_maxObjects opts)"

definition store :: "addr \<Rightarrow> string \<Rightarrow> jsval \<Rightarrow> capture_state \<Rightarrow> capture_state" where
  "store a k v s = s\<lparr>ks_heap := (ks_heap s)(a := put_property k v (ks_heap s a))\<rparr>"

definition capture_object :: "capture_options \<Rightarrow> capture_task \<Rightarrow> string \<Rightarrow> remote_object \<Rightarrow> string \<Rightarrow> capture_state \<Rightarrow> capture_state" where
  "capture_object opts t key r oid s =
     (case jget (ks_materialized s) oid of
        Some a \<Rightarrow> store (ct_target t) key (VRef a) s
      | None \<Rightarrow>
          if ct_depth t < co_maxDepth opts \<and> objectBudget opts \<le> ks_visited s + length (ks_tasks s)
          then store (ct_target t) key (VRef truncated_addr) s
          else let a = ks_next s;
                   s1 = store (ct_target t) key (VRef a) (s\<lparr>ks_heap := (ks_heap s)(a := createContainer r), ks_next := a + 1\<rparr>) in
            if ct_depth t < co_maxDepth opts \<and> ks_visited s + length (ks_tasks s) < objectBudget opts
            then s1\<lparr>ks_materialized := jset oid a (ks_materialized s1),
                   ks_tasks := ks_tasks s1 @ [\<lparr>ct_depth = ct_depth t + 1, ct_objectId = oid, ct_target = a, ct_preserve = False\<rparr>]\<rparr>
            else s1)"

definition capture_descriptor :: "capture_options \<Rightarrow> capture_task \<Rightarrow> property_descriptor \<Rightarrow> capture_state \<Rightarrow> capture_state" where
  "capture_descriptor opts t d s =
     (let key = de_name d; target = ks_heap s (ct_target t) in
      if ct_preserve t \<and> own_property target key \<noteq> None then s
      else if captureRedactedKey key (co_redactKeys opts)
      then (if is_array target then s else store (ct_target t) key VUndefined s)
      else (case de_value d of
          None \<Rightarrow> store (ct_target t) key (VStr ''[getter]'') s
        | Some r \<Rightarrow>
            (case ro_objectId r of
               None \<Rightarrow> store (ct_target t) key (remotePrimitive r) s
             | Some oid \<Rightarrow> capture_object opts t key r oid s)))"

text \<open>One \<^verbatim>\<open>step\<close> with a task \<open>t\<close> that has been taken from the queue.\<close>

definition visit :: "inspector \<Rightarrow> capture_options \<Rightarrow> capture_task \<Rightarrow> capture_state \<Rightarrow> capture_state" where
  "visit answer opts t s =
     (let n = ks_visited s;
          s1 = s\<lparr>ks_visited := n + 1, ks_fetched := ks_fetched s @ [ct_objectId t]\<rparr>;
          failed = (\<lambda>e. s1\<lparr>ks_error := (case ks_error s1 of None \<Rightarrow> Some e | Some e0 \<Rightarrow> Some e0)\<rparr>) in
      case answer n (ct_objectId t) of
        Failure e \<Rightarrow> failed e
      | NoResult \<Rightarrow> failed ''inspector returned no properties''
      | Properties ds \<Rightarrow>
          let (target, selected) = selectedDescriptors ds (ks_heap s1 (ct_target t)) opts in
          fold (capture_descriptor opts t) selected (s1\<lparr>ks_heap := (ks_heap s1)(ct_target t := target)\<rparr>))"

text \<open>What is left to do: a task in the queue counts once, one that may still be pushed twice.\<close>

definition work :: "capture_options \<Rightarrow> capture_state \<Rightarrow> nat" where
  "work opts s = length (ks_tasks s) + 2 * (objectBudget opts - (ks_visited s + length (ks_tasks s)))"

lemma store_simps [simp]:
  "ks_tasks (store a k v s) = ks_tasks s" "ks_visited (store a k v s) = ks_visited s" "ks_next (store a k v s) = ks_next s"
  "ks_materialized (store a k v s) = ks_materialized s" "ks_fetched (store a k v s) = ks_fetched s"
  "ks_error (store a k v s) = ks_error s"
  "ks_heap (store a k v s) = (ks_heap s)(a := put_property k v (ks_heap s a))"
  by (simp_all add: store_def)

lemma capture_descriptor_work: "work opts (capture_descriptor opts t d s) \<le> work opts s"
  by (auto simp: capture_descriptor_def capture_object_def work_def Let_def split: option.splits)

lemma capture_descriptor_visited [simp]:
  "ks_visited (capture_descriptor opts t d s) = ks_visited s" "ks_fetched (capture_descriptor opts t d s) = ks_fetched s"
  "ks_error (capture_descriptor opts t d s) = ks_error s"
  by (auto simp: capture_descriptor_def capture_object_def Let_def split: option.splits)

lemma fold_work: "work opts (fold (capture_descriptor opts t) ds s) \<le> work opts s"
proof (induction ds arbitrary: s)
  case (Cons d ds)
  then show ?case using capture_descriptor_work order_trans by fastforce
qed simp

lemma visit_work: "ks_tasks s = t # ts \<Longrightarrow> work opts (visit answer opts t (s\<lparr>ks_tasks := ts\<rparr>)) < work opts s"
proof -
  assume ts: "ks_tasks s = t # ts"
  let ?s = "s\<lparr>ks_tasks := ts, ks_visited := ks_visited s + 1\<rparr>"
  have "work opts ?s < work opts s" by (simp add: work_def ts)
  moreover have "work opts (visit answer opts t (s\<lparr>ks_tasks := ts\<rparr>)) \<le> work opts ?s"
  proof (cases "answer (ks_visited s) (ct_objectId t)")
    case (Properties ds)
    have "work opts (fold (capture_descriptor opts t) xs (s'\<lparr>ks_fetched := fs, ks_heap := h\<rparr>)) \<le> work opts s'" for xs h fs s'
      using fold_work [of opts t xs "s'\<lparr>ks_fetched := fs, ks_heap := h\<rparr>"] by (simp add: work_def)
    from this [where s' = ?s] Properties show ?thesis by (simp add: visit_def Let_def case_prod_beta)
  qed (simp_all add: visit_def Let_def work_def)
  ultimately show ?thesis by simp
qed

function pump :: "inspector \<Rightarrow> capture_options \<Rightarrow> capture_state \<Rightarrow> capture_state" where
  "pump answer opts s =
     (case ks_tasks s of
        [] \<Rightarrow> s
      | t # ts \<Rightarrow> pump answer opts (visit answer opts t (s\<lparr>ks_tasks := ts\<rparr>)))"
  by pat_completeness auto
termination
  by (relation "measure (\<lambda>(_, opts, s). work opts s)") (auto simp: visit_work)

declare pump.simps [simp del]

subsection \<open>The whole capture\<close>

text \<open>The scopes of one frame, innermost first, until the budget is used up.\<close>

fun push_scopes :: "nat \<Rightarrow> addr \<Rightarrow> bool \<Rightarrow> string list \<Rightarrow> capture_state \<Rightarrow> capture_state \<times> bool" where
  "push_scopes budget a captured [] s = (s, captured)"
| "push_scopes budget a captured (i # ids) s =
     (if budget \<le> length (ks_tasks s) then (s, captured)
      else push_scopes budget a True ids (s\<lparr>ks_materialized := jset i a (ks_materialized s),
        ks_tasks := ks_tasks s @ [\<lparr>ct_depth = 0, ct_objectId = i, ct_target = a, ct_preserve = captured\<rparr>]\<rparr>))"

definition push_frame :: "nat \<Rightarrow> nat \<times> call_frame \<Rightarrow> capture_state \<times> jsval list \<Rightarrow> capture_state \<times> jsval list" where
  "push_frame budget = (\<lambda>(i, f) (s, locals).
     let ids = frameScopeIds f; (s1, captured) = push_scopes budget (i + 1) False ids s in
     if ids = [] then (s, locals)
     else (s1, if captured then locals else locals[i := VRef truncated_addr]))"

definition initial_state :: "nat \<Rightarrow> capture_state" where
  "initial_state n =
     \<lparr>ks_heap = (\<lambda>_. PlainObj [])(truncated_addr := TruncatedObj), ks_next = n + 1, ks_tasks = [], ks_materialized = [],
      ks_visited = 0, ks_error = None, ks_fetched = []\<rparr>"

definition stack_frame_of :: "capture_options \<Rightarrow> call_frame \<Rightarrow> stack_frame" where
  "stack_frame_of opts f =
     \<lparr>sf_fn = (if cf_functionName f = [] then ''(anonymous)'' else cf_functionName f),
      sf_file = co_scriptPath opts (cf_scriptId f), sf_line = cf_lineNumber f + 1, sf_variables = None\<rparr>"

definition start_capture :: "capture_options \<Rightarrow> call_frame list \<Rightarrow> capture_state \<times> jsval list" where
  "start_capture opts frames =
     fold (push_frame (objectBudget opts)) (enumerate 0 frames)
       (initial_state (length frames), map (\<lambda>i. VRef (i + 1)) [0..<length frames])"

text \<open>The error and the capture handed to the callback; without a first frame, or when it is truncated, the variables
  are a new empty object.\<close>

definition capturePaused :: "inspector \<Rightarrow> call_frame list \<Rightarrow> capture_options \<Rightarrow> capture_state \<times> raw_capture" where
  "capturePaused answer callFrames opts =
     (let frames = take (co_maxStackFrames opts) callFrames;
          (s0, locals) = start_capture opts frames;
          s = pump answer opts s0 in
      (s, \<lparr>rw_heap = ks_heap s,
           rw_variables = (case locals of
               [] \<Rightarrow> VRef (ks_next s)
             | v # _ \<Rightarrow> if v = VRef truncated_addr then VRef (ks_next s) else v),
           rw_frameLocals = locals, rw_stack = map (stack_frame_of opts) frames\<rparr>))"

subsection \<open>Concrete inputs\<close>


definition one_scope_frame :: call_frame where
  "one_scope_frame = \<lparr>cf_functionName = ''pay'', cf_scriptId = ''7'', cf_lineNumber = 3,
     cf_scopeChain = [\<lparr>sc_type = ''local'', sc_objectId = Some ''s''\<rparr>]\<rparr>"

definition small_options :: capture_options where
  "small_options = \<lparr>co_maxArray = 3, co_maxDepth = 9, co_maxObjects = 2, co_maxProps = 5, co_maxStackFrames = 8,
     co_redactKeys = [''token''], co_scriptPath = id\<rparr>"

definition secret_descriptor :: "string \<Rightarrow> property_descriptor" where
  "secret_descriptor v = \<lparr>de_name = ''token'', de_enumerable = Some True,
     de_value = Some \<lparr>ro_type = ''string'', ro_subtype = None, ro_value = Some (SStr v), ro_unserializable = None, ro_objectId = None\<rparr>\<rparr>"

text \<open>Every object fetched or waiting counts against the budget, and no task is deeper than the limit.\<close>

definition within_budget :: "capture_options \<Rightarrow> capture_state \<Rightarrow> bool" where
  "within_budget opts s \<longleftrightarrow> ks_visited s + length (ks_tasks s) \<le> objectBudget opts \<and>
     length (ks_fetched s) = ks_visited s \<and> (\<forall>t \<in> set (ks_tasks s). ct_depth t \<le> co_maxDepth opts)"


definition container :: "capture_state \<Rightarrow> addr \<Rightarrow> bool" where
  "container s a \<longleftrightarrow> truncated_addr < a \<and> a < ks_next s"


text \<open>Descriptors that differ at most in the value of a redacted name; the length of an array is not one.\<close>

definition alike :: "capture_options \<Rightarrow> property_descriptor \<Rightarrow> property_descriptor \<Rightarrow> bool" where
  "alike opts d e \<longleftrightarrow> d = e \<or>
     (captureRedactedKey (de_name d) (co_redactKeys opts) \<and> de_name d \<noteq> ''length'' \<and> de_name e = de_name d \<and>
      de_enumerable e = de_enumerable d)"

fun answers_alike :: "capture_options \<Rightarrow> inspector_answer \<Rightarrow> inspector_answer \<Rightarrow> bool" where
  "answers_alike opts (Properties ds) (Properties es) = list_all2 (alike opts) ds es"
| "answers_alike opts a b = (a = b)"

section \<open>Lemmas\<close>

subsection \<open>Objects\<close>

lemma jget_insert_index: "\<not> jhas ps k \<Longrightarrow> jget (insert_index k p ps) j = (if j = k then Some p else jget ps j)"
  by (induction k p ps rule: insert_index.induct) (auto simp: jhas_def split: if_splits)

lemma jget_define_own: "jget (define_own k p ps) j = (if j = k then Some p else jget ps j)"
  by (auto simp: define_own_def jget_jset jget_insert_index jhas_def map_add_def split: option.splits)

lemma own_put_property:
  "ob \<noteq> TruncatedObj \<Longrightarrow> k \<noteq> ''length'' \<or> \<not> is_array ob \<Longrightarrow> own_property (put_property k v ob) k = Some (PData v)"
  by (cases ob) (auto simp: jget_define_own)

text \<open>Putting a property of another name keeps what is there.\<close>

lemma own_put_other:
  "j \<noteq> k \<Longrightarrow> j \<noteq> ''length'' \<Longrightarrow> own_property (put_property k v ob) j = own_property ob j"
  by (cases ob) (auto simp: jget_define_own)

subsection \<open>The object budget\<close>

lemma within_budget_heap [simp]: "within_budget opts (s\<lparr>ks_heap := h\<rparr>) = within_budget opts s"
  by (simp add: within_budget_def)

lemma within_budget_store [simp]: "within_budget opts (store a k v s) = within_budget opts s"
  by (simp add: within_budget_def)

lemma within_budget_descriptor:
  "within_budget opts s \<Longrightarrow> within_budget opts (capture_descriptor opts t d s)"
  by (auto simp: capture_descriptor_def capture_object_def Let_def within_budget_def split: option.split)

lemma within_budget_fold: "within_budget opts s \<Longrightarrow> within_budget opts (fold (capture_descriptor opts t) ds s)"
  by (induction ds arbitrary: s) (auto intro: within_budget_descriptor)

lemma within_budget_visit:
  assumes "within_budget opts s" "ks_tasks s = t # ts"
  shows "within_budget opts (visit answer opts t (s\<lparr>ks_tasks := ts\<rparr>))"
  using assms by (auto simp: visit_def Let_def case_prod_beta within_budget_def
      intro!: within_budget_fold [unfolded within_budget_def] split: inspector_answer.split)

subsection \<open>Invariants of the traversal\<close>


text \<open>What every visit keeps holds at the end.\<close>

locale traversal_invariant =
  fixes answer :: inspector and opts :: capture_options and good :: "capture_state \<Rightarrow> bool"
  assumes visit_keeps: "good s \<Longrightarrow> ks_tasks s = t # ts \<Longrightarrow> good (visit answer opts t (s\<lparr>ks_tasks := ts\<rparr>))"
begin

lemma pump_keeps: "good s \<Longrightarrow> good (pump answer opts s)"
proof (induction "work opts s" arbitrary: s rule: less_induct)
  case less
  show ?case
  proof (cases "ks_tasks s")
    case Nil
    with less.prems show ?thesis by (simp add: pump.simps [of answer opts s])
  next
    case (Cons t ts)
    from less.hyps [OF visit_work [OF Cons] visit_keeps [OF less.prems Cons]] Cons
    show ?thesis by (simp add: pump.simps [of answer opts s])
  qed
qed

end

interpretation budget: traversal_invariant answer opts "within_budget opts" for answer opts
  by unfold_locales (rule within_budget_visit)

subsection \<open>References stay inside the capture\<close>

lemma put_truncated [simp]: "put_property k v ob = TruncatedObj \<longleftrightarrow> ob = TruncatedObj"
  by (cases ob) auto


lemma container_simps [simp]:
  "container (s\<lparr>ks_heap := h\<rparr>) = container s" "container (s\<lparr>ks_tasks := ts\<rparr>) = container s"
  "container (s\<lparr>ks_materialized := m\<rparr>) = container s" "container (s\<lparr>ks_visited := n\<rparr>) = container s"
  "container (s\<lparr>ks_error := e\<rparr>) = container s" "container (s\<lparr>ks_fetched := f\<rparr>) = container s"
  "container (store a k v s) = container s"
  by (simp_all add: container_def fun_eq_iff)




lemma scalar_not_ref [simp]: "scalar_val v \<noteq> VRef a" by (cases v) auto

lemma remotePrimitive_not_ref [simp]: "remotePrimitive r \<noteq> VRef a"
  by (simp add: remotePrimitive_def split: option.split)







subsection \<open>The start of a capture\<close>




subsection \<open>Redacted values\<close>

lemma alike_name: "alike opts d e \<Longrightarrow> de_name e = de_name d \<and> de_enumerable e = de_enumerable d"
  by (auto simp: alike_def)

lemma alike_descriptor: "alike opts d e \<Longrightarrow> capture_descriptor opts t d s = capture_descriptor opts t e s"
  by (auto simp: alike_def capture_descriptor_def Let_def)

lemma list_all2_filter:
  "list_all2 R xs ys \<Longrightarrow> (\<And>x y. R x y \<Longrightarrow> P x = P y) \<Longrightarrow> list_all2 R (filter P xs) (filter P ys)"
  by (induction rule: list_all2_induct) auto

lemma list_all2_insort:
  "list_all2 R xs ys \<Longrightarrow> R x y \<Longrightarrow> (\<And>x y. R x y \<Longrightarrow> f x = f y) \<Longrightarrow> list_all2 R (insort_key f x xs) (insort_key f y ys)"
proof (induction rule: list_all2_induct)
  case (Cons a as b bs)
  then have "f a = f b" "f x = f y" by blast+
  with Cons show ?case by auto
qed simp

lemma list_all2_sort:
  "list_all2 R xs ys \<Longrightarrow> (\<And>x y. R x y \<Longrightarrow> f x = f y) \<Longrightarrow> list_all2 R (sort_key f xs) (sort_key f ys)"
  by (induction rule: list_all2_induct) (auto intro: list_all2_insort)

lemma alike_length: "list_all2 (alike opts) ds es \<Longrightarrow> reported_length ds = reported_length es"
proof -
  assume "list_all2 (alike opts) ds es"
  then have "find (\<lambda>d. de_name d = ''length'') ds = find (\<lambda>d. de_name d = ''length'') es"
    by (induction rule: list_all2_induct) (auto simp: alike_def)
  then show ?thesis by (simp add: reported_length_def)
qed

lemma alike_selected:
  assumes "list_all2 (alike opts) ds es"
  shows "fst (selectedDescriptors ds ob opts) = fst (selectedDescriptors es ob opts) \<and>
    list_all2 (alike opts) (snd (selectedDescriptors ds ob opts)) (snd (selectedDescriptors es ob opts))"
proof -
  have n: "alike opts x y \<Longrightarrow> de_name x = de_name y" "alike opts x y \<Longrightarrow> de_enumerable x = de_enumerable y" for x y
    by (auto dest: alike_name)
  have "list_all2 (alike opts) (filter (\<lambda>d. de_enumerable d \<noteq> Some False) ds) (filter (\<lambda>d. de_enumerable d \<noteq> Some False) es)"
    by (rule list_all2_filter [OF assms]) (simp add: n)
  then show ?thesis using assms alike_length [OF assms]
    by (auto simp: selectedDescriptors_def Let_def n intro!: list_all2_takeI list_all2_filter list_all2_sort)
qed

lemma alike_fold:
  "list_all2 (alike opts) ds es \<Longrightarrow> fold (capture_descriptor opts t) ds s = fold (capture_descriptor opts t) es s"
  by (induction arbitrary: s rule: list_all2_induct) (auto simp: alike_descriptor)

lemma alike_visit:
  assumes "\<And>n i. answers_alike opts (answer n i) (answer' n i)"
  shows "visit answer opts t s = visit answer' opts t s"
proof (cases "answer (ks_visited s) (ct_objectId t)")
  case (Properties ds)
  with assms [of "ks_visited s" "ct_objectId t"] obtain es where es: "answer' (ks_visited s) (ct_objectId t) = Properties es"
      "list_all2 (alike opts) ds es"
    by (cases "answer' (ks_visited s) (ct_objectId t)") auto
  show ?thesis using alike_selected [OF es(2)] Properties es(1)
    by (auto simp: visit_def Let_def case_prod_beta intro!: alike_fold)
qed (use assms [of "ks_visited s" "ct_objectId t"] in \<open>auto simp: visit_def Let_def\<close>)

lemma alike_pump:
  assumes "\<And>n i. answers_alike opts (answer n i) (answer' n i)"
  shows "pump answer opts s = pump answer' opts s"
proof (induction "work opts s" arbitrary: s rule: less_induct)
  case less
  show ?case
  proof (cases "ks_tasks s")
    case (Cons t ts)
    from less [OF visit_work [OF Cons, of opts answer]] alike_visit [OF assms, where t = t and s = "s\<lparr>ks_tasks := ts\<rparr>"] Cons
    show ?thesis by (simp add: pump.simps [of _ opts s])
  qed (simp add: pump.simps [of _ opts s])
qed

subsection \<open>Shadowed names\<close>

text \<open>An enclosing scope adds names to a frame and changes none that is there.\<close>

lemma preserve_keeps:
  assumes "ct_preserve t" "\<not> is_array (ks_heap s (ct_target t))" "own_property (ks_heap s (ct_target t)) k = Some p"
    "ct_target t < ks_next s"
  shows "own_property (ks_heap (capture_descriptor opts t d s) (ct_target t)) k = Some p \<and>
    \<not> is_array (ks_heap (capture_descriptor opts t d s) (ct_target t)) \<and> ct_target t < ks_next (capture_descriptor opts t d s)"
proof (cases "de_name d = k")
  case False
  obtain ps where "ks_heap s (ct_target t) = PlainObj ps" using assms(2,3) by (cases "ks_heap s (ct_target t)") auto
  with False assms(3,4) show ?thesis
    by (auto simp: capture_descriptor_def capture_object_def Let_def jget_define_own split: option.split)
qed (use assms in \<open>auto simp: capture_descriptor_def\<close>)

lemma preserve_fold:
  "ct_preserve t \<Longrightarrow> \<not> is_array (ks_heap s (ct_target t)) \<Longrightarrow> own_property (ks_heap s (ct_target t)) k = Some p \<Longrightarrow>
     ct_target t < ks_next s \<Longrightarrow> own_property (ks_heap (fold (capture_descriptor opts t) ds s) (ct_target t)) k = Some p"
  using preserve_keeps by (induction ds arbitrary: s) auto

section \<open>Properties\<close>



text \<open>C29: The value of a property with a redacted name is neither read nor followed: two programs that differ only in such
  values are captured alike, request by request.\<close>

theorem capture_ignores_redacted:
  assumes "\<And>n i. answers_alike opts (answer n i) (answer' n i)"
  shows "capturePaused answer callFrames opts = capturePaused answer' callFrames opts"
  using alike_pump [OF assms] by (simp add: capturePaused_def case_prod_beta Let_def)

theorem capture_ignores_redacted_witness:
  "capturePaused (\<lambda>_ _. Properties [secret_descriptor ''a'']) [one_scope_frame] small_options =
   capturePaused (\<lambda>_ _. Properties [secret_descriptor ''b'']) [one_scope_frame] small_options"
  by (rule capture_ignores_redacted)
    (simp add: alike_def secret_descriptor_def small_options_def captureRedactedKey_def js_lower_def to_lower_char_def char_in_def)

text \<open>An enclosing scope never changes what an inner scope of the frame has bound.\<close>

theorem inner_binding_wins:
  assumes "ct_preserve t" "ks_heap s (ct_target t) = PlainObj ps" "jget ps k = Some p" "ct_target t < ks_next s"
  shows "own_property (ks_heap (visit answer opts t s) (ct_target t)) k = Some p"
proof -
  have "own_property (ks_heap (fold (capture_descriptor opts t) ds (s\<lparr>ks_visited := n, ks_fetched := fs\<rparr>)) (ct_target t)) k = Some p" for ds n fs
    using assms by (intro preserve_fold) auto
  moreover have "(ks_heap s)(ct_target t := PlainObj ps) = ks_heap s" using assms(2) by auto
  ultimately show ?thesis using assms
    by (auto simp: visit_def Let_def selectedDescriptors_def split: inspector_answer.split)
qed

end
