(* ===== verification/Broker_Safety.thy ===== *)
theory Broker_Safety
  imports Broker_Server Broker_Contracts
begin

text \<open>
  \<^verbatim>\<open>BrokerState.safetyOverview\<close> of \<^verbatim>\<open>packages/broker/src/index.ts\<close> and the route that serves it: for every
  service of the scope whether it is online, what its agent reports, how many of its probes are in which status, and the
  caveats an operator has to know.  The overview is put together from the same methods that other requests use, so it
  expires probes and refreshes capabilities on its way; the model threads the state through those calls.
\<close>

section \<open>Definitions\<close>

text \<open>Counts per status; \<open>None\<close> is \<^verbatim>\<open>unknown\<close>.\<close>

type_synonym status_summary = "status_name option \<Rightarrow> int"

record safety_agent =
  sa_state :: "agent_state option"  \<comment> \<open>\<open>None\<close> is \<^verbatim>\<open>unknown\<close>\<close>
  sa_detail :: "string option"
  sa_reasonCode :: "string option"
  sa_limits :: "safety_limits option"

record safety_entry =
  se_serviceId :: string
  se_backend :: "backend option"
  se_language :: "language option"
  se_sdk :: "sdk option"
  se_commitSha :: "string option"
  se_lastSeen :: int
  se_online :: bool
  se_agent :: safety_agent
  se_probesSummary :: status_summary
  se_caveats :: "string list"
  se_instanceCount :: "nat option"
  se_buildIds :: "string list option"
  se_evidence :: "native_ingest_health option"

definition bump :: "status_name option \<Rightarrow> int \<Rightarrow> status_summary \<Rightarrow> status_summary" where
  "bump k n s = s(k := s k + n)"

text \<open>One listed probe: a probe without a status counts as armed until it has expired.\<close>

definition count_probe :: "broker \<Rightarrow> probe_definition \<times> probe_status option \<Rightarrow> status_summary \<Rightarrow> status_summary" where
  "count_probe st ps s =
     (let s1 = bump (map_option ps_status (snd ps)) 1 s;
          expired = (case jget (probes st) (pd_id (fst ps)) of None \<Rightarrow> False | Some p \<Rightarrow> sp_expired p) in
      if snd ps = None \<and> \<not> expired then bump None (-1) (bump (Some Armed) 1 s1) else s1)"

definition runtime_caveats :: "service_record \<Rightarrow> string list" where
  "runtime_caveats v =
     (let general = ''Safety state is agent-reported and scoped to LiveProbe runtime safeguards, not total process load.'' in
      if sr_backend v = Some NativeEbpf then (case sr_nativeLimitations v of None \<Rightarrow> [] | Some l \<Rightarrow> l)
      else case sr_sdk v of
        Some Jvm \<Rightarrow> [general, ''JVM red usually means rate-limited or suspended JDI breakpoints, not a whole-process GC pause signal.'']
      | Some Python \<Rightarrow> [general, ''Python red means monitoring callback budget protection tripped for LiveProbe probes.'']
      | Some Node \<Rightarrow> [general, ''Node red means event-loop lag safety protection suspended LiveProbe probes.'']
      | None \<Rightarrow> [general])"

definition evidence_of :: "native_ingest_health option \<Rightarrow> native_ingest_health option" where
  "evidence_of h =
     (case h of None \<Rightarrow> None
      | Some e \<Rightarrow> if nh_rejectedBatches e = 0 \<and> nh_staleEventsDropped e = 0 then None else Some e)"

definition evidence_caveats :: "native_ingest_health option \<Rightarrow> string list" where
  "evidence_caveats ev =
     (case ev of None \<Rightarrow> []
      | Some e \<Rightarrow>
          if 0 < nh_rejectedBatches e
          then [''Evidence is being discarded: '' @ show_nat (nh_rejectedBatches e) @ '' ingest batch(es) rejected'' @
                (case nh_lastRejectionCode e of None \<Rightarrow> '''' | Some c \<Rightarrow> '' (last: '' @ c @ '')'') @
                ''. Probes may report armed while returning no data.'']
          else [])"

definition safety_agent_of :: "agent_status option \<Rightarrow> safety_agent" where
  "safety_agent_of a =
     (case a of
        None \<Rightarrow> \<lparr>sa_state = None, sa_detail = None, sa_reasonCode = None, sa_limits = None\<rparr>
      | Some s \<Rightarrow> \<lparr>sa_state = Some (as_state s), sa_detail = as_detail s, sa_reasonCode = as_reasonCode s, sa_limits = as_limits s\<rparr>)"

definition safety_entry_of ::
  "int \<Rightarrow> int \<Rightarrow> resource_scope \<Rightarrow> broker \<Rightarrow> service_record \<Rightarrow> (probe_definition \<times> probe_status option) list \<Rightarrow> safety_entry" where
  "safety_entry_of staleAfterMs now scope st v ps =
     (let evidence = evidence_of (jget (nativeIngestHealth st) (serviceKey scope (sr_serviceId v))) in
      \<lparr>se_serviceId = sr_serviceId v, se_backend = sr_backend v, se_language = sr_language v, se_sdk = sr_sdk v,
       se_commitSha = sr_commitSha v, se_lastSeen = sr_lastSeen v, se_online = (now - sr_lastSeen v \<le> staleAfterMs),
       se_agent = safety_agent_of (sr_agentStatus v), se_probesSummary = fold (count_probe st) ps (\<lambda>_. 0),
       se_caveats = runtime_caveats v @ evidence_caveats evidence,
       se_instanceCount = sr_instanceCount v, se_buildIds = sr_buildIds v, se_evidence = evidence\<rparr>)"

fun safety_entries :: "int \<Rightarrow> int \<Rightarrow> resource_scope \<Rightarrow> service_record list \<Rightarrow> broker \<Rightarrow> broker \<times> safety_entry list" where
  "safety_entries staleAfterMs now scope [] st = (st, [])"
| "safety_entries staleAfterMs now scope (v # vs) st =
     (let (st1, ps) = listProbes now (Some (sr_serviceId v)) scope st;
          e = safety_entry_of staleAfterMs now scope st1 v ps;
          (st2, es) = safety_entries staleAfterMs now scope vs st1 in
      (st2, e # es))"

definition safetyOverview :: "env \<Rightarrow> int \<Rightarrow> int \<Rightarrow> resource_scope \<Rightarrow> broker \<Rightarrow> broker \<times> safety_entry list" where
  "safetyOverview env now staleAfterMs scope st =
     (let (st1, vs) = listServices env now scope (sweep now st) in safety_entries staleAfterMs now scope vs st1)"

definition getSafety :: "web_env \<Rightarrow> caller \<Rightarrow> web \<Rightarrow> (nat \<times> safety_entry list) web_res" where
  "getSafety env c =
     guarded (requireHumanRead (fst c)) (\<lambda>_ w.
       case on_state (total_op (safetyOverview (we_env env) (we_now env) 45000 (snd c))) w of
         (w1, Inl e) \<Rightarrow> (w1, Err e)
       | (w1, Inr es) \<Rightarrow> (w1, Ok (200, es)))"

text \<open>The status under which a probe is shown, as a specification of the counting.\<close>

definition shown_status :: "broker \<Rightarrow> string \<Rightarrow> status_name option" where
  "shown_status st pid =
     (case jget (statuses st) pid of
        Some s \<Rightarrow> Some (ps_status s)
      | None \<Rightarrow> (case jget (probes st) pid of
                   Some p \<Rightarrow> if sp_expired p then None else Some Armed
                 | None \<Rightarrow> Some Armed))"

definition scope_probes :: "broker \<Rightarrow> resource_scope \<Rightarrow> string \<Rightarrow> string list" where
  "scope_probes st scope sid =
     map (\<lambda>s. pd_id (sp_probe s)) (filter (\<lambda>s. sameResourceScope (sp_scope s) scope \<and> pd_serviceId (sp_probe s) = sid) (jvalues (probes st)))"

text \<open>A broker whose one service has reported once.\<close>

definition heartbeat_broker :: broker where
  "heartbeat_broker = fst (ingest 2000 sample_ingest DEFAULT_RESOURCE_SCOPE sample_broker)"

section \<open>Lemmas\<close>

lemma count_probe_shown:
  "count_probe st (p, jget (statuses st) (pd_id p)) = bump (shown_status st (pd_id p)) 1"
proof (rule ext)
  fix s
  show "count_probe st (p, jget (statuses st) (pd_id p)) s = bump (shown_status st (pd_id p)) 1 s"
    by (cases "jget (statuses st) (pd_id p)"; cases "jget (probes st) (pd_id p)")
      (simp_all add: count_probe_def shown_status_def bump_def fun_eq_iff Let_def)
qed

lemma fold_bump:
  "(\<And>x. x \<in> set xs \<Longrightarrow> f x = bump (g x) 1) \<Longrightarrow> fold f xs s k = s k + int (length (filter (\<lambda>x. g x = k) xs))"
  by (induction xs arbitrary: s) (auto simp: bump_def)

lemma listProbes_swept:
  assumes "probes_ok st"
  shows "listProbes now sid scope (sweep now st) = (sweep now st, snd (listProbes now sid scope (sweep now st)))"
  using sweep_idem [OF assms order_refl, of now] by (simp add: listProbes_def Let_def)

text \<open>Among the methods the overview calls only the first sweep and the refresh of capabilities change anything.\<close>

lemma safety_entries_idle:
  assumes "\<And>p. \<not> due_at now st p"
  shows "safety_entries stale now scope vs st =
    (st, map (\<lambda>v. safety_entry_of stale now scope st v (snd (listProbes now (Some (sr_serviceId v)) scope st))) vs)"
proof -
  have "listProbes now sid scope st = (st, snd (listProbes now sid scope st))" for sid
    using expire_idle [OF assms] by (simp add: listProbes_def Let_def)
  note l = this
  show ?thesis
  proof (induction vs)
    case (Cons v vs)
    show ?case by (subst safety_entries.simps, subst l) (simp add: Let_def Cons.IH)
  qed simp
qed

lemma listServices_idle:
  "probes_ok st \<Longrightarrow> \<not> due_at now (fst (listServices env now scope (sweep now st))) p"
  using due_at_sweep [of st now now p] by (simp add: due_at_def)

lemma safetyOverview_eq:
  assumes "probes_ok st"
  shows "safetyOverview env now stale scope st =
    (let (st1, vs) = listServices env now scope (sweep now st) in
     (st1, map (\<lambda>v. safety_entry_of stale now scope st1 v (snd (listProbes now (Some (sr_serviceId v)) scope st1))) vs))"
proof -
  obtain st1 vs where l: "listServices env now scope (sweep now st) = (st1, vs)" by fastforce
  have "\<not> due_at now st1 p" for p using listServices_idle [OF assms, of now env scope p] by (simp add: l)
  from safety_entries_idle [OF this] show ?thesis by (simp add: safetyOverview_def l Let_def)
qed

lemma summary_counts:
  assumes "\<And>p. \<not> due_at now st p"
  shows "fold (count_probe st) (snd (listProbes now (Some sid) scope st)) (\<lambda>_. 0) k =
    int (length (filter (\<lambda>pid. shown_status st pid = k) (scope_probes st scope sid)))"
proof -
  have i: "expireDueProbes now st = (st, 0)" by (rule expire_idle) (rule assms)
  let ?ps = "snd (listProbes now (Some sid) scope st)"
  have ids: "map (\<lambda>x. pd_id (fst x)) ?ps = scope_probes st scope sid"
    by (simp add: listProbes_def i scope_probes_def Let_def comp_def)
  have "fold (count_probe st) ?ps (\<lambda>_. 0) k = 0 + int (length (filter (\<lambda>x. shown_status st (pd_id (fst x)) = k) ?ps))"
    by (rule fold_bump) (auto simp: listProbes_def i Let_def count_probe_shown)
  also have "filter (\<lambda>pid. shown_status st pid = k) (scope_probes st scope sid) =
      map (\<lambda>x. pd_id (fst x)) (filter (\<lambda>x. shown_status st (pd_id (fst x)) = k) ?ps)"
    by (simp add: ids [symmetric] filter_map comp_def)
  ultimately show ?thesis by simp
qed

lemma count_partition:
  "(\<Sum>k \<in> {None, Some Armed, Some Error, Some HitLimitReached, Some Suspended, Some Expired}. int (length (filter (\<lambda>x. f x = k) xs))) =
     int (length xs)"
  for f :: "'a \<Rightarrow> status_name option"
proof (induction xs)
  case (Cons x xs)
  have "f x \<in> {None, Some Armed, Some Error, Some HitLimitReached, Some Suspended, Some Expired}"
    by (cases "f x") (auto intro: status_name.exhaust)
  then show ?case using Cons.IH by (elim insertE) auto
qed simp

section \<open>Properties\<close>

text \<open>C33: The safety overview is exact: it has one entry for each service the broker lists, in the same order; the counts
  of an entry are those of the probes of the service by the status under which they are shown after the expiry sweep, so
  they are never negative and add up to the number of its probes, although the code counts a probe without a status twice
  and takes one count back; and nothing but that sweep and the refresh of capabilities happens to the broker.\<close>

theorem safety_overview_exact:
  assumes "reachable env st" "safetyOverview env now stale scope st = (st', es)"
  shows "(broker_step env)\<^sup>*\<^sup>* st st' \<and>
    map se_serviceId es = map sr_serviceId (snd (listServices env now scope (sweep now st))) \<and>
    (\<forall>e \<in> set es.
       (\<forall>k. se_probesSummary e k = int (length (filter (\<lambda>pid. shown_status st' pid = k) (scope_probes st' scope (se_serviceId e))))) \<and>
       (\<Sum>k \<in> {None, Some Armed, Some Error, Some HitLimitReached, Some Suspended, Some Expired}. se_probesSummary e k) =
         int (length (scope_probes st' scope (se_serviceId e))))"
proof -
  have ok: "probes_ok st" using inv_reachable [OF assms(1)] broker_invD(1) by blast
  obtain st1 vs where l: "listServices env now scope (sweep now st) = (st1, vs)" by fastforce
  have d: "\<not> due_at now st1 p" for p using listServices_idle [OF ok, of now env scope p] by (simp add: l)
  have r: "st' = st1" "es = map (\<lambda>v. safety_entry_of stale now scope st1 v (snd (listProbes now (Some (sr_serviceId v)) scope st1))) vs"
    using assms(2) by (auto simp: safetyOverview_eq [OF ok] l)
  have "broker_step env st (sweep now st)" by (rule step_sweep)
  moreover have "broker_step env (sweep now st) st1" using step_list_services [of env "sweep now st" now scope] by (simp add: l)
  ultimately have "(broker_step env)\<^sup>*\<^sup>* st st'" by (auto simp: r)
  moreover have "se_probesSummary e k = int (length (filter (\<lambda>pid. shown_status st' pid = k) (scope_probes st' scope (se_serviceId e))))"
    if "e \<in> set es" for e k
    using that by (auto simp: r safety_entry_of_def Let_def summary_counts [OF d])
  ultimately show ?thesis by (simp add: l r(2) count_partition) (simp add: comp_def safety_entry_of_def Let_def)
qed

theorem safety_overview_exact_witness:
  "se_probesSummary (hd (snd (safetyOverview sample_env 2500 45000 DEFAULT_RESOURCE_SCOPE heartbeat_broker))) (Some Armed) =
     int (length (filter (\<lambda>pid. shown_status (fst (safetyOverview sample_env 2500 45000 DEFAULT_RESOURCE_SCOPE heartbeat_broker)) pid = Some Armed)
       (scope_probes (fst (safetyOverview sample_env 2500 45000 DEFAULT_RESOURCE_SCOPE heartbeat_broker)) DEFAULT_RESOURCE_SCOPE ''pay''))) \<and>
   map (\<lambda>e. (se_serviceId e, se_probesSummary e (Some Armed))) (snd (safetyOverview sample_env 2500 45000 DEFAULT_RESOURCE_SCOPE heartbeat_broker)) = [(''pay'', 1)]"
proof -
  have r: "reachable sample_env heartbeat_broker"
    unfolding heartbeat_broker_def by (rule reachable_step [OF sample_reachable step_ingest])
  have m: "map (\<lambda>e. (se_serviceId e, se_probesSummary e (Some Armed))) (snd (safetyOverview sample_env 2500 45000 DEFAULT_RESOURCE_SCOPE heartbeat_broker)) = [(''pay'', 1)]"
    unfolding heartbeat_broker_def by code_simp
  obtain st' es where o: "safetyOverview sample_env 2500 45000 DEFAULT_RESOURCE_SCOPE heartbeat_broker = (st', es)" by fastforce
  with m obtain e where e: "es = [e]" "se_serviceId e = ''pay''" by auto
  note safety_overview_exact [OF r o]
  then have "se_probesSummary e (Some Armed) =
      int (length (filter (\<lambda>pid. shown_status st' pid = Some Armed) (scope_probes st' DEFAULT_RESOURCE_SCOPE (se_serviceId e))))"
    by (simp only: e(1) list.set insert_iff) blast
  with m show ?thesis by (simp only: o e fst_conv snd_conv list.sel)
qed

text \<open>An agent whose evidence is being refused is never silent in the overview: the entry carries the counts and a caveat,
  and without refusals it carries none.\<close>

theorem refused_evidence_shown:
  assumes "reachable env st" "e \<in> set (snd (safetyOverview env now stale scope st))"
    and "jget (nativeIngestHealth st) (serviceKey scope (se_serviceId e)) = Some h"
  shows "0 < nh_rejectedBatches h \<longleftrightarrow> se_evidence e = Some h \<and> evidence_caveats (Some h) \<noteq> [] \<and>
    (\<exists>general. se_caveats e = general @ evidence_caveats (Some h))"
proof -
  have ok: "probes_ok st" using inv_reachable [OF assms(1)] broker_invD(1) by blast
  obtain st1 vs where l: "listServices env now scope (sweep now st) = (st1, vs)" by fastforce
  have "nativeIngestHealth st1 = nativeIngestHealth (sweep now st)" using listServices_frame(11) [of env now scope "sweep now st"] by (simp add: l)
  then have h: "nativeIngestHealth st1 = nativeIngestHealth st" by simp
  show ?thesis using assms(2,3)
    by (auto simp: safetyOverview_eq [OF ok] l safety_entry_of_def Let_def h evidence_of_def evidence_caveats_def)
qed

end
