(* ===== verification/Mcp_Tools.thy ===== *)
theory Mcp_Tools
  imports Broker_Client Catalog_Routes Broker_Safety
begin

text \<open>
  The tool server of \<^verbatim>\<open>packages/mcp-server/src\<close> (\<^verbatim>\<open>index.ts\<close>, \<^verbatim>\<open>cli.ts\<close>), through which an assistant
  works with the broker: the schemas of the tools, the request each tool sends, how the client reads the broker's
  answer, and what a tool returns.  A tool is checked again by the broker, whose schemas are those of
  \<open>Protocol\<close>, \<open>Wire_Schemas\<close> and \<open>Catalog_Routes\<close>; the locale \<open>probe_service\<close> says what the tools that set a
  probe need of the broker, and its interpretation shows that the server of \<open>Broker_Server\<close> gives it.  Tool arguments
  are typed values; the transport of the tool protocol, \<^verbatim>\<open>fetch\<close> and the parsing of URLs are arguments.
\<close>

section \<open>Definitions\<close>

subsection \<open>The schemas of the tools\<close>

abbreviation default_to :: "'a \<Rightarrow> 'a option \<Rightarrow> 'a" where
  "default_to d x \<equiv> (case x of None \<Rightarrow> d | Some v \<Rightarrow> v)"

type_synonym request_scope = "string \<times> string"  \<comment> \<open>project and environment\<close>

definition scopeInput_parse :: "string option \<Rightarrow> string option \<Rightarrow> request_scope option" where
  "scopeInput_parse project environment =
     (case (opt_parse catalogId_parse project, opt_parse catalogId_parse environment) of
        (Some p, Some e) \<Rightarrow> Some (default_to ''default'' p, default_to ''default'' e)
      | _ \<Rightarrow> None)"

text \<open>Unlike the broker, the tool takes integers that a double cannot hold exactly.\<close>

fun scalarSchema_ok :: "scalar \<Rightarrow> bool" where
  "scalarSchema_ok (SNum n) = is_finite_num n"
| "scalarSchema_ok _ = True"

definition mcpCondition_parse :: "condition \<Rightarrow> condition option" where
  "mcpCondition_parse c =
     (case dotPath_parse (c_path c) of
        None \<Rightarrow> None
      | Some p \<Rightarrow> if scalarSchema_ok (c_value c) then Some (c\<lparr>c_path := p\<rparr>) else None)"

record probe_args =
  pa_project_id :: "string option"
  pa_environment_id :: "string option"
  pa_service_id :: string
  pa_commit_hash :: string
  pa_file :: string
  pa_line :: int
  pa_condition :: "condition option"
  pa_condition_expression :: "string option"
  pa_hit_limit :: "int option"
  pa_ttl_seconds :: "int option"
  pa_created_by :: "string option"
  pa_body :: raw_body

record probe_input =
  pi_scope :: request_scope
  pi_service_id :: string
  pi_commit_hash :: string
  pi_file :: string
  pi_line :: int
  pi_condition :: "condition option"
  pi_condition_expression :: "string option"
  pi_hit_limit :: "int option"
  pi_ttl_seconds :: int
  pi_created_by :: string
  pi_body :: create_body

text \<open>The fields of the four tools that set a probe.\<close>

fun toolBody_parse :: "raw_body \<Rightarrow> create_body option" where
  "toolBody_parse (RawSnapshot watch_paths watch_expressions include_stack_locals stack_frame_limit) =
     (case (opt_parse (bounded_list 100 dotPath_parse) watch_paths,
            opt_parse (bounded_list 100 expressionSource_parse) watch_expressions) of
        (Some wp, Some we) \<Rightarrow>
          (let n = default_to 3 stack_frame_limit in
           if 1 \<le> n \<and> n \<le> 8 then Some (CreateSnapshot wp we (default_to False include_stack_locals) n) else None)
      | _ \<Rightarrow> None)"
| "toolBody_parse (RawLog template log_level) =
     (if len_between 1 16384 template then Some (CreateLog template (default_to LInfo log_level)) else None)"
| "toolBody_parse RawCounter = Some CreateCounter"
| "toolBody_parse (RawMetric metric_path metric_expression) =
     (case (opt_parse dotPath_parse metric_path, opt_parse expressionSource_parse metric_expression) of
        (Some mp, Some me) \<Rightarrow> if (mp = None) = (me = None) then None else Some (CreateMetric mp me)
      | _ \<Rightarrow> None)"

definition probeInput_parse :: "probe_args \<Rightarrow> probe_input option" where
  "probeInput_parse a =
     (case (scopeInput_parse (pa_project_id a) (pa_environment_id a), serviceId_parse (pa_service_id a),
            sourceCommit_parse (pa_commit_hash a), sourceFile_parse (pa_file a), opt_parse mcpCondition_parse (pa_condition a),
            opt_parse expressionSource_parse (pa_condition_expression a), opt_parse (trimmed 1 500) (pa_created_by a),
            toolBody_parse (pa_body a)) of
        (Some scope, Some sid, Some commit, Some file, Some cond, Some ce, Some by, Some body) \<Rightarrow>
          (let ttl = default_to 1800 (pa_ttl_seconds a) in
           if positive_int (pa_line a) \<and> positive_int ttl \<and> pred_option positive_int (pa_hit_limit a)
           then Some \<lparr>pi_scope = scope, pi_service_id = sid, pi_commit_hash = commit, pi_file = file, pi_line = pa_line a,
             pi_condition = cond, pi_condition_expression = ce, pi_hit_limit = pa_hit_limit a, pi_ttl_seconds = ttl,
             pi_created_by = default_to ''mcp:liveprobe'' by, pi_body = body\<rparr>
           else None)
      | _ \<Rightarrow> None)"

text \<open>The body that the handlers send for it.\<close>

fun bodyFields :: "create_body \<Rightarrow> raw_body" where
  "bodyFields (CreateSnapshot wp we locals n) = RawSnapshot wp we (Some locals) (Some n)"
| "bodyFields (CreateLog t lv) = RawLog t (Some lv)"
| "bodyFields CreateCounter = RawCounter"
| "bodyFields (CreateMetric mp me) = RawMetric mp me"

definition brokerInput :: "probe_input \<Rightarrow> raw_create" where
  "brokerInput i =
     \<lparr>rc_serviceId = pi_service_id i, rc_sourceCommit = Some (pi_commit_hash i), rc_file = pi_file i, rc_line = pi_line i,
      rc_condition = pi_condition i, rc_conditionExpression = pi_condition_expression i,
      rc_ttlSeconds = Some (pi_ttl_seconds i), rc_createdBy = pi_created_by i, rc_hitLimit = pi_hit_limit i,
      rc_body = bodyFields (pi_body i)\<rparr>"

subsection \<open>Requests\<close>

text \<open>The other tools, with their arguments.\<close>

datatype control_tool =
    Get_list_services "string option" "string option"
  | Ping_broker "string option" "string option"
  | Get_safety_overview "string option" "string option"
  | List_audit_events "string option" "string option" "int option" "int option"
  | List_probes "string option" "string option" "string option"
  | Get_probe_data "string option" "string option" string "jsnum option"
  | Remove_probe "string option" "string option" string

datatype catalog_tool =
    List_projects "bool option"
  | Create_project string string
  | Archive_project string
  | List_environments string "bool option"
  | Create_environment string string string
  | Archive_environment string string
  | List_registered_services string "bool option"
  | Register_service string string string
  | Archive_service string string

datatype credential_tool =
    Create_service_credential string string string string
  | List_service_credentials string string "string option"
  | Revoke_service_credential string string string

datatype tool = ControlTool control_tool | CatalogTool catalog_tool | CredentialTool credential_tool

text \<open>
  A request by the route it reaches.  \<^verbatim>\<open>encodeURIComponent\<close> leaves a service id that is a dot segment as it is, and
  parsing the URL takes the segment out of the path, so that such a request reaches no route.
\<close>

datatype target = ProbeRoute route | SafetyRoute | CatalogRoute catalog_route | NoRoute

type_synonym client_call = "request_scope option \<times> target"

definition service_path :: "string \<Rightarrow> target \<Rightarrow> target" where
  "service_path sid t = (if sid = ''.'' \<or> sid = ''..'' then NoRoute else t)"

text \<open>\<open>None\<close>: the arguments are refused.  \<open>l\<close> identifies the wait the broker may install.\<close>

definition scoped_call :: "string option \<Rightarrow> string option \<Rightarrow> target option \<Rightarrow> client_call option" where
  "scoped_call p e t =
     (case (scopeInput_parse p e, t) of (Some s, Some t') \<Rightarrow> Some (Some s, t') | _ \<Rightarrow> None)"

fun control_call :: "nat \<Rightarrow> control_tool \<Rightarrow> client_call option" where
  "control_call l (Get_list_services p e) = scoped_call p e (Some (ProbeRoute GetServices))"
| "control_call l (Ping_broker p e) = scoped_call p e (Some (ProbeRoute GetPing))"
| "control_call l (Get_safety_overview p e) = scoped_call p e (Some SafetyRoute)"
| "control_call l (List_audit_events p e limit before) =
     (let n = default_to 50 limit in
      scoped_call p e (if 1 \<le> n \<and> n \<le> 100 then Some (CatalogRoute (ListAuditEvents (nat n) before)) else None))"
| "control_call l (List_probes p e sid) = scoped_call p e (map_option (\<lambda>s. ProbeRoute (GetProbes s)) (opt_parse serviceId_parse sid))"
| "control_call l (Get_probe_data p e pid wait_seconds) =
     (let q = default_to (Fin 0) wait_seconds in
      scoped_call p e (if probeId_ok pid \<and> is_finite_num q \<and> js_le (Fin 0) q \<and> js_le q (Fin 30)
                       then Some (ProbeRoute (GetProbeData pid q l)) else None))"
| "control_call l (Remove_probe p e pid) = scoped_call p e (if probeId_ok pid then Some (ProbeRoute (DeleteProbe pid)) else None)"

fun catalog_call :: "catalog_tool \<Rightarrow> client_call option" where
  "catalog_call (List_projects archived) = Some (None, CatalogRoute (ListProjects (default_to False archived)))"
| "catalog_call (Create_project p name) =
     (case (catalogId_parse p, displayName_parse name) of
        (Some p', Some n) \<Rightarrow> Some (None, CatalogRoute (CreateProject p' n)) | _ \<Rightarrow> None)"
| "catalog_call (Archive_project p) = map_option (\<lambda>p'. (None, CatalogRoute (ArchiveProject p'))) (catalogId_parse p)"
| "catalog_call (List_environments p archived) =
     map_option (\<lambda>p'. (None, CatalogRoute (ListEnvironments p' (default_to False archived)))) (catalogId_parse p)"
| "catalog_call (Create_environment p e name) =
     (case (catalogId_parse p, catalogId_parse e, displayName_parse name) of
        (Some p', Some e', Some n) \<Rightarrow> Some (None, CatalogRoute (CreateEnvironment p' e' n)) | _ \<Rightarrow> None)"
| "catalog_call (Archive_environment p e) =
     (case (catalogId_parse p, catalogId_parse e) of
        (Some p', Some e') \<Rightarrow> Some (None, CatalogRoute (ArchiveEnvironment p' e')) | _ \<Rightarrow> None)"
| "catalog_call (List_registered_services p archived) =
     map_option (\<lambda>p'. (None, CatalogRoute (ListServices p' (default_to False archived)))) (catalogId_parse p)"
| "catalog_call (Register_service p sid name) =
     (case (catalogId_parse p, serviceId_parse sid, displayName_parse name) of
        (Some p', Some s, Some n) \<Rightarrow> Some (None, CatalogRoute (CreateService p' s n)) | _ \<Rightarrow> None)"
| "catalog_call (Archive_service p sid) =
     (case (catalogId_parse p, serviceId_parse sid) of
        (Some p', Some s) \<Rightarrow> Some (None, service_path s (CatalogRoute (ArchiveService p' s))) | _ \<Rightarrow> None)"

fun credential_call :: "credential_tool \<Rightarrow> client_call option" where
  "credential_call (Create_service_credential p e sid label) =
     (case (catalogId_parse p, catalogId_parse e, serviceId_parse sid, trimmed 1 200 label) of
        (Some p', Some e', Some s, Some t) \<Rightarrow>
          Some (Some (p', e'), CatalogRoute (CreateServiceCredential (Some p') (Some e') s t)) | _ \<Rightarrow> None)"
| "credential_call (List_service_credentials p e sid) =
     (case (catalogId_parse p, catalogId_parse e, opt_parse serviceId_parse sid) of
        (Some p', Some e', Some s) \<Rightarrow> Some (Some (p', e'), CatalogRoute (ListServiceCredentials (Some p') (Some e') s)) | _ \<Rightarrow> None)"
| "credential_call (Revoke_service_credential p e i) =
     (case (catalogId_parse p, catalogId_parse e) of
        (Some p', Some e') \<Rightarrow>
          if credentialId_ok ''svc_'' i
          then Some (Some (p', e'), CatalogRoute (RevokeServiceCredential i (Some p') (Some e') None)) else None
      | _ \<Rightarrow> None)"

fun tool_call :: "nat \<Rightarrow> tool \<Rightarrow> client_call option" where
  "tool_call l (ControlTool t) = control_call l t"
| "tool_call l (CatalogTool t) = catalog_call t"
| "tool_call l (CredentialTool t) = credential_call t"

subsection \<open>The client\<close>

text \<open>A parsed URL: protocol, user name, password, search, hash and the whole of it.\<close>

record url =
  u_protocol :: string
  u_username :: string
  u_password :: string
  u_search :: string
  u_hash :: string
  u_href :: string

definition strip_slashes :: "string \<Rightarrow> string" where
  "strip_slashes s = rev (dropWhile (\<lambda>c. c = CHR ''/'') (rev s))"

text \<open>The constructor of \<^verbatim>\<open>BrokerClient\<close>: base URL and request timeout.\<close>

definition new_client :: "(string \<Rightarrow> url option) \<Rightarrow> string \<Rightarrow> int option \<Rightarrow> (string, string \<times> int) res" where
  "new_client parse_url brokerUrl requestTimeoutMs =
     (case parse_url brokerUrl of
        None \<Rightarrow> Err ''Invalid URL''
      | Some u \<Rightarrow>
          if u_protocol u \<noteq> ''http:'' \<and> u_protocol u \<noteq> ''https:'' then Err ''BROKER_URL must use http or https''
          else if u_username u \<noteq> [] \<or> u_password u \<noteq> [] \<or> u_search u \<noteq> [] \<or> u_hash u \<noteq> []
          then Err ''BROKER_URL must not include credentials, query parameters, or a fragment''
          else let t = default_to 5000 requestTimeoutMs in
               if \<not> safe_int t \<or> t \<le> 0 then Err ''requestTimeoutMs must be a positive safe integer''
               else Ok (strip_slashes (u_href u), t))"

text \<open>
  What \<^verbatim>\<open>fetch\<close> comes to: it is aborted, it fails, or there is a response.  The body of a response is a value of the
  type that is asked for, an error object, or neither.
\<close>

datatype 'a response_body = Body 'a | ErrorBody string string | OtherBody
datatype 'a fetched = TimedOut | Unreachable | Response nat "'a response_body"

datatype tool_failure =
    BrokerClientError string nat "string option"  \<comment> \<open>message, status and code\<close>
  | ZodError "string option"  \<comment> \<open>the message of the first issue\<close>
  | TypeError
  | AbortError
  | OtherError

definition fetchWithTimeout :: "int \<Rightarrow> int \<Rightarrow> 'a fetched \<Rightarrow> 'a fetched" where
  "fetchWithTimeout timeoutMs elapsed r = (if elapsed < timeoutMs then r else TimedOut)"

definition response_ok :: "nat \<Rightarrow> bool" where
  "response_ok n \<longleftrightarrow> 200 \<le> n \<and> n \<le> 299"

definition toClientError :: "nat \<Rightarrow> 'a response_body \<Rightarrow> tool_failure" where
  "toClientError status body =
     (case body of
        ErrorBody code message \<Rightarrow> BrokerClientError message status (Some code)
      | _ \<Rightarrow> BrokerClientError (''broker request failed with HTTP '' @ show_nat status) status None)"

definition client_request :: "('a \<Rightarrow> 'a option) \<Rightarrow> 'a fetched \<Rightarrow> (tool_failure, 'a) res" where
  "client_request parse f =
     (case f of
        TimedOut \<Rightarrow> Err AbortError
      | Unreachable \<Rightarrow> Err TypeError
      | Response n body \<Rightarrow>
          if \<not> response_ok n then Err (toClientError n body)
          else case (case body of Body v \<Rightarrow> parse v | _ \<Rightarrow> None) of
            Some v \<Rightarrow> Ok v
          | None \<Rightarrow> Err (BrokerClientError ''broker response does not match the LiveProbe protocol'' 502 (Some ''invalid_broker_response'')))"

definition requestNoContent :: "unit fetched \<Rightarrow> (tool_failure, unit) res" where
  "requestNoContent f =
     (case f of
        TimedOut \<Rightarrow> Err AbortError
      | Unreachable \<Rightarrow> Err TypeError
      | Response n body \<Rightarrow>
          if \<not> response_ok n then Err (toClientError n body)
          else if n \<noteq> 204 then Err (BrokerClientError (''broker returned HTTP '' @ show_nat n @ ''; expected 204'') n None)
          else Ok ())"

text \<open>
  The services of an answer.  Keys that the schema does not know would refuse the answer; a service record has exactly
  the keys of the schema.
\<close>

definition agentCapabilitySchema_ok :: "string \<Rightarrow> bool" where
  "agentCapabilitySchema_ok s \<longleftrightarrow> len_between 1 64 s \<and> (is_lower (hd s) \<or> is_digit (hd s)) \<and>
     list_all (\<lambda>c. is_lower c \<or> is_digit c \<or> c \<in> set ''.-'') s"

definition serviceSchema_parse :: "service_record \<Rightarrow> service_record option" where
  "serviceSchema_parse v =
     (case (serviceId_parse (sr_serviceId v), opt_parse sourceCommit_parse (sr_commitSha v)) of
        (Some sid, Some sha) \<Rightarrow>
          if pred_option (list_all agentCapabilitySchema_ok) (sr_capabilities v) \<and>
             pred_option (\<lambda>a. pred_option (\<lambda>c. c \<in> set SAFETY_REASON_CODES) (as_reasonCode a) \<and>
               pred_option safetyLimits_ok (as_limits a)) (sr_agentStatus v)
          then Some (v\<lparr>sr_serviceId := sid, sr_commitSha := sha\<rparr>) else None
      | _ \<Rightarrow> None)"

abbreviation servicesResponse_parse :: "service_record list \<Rightarrow> service_record list option" where
  "servicesResponse_parse \<equiv> traverse serviceSchema_parse"

subsection \<open>Setting a probe\<close>

record commit_mismatch =
  cm_requested :: string
  cm_reported :: string
  cm_warning :: string

record created_probe =
  tc_probe :: probe_definition
  tc_commitMismatch :: "commit_mismatch option"

definition commitMismatch :: "probe_input \<Rightarrow> service_record \<Rightarrow> commit_mismatch option" where
  "commitMismatch i v =
     (case sr_commitSha v of
        None \<Rightarrow> None
      | Some sha \<Rightarrow>
          if sha = pi_commit_hash i then None
          else Some \<lparr>cm_requested = pi_commit_hash i, cm_reported = sha,
            cm_warning = ''commit_hash '' @ pi_commit_hash i @ '' does not match service '' @ pi_service_id i @
              '' reported commitSha '' @ sha\<rparr>)"

definition unknown_service :: "string \<Rightarrow> tool_failure" where
  "unknown_service sid = BrokerClientError (''service '' @ sid @
     '' has not reported to the broker; call list_services and use an online service ID'') 404 (Some ''unknown_service'')"

text \<open>The two requests are functions of the world they are sent in.\<close>

definition createWithCommitWarning ::
  "('w \<Rightarrow> 'w \<times> service_record list fetched) \<Rightarrow> (raw_create \<Rightarrow> 'w \<Rightarrow> 'w \<times> probe_definition fetched) \<Rightarrow>
     probe_input \<Rightarrow> 'w \<Rightarrow> 'w \<times> (tool_failure, created_probe) res" where
  "createWithCommitWarning list create i w =
     (let (w1, answer) = list w in
      case client_request servicesResponse_parse answer of
        Inl e \<Rightarrow> (w1, Err e)
      | Inr vs \<Rightarrow>
          (case find (\<lambda>v. sr_serviceId v = pi_service_id i) vs of
             None \<Rightarrow> (w1, Err (unknown_service (pi_service_id i)))
           | Some v \<Rightarrow>
               (let (w2, answer') = create (brokerInput i) w1 in
                case client_request probeDefinition_parse answer' of
                  Inl e \<Rightarrow> (w2, Err e)
                | Inr p \<Rightarrow> (w2, Ok \<lparr>tc_probe = p, tc_commitMismatch = commitMismatch i v\<rparr>))))"

definition set_probe ::
  "(request_scope \<Rightarrow> 'w \<Rightarrow> 'w \<times> service_record list fetched) \<Rightarrow> (request_scope \<Rightarrow> raw_create \<Rightarrow> 'w \<Rightarrow> 'w \<times> probe_definition fetched) \<Rightarrow>
     probe_args \<Rightarrow> 'w \<Rightarrow> 'w \<times> (tool_failure, created_probe) res" where
  "set_probe list create a w =
     (case probeInput_parse a of
        None \<Rightarrow> (w, Err (ZodError None))
      | Some i \<Rightarrow> createWithCommitWarning (list (pi_scope i)) (create (pi_scope i)) i w)"

subsection \<open>Listing services\<close>

record enriched_service =
  es_service :: service_record
  es_online :: bool
  es_caveats :: "string list"

definition requiredAgentCapabilities :: "string list" where
  "requiredAgentCapabilities = [''log-levels-v1'', ''expression-ast-v1'', ''frame-locals-v1'']"

definition missingCapabilities :: "service_record \<Rightarrow> string list" where
  "missingCapabilities v =
     filter (\<lambda>c. case sr_capabilities v of None \<Rightarrow> True | Some cs \<Rightarrow> c \<notin> set cs) requiredAgentCapabilities"

fun comma_join :: "string list \<Rightarrow> string" where
  "comma_join [] = ''''"
| "comma_join [c] = c"
| "comma_join (c # cs) = c @ '', '' @ comma_join cs"

definition enrich :: "int \<Rightarrow> service_record \<Rightarrow> enriched_service" where
  "enrich now v =
     (let online = (now - sr_lastSeen v \<le> 45000); missing = missingCapabilities v in
      \<lparr>es_service = v, es_online = online,
       es_caveats = [''commitSha is agent-reported audit metadata, not cryptographic proof of bytecode identity.''] @
         (if online then [] else [''service has not heartbeated within 45 seconds'']) @
         (if missing = [] then [] else [''agent upgrade required for: '' @ comma_join missing])\<rparr>)"

definition list_services :: "int \<Rightarrow> service_record list fetched \<Rightarrow> (tool_failure, enriched_service list) res" where
  "list_services now f = bind_res (client_request servicesResponse_parse f) (\<lambda>vs. Ok (map (enrich now) vs))"

subsection \<open>Results\<close>

record tool_error =
  te_code :: string
  te_message :: string
  te_retryable :: bool
  te_checks :: "string list"

fun toolErrorResult :: "tool_failure \<Rightarrow> tool_error" where
  "toolErrorResult (BrokerClientError message status code0) =
     (let code = default_to (if status = 404 then ''not_found'' else ''broker_error'') code0 in
      if status = 401 \<or> code = ''unauthorized''
      then \<lparr>te_code = ''unauthorized'', te_message = message, te_retryable = False,
        te_checks = [''Set LIVEPROBE_API_KEY to the same value used by the broker.'',
          ''Restart the MCP server after changing its environment.'']\<rparr>
      else if code = ''unknown_service''
      then \<lparr>te_code = code, te_message = message, te_retryable = False,
        te_checks = [''Call list_services and use a reported serviceId.'', ''Confirm the runtime agent is online and heartbeating.'']\<rparr>
      else if status = 403 \<or> code = ''forbidden''
      then \<lparr>te_code = ''forbidden'', te_message = message, te_retryable = False,
        te_checks = [''Use a Clerk account that is a member of the intended organization.'',
          ''Confirm the correct Clerk organization is selected if access is expected.'']\<rparr>
      else \<lparr>te_code = code, te_message = message, te_retryable = False,
        te_checks = (if status = 404 then [''Refresh services or probes before retrying with the returned ID.''] else [])\<rparr>)"
| "toolErrorResult (ZodError issue) =
     \<lparr>te_code = ''invalid_tool_input'', te_message = default_to ''tool input is invalid'' issue, te_retryable = False,
      te_checks = [''Correct the tool arguments and retry.'']\<rparr>"
| "toolErrorResult TypeError =
     \<lparr>te_code = ''broker_unreachable'', te_message = ''The LiveProbe broker could not be reached'', te_retryable = True,
      te_checks = [''Confirm BROKER_URL uses the reachable broker host and port.'',
        ''Check that the broker is running and its /healthz endpoint is healthy.'']\<rparr>"
| "toolErrorResult AbortError =
     \<lparr>te_code = ''broker_unreachable'', te_message = ''The LiveProbe broker request timed out'', te_retryable = True,
      te_checks = [''Confirm BROKER_URL uses the reachable broker host and port.'',
        ''Check that the broker is running and its /healthz endpoint is healthy.'']\<rparr>"
| "toolErrorResult OtherError =
     \<lparr>te_code = ''internal_error'', te_message = ''LiveProbe tool failed unexpectedly'', te_retryable = False, te_checks = []\<rparr>"

definition executeTool :: "('a \<Rightarrow> 'b) \<Rightarrow> (tool_failure, 'a) res \<Rightarrow> (tool_error, 'b) res" where
  "executeTool transform r = (case r of Inl e \<Rightarrow> Err (toolErrorResult e) | Inr v \<Rightarrow> Ok (transform v))"

text \<open>\<^verbatim>\<open>withEmptyStateGuidance\<close>, on the value a tool is about to print.\<close>

definition empty_array :: "string \<Rightarrow> (string \<times> json) list \<Rightarrow> bool" where
  "empty_array k ms \<longleftrightarrow> jget ms k = Some (JArr [])"

fun withEmptyStateGuidance :: "json \<Rightarrow> json" where
  "withEmptyStateGuidance (JObj ms) =
     (if empty_array ''probes'' ms
      then JObj (jset ''guidance'' (JArr [JStr ''No probes matched. Check service_id, whether the service is online, and whether probes have expired or been removed.'']) ms)
      else if empty_array ''events'' ms
      then JObj (jset ''guidance'' (JArr [JStr ''No retained events yet. Check that the probe is armed, the service is online, the line is reachable, and the runtime path matches the probe file.'']) ms)
      else JObj ms)"
| "withEmptyStateGuidance v = v"

subsection \<open>The command line\<close>

record cli_options =
  co_brokerUrl :: string
  co_help :: bool

definition DEFAULT_BROKER_URL :: string where
  "DEFAULT_BROKER_URL = ''http://127.0.0.1:7070''"

fun cli_args :: "string list \<Rightarrow> string option \<Rightarrow> bool \<Rightarrow> (string, string option \<times> bool) res" where
  "cli_args [] brokerUrl help = Ok (brokerUrl, help)"
| "cli_args (argument # rest) brokerUrl help =
     (if argument = ''--help'' \<or> argument = ''-h'' then cli_args rest brokerUrl True
      else if argument = ''--broker-url''
      then if brokerUrl \<noteq> None then Err ''--broker-url may only be specified once''
           else case rest of
             [] \<Rightarrow> Err ''--broker-url requires a URL''
           | value # rest' \<Rightarrow>
               if starts_with value ''-'' then Err ''--broker-url requires a URL''
               else cli_args rest' (Some value) help
      else if starts_with argument ''-'' then Err (''unknown option: '' @ argument)
      else Err (''unexpected argument: '' @ argument))"

definition parseCliArgs :: "string list \<Rightarrow> string option \<Rightarrow> (string, cli_options) res" where
  "parseCliArgs args envBrokerUrl =
     bind_res (cli_args args None False) (\<lambda>(brokerUrl, help).
       Ok \<lparr>co_brokerUrl = default_to (default_to DEFAULT_BROKER_URL envBrokerUrl) brokerUrl, co_help = help\<rparr>)"

subsection \<open>The tools on the broker's server\<close>

text \<open>The server's answer to one request, as the client sees it: \<open>message\<close> is the text of a refusal.\<close>

definition answer_fetch :: "(nat \<Rightarrow> string \<Rightarrow> string) \<Rightarrow> (payload \<Rightarrow> 'a option) \<Rightarrow> answer \<Rightarrow> 'a fetched" where
  "answer_fetch message view a =
     (case a of
        Answer n p \<Rightarrow> Response n (case view p of Some v \<Rightarrow> Body v | None \<Rightarrow> OtherBody)
      | Refusal n code \<Rightarrow> Response n (ErrorBody code (message n code)))"

fun services_of :: "payload \<Rightarrow> service_record list option" where
  "services_of (ServiceList vs) = Some vs" | "services_of _ = None"

fun probe_of :: "payload \<Rightarrow> probe_definition option" where
  "probe_of (Probe p) = Some p" | "probe_of _ = None"

text \<open>A client of the server: its key, and what the server does between its two requests.\<close>

record connection =
  cn_env :: web_env
  cn_auth :: auth_config
  cn_apiKey :: "string option"
  cn_message :: "nat \<Rightarrow> string \<Rightarrow> string"
  cn_between :: "web \<Rightarrow> web"

text \<open>The headers of a request for a scope.\<close>

definition cn_headers :: "connection \<Rightarrow> request_scope \<Rightarrow> request" where
  "cn_headers cn s = \<lparr>rq_authorization = map_option (\<lambda>k. BEARER @ k) (cn_apiKey cn), rq_project = HeaderOnce (fst s),
     rq_environment = HeaderOnce (snd s)\<rparr>"

definition ask :: "connection \<Rightarrow> (payload \<Rightarrow> 'a option) \<Rightarrow> request_scope \<Rightarrow> route \<Rightarrow> web \<Rightarrow> web \<times> 'a fetched" where
  "ask cn view s r w =
     (let (w1, a) = serve (cn_env cn) (cn_auth cn) (cn_headers cn s) r w in
      (w1, answer_fetch (cn_message cn) view a))"

definition ask_services :: "connection \<Rightarrow> request_scope \<Rightarrow> web \<Rightarrow> web \<times> service_record list fetched" where
  "ask_services cn s = ask cn services_of s GetServices"

definition ask_create :: "connection \<Rightarrow> request_scope \<Rightarrow> raw_create \<Rightarrow> web \<Rightarrow> web \<times> probe_definition fetched" where
  "ask_create cn s raw w = ask cn probe_of s (PostProbe raw) (cn_between cn w)"

text \<open>The server's store keeps what it is given, and what happens between the two requests of a tool is a run of the broker.\<close>

definition connected :: "connection \<Rightarrow> web \<Rightarrow> bool" where
  "connected cn w \<longleftrightarrow> reachable (we_env (cn_env cn)) (wb_state w) \<and> (\<forall>r. keeps (we_persist (cn_env cn) r)) \<and>
     (\<forall>v. reachable (we_env (cn_env cn)) (wb_state v) \<longrightarrow> reachable (we_env (cn_env cn)) (wb_state (cn_between cn v)))"

text \<open>The services the broker reports for a scope, and that a state holds a probe made to the order of a tool.\<close>

definition reported :: "connection \<Rightarrow> request_scope \<Rightarrow> web \<Rightarrow> service_record list" where
  "reported cn s w =
     (case pre_handler (cn_auth cn) (cn_headers cn s) of
        Inl e \<Rightarrow> []
      | Inr c \<Rightarrow> snd (listServices (we_env (cn_env cn)) (we_now (cn_env cn)) (snd c) (wb_state w)))"



definition created_for :: "connection \<Rightarrow> request_scope \<Rightarrow> raw_create \<Rightarrow> probe_definition \<Rightarrow> web \<Rightarrow> bool" where
  "created_for cn s raw p w \<longleftrightarrow> (\<exists>input c st. createProbeInput_parse raw = Some input \<and>
     pre_handler (cn_auth cn) (cn_headers cn s) = Ok c \<and>
     createProbe (we_env (cn_env cn)) (we_gen (cn_env cn)) (we_now (cn_env cn)) input (snd c) st = (wb_state w, Ok p))"

definition ordered_input :: "probe_input \<Rightarrow> create_input" where
  "ordered_input i =
     \<lparr>ci_serviceId = pi_service_id i, ci_sourceCommit = Some (pi_commit_hash i), ci_file = pi_file i, ci_line = pi_line i,
      ci_condition = pi_condition i, ci_conditionExpression = pi_condition_expression i, ci_ttlSeconds = pi_ttl_seconds i,
      ci_createdBy = pi_created_by i, ci_hitLimit = default_to (default_hitLimit (bodyFields (pi_body i))) (pi_hit_limit i),
      ci_body = pi_body i\<rparr>"

text \<open>A client of the sample server, whose service \<^verbatim>\<open>pay\<close> has polled.\<close>

definition tool_connection :: connection where
  "tool_connection = \<lparr>cn_env = sample_web_env, cn_auth = sample_auth, cn_apiKey = Some ''root-key'',
     cn_message = (\<lambda>_ code. code), cn_between = (\<lambda>w. w)\<rparr>"

definition tool_service :: "string list option \<Rightarrow> service_record" where
  "tool_service caps = \<lparr>sr_scope = DEFAULT_RESOURCE_SCOPE, sr_serviceId = ''pay'', sr_lastSeen = 1500, sr_sdk = None,
     sr_commitSha = None, sr_commitSource = None, sr_capabilities = caps, sr_agentStatus = None, sr_backend = None,
     sr_language = None, sr_instanceCount = None, sr_buildIds = None, sr_nativeLimitations = None\<rparr>"

definition tool_broker :: "string list option \<Rightarrow> broker" where
  "tool_broker caps = (empty_broker 2)\<lparr>services := [(serviceKey DEFAULT_RESOURCE_SCOPE ''pay'', tool_service caps)]\<rparr>"

definition tool_web :: web where
  "tool_web = \<lparr>wb_state = tool_broker None, wb_audit = []\<rparr>"

definition tool_args :: "string \<Rightarrow> probe_args" where
  "tool_args sid = \<lparr>pa_project_id = None, pa_environment_id = None, pa_service_id = sid, pa_commit_hash = ''ABCDEF1'',
     pa_file = ''a.ts'', pa_line = 3, pa_condition = None, pa_condition_expression = None, pa_hit_limit = None,
     pa_ttl_seconds = Some 60, pa_created_by = None, pa_body = RawCounter\<rparr>"

definition tool_input :: "string \<Rightarrow> probe_input" where
  "tool_input sid = \<lparr>pi_scope = (''default'', ''default''), pi_service_id = sid, pi_commit_hash = ''abcdef1'', pi_file = ''a.ts'',
     pi_line = 3, pi_condition = None, pi_condition_expression = None, pi_hit_limit = None, pi_ttl_seconds = 60,
     pi_created_by = ''mcp:liveprobe'', pi_body = CreateCounter\<rparr>"


section \<open>Lemmas\<close>

subsection \<open>What a schema accepts it accepts again\<close>

lemmas name_again = schema.again [OF schema_names(1)] schema.again [OF schema_names(2)] schema.again [OF schema_sourceCommit]
  schema.again [OF schema_opt [OF schema_trimmed], of 1 4096, folded expressionSource_parse_def]

lemma toolBody_again: "toolBody_parse b = Some c \<Longrightarrow> createBody_parse (bodyFields c) = Some c"
proof (induction b rule: toolBody_parse.induct)
  case (1 wp we sl fl)
  have d: "schema (opt_parse (bounded_list 100 dotPath_parse))" by (intro schema_opt schema_bounded schema_dotPath)
  have e: "schema (opt_parse (bounded_list 100 expressionSource_parse))"
    unfolding expressionSource_parse_def by (intro schema_opt schema_bounded schema_trimmed)
  from 1 obtain wp' we' where "opt_parse (bounded_list 100 dotPath_parse) wp = Some wp'"
    "opt_parse (bounded_list 100 expressionSource_parse) we = Some we'" by (auto split: option.splits)
  with 1 schema.again [OF d this(1)] schema.again [OF e this(2)] show ?case by (auto simp: Let_def split: if_splits)
next
  case (4 mp me)
  have d: "schema (opt_parse dotPath_parse)" by (intro schema_opt schema_dotPath)
  have e: "schema (opt_parse expressionSource_parse)" unfolding expressionSource_parse_def by (intro schema_opt schema_trimmed)
  from 4 obtain mp' me' where m: "opt_parse dotPath_parse mp = Some mp'" "opt_parse expressionSource_parse me = Some me'"
    by (auto split: option.splits)
  with 4 have "c = CreateMetric mp' me'" by (auto split: if_splits)
  with schema.again [OF d m(1)] schema.again [OF e m(2)] show ?case by simp
qed (auto split: if_splits)

lemma condition_again:
  "opt_parse mcpCondition_parse c = Some d \<Longrightarrow>
     opt_parse condition_parse d = (if pred_option (\<lambda>x. jsonScalar_ok (c_value x)) d then Some d else None)"
  using schema.again [OF schema_dotPath]
  by (auto simp: opt_parse_Some opt_parse_def mcpCondition_parse_def condition_parse_def split: option.splits if_splits)

lemma probeInput_fields:
  assumes "probeInput_parse a = Some i"
  shows "serviceId_parse (pa_service_id a) = Some (pi_service_id i)" "sourceCommit_parse (pa_commit_hash a) = Some (pi_commit_hash i)"
    "sourceFile_parse (pa_file a) = Some (pi_file i)" "opt_parse mcpCondition_parse (pa_condition a) = Some (pi_condition i)"
    "opt_parse expressionSource_parse (pa_condition_expression a) = Some (pi_condition_expression i)"
    "trimmed 1 500 (pi_created_by i) = Some (pi_created_by i)" "toolBody_parse (pa_body a) = Some (pi_body i)"
    "positive_int (pi_line i)" "positive_int (pi_ttl_seconds i)" "pred_option positive_int (pi_hit_limit i)"
proof -
  have d: "trimmed 1 500 ''mcp:liveprobe'' = Some ''mcp:liveprobe''" by code_simp
  have t: "opt_parse (trimmed 1 500) x = Some (Some y) \<Longrightarrow> trimmed 1 500 y = Some y" for x y
    using schema.again [OF schema_trimmed, of 1 500] by (auto simp: opt_parse_Some)
  show "serviceId_parse (pa_service_id a) = Some (pi_service_id i)" "sourceCommit_parse (pa_commit_hash a) = Some (pi_commit_hash i)"
    "sourceFile_parse (pa_file a) = Some (pi_file i)" "opt_parse mcpCondition_parse (pa_condition a) = Some (pi_condition i)"
    "opt_parse expressionSource_parse (pa_condition_expression a) = Some (pi_condition_expression i)"
    "trimmed 1 500 (pi_created_by i) = Some (pi_created_by i)" "toolBody_parse (pa_body a) = Some (pi_body i)"
    "positive_int (pi_line i)" "positive_int (pi_ttl_seconds i)" "pred_option positive_int (pi_hit_limit i)"
    using assms by (auto simp: probeInput_parse_def Let_def d simp del: One_nat_def dest: t split: option.splits if_splits)
qed

lemma brokerInput_accepted:
  assumes "probeInput_parse a = Some i"
  shows "createProbeInput_parse (brokerInput i) =
    (if pred_option (\<lambda>c. jsonScalar_ok (c_value c)) (pi_condition i) then Some (ordered_input i) else None)"
proof -
  note f = probeInput_fields [OF assms]
  have e: "schema (opt_parse expressionSource_parse)" unfolding expressionSource_parse_def by (intro schema_opt schema_trimmed)
  have c: "opt_parse sourceCommit_parse (Some (pi_commit_hash i)) = Some (Some (pi_commit_hash i))"
    using schema.again [OF schema_sourceCommit f(2)] by (simp add: opt_parse_def)
  have h: "positive_int (default_to (default_hitLimit b) (pi_hit_limit i))" for b
    using f(10) by (cases b; cases "pi_hit_limit i") (auto simp: positive_int_def safe_int_def max_safe_def)
  show ?thesis using h [of "bodyFields (pi_body i)"]
    by (cases "pi_hit_limit i") (simp_all add: createProbeInput_parse_def brokerInput_def ordered_input_def c f(6,8,9) toolBody_again [OF f(7)]
      schema.again [OF schema_names(1) f(1)] schema.again [OF schema_names(2) f(3)] schema.again [OF e f(5)] condition_again [OF f(4)] Let_def del: One_nat_def)
qed

subsection \<open>What the tools need of the broker\<close>

locale probe_service =
  fixes inv :: "'w \<Rightarrow> bool" and kept :: "'w \<Rightarrow> 'k" and reports :: "'s \<Rightarrow> 'w \<Rightarrow> service_record list"
    and made :: "'s \<Rightarrow> raw_create \<Rightarrow> probe_definition \<Rightarrow> 'w \<Rightarrow> bool"
    and list :: "'s \<Rightarrow> 'w \<Rightarrow> 'w \<times> service_record list fetched"
    and create :: "'s \<Rightarrow> raw_create \<Rightarrow> 'w \<Rightarrow> 'w \<times> probe_definition fetched"
  assumes listing: "inv w \<Longrightarrow> list s w = (w1, f) \<Longrightarrow> inv w1 \<and> kept w1 = kept w"
    and listed: "inv w \<Longrightarrow> list s w = (w1, Response n (Body vs)) \<Longrightarrow> vs = reports s w"
    and creating: "inv w \<Longrightarrow> create s raw w = (w1, Response n (Body p)) \<Longrightarrow> made s raw p w1 \<and> probeDefinition_parse p = Some p"
begin

lemma client_Ok: "client_request f r = Ok v \<Longrightarrow> \<exists>n u. r = Response n (Body u) \<and> f u = Some v"
  by (auto simp: client_request_def split: fetched.splits if_splits option.splits response_body.splits)

lemma parsed_service: "traverse serviceSchema_parse vs = Some us \<Longrightarrow> u \<in> set us \<Longrightarrow> \<exists>v \<in> set vs. serviceSchema_parse v = Some u"
  by (fastforce simp: traverse_Some_iff list_all2_conv_all_nth in_set_conv_nth)

lemma order_met:
  assumes "inv w" "createWithCommitWarning (list s) (create s) i w = (w', Ok c)"
  shows "made s (brokerInput i) (tc_probe c) w' \<and>
    (\<exists>v \<in> set (reports s w). \<exists>u. serviceSchema_parse v = Some u \<and> sr_serviceId u = pi_service_id i \<and> tc_commitMismatch c = commitMismatch i u)"
proof -
  obtain w1 f where l: "list s w = (w1, f)" by fastforce
  obtain us where us: "client_request servicesResponse_parse f = Ok us"
    using assms(2) by (auto simp: createWithCommitWarning_def l Let_def split: sum.splits)
  obtain u where u: "find (\<lambda>v. sr_serviceId v = pi_service_id i) us = Some u"
    using assms(2) by (auto simp: createWithCommitWarning_def l us Let_def split: option.splits)
  obtain w2 g where g: "create s (brokerInput i) w1 = (w2, g)" by fastforce
  obtain p where p: "client_request probeDefinition_parse g = Ok p"
    using assms(2) by (auto simp: createWithCommitWarning_def l us u g Let_def split: sum.splits)
  have c: "w' = w2" "tc_probe c = p" "tc_commitMismatch c = commitMismatch i u"
    using assms(2) by (auto simp: createWithCommitWarning_def l us u g p Let_def)
  obtain n vs where vs: "f = Response n (Body vs)" "servicesResponse_parse vs = Some us" using client_Ok [OF us] by blast
  obtain m q where q: "g = Response m (Body q)" "probeDefinition_parse q = Some p" using client_Ok [OF p] by blast
  have "made s (brokerInput i) q w2" "q = p" using creating [OF listing [OF assms(1) l, THEN conjunct1] g [unfolded q(1)]] q(2) by simp_all
  moreover have "u \<in> set us" "sr_serviceId u = pi_service_id i" using u by (auto simp: find_Some_iff)
  moreover have "vs = reports s w" using listed [OF assms(1) l [unfolded vs(1)]] .
  ultimately show ?thesis using parsed_service [OF vs(2)] c by blast
qed

lemma unknown_refused:
  assumes "inv w" "\<And>v u. v \<in> set (reports s w) \<Longrightarrow> serviceSchema_parse v = Some u \<Longrightarrow> sr_serviceId u \<noteq> pi_service_id i"
  shows "kept (fst (createWithCommitWarning (list s) (create s) i w)) = kept w \<and>
    (\<exists>e. snd (createWithCommitWarning (list s) (create s) i w) = Err e)"
proof -
  obtain w1 f where l: "list s w = (w1, f)" by fastforce
  have k: "kept w1 = kept w" using listing [OF assms(1) l] by simp
  show ?thesis
  proof (cases "client_request servicesResponse_parse f")
    case (Inl e)
    then show ?thesis by (simp add: createWithCommitWarning_def l k)
  next
    case (Inr us)
    then obtain n vs where vs: "f = Response n (Body vs)" "servicesResponse_parse vs = Some us" using client_Ok [OF Inr] by blast
    have "vs = reports s w" using listed [OF assms(1) l [unfolded vs(1)]] .
    then have "find (\<lambda>v. sr_serviceId v = pi_service_id i) us = None"
      using parsed_service [OF vs(2)] assms(2) by (auto simp: find_None_iff)
    then show ?thesis by (simp add: createWithCommitWarning_def l k Inr)
  qed
qed

end

subsection \<open>The server provides it\<close>

lemma ask_services_serve:
  "ask_services cn s w =
     (case pre_handler (cn_auth cn) (cn_headers cn s) of
        Inl e \<Rightarrow> (w, Response (status_of e) (ErrorBody (code_of e) (cn_message cn (status_of e) (code_of e))))
      | Inr c \<Rightarrow>
          if is_runtime (fst c) then (w, Response 403 (ErrorBody ''forbidden'' (cn_message cn 403 ''forbidden'')))
          else (w\<lparr>wb_state := fst (listServices (we_env (cn_env cn)) (we_now (cn_env cn)) (snd c) (wb_state w))\<rparr>,
            Response 200 (Body (reported cn s w))))"
  by (auto simp: ask_services_def ask_def serve_def answer_fetch_def requireHumanRead_def guarded_def to_answer_def on_state_def
    reported_def Let_def split: sum.splits)

lemma audited_Ok:
  assumes "runAuditedMutation rec ctx op w = (w', Ok a)"
  obtains w1 w2 rid where "fst (rec ctx Attempt None None w) = w1" "op w1 = (w2, Ok (a, rid))"
    "w' = fst (rec (ctx\<lparr>ax_resourceId := rid\<rparr>) Success (Some (ax_successStatus ctx)) None w2)"
proof -
  obtain w1 r1 where 1: "rec ctx Attempt None None w = (w1, r1)" by fastforce
  with assms obtain x where "r1 = Inr x" by (cases r1) (auto simp: runAuditedMutation_def)
  note 1 = 1 [unfolded this]
  obtain w2 r2 where 2: "op w1 = (w2, r2)" by fastforce
  with assms 1 obtain b rid where "r2 = Inr (b, rid)"
    by (cases r2) (auto simp: runAuditedMutation_def audit_failure_def split: prod.splits sum.splits)
  note 2 = 2 [unfolded this]
  obtain w3 r3 where 3: "rec (ctx\<lparr>ax_resourceId := rid\<rparr>) Success (Some (ax_successStatus ctx)) None w2 = (w3, r3)" by fastforce
  with assms 1 2 have "b = a" "w' = w3"
    by (cases r3; auto simp: runAuditedMutation_def audit_failure_def split: prod.splits sum.splits)+
  with 1 2 3 show ?thesis by (intro that [of w1 w2 rid]) simp_all
qed

lemma durably_Ok:
  assumes "durably env r f w = (w', Ok a)" "keeps (we_persist env r)"
  shows "f (wb_state w) = (wb_state w', Ok a)"
proof -
  obtain st r' where f: "f (wb_state w) = (st, r')" by fastforce
  show ?thesis using assms
    by (auto simp: durably_def on_state_def mutateDurably_def keeps_def f split: sum.splits prod.splits)
qed

lemma postProbe_Answer:
  assumes "postProbe env c raw w = (w', Ok (n, Probe p))" "keeps (we_persist env (PostProbe raw))"
  shows "\<exists>input. createProbeInput_parse raw = Some input \<and>
    createProbe (we_env env) (we_gen env) (we_now env) input (snd c) (wb_state w) = (wb_state w', Ok p)"
proof -
  obtain input where i: "createProbeInput_parse raw = Some input"
    using assms(1) by (auto simp: postProbe_def guarded_def split: option.splits)
  let ?ctx = "\<lparr>ax_action = ''probe.create'', ax_resourceType = ''probe'', ax_resourceId = None,
    ax_metadata = [(''serviceId'', ci_serviceId input), (''probeType'', probe_type_name (create_type (ci_body input)))],
    ax_successStatus = 201, ax_scope = None\<rparr>"
  let ?op = "guarded (requireProbeManager (fst c)) (\<lambda>_ w1.
    case durably env (PostProbe raw) (createProbe (we_env env) (we_gen env) (we_now env) input (snd c)) w1 of
      (w2, Inl e) \<Rightarrow> (w2, Err e) | (w2, Inr p) \<Rightarrow> (w2, Ok (p, Some (pd_id p))))"
  have "runAuditedMutation (appendAuditEvent env c) ?ctx ?op w = (w', Ok p)"
    using assms(1) by (cases "runAuditedMutation (appendAuditEvent env c) ?ctx ?op w") (auto simp: postProbe_def i split: sum.splits)
  then obtain w1 w2 rid where a: "fst (appendAuditEvent env c ?ctx Attempt None None w) = w1" "?op w1 = (w2, Ok (p, rid))"
      "w' = fst (appendAuditEvent env c (?ctx\<lparr>ax_resourceId := rid\<rparr>) Success (Some (ax_successStatus ?ctx)) None w2)"
    by (rule audited_Ok)
  have "durably env (PostProbe raw) (createProbe (we_env env) (we_gen env) (we_now env) input (snd c)) w1 = (w2, Ok p)"
    using a(2) by (auto simp: guarded_def split: sum.splits prod.splits)
  from durably_Ok [OF this assms(2)] have "createProbe (we_env env) (we_gen env) (we_now env) input (snd c) (wb_state w1) = (wb_state w2, Ok p)" .
  moreover have "wb_state w1 = wb_state w" "wb_state w' = wb_state w2" using append_state a(1,3) by metis+
  ultimately show ?thesis using i by simp
qed

lemma ask_create_Body:
  assumes "connected cn w" "ask_create cn s raw w = (w1, Response n (Body p))"
  shows "created_for cn s raw p w1" "probeDefinition_parse p = Some p"
proof -
  obtain c where c: "pre_handler (cn_auth cn) (cn_headers cn s) = Ok c"
    using assms(2) by (auto simp: ask_create_def ask_def serve_def answer_fetch_def split: sum.splits)
  obtain r where r: "postProbe (cn_env cn) c raw (cn_between cn w) = (w1, r)"
    using assms(2) by (cases "postProbe (cn_env cn) c raw (cn_between cn w)") (auto simp: ask_create_def ask_def serve_def c to_answer_def)
  have "r = Ok (n, Probe p)"
    using assms(2) by (auto simp: ask_create_def ask_def serve_def c r to_answer_def answer_fetch_def
      split: sum.splits option.splits payload.splits prod.splits elim!: probe_of.elims)
  from postProbe_Answer [OF r [unfolded this]] assms(1) show "created_for cn s raw p w1"
    by (auto simp: connected_def created_for_def c)
  then show "probeDefinition_parse p = Some p" using created_wire_ok by (auto simp: created_for_def wire_ok_def)
qed

interpretation tools: probe_service "connected cn" "\<lambda>w. probes (wb_state w)" "reported cn" "created_for cn" "ask_services cn" "ask_create cn" for cn
proof
  fix w :: web and s f w1
  assume a: "connected cn w" "ask_services cn s w = (w1, f)"
  show "connected cn w1 \<and> probes (wb_state w1) = probes (wb_state w)"
    using a by (auto simp: ask_services_serve connected_def intro: reachable_step [OF _ step_list_services] split: sum.splits if_splits)
qed (auto simp: ask_services_serve ask_create_Body split: sum.splits if_splits)






subsection \<open>A run\<close>

lemma tool_parse: "probeInput_parse (tool_args ''pay'') = Some (tool_input ''pay'')"
  by (code_simp, simp)

lemma tool_parse_web: "probeInput_parse (tool_args ''web'') = Some (tool_input ''web'')"
  by (code_simp, simp)

lemma tool_broker_reachable: "reachable sample_env (tool_broker None)"
proof -
  have r: "reachable sample_env (empty_broker 2)" by (rule reachable_init [of "Some 2"]) (simp add: new_broker_def)
  have "expireDueProbes 1500 (empty_broker 2) = (empty_broker 2, 0)" by (rule expire_idle) (simp add: due_at_def empty_broker_def)
  then have "fst (pollProbes sample_env 1500 ''pay'' 0 None DEFAULT_RESOURCE_SCOPE (empty_broker 2)) = tool_broker None"
    by (simp add: pollProbes_def touchService_def tool_broker_def tool_service_def or_previous_def empty_broker_def Let_def)
  then show ?thesis using reachable_step [OF r step_poll, of 1500 "''pay''" 0 None DEFAULT_RESOURCE_SCOPE] by simp
qed

lemma tool_connected: "connected tool_connection tool_web"
  using tool_broker_reachable by (simp add: connected_def tool_connection_def tool_web_def sample_web_env_def keeps_def)

lemma tool_caller: "pre_handler (cn_auth tool_connection) (cn_headers tool_connection (''default'', ''default'')) =
    Ok (SharedPrincipal DEFAULT_RESOURCE_SCOPE SharedKey, DEFAULT_RESOURCE_SCOPE)"
proof -
  have "catalogId_parse ''default'' = Some ''default''" by code_simp
  moreover have "authenticate_request (cn_auth tool_connection) (cn_headers tool_connection (''default'', ''default'')) = Ok (SharedPrincipal DEFAULT_RESOURCE_SCOPE SharedKey)"
    by (simp add: authenticate_request_def sample_auth_def cn_headers_def tool_connection_def shared_source_def bearerTokenMatches_def bearerToken_def
      BEARER_def starts_with_def or_else_def sharedPrincipal_def)
  ultimately show ?thesis
  by (simp add: pre_handler_def sample_auth_def cn_headers_def tool_connection_def shared_source_def bearerTokenMatches_def bearerToken_def
      BEARER_def starts_with_def scope_request_def selected_id_def DEFAULT_RESOURCE_SCOPE_def Let_def)
qed
lemma tool_listed: "listServices sample_env 2000 DEFAULT_RESOURCE_SCOPE (tool_broker None) =
    (tool_broker (Some []), [(tool_service (Some []))\<lparr>sr_backend := Some ManagedRuntime, sr_instanceCount := Some 1\<rparr>])"
  by (simp add: listServices_def refreshServiceCapabilities_def tool_broker_def tool_service_def empty_broker_def Let_def)






section \<open>Properties\<close>

text \<open>C32: The tools and the broker agree on what a probe is: the request that a tool sends for arguments it has accepted is
  accepted by the broker's schema, with every field as the tool understood it and the broker's own default for a hit limit
  that was not given; the one exception are conditions on a number that a double cannot hold exactly, which only the
  broker refuses.\<close>

theorem tool_and_broker_agree:
  assumes "probeInput_parse a = Some i"
  shows "createProbeInput_parse (brokerInput i) =
    (if pred_option (\<lambda>c. jsonScalar_ok (c_value c)) (pi_condition i) then Some (ordered_input i) else None)"
  by (rule brokerInput_accepted [OF assms])

theorem tool_and_broker_agree_witness:
  "createProbeInput_parse (brokerInput (tool_input ''pay'')) = Some (ordered_input (tool_input ''pay''))"
  using tool_and_broker_agree [OF tool_parse] by (simp add: tool_input_def)



text \<open>C31: A tool never sets a probe for a service the broker has not heard of: when no service the broker reports for the
  scope has the name that was asked for, the tool fails and the probes of the broker are what they were.\<close>

theorem unknown_service_sets_nothing:
  assumes "connected cn w" "probeInput_parse a = Some i"
    and "\<And>v. v \<in> set (reported cn (pi_scope i) w) \<Longrightarrow> js_trim (sr_serviceId v) \<noteq> pi_service_id i"
  shows "probes (wb_state (fst (set_probe (ask_services cn) (ask_create cn) a w))) = probes (wb_state w) \<and>
    (\<exists>e. snd (set_probe (ask_services cn) (ask_create cn) a w) = Err e)"
proof -
  have "sr_serviceId u \<noteq> pi_service_id i" if "v \<in> set (reported cn (pi_scope i) w)" "serviceSchema_parse v = Some u" for v u
    using assms(3) [OF that(1)] that(2) by (auto simp: serviceSchema_parse_def serviceId_parse_def trimmed_Some split: option.splits if_splits)
  from tools.unknown_refused [OF assms(1) this] show ?thesis by (simp add: set_probe_def assms(2))
qed

theorem unknown_service_sets_nothing_witness:
  "probes (wb_state (fst (set_probe (ask_services tool_connection) (ask_create tool_connection) (tool_args ''web'') tool_web))) = []"
proof -
  have r: "reported tool_connection (''default'', ''default'') tool_web = [(tool_service (Some []))\<lparr>sr_backend := Some ManagedRuntime, sr_instanceCount := Some 1\<rparr>]"
    using tool_listed tool_caller by (simp add: reported_def tool_web_def) (simp add: tool_connection_def sample_web_env_def)
  have "js_trim ''pay'' \<noteq> ''web''" by code_simp
  then have "probes (wb_state (fst (set_probe (ask_services tool_connection) (ask_create tool_connection) (tool_args ''web'') tool_web))) = probes (wb_state tool_web)"
    using unknown_service_sets_nothing [OF tool_connected tool_parse_web] by (simp add: r tool_service_def tool_input_def)
  then show ?thesis by (simp add: tool_web_def tool_broker_def empty_broker_def)
qed

text \<open>The requests of the other tools pass the broker's schemas as they are: the identifiers a tool sends are those the broker
  reads back.\<close>

theorem tool_ids_read_back:
  "catalog_call (Create_project p name) = Some (s, CatalogRoute (CreateProject p' name')) \<Longrightarrow>
     catalogId_parse p' = Some p' \<and> displayName_parse name' = Some name'"
  "catalog_call (Register_service p sid name) = Some (s, CatalogRoute (CreateService p' sid' name')) \<Longrightarrow>
     catalogId_parse p' = Some p' \<and> serviceId_parse sid' = Some sid' \<and> displayName_parse name' = Some name'"
  "credential_call (Create_service_credential p e sid label) = Some (s, CatalogRoute (CreateServiceCredential (Some p') (Some e') sid' label')) \<Longrightarrow>
     catalogId_parse p' = Some p' \<and> catalogId_parse e' = Some e' \<and> serviceId_parse sid' = Some sid' \<and>
     trimmed 1 200 label' = Some label'"
  "control_call l (Get_probe_data project environment pid q) = Some (s, ProbeRoute (GetProbeData pid' q' l')) \<Longrightarrow>
     pid' = pid \<and> probeId_ok pid \<and> is_finite_num q' \<and> js_le (Fin 0) q' \<and> js_le q' (Fin 30)"
proof -
  have c: "catalogId_parse x = Some y \<Longrightarrow> catalogId_parse y = Some y" for x y
    by (auto simp: catalogId_parse_def Let_def js_trim_idem split: if_splits)
  note a = c schema.again [OF schema_names(1)] schema.again [OF schema_trimmed]
  show "catalog_call (Create_project p name) = Some (s, CatalogRoute (CreateProject p' name')) \<Longrightarrow>
     catalogId_parse p' = Some p' \<and> displayName_parse name' = Some name'"
    by (auto simp: displayName_parse_def simp del: One_nat_def dest: a split: option.splits)
  show "catalog_call (Register_service p sid name) = Some (s, CatalogRoute (CreateService p' sid' name')) \<Longrightarrow>
     catalogId_parse p' = Some p' \<and> serviceId_parse sid' = Some sid' \<and> displayName_parse name' = Some name'"
    by (auto simp: displayName_parse_def simp del: One_nat_def dest: a split: option.splits)
  show "credential_call (Create_service_credential p e sid label) = Some (s, CatalogRoute (CreateServiceCredential (Some p') (Some e') sid' label')) \<Longrightarrow>
     catalogId_parse p' = Some p' \<and> catalogId_parse e' = Some e' \<and> serviceId_parse sid' = Some sid' \<and>
     trimmed 1 200 label' = Some label'"
    by (auto simp del: One_nat_def dest: a split: option.splits)
qed (auto simp: scoped_call_def Let_def split: option.splits if_splits)

text \<open>The failures of a tool: only one that never got an answer is worth a retry, and a refusal of the broker keeps its
  code and message, except that every 401 and 403 is reported as such unless the service was unknown.\<close>

theorem tool_failures_classified:
  "te_retryable (toolErrorResult e) \<longleftrightarrow> e = TypeError \<or> e = AbortError"
  "client_request f r = Err e \<Longrightarrow> te_retryable (toolErrorResult e) \<longleftrightarrow> r = TimedOut \<or> r = Unreachable"
  "\<not> response_ok n \<Longrightarrow> \<exists>e. client_request f (Response n (ErrorBody code message)) = Err e \<and>
     te_message (toolErrorResult e) = message \<and>
     te_code (toolErrorResult e) = (if n = 401 \<or> code = ''unauthorized'' then ''unauthorized''
       else if code = ''unknown_service'' then code else if n = 403 then ''forbidden'' else code)"
proof -
  show r: "te_retryable (toolErrorResult e) \<longleftrightarrow> e = TypeError \<or> e = AbortError" for e by (cases e) (simp_all add: Let_def)
  show "client_request f r = Err e \<Longrightarrow> te_retryable (toolErrorResult e) \<longleftrightarrow> r = TimedOut \<or> r = Unreachable"
    by (auto simp: r client_request_def toClientError_def split: fetched.splits if_splits option.splits response_body.splits)
qed (simp add: client_request_def toClientError_def Let_def)

text \<open>A wait for evidence that is longer than the time the client gives a request cannot end with the broker's answer
  unless an event arrives first: at the broker the wait ends after \<open>wait_ms\<close>, and by then the client has given up.\<close>

theorem long_wait_times_out:
  assumes "5000 \<le> wait_ms q" "wait_ms q \<le> elapsed" "new_client parse_url u None = Ok (base, timeoutMs)"
  shows "client_request f (fetchWithTimeout timeoutMs elapsed r) = Err AbortError"
proof -
  have "timeoutMs = 5000" using assms(3) by (auto simp: new_client_def Let_def split: option.splits if_splits)
  with assms show ?thesis by (simp add: fetchWithTimeout_def client_request_def)
qed

text \<open>The arguments of the command line: a request for help may follow any accepted arguments, and the URL stays.\<close>

lemma cli_help_last: "cli_args as b h = Ok (b', h') \<Longrightarrow> cli_args (as @ [''-h'']) b h = Ok (b', True)"
proof (induction as b h rule: cli_args.induct)
  case (2 argument rest b h)
  consider "argument = ''--help'' \<or> argument = ''-h''" | "argument = ''--broker-url''"
    | "argument \<noteq> ''--help''" "argument \<noteq> ''-h''" "argument \<noteq> ''--broker-url''" by blast
  then show ?case
  proof cases
    case 1
    with 2(3) have "cli_args rest b True = Ok (b', h')" by auto
    from 2(1) [OF 1 this] 1 show ?thesis by auto
  next
    case u: 2
    with 2(3) obtain v vs where v: "rest = v # vs" "b = None" "\<not> starts_with v ''-''" "cli_args vs (Some v) h = Ok (b', h')"
      by (cases rest) (auto split: if_splits)
    from 2(2) [OF _ u _ v(1) v(3) v(4)] v u show ?thesis by auto
  next
    case 3
    with 2(3) show ?thesis by (auto split: if_splits)
  qed
qed simp

theorem cli_help_keeps_url:
  assumes "parseCliArgs args env = Ok o1"
  shows "parseCliArgs (args @ [''-h'']) env = Ok (o1\<lparr>co_help := True\<rparr>)"
  using assms by (auto simp: parseCliArgs_def bind_res_Inr_iff cli_help_last)

end
