(* ===== verification/Source_Map_Uploader.thy ===== *)
theory Source_Map_Uploader
  imports Wire_Schemas Broker_Source_Maps
begin

text \<open>
  \<^verbatim>\<open>packages/sdk-node/src/source-map-uploader.ts\<close> and the part of \<^verbatim>\<open>live-probe.ts\<close> that schedules it: after its
  start an agent offers the source maps of its commit to the broker, unless another agent does or they are complete.
  Files are addressed by the segments of their absolute path; a directory is the list of its entries as it is read, and
  the contents of a file are what reading and parsing it gives.  The requests to the broker are functions of a world, and
  \<open>logged\<close> makes that world the list of requests.
\<close>

section \<open>Definitions\<close>

subsection \<open>Paths\<close>

definition posixPath :: "string \<Rightarrow> string" where
  "posixPath v =
     (let s = map (\<lambda>c. if c = CHR 0x5C then CHR ''/'' else c) v;
          t = (if prefix ''./'' s then drop 2 s else s) in
      rev (dropWhile slash (rev t)))"

text \<open>\<^verbatim>\<open>path.relative\<close> of two absolute paths\<close>

fun common_length :: "string list \<Rightarrow> string list \<Rightarrow> nat" where
  "common_length (a # as) (b # bs) = (if a = b then Suc (common_length as bs) else 0)"
| "common_length _ _ = 0"

definition relativePath :: "string list \<Rightarrow> string list \<Rightarrow> string" where
  "relativePath from_dir to_file =
     (let n = common_length from_dir to_file in
      js_join CHR ''/'' (replicate (length from_dir - n) ''..'' @ drop n to_file))"

definition segments :: "string \<Rightarrow> string list" where
  "segments s = filter (\<lambda>p. p \<noteq> []) (js_split CHR ''/'' s)"

fun overlap :: "string list \<Rightarrow> string list \<Rightarrow> nat \<Rightarrow> nat" where
  "overlap prefixParts localParts 0 = 0"
| "overlap prefixParts localParts (Suc n) =
     (if js_join CHR ''/'' (drop (length prefixParts - Suc n) prefixParts) = js_join CHR ''/'' (take (Suc n) localParts)
      then Suc n else overlap prefixParts localParts n)"

definition remotePrefix :: "string \<Rightarrow> string \<Rightarrow> string" where
  "remotePrefix appRoot distLocation = posixPath (posix_join appRoot distLocation)"

definition remoteSourceMapPath :: "string list \<Rightarrow> string list \<Rightarrow> string \<Rightarrow> string \<Rightarrow> string" where
  "remoteSourceMapPath file cwd appRoot distLocation =
     (let loc = posixPath (relativePath cwd file);
          pre = remotePrefix appRoot distLocation in
      if pre = [] then loc
      else let prefixParts = segments pre; localParts = segments loc;
               n = overlap prefixParts localParts (min (length prefixParts) (length localParts)) in
        js_join CHR ''/'' (prefixParts @ drop n localParts))"

subsection \<open>Finding the maps\<close>







subsection \<open>One synchronization\<close>



datatype sync_result = SyncComplete | SyncUploaded | SyncWaiting










subsection \<open>When to synchronize\<close>

text \<open>\<^verbatim>\<open>#syncSourceMaps\<close>: the next attempt and its delay after the outcome of one.\<close>

definition next_attempt :: "nat \<Rightarrow> (string, sync_result) res \<Rightarrow> (nat \<times> nat) option" where
  "next_attempt attempt r =
     (case r of
        Inr result \<Rightarrow> if result = SyncWaiting \<and> attempt < 10 then Some (attempt + 1, 20000) else None
      | Inl e \<Rightarrow> if attempt < 5 then Some (attempt + 1, 5000) else None)"

text \<open>\<^verbatim>\<open>#scheduleSourceMapSync\<close>: the attempts that run, each with the delay before it; \<open>stopped n\<close> says that the agent
  has been stopped when attempt \<open>n\<close> is due.\<close>

lemma next_attempt_bound: "next_attempt a r = Some (b, d) \<Longrightarrow> b = Suc a \<and> a < 10"
  by (auto simp: next_attempt_def split: sum.splits if_splits)

function sync_attempts :: "(nat \<Rightarrow> (string, sync_result) res) \<Rightarrow> (nat \<Rightarrow> bool) \<Rightarrow> nat \<Rightarrow> nat \<Rightarrow> (nat \<times> nat) list" where
  "sync_attempts results stopped attempt delayMs =
     (if stopped attempt then []
      else (attempt, delayMs) #
        (case next_attempt attempt (results attempt) of
           None \<Rightarrow> []
         | Some (n, d) \<Rightarrow> sync_attempts results stopped n d))"
  by pat_completeness auto
termination
  by (relation "measure (\<lambda>(results, stopped, attempt, d). 10 - attempt)") (auto dest: next_attempt_bound)

declare sync_attempts.simps [simp del]




section \<open>Lemmas\<close>

subsection \<open>Segments\<close>

lemma split_join:
  "ps \<noteq> [] \<Longrightarrow> \<forall>p \<in> set ps. d \<notin> set p \<Longrightarrow> js_split d (js_join d ps) = ps"
  by (induction d ps rule: js_join.induct) (auto simp: js_split_id js_split_append_sep)

lemma segments_join:
  "\<forall>p \<in> set ps. p \<noteq> [] \<and> CHR ''/'' \<notin> set p \<Longrightarrow> segments (js_join CHR ''/'' ps) = ps"
  by (cases "ps = []") (auto simp: segments_def split_join intro!: filter_True)

lemma segments_parts: "p \<in> set (segments s) \<Longrightarrow> p \<noteq> [] \<and> CHR ''/'' \<notin> set p"
  by (auto simp: segments_def dest: js_split_no_sep)

lemma join_inj:
  assumes "js_join CHR ''/'' as = js_join CHR ''/'' bs" "\<forall>p \<in> set as. p \<noteq> [] \<and> CHR ''/'' \<notin> set p" "\<forall>p \<in> set bs. p \<noteq> [] \<and> CHR ''/'' \<notin> set p"
  shows "as = bs"
  using assms segments_join by metis

lemma join_last_suffix: "ps \<noteq> [] \<Longrightarrow> suffix (last ps) (js_join d ps)"
  by (induction d ps rule: js_join.induct) (auto simp: suffix_def)

lemma join_chars: "c \<in> set (js_join d ps) \<Longrightarrow> c = d \<or> (\<exists>p \<in> set ps. c \<in> set p)"
  by (induction d ps rule: js_join.induct) auto

lemma join_has: "p \<in> set ps \<Longrightarrow> c \<in> set p \<Longrightarrow> c \<in> set (js_join d ps)"
  by (induction d ps rule: js_join.induct) auto

lemma posixPath_chars: "CHR 0x5C \<notin> set (posixPath s)"
proof -
  have "set (posixPath s) \<subseteq> set (map (\<lambda>c. if c = CHR 0x5C then CHR ''/'' else c) s)"
    unfolding posixPath_def Let_def by (auto dest!: set_dropWhileD in_set_dropD split: if_splits)
  then show ?thesis by (auto split: if_splits)
qed

lemma common_prefix: "common_length a (a @ b) = length a"
  by (induction a) auto

lemma relative_below: "relativePath cwd (cwd @ loc) = js_join CHR ''/'' loc"
  by (simp add: relativePath_def common_prefix)

lemma overlap_spec:
  assumes "\<forall>p \<in> set pp. p \<noteq> [] \<and> CHR ''/'' \<notin> set p" "\<forall>p \<in> set lp. p \<noteq> [] \<and> CHR ''/'' \<notin> set p" "n \<le> length pp" "n \<le> length lp"
  shows "overlap pp lp n \<le> n \<and> suffix (take (overlap pp lp n) lp) pp \<and>
    (\<forall>m \<le> n. suffix (take m lp) pp \<longrightarrow> m \<le> overlap pp lp n)"
  using assms(3,4)
proof (induction n)
  case (Suc n)
  have d: "suffix (take m lp) pp \<longleftrightarrow> drop (length pp - m) pp = take m lp" if "m \<le> length pp" "m \<le> length lp" for m
    using that by (auto simp: suffix_def) (metis append_take_drop_id)
  have e: "js_join CHR ''/'' (drop (length pp - Suc n) pp) = js_join CHR ''/'' (take (Suc n) lp) \<longleftrightarrow> drop (length pp - Suc n) pp = take (Suc n) lp"
    using join_inj [of "drop (length pp - Suc n) pp" "take (Suc n) lp"] assms(1,2) by (auto dest: in_set_dropD in_set_takeD)
  show ?case using Suc d [of "Suc n"] by (auto simp: e le_Suc_eq)
qed simp

subsection \<open>The remote path\<close>

lemma remote_below:
  assumes "\<forall>p \<in> set loc. p \<noteq> [] \<and> CHR ''/'' \<notin> set p \<and> CHR 0x5C \<notin> set p" "loc \<noteq> []" "hd loc \<noteq> ''.''"
  shows "posixPath (relativePath cwd (cwd @ loc)) = js_join CHR ''/'' loc"
proof -
  let ?s = "js_join CHR ''/'' loc"
  have b: "CHR 0x5C \<notin> set ?s" using assms(1) join_chars [of "CHR 0x5C" "CHR ''/''" loc] by auto
  then have m: "map (\<lambda>c. if c = CHR 0x5C then CHR ''/'' else c) ?s = ?s" by (intro map_idI) auto
  have p: "\<not> prefix ''./'' ?s"
  proof
    assume "prefix ''./'' ?s"
    then obtain t where "?s = ''.'' @ CHR ''/'' # t" by (auto elim: prefixE)
    then have "js_split CHR ''/'' ?s = ''.'' # js_split CHR ''/'' t" using js_split_append_sep [of "CHR ''/''" "''.''" t] by simp
    moreover have "js_split CHR ''/'' ?s = loc" using assms(1,2) by (intro split_join) auto
    ultimately show False using assms(3) by (cases loc) auto
  qed
  have "suffix (last loc) ?s" using join_last_suffix [OF assms(2)] .
  moreover have "last loc \<noteq> []" "CHR ''/'' \<notin> set (last loc)" using assms(1,2) by auto
  moreover from this have "last (last loc) \<noteq> CHR ''/''" using last_in_set by metis
  ultimately have "?s \<noteq> [] \<and> last ?s \<noteq> CHR ''/''" by (auto simp: suffix_def)
  then have "dropWhile slash (rev ?s) = rev ?s" by (cases "rev ?s") (auto simp: slash_def last_rev [symmetric])
  then show ?thesis by (simp add: posixPath_def relative_below m p Let_def)
qed

lemma remote_parts:
  assumes "\<forall>p \<in> set loc. p \<noteq> [] \<and> CHR ''/'' \<notin> set p \<and> CHR 0x5C \<notin> set p" "loc \<noteq> []" "hd loc \<noteq> ''.''"
  obtains n where "remoteSourceMapPath (cwd @ loc) cwd appRoot distDir = js_join CHR ''/'' (segments (remotePrefix appRoot distDir) @ drop n loc)"
    "n \<le> length loc" "suffix (take n loc) (segments (remotePrefix appRoot distDir))"
    "\<forall>m \<le> length loc. suffix (take m loc) (segments (remotePrefix appRoot distDir)) \<longrightarrow> m \<le> n"
proof -
  let ?pp = "segments (remotePrefix appRoot distDir)"
  let ?n = "overlap ?pp loc (min (length ?pp) (length loc))"
  have l: "segments (js_join CHR ''/'' loc) = loc" using assms(1) by (intro segments_join) auto
  have e: "remotePrefix appRoot distDir = [] \<Longrightarrow> ?pp = []" by (simp add: segments_def)
  have r: "remoteSourceMapPath (cwd @ loc) cwd appRoot distDir = js_join CHR ''/'' (?pp @ drop ?n loc)"
    using e by (auto simp: remoteSourceMapPath_def remote_below [OF assms] l Let_def)
  have o: "?n \<le> min (length ?pp) (length loc) \<and> suffix (take ?n loc) ?pp \<and>
      (\<forall>m \<le> min (length ?pp) (length loc). suffix (take m loc) ?pp \<longrightarrow> m \<le> ?n)"
    using segments_parts assms(1) by (intro overlap_spec) auto
  have "m \<le> ?n" if "m \<le> length loc" "suffix (take m loc) ?pp" for m
    using o that suffix_length_le [OF that(2)] by auto
  with o r show ?thesis by (intro that [of ?n]) auto
qed

subsection \<open>The requests of a synchronization\<close>




lemma attempts_bounded:
  "a \<le> 10 \<Longrightarrow> length (sync_attempts results stopped a d) + a \<le> 11 \<and>
     sum_list (map snd (sync_attempts results stopped a d)) \<le> d + 20000 * (10 - a)"
proof (induction results stopped a d rule: sync_attempts.induct)
  case (1 results stopped a d)
  show ?case
  proof (cases "stopped a")
    case False
    show ?thesis
    proof (cases "next_attempt a (results a)")
      case (Some p)
      obtain n k where p: "p = (n, k)" by fastforce
      have n: "n = Suc a" "a < 10" using next_attempt_bound [OF Some [unfolded p]] by simp_all
      have k: "k \<le> 20000" using Some p by (auto simp: next_attempt_def split: sum.splits if_splits)
      from 1(1) [OF False Some p [symmetric]] n have ih: "length (sync_attempts results stopped n k) + n \<le> 11 \<and>
        sum_list (map snd (sync_attempts results stopped n k)) \<le> k + 20000 * (10 - n)" by simp
      have "sync_attempts results stopped a d = (a, d) # sync_attempts results stopped n k"
        by (subst sync_attempts.simps) (simp add: False Some p)
      then show ?thesis using ih n k by auto
    next
      case None
      have "sync_attempts results stopped a d = [(a, d)]" by (subst sync_attempts.simps) (simp add: False None)
      then show ?thesis using 1(2) by simp
    qed
  next
    case True
    have "sync_attempts results stopped a d = []" by (subst sync_attempts.simps) (simp add: True)
    then show ?thesis using 1(2) by simp
  qed
qed

section \<open>Properties\<close>

text \<open>The broker accepts the path under which a map below the working directory is offered: it is the configured place
  of the application followed by the path of the file without the longest part that repeats the end of that place, and the
  broker's schema takes it as it is, as long as that place does not climb out with \<^verbatim>\<open>..\<close>, the path has no blanks at its
  ends and is at most 4096 characters long.\<close>

theorem uploaded_path_accepted:
  assumes "\<forall>p \<in> set loc. p \<noteq> [] \<and> CHR ''/'' \<notin> set p \<and> CHR 0x5C \<notin> set p \<and> p \<noteq> ''.'' \<and> p \<noteq> ''..''"
    and "loc \<noteq> []" "suffix ''.js.map'' (last loc)" "''..'' \<notin> set (segments (remotePrefix appRoot distDir))"
    and "path = remoteSourceMapPath (cwd @ loc) cwd appRoot distDir" "js_trim path = path" "length path \<le> 4096"
  shows "sourceMapPath_parse path = Some path \<and>
    (\<exists>n. path = js_join CHR ''/'' (segments (remotePrefix appRoot distDir) @ drop n loc) \<and>
       suffix (take n loc) (segments (remotePrefix appRoot distDir)) \<and>
       (\<forall>m \<le> length loc. suffix (take m loc) (segments (remotePrefix appRoot distDir)) \<longrightarrow> m \<le> n))"
proof -
  let ?pp = "segments (remotePrefix appRoot distDir)"
  have ok: "\<forall>p \<in> set loc. p \<noteq> [] \<and> CHR ''/'' \<notin> set p \<and> CHR 0x5C \<notin> set p" using assms(1) by blast
  have hd: "hd loc \<noteq> ''.''" using assms(1,2) by (cases loc) auto
  obtain n where n: "path = js_join CHR ''/'' (?pp @ drop n loc)" "n \<le> length loc" "suffix (take n loc) ?pp"
      "\<forall>m \<le> length loc. suffix (take m loc) ?pp \<longrightarrow> m \<le> n"
    using remote_parts [OF ok assms(2) hd, of cwd appRoot distDir] assms(5) by metis
  let ?ps = "?pp @ drop n loc"
  have parts: "\<forall>p \<in> set ?ps. p \<noteq> [] \<and> CHR ''/'' \<notin> set p" using segments_parts assms(1) by (auto dest: in_set_dropD)
  have ps: "?ps \<noteq> [] \<and> last ?ps = last loc"
  proof (cases "n = length loc")
    case True
    then show ?thesis using n(3) assms(2) by (auto simp: suffix_def)
  qed (use n(2) assms(2) in auto)
  have split: "js_split CHR ''/'' path = ?ps" using ps parts n(1) by (simp add: split_join)
  have s: "suffix ''.js.map'' path" using join_last_suffix [of ?ps] ps assms(3) n(1) by (metis suffix_order.trans)
  then have "path \<noteq> []" by auto
  moreover have "\<not> prefix ''/'' path"
  proof
    assume "prefix ''/'' path"
    then have "[] \<in> set (js_split CHR ''/'' path)" by (auto elim!: prefixE)
    with parts split show False by auto
  qed
  moreover have "CHR 0x5C \<notin> set path"
  proof
    assume "CHR 0x5C \<in> set path"
    then obtain p where p: "p \<in> set ?ps" "CHR 0x5C \<in> set p" using join_chars [of "CHR 0x5C" "CHR ''/''" ?ps] n(1) by auto
    have "p \<in> set ?pp" using p assms(1) by (auto dest: in_set_dropD)
    then have "CHR 0x5C \<in> set (js_join CHR ''/'' (js_split CHR ''/'' (remotePrefix appRoot distDir)))"
      using p(2) by (auto simp: segments_def join_has)
    then show False using posixPath_chars by (simp add: js_join_split remotePrefix_def)
  qed
  moreover have "''..'' \<notin> set (js_split CHR ''/'' path)" using split assms(1,4) by (auto dest: in_set_dropD)
  ultimately show ?thesis using s assms(6,7) n(1,3,4)
    by (auto simp: sourceMapPath_parse_def Let_def len_between_def Suc_le_eq)
qed

theorem uploaded_path_accepted_witness:
  "remoteSourceMapPath [''app'', ''dist'', ''a.js.map''] [''app''] ''srv'' ''dist'' = ''srv/dist/a.js.map'' \<and>
   sourceMapPath_parse ''srv/dist/a.js.map'' = Some ''srv/dist/a.js.map''"
proof -
  have r: "remoteSourceMapPath [''app'', ''dist'', ''a.js.map''] [''app''] ''srv'' ''dist'' = ''srv/dist/a.js.map''" by code_simp
  moreover have "''..'' \<notin> set (segments (remotePrefix ''srv'' ''dist''))" "js_trim ''srv/dist/a.js.map'' = ''srv/dist/a.js.map''" by code_simp+
  ultimately show ?thesis
    using uploaded_path_accepted [of "[''dist'', ''a.js.map'']" "''srv''" "''dist''" "''srv/dist/a.js.map''" "[''app'']"]
    by (simp add: suffix_def)
qed



text \<open>An agent gives up after ten attempts, within three minutes of waiting, whatever the broker answers.\<close>

theorem sync_gives_up:
  "length (sync_attempts results stopped 1 0) \<le> 10 \<and> sum_list (map snd (sync_attempts results stopped 1 0)) \<le> 180000"
  using attempts_bounded [of 1 results stopped 0] by simp

end
