(* ===== verification/Spec2Isabelle.thy ===== *)
theory Spec2Isabelle
  imports Catalog_Security Broker_Server Broker_Contracts Source_Map_Contracts Broker_Snapshot Broker_Auth Probe_Id Serializer Safe_Values Agent_Buffers Rate_Limiter Ingest_Isolation Safety_Monitor Agent_Shutdown Agent_Polling Capture Mcp_Tools Source_Map_Uploader
begin

text \<open>
  LiveProbe: a verification library.

  LiveProbe sets logpoints, snapshots, counters and metrics in running programs.  A \<^emph>\<open>broker\<close> (an HTTP
  server, \<^verbatim>\<open>packages/broker\<close>) stores the probes that people ask for; an \<^emph>\<open>agent\<close> inside each program
  (\<^verbatim>\<open>packages/sdk-node\<close>) polls the broker for the probes of its service, sets breakpoints for them through the
  V8 inspector, and sends back the events they produce; both speak the schemas of \<^verbatim>\<open>packages/protocol\<close>.
  This library models the broker, the Node agent and the tool server (\<^verbatim>\<open>packages/mcp-server\<close>).  File names below are relative to \<^verbatim>\<open>src/packages\<close>.

  \<^bold>\<open>Conventions.\<close>  A JavaScript \<^verbatim>\<open>throw\<close> is the left summand \<open>Fail\<close> of a sum, a normal return \<open>Ok\<close>;
  a \<^verbatim>\<open>Map\<close> is an association list in insertion order (\<open>jget\<close>, \<open>jset\<close>, \<open>jdel\<close>), since the code
  iterates over maps and the order is observable; a \<^verbatim>\<open>number\<close> that is computed with is an IEEE double of
  \<open>JS_Number\<close>, one that the schemas keep an integer is an \<open>int\<close>; clocks, random bytes, hashes, the parser
  jsep, TraceMap, localeCompare, the file system and the network are arguments.  Loops that the source bounds by data are
  structural or have a termination proof; the fuel of \<open>ingestIsolating\<close>, of the expression validator and of the
  serializer is the budget that the code itself keeps, and the theorems show that it is enough.

  \<^bold>\<open>Shared.\<close>  \<open>LP_Prelude\<close>: results, ordered maps, sets and trimming, and the collections of simp rules.
  \<open>JS_Number\<close>: doubles with rounding.  \<open>Protocol\<close> and \<open>Wire_Schemas\<close>: \<^verbatim>\<open>protocol/src/index.ts\<close> and the
  request schemas of the broker as parsers into \<open>option\<close>, under a locale that says that a schema is idempotent.

  \<^bold>\<open>Broker\<close> (\<^verbatim>\<open>broker/src\<close>).
  \<^item> \<open>Expression_Compiler\<close> (\<^verbatim>\<open>expression.ts\<close>): from text to the safe expression language, with its limits.
  \<^item> \<open>Source_Map_Resolver\<close> (\<^verbatim>\<open>source-map-resolver.ts\<close>): from a source position to the generated one.
  \<^item> \<open>Broker_Types\<close>, \<open>Broker_Probes\<close>, \<open>Broker_Source_Maps\<close>, \<open>Broker_Native\<close>: the class \<^verbatim>\<open>BrokerState\<close>
    of \<^verbatim>\<open>index.ts\<close> as one record and one function per method.  \<open>Broker_Invariant\<close> and \<open>Broker_System\<close> make it
    a transition system \<open>broker_step\<close> with one step per public method and prove the invariant over all
    reachable states; \<open>Broker_Tenants\<close> shows that a step of one tenant leaves the others alone;
    \<open>Broker_Contracts\<close> and \<open>Source_Map_Contracts\<close> hold what single calls promise; \<open>Broker_Sample\<close> is the
    concrete run the witnesses use.
  \<^item> \<open>Broker_Snapshot\<close>: the snapshot, its schema, loading and the rollback of \<^verbatim>\<open>mutateDurably\<close>.  A rollback is
    not a step of \<open>broker_step\<close>: it may take a version back, as \<open>rollback_reuses_version\<close> shows.
  \<^item> \<open>Broker_Auth\<close> (\<^verbatim>\<open>auth.ts\<close>, \<^verbatim>\<open>clerk-auth.ts\<close> and the hook of \<^verbatim>\<open>index.ts\<close>): who is calling and for which
    tenant.  \<open>Broker_Routes\<close> and \<open>Broker_Server\<close>: the routes with guards, audit and error answers, the timers
    and waiting requests, as a transition system that refines \<open>broker_step\<close> (locale \<open>simulation\<close>).
  \<^item> \<open>Postgres_Catalog\<close>, \<open>Catalog_Routes\<close>, \<open>Catalog_Security\<close> (\<^verbatim>\<open>store/postgres.ts\<close> and the administration
    routes): tables with their keys, one definition per statement, and the laws that every request keeps (locale
    \<open>catalog_law\<close>, interpreted three times).
  \<^item> \<open>Probe_Id\<close>: the generator of probe identifiers.

  \<^bold>\<open>Agent\<close> (\<^verbatim>\<open>sdk-node/src\<close>).
  \<^item> \<open>Safe_Expression\<close>, \<open>Safe_Values\<close>, \<open>JS_Value\<close>, \<open>Serializer\<close>: captured values as a heap with sharing
    and cycles, the evaluation of expressions and templates on them and their bounded, redacted serialization.
  \<^item> \<open>Agent_Buffers\<close>, \<open>Rate_Limiter\<close>, \<open>Ingest_Isolation\<close>, \<open>Safety_Monitor\<close>: one theory per file.
  \<^item> \<open>Script_Registry\<close>, \<open>Probe_Manager\<close>: \<^verbatim>\<open>probe-manager.ts\<close> as a step relation.  Every \<^verbatim>\<open>await\<close> on the
    inspector is a pending task with its continuation; the inspector may answer in any order and may fail, so a run is any
    interleaving of calls, answers and pauses.  \<open>Agent_Invariant\<close> proves the invariant over all runs,
    \<open>Agent_Shutdown\<close> that a stopped manager drains.
  \<^item> \<open>Capture\<close> (\<^verbatim>\<open>capture.ts\<close>): reading the variables of a paused program from an inspector that may answer
    anything, within an object budget.
  \<^item> \<open>Broker_Client\<close> (\<^verbatim>\<open>broker-client.ts\<close>): what the agent accepts of a poll answer, against the encoding of
    what a reachable broker sends.  \<open>Agent_Runtime\<close> and \<open>Agent_Polling\<close> (\<^verbatim>\<open>live-probe.ts\<close>): configuration, the
    flush of events as a step relation, and the poll loop composed with the transition system of the broker.
  \<^item> \<open>Source_Map_Uploader\<close> (\<^verbatim>\<open>source-map-uploader.ts\<close>): finding the maps of an application, their remote path, one
    synchronization with the broker and its retries.

  \<^bold>\<open>Tools.\<close>  \<open>Broker_Safety\<close> is the safety overview of the broker with its route.  \<open>Mcp_Tools\<close>
  (\<^verbatim>\<open>mcp-server/src\<close>): the schemas of the tools an assistant calls, the request each sends, the client with its errors
  and the tools that set a probe, composed with the server through the locale \<open>probe_service\<close>.
  \<^bold>\<open>Not modelled.\<close>
  The agents in Python, Java and native code, which speak the same protocol, and the documentation site, the demo and the
  scripts are outside the scope of this library.  Of the broker: OAuth discovery and the proxy routes of the tool protocol,
  limits on bodies, reading the configuration and starting the process, reading and writing the snapshot file, persisting
  and restoring the state in Postgres and the migration of older schemas (the store is a parameter that may fail at every
  call), and the development agent \<^verbatim>\<open>fake-agent.ts\<close>.  Of the Node agent: \<^verbatim>\<open>inspector-client.ts\<close>, a thin wrapper
  around Node's inspector session, URLs, \<^verbatim>\<open>fetch\<close> with its timeouts, and what it prints.  Of the tool server: the schemas
  of catalog answers, the tool protocol and the wording of the tools.  A file tree is read as one list: a subdirectory
  that fails while the maps are looked for is not modelled.  Time is read once per operation where the code reads the
  clock several times within one synchronous call.
\<close>

section \<open>Properties of the broker\<close>

text \<open>C1: Every state the broker can reach keeps its invariant: probes, services, versions and source maps are stored under
  their own keys; rings and statuses belong to probes, and no ring is longer than its capacity or holds an event of another
  probe; who waits for a probe waits once and for an empty ring; no probe is newer than its service's version; a completed
  set of maps has no upload lease; and native instances are stored under keys of their scope.\<close>

theorem broker_invariant:
  assumes "reachable env st"
  shows "broker_inv st \<and> native_ok st"
  using inv_reachable [OF assms] native_ok_reachable [OF assms] by simp

theorem broker_invariant_witness: "broker_inv sample_broker \<and> native_ok sample_broker"
  using broker_invariant [OF sample_reachable] .



text \<open>C3: An operation that runs with the credentials of one scope leaves every other scope alone: its probes, rings, statuses,
  services, source maps and versions are those of before, or those that the expiry sweep leaves, which any request may run.\<close>

theorem tenant_isolation:
  assumes "reachable env st" "scope \<noteq> other" "op_commit_ok op"
  shows "same_tenant other st (run_op env now scope op st) \<or> same_tenant other (sweep now st) (run_op env now scope op st)"
  using tenant_run_op [OF assms(2) inv_reachable [OF assms(1)] native_ok_reachable [OF assms(1)] assms(3)] .

theorem tenant_isolation_witness:
  "ring (run_op sample_env 2000 other_scope (OpDelete sample_id) sample_broker) sample_id = [] \<and>
   live_probes (run_op sample_env 2000 other_scope (OpDelete sample_id) sample_broker) DEFAULT_RESOURCE_SCOPE ''pay'' = [sample_probe]"
proof -
  have "other_scope \<noteq> DEFAULT_RESOURCE_SCOPE" by (simp add: other_scope_def DEFAULT_RESOURCE_SCOPE_def)
  from tenant_isolation [OF sample_reachable this, of "OpDelete sample_id" 2000]
  have t: "same_tenant DEFAULT_RESOURCE_SCOPE sample_broker (run_op sample_env 2000 other_scope (OpDelete sample_id) sample_broker)"
    by (simp add: sample_no_due)
  have m: "mine sample_broker DEFAULT_RESOURCE_SCOPE sample_id"
    by (simp add: mine_def visible_probe_def sample_broker_def sample_stored_def)
  have lp: "live_probes st s sid = map (sp_probe \<circ> snd) (filter (\<lambda>p. pd_serviceId (sp_probe (snd p)) = sid \<and> \<not> sp_expired (snd p))
      (filter (\<lambda>p. sp_scope (snd p) = s) (probes st)))" for st s sid
    by (simp add: live_probes_def filter_map o_def conj_commute conj_left_commute)
  have "live_probes (run_op sample_env 2000 other_scope (OpDelete sample_id) sample_broker) DEFAULT_RESOURCE_SCOPE ''pay'' =
      live_probes sample_broker DEFAULT_RESOURCE_SCOPE ''pay''"
    using t by (simp only: lp same_tenant_def)
  then show ?thesis using t m by (simp add: same_tenant_def sample_live sample_ring [symmetric])
qed

text \<open>C4: No wakeup is lost: while somebody waits for a probe its ring is empty, so there is nothing the waiter should
  have been given, and the next event of the probe resolves every waiter and leaves none behind.\<close>

theorem no_lost_wakeup:
  assumes "reachable env st" "l \<in> set (waiting st p)"
  shows "ring st p = [] \<and>
    (ev_probeId e = p \<longrightarrow> waiting (appendEvent e st) p = [] \<and>
       resolved (appendEvent e st) = resolved st @ map (\<lambda>k. (k, Activity)) (waiting st p))"
proof -
  note lo = broker_invD(4) [OF inv_reachable [OF assms(1)], unfolded listeners_ok_def, rule_format, of p]
  have "resolved (appendEvent e st) = resolved st @ map (\<lambda>k. (k, Activity)) (waiting st p)" if "ev_probeId e = p"
    using resolved_signalActivity [of "st\<lparr>events := jset (ev_probeId e) (ring_push (ringCapacity st) (ring st (ev_probeId e)) e) (events st)\<rparr>" p] lo that
    by (simp add: appendEvent_def waiting_def)
  with lo assms(2) show ?thesis by (cases "waiting st p") auto
qed

theorem no_lost_wakeup_witness:
  "waiting (appendEvent (expired_event 9 sample_id) (waitForEvents sample_id 100 False 7 sample_broker)) sample_id = []"
proof -
  let ?st = "waitForEvents sample_id 100 False 7 sample_broker"
  have w0: "waiting sample_broker q = []" for q by (simp add: waiting_def sample_broker_def empty_broker_def)
  have r: "reachable sample_env ?st"
    by (rule reachable_step [OF sample_reachable step_wait]) (simp add: w0)
  have "waiting ?st sample_id = [7]"
    by (simp add: waitForEvents_def registerActivityListener_def Let_def w0 ring_def) (simp add: waiting_def sample_broker_def)
  then have "7 \<in> set (waiting ?st sample_id)" by simp
  from no_lost_wakeup [OF r this, of "expired_event 9 sample_id"] show ?thesis by (simp add: expired_event_def)
qed

text \<open>C5: The expiry sweep is exact: it marks the probes that are due and no other, each with one event in its ring, one
  status and one step of its service's version; it reports their number; and running it again changes nothing.\<close>

theorem sweep_exact:
  assumes "reachable env st"
  shows "probes (sweep now st) = map (\<lambda>(k, s). (k, expire_stored now s)) (probes st) \<and>
    snd (expireDueProbes now st) = length (filter (due_at now st) (jkeys (probes st))) \<and>
    (\<forall>p. ring (sweep now st) p = (if due_at now st p then newest (ringCapacity st) (ring st p @ [expired_event now p]) else ring st p) \<and>
       jget (statuses (sweep now st)) p =
         (if due_at now st p then Some (expired_status now (armed_at st p)) else jget (statuses st) p)) \<and>
    (\<forall>s sid. service_version (sweep now st) s sid = service_version st s sid +
       int (length (filter (\<lambda>k. due_at now st k \<and> owns st s sid k) (jkeys (probes st))))) \<and>
    expireDueProbes now (sweep now st) = (sweep now st, 0)"
proof -
  note i = broker_invD [OF inv_reachable [OF assms]]
  have "ring_push (ringCapacity st) (ring st p) e = newest (ringCapacity st) (ring st p @ [e])" for p e
    by (simp add: ring_push_def newest_def Let_def)
  then show ?thesis
    using sweep_probes [OF i(1)] sweep_ring [OF i(1)] sweep_statuses [OF i(1)] sweep_version [OF i(1)] sweep_count [OF i(1)]
      sweep_idem [OF i(1) order_refl] by (simp del: o_apply)
qed

theorem sweep_exact_witness:
  "ring (sweep 61000 sample_broker) sample_id = [expired_event 61000 sample_id] \<and> snd (expireDueProbes 61000 sample_broker) = 1"
proof -
  have d: "due_at 61000 sample_broker sample_id"
    by (simp add: due_at_def due_def sample_broker_def sample_stored_def)
  have k: "jkeys (probes sample_broker) = [sample_id]" by (simp add: sample_broker_def)
  have c: "ringCapacity sample_broker = 2" by (simp add: sample_broker_def empty_broker_def)
  from sweep_exact [OF sample_reachable, of 61000] d k c sample_ring show ?thesis
    by (simp add: newest_def)
qed

end
